(* ===== verification/ZT_Prelude.thy ===== *)
theory ZT_Prelude
  imports Main "HOL-Library.Word" "HOL-Library.Monad_Syntax"
begin

unbundle bit_operations_syntax

text \<open>
  Shared ground of the development: the machine integer types of the C sources, the
  little-endian byte image of an integer (what a \<^verbatim>\<open>memcpy\<close> of a \<^verbatim>\<open>uint64_t\<close>
  produces on both supported ISAs), writing a byte run into a fixed buffer, and the
  collections of rewrite rules the component theories extend.

  A C array of fixed length is a list of that length; a pointer argument that the callers
  never pass as \<^verbatim>\<open>NULL\<close> is passed as the value it points to, and an out-parameter is a
  component of the result, so the sources' \<^verbatim>\<open>NULL\<close> guards on those have no counterpart.
  Where a caller does pass \<^verbatim>\<open>NULL\<close> the argument is an option.
\<close>

section \<open>Machine types\<close>

type_synonym u8 = "8 word"
type_synonym u32 = "32 word"
type_synonym u64 = "64 word"

named_theorems zt_defs \<open>definitions of the small helpers of the sources, for unfolding\<close>
named_theorems zt_len \<open>lengths of buffers and tables that operations keep\<close>
named_theorems zt_frame \<open>components an operation leaves unchanged\<close>

section \<open>Little-endian images\<close>

fun le_bytes :: "nat \<Rightarrow> 'a::len word \<Rightarrow> u8 list" where
  "le_bytes 0 w = []"
| "le_bytes (Suc n) w = ucast w # le_bytes n (drop_bit 8 w)"

fun le_word :: "u8 list \<Rightarrow> 'a::len word" where
  "le_word [] = 0"
| "le_word (b # bs) = ucast b OR push_bit 8 (le_word bs)"

abbreviation le64 :: "u64 \<Rightarrow> u8 list" where
  "le64 \<equiv> le_bytes 8"

abbreviation le32 :: "u32 \<Rightarrow> u8 list" where
  "le32 \<equiv> le_bytes 4"

lemma length_le_bytes [simp, zt_len]: "length (le_bytes n w) = n"
  by (induction n arbitrary: w) simp_all

lemma le_bytes_neq_Nil [simp]: "le_bytes n w = [] \<longleftrightarrow> n = 0"
  by (cases n) simp_all

lemma bit_le_word:
  "bit (le_word bs :: 'a::len word) k \<longleftrightarrow>
     k < LENGTH('a) \<and> k div 8 < length bs \<and> bit (bs ! (k div 8)) (k mod 8)"
proof (induction bs arbitrary: k)
  case Nil
  show ?case by simp
next
  case (Cons b bs)
  show ?case
  proof (cases "k < 8")
    case True
    then show ?thesis
      by (auto simp: bit_or_iff bit_push_bit_iff bit_ucast_iff dest: bit_imp_le_length)
  next
    case False
    then have "k = (k - 8) + 8" by simp
    then have k: "k div 8 = Suc ((k - 8) div 8)" "k mod 8 = (k - 8) mod 8"
      by (metis div_add_self2 numeral_eq_Suc Suc_eq_plus1 add_Suc_right zero_neq_numeral,
          metis mod_add_self2)
    have "\<not> bit b k"
      using False bit_imp_le_length [of b k] by auto
    with False k Cons.IH [of "k - 8"] show ?thesis
      by (auto simp: bit_or_iff bit_push_bit_iff bit_ucast_iff)
  qed
qed

lemma nth_le_bytes:
  "i < n \<Longrightarrow> le_bytes n w ! i = ucast (drop_bit (8 * i) w)"
proof (induction n arbitrary: w i)
  case 0
  then show ?case by simp
next
  case (Suc n)
  show ?case
  proof (cases i)
    case 0
    then show ?thesis by simp
  next
    case (Suc j)
    with Suc.prems Suc.IH [of j "drop_bit 8 w"] show ?thesis
      by (simp add: drop_bit_drop_bit add.commute)
  qed
qed

lemma le_word_le_bytes:
  assumes "LENGTH('a) \<le> 8 * n"
  shows "le_word (le_bytes n (w :: 'a::len word)) = w"
proof (rule bit_word_eqI)
  fix k
  assume k: "k < LENGTH('a)"
  with assms have "k div 8 < n" by (simp add: less_mult_imp_div_less mult.commute)
  with k show "bit (le_word (le_bytes n w) :: 'a word) k = bit w k"
    by (simp add: bit_le_word nth_le_bytes bit_ucast_iff bit_drop_bit_eq)
qed

lemma le_word_le64 [simp]: "le_word (le64 w) = w"
  by (rule le_word_le_bytes) simp

lemma le_word_le32 [simp]: "le_word (le32 w) = w"
  by (rule le_word_le_bytes) simp

lemma le_bytes_inject:
  assumes "LENGTH('a) \<le> 8 * n" and "le_bytes n v = le_bytes n (w :: 'a::len word)"
  shows "v = w"
  using assms le_word_le_bytes by metis

section \<open>Writing a run of bytes into a buffer\<close>

text \<open>\<^verbatim>\<open>memcpy(buf + off, bs, len)\<close> on a buffer that has room for it.\<close>

definition buf_put :: "'a list \<Rightarrow> nat \<Rightarrow> 'a list \<Rightarrow> 'a list" where
  "buf_put buf off bs = take off buf @ bs @ drop (off + length bs) buf"

text \<open>The \<^verbatim>\<open>len\<close> bytes at offset \<^verbatim>\<open>off\<close>.\<close>

definition buf_get :: "'a list \<Rightarrow> nat \<Rightarrow> nat \<Rightarrow> 'a list" where
  "buf_get buf off len = take len (drop off buf)"

lemma length_buf_put [simp, zt_len]:
  "off + length bs \<le> length buf \<Longrightarrow> length (buf_put buf off bs) = length buf"
  by (simp add: buf_put_def)

lemma nth_buf_put:
  assumes "off + length bs \<le> length buf" and "i < length buf"
  shows "buf_put buf off bs ! i =
    (if off \<le> i \<and> i < off + length bs then bs ! (i - off) else buf ! i)"
  using assms by (auto simp: buf_put_def nth_append min_def)

lemma buf_get_put_same:
  "off + length bs \<le> length buf \<Longrightarrow> buf_get (buf_put buf off bs) off (length bs) = bs"
  by (simp add: buf_get_def buf_put_def)

lemma length_buf_get [simp]: "length (buf_get buf off len) = min len (length buf - off)"
  by (simp add: buf_get_def)

lemma nth_buf_get:
  "i < len \<Longrightarrow> off + len \<le> length buf \<Longrightarrow> buf_get buf off len ! i = buf ! (off + i)"
  by (simp add: buf_get_def)

lemma buf_get_put_disjoint:
  assumes "off + length bs \<le> length buf" and "o2 + len \<le> length buf"
    and "o2 + len \<le> off \<or> off + length bs \<le> o2"
  shows "buf_get (buf_put buf off bs) o2 len = buf_get buf o2 len"
  using assms by (intro nth_equalityI) (auto simp: nth_buf_get nth_buf_put)

lemma buf_put_Nil [simp]: "buf_put buf off [] = buf"
  by (simp add: buf_put_def)

lemma take_buf_put:
  "off + length bs \<le> length buf \<Longrightarrow>
   take (off + length bs) (buf_put buf off bs) = take off buf @ bs"
  by (simp add: buf_put_def)

section \<open>Searching a table\<close>

text \<open>
  The sources look a table up with a counting loop that returns the first index whose entry
  satisfies a test. \<open>find_index\<close> is that loop.
\<close>

fun find_index :: "('a \<Rightarrow> bool) \<Rightarrow> 'a list \<Rightarrow> nat option" where
  "find_index P [] = None"
| "find_index P (x # xs) = (if P x then Some 0 else map_option Suc (find_index P xs))"

lemma find_index_Some_iff:
  "find_index P xs = Some i \<longleftrightarrow> i < length xs \<and> P (xs ! i) \<and> (\<forall>j < i. \<not> P (xs ! j))"
proof (induction xs arbitrary: i)
  case Nil
  show ?case by simp
next
  case (Cons x xs)
  show ?case
    by (cases i) (auto simp: Cons.IH nth_Cons less_Suc_eq_0_disj split: nat.splits)
qed

lemma find_index_None_iff: "find_index P xs = None \<longleftrightarrow> (\<forall>x \<in> set xs. \<not> P x)"
  by (induction xs) auto

lemma find_index_SomeD:
  assumes "find_index P xs = Some i"
  shows "i < length xs" and "P (xs ! i)"
  using assms by (simp_all add: find_index_Some_iff)

end
