(* ===== verification/ZT_CString.thy ===== *)
theory ZT_CString
  imports ZT_Prelude
begin

text \<open>
  The part of the C standard library that the sources use on strings: character classes of
  the C locale, \<^verbatim>\<open>strtoul\<close>, \<^verbatim>\<open>strtoull\<close> and \<^verbatim>\<open>strtol\<close> with saturation and the
  end pointer, \<^verbatim>\<open>strncmp\<close> against a prefix, \<^verbatim>\<open>strtok\<close>, and the integer conversions
  of \<^verbatim>\<open>printf\<close>. A C string is the list of its characters before the terminating zero; a
  cursor into it is the remaining suffix, so \<^verbatim>\<open>*p == 0\<close> reads as an empty suffix.
\<close>

section \<open>Character classes\<close>

definition isspace :: "char \<Rightarrow> bool" where
  "isspace c = (let n = (of_char c :: nat) in n = 32 \<or> 9 \<le> n \<and> n \<le> 13)"

definition isdigit :: "char \<Rightarrow> bool" where
  "isdigit c = (let n = (of_char c :: nat) in 48 \<le> n \<and> n \<le> 57)"

definition isalpha :: "char \<Rightarrow> bool" where
  "isalpha c = (let n = (of_char c :: nat) in 65 \<le> n \<and> n \<le> 90 \<or> 97 \<le> n \<and> n \<le> 122)"

definition isalnum :: "char \<Rightarrow> bool" where
  "isalnum c = (isalpha c \<or> isdigit c)"

definition isprint :: "char \<Rightarrow> bool" where
  "isprint c = (let n = (of_char c :: nat) in 32 \<le> n \<and> n \<le> 126)"

lemma isspace_not_isdigit: "isspace c \<Longrightarrow> \<not> isdigit c"
  by (auto simp: isspace_def isdigit_def Let_def)

section \<open>String to integer\<close>

text \<open>The value of a digit character; 36 stands for a character that is no digit in any base.\<close>

definition digit_val :: "char \<Rightarrow> nat" where
  "digit_val c = (let n = (of_char c :: nat) in
     if 48 \<le> n \<and> n \<le> 57 then n - 48
     else if 97 \<le> n \<and> n \<le> 122 then n - 87
     else if 65 \<le> n \<and> n \<le> 90 then n - 55
     else 36)"

definition digits_val :: "nat \<Rightarrow> string \<Rightarrow> int" where
  "digits_val b ds = foldl (\<lambda>acc c. acc * int b + int (digit_val c)) 0 ds"

text \<open>Sign and base prefix, as \<^verbatim>\<open>strtoul\<close> consumes them for base 10 and base 0.\<close>

fun strip_sign :: "string \<Rightarrow> bool \<times> string" where
  "strip_sign (c # s) =
     (if c = CHR ''-'' then (True, s) else if c = CHR ''+'' then (False, s) else (False, c # s))"
| "strip_sign [] = (False, [])"

definition strip_base :: "nat \<Rightarrow> string \<Rightarrow> nat \<times> string" where
  "strip_base base s =
     (if base \<noteq> 0 then (base, s)
      else case s of
        c # x # h # s' \<Rightarrow>
          if c = CHR ''0'' \<and> (x = CHR ''x'' \<or> x = CHR ''X'') \<and> digit_val h < 16 then (16, h # s')
          else if c = CHR ''0'' then (8, s) else (10, s)
      | c # s' \<Rightarrow> (if c = CHR ''0'' then (8, s) else (10, s))
      | [] \<Rightarrow> (10, s))"

text \<open>
  \<^verbatim>\<open>strtoull(s, &end, base)\<close> (and \<^verbatim>\<open>strtoul\<close>, which has the same width on the
  supported ABIs): the value, the string at \<^verbatim>\<open>end\<close>, and whether \<^verbatim>\<open>errno\<close> became
  \<^verbatim>\<open>ERANGE\<close>. With no digits \<^verbatim>\<open>end\<close> is the start of the input.
\<close>

definition strtoull :: "nat \<Rightarrow> string \<Rightarrow> u64 \<times> string \<times> bool" where
  "strtoull base s =
     (let (neg, s1) = strip_sign (dropWhile isspace s);
          (b, s2) = strip_base base s1;
          ds = takeWhile (\<lambda>c. digit_val c < b) s2;
          rest = dropWhile (\<lambda>c. digit_val c < b) s2;
          v = digits_val b ds
      in if ds = [] then (0, s, False)
         else if 2 ^ 64 \<le> v then (- 1, rest, True)
         else (if neg then - of_int v else of_int v, rest, False))"

text \<open>\<^verbatim>\<open>strtol(s, &end, 10)\<close>: the value saturates at the ends of a 64-bit \<^verbatim>\<open>long\<close>.\<close>

definition strtol10 :: "string \<Rightarrow> int \<times> string \<times> bool" where
  "strtol10 s =
     (let (neg, s1) = strip_sign (dropWhile isspace s);
          ds = takeWhile (\<lambda>c. digit_val c < 10) s1;
          rest = dropWhile (\<lambda>c. digit_val c < 10) s1;
          v = (if neg then - digits_val 10 ds else digits_val 10 ds)
      in if ds = [] then (0, s, False)
         else if v < - (2 ^ 63) then (- (2 ^ 63), rest, True)
         else if 2 ^ 63 \<le> v then (2 ^ 63 - 1, rest, True)
         else (v, rest, False))"

lemma strip_sign_length: "length (snd (strip_sign s)) \<le> length s"
  by (cases s) auto

text \<open>An end pointer different from the start means that input was consumed.\<close>

lemma strtoull_rest_less:
  assumes "strtoull base s = (v, r, e)" and "s \<noteq> r"
  shows "length r < length s"
proof -
  obtain neg s1 where s1: "strip_sign (dropWhile isspace s) = (neg, s1)" by fastforce
  obtain b s2 where s2: "strip_base base s1 = (b, s2)" by fastforce
  let ?ds = "takeWhile (\<lambda>c. digit_val c < b) s2"
  have ds: "?ds \<noteq> []" and r: "r = dropWhile (\<lambda>c. digit_val c < b) s2"
    using assms s1 s2 by (auto simp: strtoull_def Let_def split: if_splits)
  have "length s2 \<le> length s1"
    using s2 by (auto simp: strip_base_def split: if_splits list.splits)
  moreover have "length s1 \<le> length (dropWhile isspace s)"
    using s1 strip_sign_length [of "dropWhile isspace s"] by simp
  moreover have "length (dropWhile isspace s) \<le> length s"
    by (rule length_dropWhile_le)
  moreover have "length r < length s2"
  proof -
    have "length s2 = length ?ds + length r"
      unfolding r by (metis length_append takeWhile_dropWhile_id)
    with ds show ?thesis by simp
  qed
  ultimately show ?thesis by linarith
qed

text \<open>A trailing character that is no digit stays in the rest.\<close>

lemma last_dropWhile:
  "s \<noteq> [] \<Longrightarrow> \<not> P (last s) \<Longrightarrow> dropWhile P s \<noteq> [] \<and> last (dropWhile P s) = last s"
  by (induction s) auto

lemma isspace_digit_val: "isspace c \<Longrightarrow> digit_val c = 36"
  by (auto simp: isspace_def digit_val_def Let_def)

lemma strip_sign_suffix: "\<exists>pre. s = pre @ snd (strip_sign s)"
  by (cases s) auto

lemma strip_base_suffix: "\<exists>pre. s = pre @ snd (strip_base b s)"
  by (auto simp: strip_base_def split: list.split)

lemma strip_base_le: "b \<le> 16 \<Longrightarrow> fst (strip_base b s) \<le> 16"
  by (auto simp: strip_base_def split: list.split)

lemma strtoull_trailing:
  assumes st: "strtoull base s = (v, r, e)" and "base \<le> 16" and "s \<noteq> []" and sp: "isspace (last s)"
  shows "r \<noteq> [] \<and> last r = last s"
proof -
  obtain neg s1 where s1: "strip_sign (dropWhile isspace s) = (neg, s1)" by fastforce
  obtain b s2 where s2: "strip_base base s1 = (b, s2)" by fastforce
  let ?ds = "takeWhile (\<lambda>c. digit_val c < b) s2"
  have b: "b \<le> 16" using strip_base_le [of base s1] s2 assms by simp
  obtain pre where pre: "s = pre @ s2"
    using strip_base_suffix [of s1 base] strip_sign_suffix [of "dropWhile isspace s"] s1 s2
      takeWhile_dropWhile_id [of isspace s] by (metis append.assoc snd_conv)
  show ?thesis
  proof (cases "?ds = []")
    case True
    then show ?thesis using st s1 s2 assms by (auto simp: strtoull_def Let_def)
  next
    case False
    then have "s2 \<noteq> []" by auto
    moreover have r: "r = dropWhile (\<lambda>c. digit_val c < b) s2"
      using st s1 s2 False by (auto simp: strtoull_def Let_def split: if_splits)
    ultimately show ?thesis
      using last_dropWhile [of s2 "\<lambda>c. digit_val c < b"] sp b isspace_digit_val [of "last s"] pre by auto
  qed
qed

section \<open>Prefix tests and tokens\<close>

text \<open>\<^verbatim>\<open>strncmp(s, t, strlen(t)) == 0\<close>.\<close>

fun starts_with :: "string \<Rightarrow> string \<Rightarrow> bool" where
  "starts_with s [] = True"
| "starts_with [] (t # ts) = False"
| "starts_with (c # s) (t # ts) = (c = t \<and> starts_with s ts)"

lemma starts_with_iff: "starts_with s t \<longleftrightarrow> (\<exists>r. s = t @ r)"
  by (induction s t rule: starts_with.induct) auto

section \<open>Integer to string\<close>

definition digit_char :: "nat \<Rightarrow> char" where
  "digit_char d = char_of (if d < 10 then 48 + d else 87 + d)"

function digits_of :: "int \<Rightarrow> int \<Rightarrow> string" where
  "digits_of b n =
     (if b < 2 \<or> n < b then [digit_char (nat n)]
      else digits_of b (n div b) @ [digit_char (nat (n mod b))])"
  by pat_completeness auto
termination
proof (relation "measure (\<lambda>(b, n). nat n)")
  fix b n :: int
  assume a: "\<not> (b < 2 \<or> n < b)"
  then have "n div b < n" by (intro int_div_less_self) auto
  with a show "((b, n div b), (b, n)) \<in> measure (\<lambda>(b, n). nat n)" by simp
qed simp

declare digits_of.simps [simp del]

text \<open>\<^verbatim>\<open>%llu\<close>, \<^verbatim>\<open>%llx\<close> and \<^verbatim>\<open>%lld\<close>.\<close>

definition fmt_u :: "u64 \<Rightarrow> string" where
  "fmt_u w = digits_of 10 (uint w)"

definition fmt_x :: "u64 \<Rightarrow> string" where
  "fmt_x w = digits_of 16 (uint w)"

definition fmt_d :: "int \<Rightarrow> string" where
  "fmt_d i = (if i < 0 then CHR ''-'' # digits_of 10 (- i) else digits_of 10 i)"

lemma digit_val_digit_char: "d < 16 \<Longrightarrow> digit_val (digit_char d) = d"
  by (auto simp: digit_val_def digit_char_def Let_def)

lemma of_char_digit_char: "d < 10 \<Longrightarrow> (of_char (digit_char d) :: nat) = 48 + d"
  by (simp add: digit_char_def)

lemma digit_char_class:
  assumes "d < 10"
  shows "isdigit (digit_char d)" and "\<not> isspace (digit_char d)"
    and "digit_char d \<noteq> CHR ''-''" and "digit_char d \<noteq> CHR ''+''"
proof -
  have n: "(of_char (digit_char d) :: nat) = 48 + d" using assms by (rule of_char_digit_char)
  then show "isdigit (digit_char d)" and "\<not> isspace (digit_char d)"
    using assms by (simp_all add: isdigit_def isspace_def Let_def)
  have "(of_char (CHR ''-'') :: nat) = 45" "(of_char (CHR ''+'') :: nat) = 43" by simp_all
  with n show "digit_char d \<noteq> CHR ''-''" and "digit_char d \<noteq> CHR ''+''" by force+
qed

lemma digits_of_neq_Nil [simp]: "digits_of b n \<noteq> []"
  by (subst digits_of.simps) simp

lemma digit_val_mod:
  assumes "2 \<le> b" and "b \<le> 16"
  shows "digit_val (digit_char (nat (n mod b))) = nat (n mod b)" and "nat (n mod b) < nat b"
proof -
  have "0 \<le> n mod b" and "n mod b < b" using assms by simp_all
  then show "nat (n mod b) < nat b" by linarith
  with assms show "digit_val (digit_char (nat (n mod b))) = nat (n mod b)"
    by (intro digit_val_digit_char) linarith
qed

lemma digits_of_valid:
  assumes "2 \<le> b" and "b \<le> 16" and "0 \<le> n"
  shows "\<forall>c \<in> set (digits_of b n). digit_val c < nat b"
  using assms
proof (induction b n rule: digits_of.induct)
  case (1 b n)
  show ?case
  proof (cases "n < b")
    case True
    with "1.prems" show ?thesis
      by (subst digits_of.simps) (simp add: digit_val_digit_char nat_less_iff)
  next
    case False
    with 1 have "\<forall>c \<in> set (digits_of b (n div b)). digit_val c < nat b"
      by (simp add: pos_imp_zdiv_nonneg_iff)
    with False "1.prems" show ?thesis
      by (subst digits_of.simps) (simp add: digit_val_mod)
  qed
qed

lemma digits_val_snoc:
  "digits_val b (ds @ [c]) = digits_val b ds * int b + int (digit_val c)"
  by (simp add: digits_val_def)

lemma digits_val_digits_of:
  assumes "2 \<le> b" and "b \<le> 16" and "0 \<le> n"
  shows "digits_val (nat b) (digits_of b n) = n"
  using assms
proof (induction b n rule: digits_of.induct)
  case (1 b n)
  show ?case
  proof (cases "n < b")
    case True
    with "1.prems" show ?thesis
      by (subst digits_of.simps) (simp add: digits_val_def digit_val_digit_char nat_less_iff)
  next
    case False
    with 1 have "digits_val (nat b) (digits_of b (n div b)) = n div b"
      by (simp add: pos_imp_zdiv_nonneg_iff)
    moreover have "digits_of b n = digits_of b (n div b) @ [digit_char (nat (n mod b))]"
      using False "1.prems" by (subst digits_of.simps) simp
    ultimately show ?thesis using "1.prems"
      by (simp add: digits_val_snoc digit_val_mod)
  qed
qed

text \<open>Reading back what \<^verbatim>\<open>0x%llx\<close> prints.\<close>

lemma takeWhile_digits:
  assumes "\<forall>c \<in> set ds. digit_val c < b" and "r = [] \<or> \<not> digit_val (hd r) < b"
  shows "takeWhile (\<lambda>c. digit_val c < b) (ds @ r) = ds"
    and "dropWhile (\<lambda>c. digit_val c < b) (ds @ r) = r"
  using assms by (cases r; simp add: takeWhile_append2 dropWhile_append2)+

lemma strtoull_fmt_x_rest:
  assumes "r = [] \<or> \<not> digit_val (hd r) < 16"
  shows "strtoull 0 (''0x'' @ fmt_x w @ r) = (w, r, False)"
proof -
  obtain c cs where ds: "digits_of 16 (uint w) = c # cs"
    by (cases "digits_of 16 (uint w)") auto
  have valid: "digit_val c < 16" "\<forall>d \<in> set cs. digit_val d < 16"
    using digits_of_valid [of 16 "uint w"] by (simp_all add: ds)
  have v: "digits_val 16 (c # cs) = uint w"
    using digits_val_digits_of [of 16 "uint w"] by (simp add: ds)
  have sp: "dropWhile isspace (''0x'' @ (c # cs) @ r) = ''0x'' @ (c # cs) @ r"
    by (simp add: isspace_def Let_def)
  have lt: "\<not> 2 ^ 64 \<le> uint w"
    using unsigned_less [of w] by (simp add: not_le)
  show ?thesis
    unfolding strtoull_def fmt_x_def ds sp
    using valid(1) lt by (simp add: strip_base_def takeWhile_digits [OF valid(2) assms] v)
qed

lemma strtoull_fmt_x: "strtoull 0 (''0x'' @ fmt_x w) = (w, [], False)"
  using strtoull_fmt_x_rest [of "[]" w] by simp

end
