(* ===== verification/ZT_Data.thy ===== *)
theory ZT_Data
  imports ZT_CString
begin

text \<open>
  The data shared between the components: the structures of \<^verbatim>\<open>include/zt_payload.h\<close>
  (filter bytecode, trace events, call actions) and of \<^verbatim>\<open>include/zt_injector.h\<close>
  (symbol targets, probes, threads, the session). Fields keep the order of the C
  declarations, with a prefix per structure because record fields share one name space.
  Counters the code keeps below a small constant (token count, thread count, original code
  length) are natural numbers; identifiers, addresses and register values are 64-bit words.
  \<^verbatim>\<open>memset(p, 0, sizeof *p)\<close> is the \<^verbatim>\<open>zero\<close> value of each structure.
\<close>

section \<open>Limits\<close>

definition ZT_TRACE_EVENT_CAPACITY :: nat where "ZT_TRACE_EVENT_CAPACITY = 4096"
definition ZT_TRACE_BUFFER_MAGIC :: u64 where "ZT_TRACE_BUFFER_MAGIC = 0x5a54425546464552"
definition ZT_PROBE_FILTER_EXPR_MAX :: nat where "ZT_PROBE_FILTER_EXPR_MAX = 128"
definition ZT_PROBE_FILTER_TOKEN_CAP :: nat where "ZT_PROBE_FILTER_TOKEN_CAP = 64"
definition ZT_TRACE_GP_ARG_COUNT :: nat where "ZT_TRACE_GP_ARG_COUNT = 6"
definition ZT_TRACE_FP_ARG_COUNT :: nat where "ZT_TRACE_FP_ARG_COUNT = 8"
definition ZT_PAYLOAD_PROBE_ACTION_CAP :: nat where "ZT_PAYLOAD_PROBE_ACTION_CAP = 32"
definition ZT_CALL_ACTION_ARG_CAP :: nat where "ZT_CALL_ACTION_ARG_CAP = ZT_TRACE_GP_ARG_COUNT"
definition ZT_PROBES_CAPACITY :: nat where "ZT_PROBES_CAPACITY = 32"
definition ZT_THREADS_CAPACITY :: nat where "ZT_THREADS_CAPACITY = 256"
definition ZT_PROBE_SYMBOL_MAX :: nat where "ZT_PROBE_SYMBOL_MAX = 64"
definition ZT_PROBE_MODULE_MAX :: nat where "ZT_PROBE_MODULE_MAX = 512"
definition ZT_PROBE_ORIG_CODE_MAX :: nat where "ZT_PROBE_ORIG_CODE_MAX = 32"
definition ZT_TRAMPOLINE_MAX_SIZE :: nat where "ZT_TRAMPOLINE_MAX_SIZE = 512"
definition ZT_TRAMPOLINE_POOL_SLOTS :: nat where "ZT_TRAMPOLINE_POOL_SLOTS = ZT_PROBES_CAPACITY"
definition ZT_TRAMPOLINE_POOL_SLOT_SIZE :: nat where "ZT_TRAMPOLINE_POOL_SLOT_SIZE = ZT_TRAMPOLINE_MAX_SIZE"
definition ZT_TRAMPOLINE_POOL_SIZE :: nat where
  "ZT_TRAMPOLINE_POOL_SIZE = ZT_TRAMPOLINE_POOL_SLOTS * ZT_TRAMPOLINE_POOL_SLOT_SIZE"

lemmas zt_limits =
  ZT_TRACE_EVENT_CAPACITY_def ZT_TRACE_BUFFER_MAGIC_def ZT_PROBE_FILTER_EXPR_MAX_def
  ZT_PROBE_FILTER_TOKEN_CAP_def ZT_TRACE_GP_ARG_COUNT_def ZT_TRACE_FP_ARG_COUNT_def
  ZT_PAYLOAD_PROBE_ACTION_CAP_def ZT_CALL_ACTION_ARG_CAP_def ZT_PROBES_CAPACITY_def
  ZT_THREADS_CAPACITY_def ZT_PROBE_SYMBOL_MAX_def ZT_PROBE_MODULE_MAX_def
  ZT_PROBE_ORIG_CODE_MAX_def ZT_TRAMPOLINE_MAX_SIZE_def ZT_TRAMPOLINE_POOL_SLOTS_def
  ZT_TRAMPOLINE_POOL_SLOT_SIZE_def ZT_TRAMPOLINE_POOL_SIZE_def

section \<open>Filter bytecode\<close>

datatype zt_probe_filter_token_type_t =
    ZT_PROBE_FILTER_TOK_END
  | ZT_PROBE_FILTER_TOK_ARG
  | ZT_PROBE_FILTER_TOK_NUM
  | ZT_PROBE_FILTER_TOK_EQ
  | ZT_PROBE_FILTER_TOK_NE
  | ZT_PROBE_FILTER_TOK_GT
  | ZT_PROBE_FILTER_TOK_GE
  | ZT_PROBE_FILTER_TOK_LT
  | ZT_PROBE_FILTER_TOK_LE
  | ZT_PROBE_FILTER_TOK_AND
  | ZT_PROBE_FILTER_TOK_OR
  | ZT_PROBE_FILTER_TOK_NOT
  | ZT_PROBE_FILTER_TOK_ADD
  | ZT_PROBE_FILTER_TOK_SUB
  | ZT_PROBE_FILTER_TOK_MUL
  | ZT_PROBE_FILTER_TOK_DIV
  | ZT_PROBE_FILTER_TOK_LPAREN
  | ZT_PROBE_FILTER_TOK_RPAREN

record zt_probe_filter_token_t =
  tok_type :: zt_probe_filter_token_type_t
  tok_arg_index :: u8
  tok_value :: u64

record zt_probe_filter_t =
  fl_probe_id :: u64
  fl_enabled :: u64
  fl_token_count :: nat
  fl_expr :: string
  fl_tokens :: "zt_probe_filter_token_t list"

definition zero_token :: zt_probe_filter_token_t where
  "zero_token = \<lparr>tok_type = ZT_PROBE_FILTER_TOK_END, tok_arg_index = 0, tok_value = 0\<rparr>"

definition zero_filter :: zt_probe_filter_t where
  "zero_filter = \<lparr>fl_probe_id = 0, fl_enabled = 0, fl_token_count = 0, fl_expr = [],
     fl_tokens = replicate ZT_PROBE_FILTER_TOKEN_CAP zero_token\<rparr>"

section \<open>Trace events\<close>

datatype zt_trace_event_type_t = ZT_TRACE_EVENT_ENTRY | ZT_TRACE_EVENT_RETURN | ZT_TRACE_EVENT_CALL

fun event_type_code :: "zt_trace_event_type_t \<Rightarrow> u64" where
  "event_type_code ZT_TRACE_EVENT_ENTRY = 0"
| "event_type_code ZT_TRACE_EVENT_RETURN = 1"
| "event_type_code ZT_TRACE_EVENT_CALL = 2"

text \<open>
  The first union of the C structure is the six-element array \<open>ev_args\<close>
  (\<^verbatim>\<open>value0\<close> \dots \<^verbatim>\<open>value5\<close>, and for call events \<^verbatim>\<open>call_callee_addr\<close>,
  \<^verbatim>\<open>call_retval\<close>, \<^verbatim>\<open>call_arg_count\<close> at indices 0, 1, 2); the second union is the
  eight-element array \<open>ev_fp_args\<close>, whose first six elements are also \<^verbatim>\<open>call_args\<close>.
\<close>

record zt_trace_event_t =
  ev_committed_seq :: u64
  ev_probe_id :: u64
  ev_event_type :: u64
  ev_call_id :: u64
  ev_timestamp_ns :: u64
  ev_tid :: u64
  ev_cpu_id :: u64
  ev_args :: "u64 list"
  ev_fp_args :: "u64 list"

definition zero_event :: zt_trace_event_t where
  "zero_event = \<lparr>ev_committed_seq = 0, ev_probe_id = 0, ev_event_type = 0, ev_call_id = 0,
     ev_timestamp_ns = 0, ev_tid = 0, ev_cpu_id = 0,
     ev_args = replicate ZT_TRACE_GP_ARG_COUNT 0,
     ev_fp_args = replicate ZT_TRACE_FP_ARG_COUNT 0\<rparr>"

definition wf_event :: "zt_trace_event_t \<Rightarrow> bool" where
  "wf_event e = (length (ev_args e) = ZT_TRACE_GP_ARG_COUNT \<and>
                 length (ev_fp_args e) = ZT_TRACE_FP_ARG_COUNT)"

section \<open>Call actions\<close>

record zt_call_action_arg_t =
  ca_kind :: u64
  ca_value :: u64

definition ZT_CALL_ACTION_ARG_CONST :: u64 where "ZT_CALL_ACTION_ARG_CONST = 1"
definition ZT_CALL_ACTION_ARG_ENTRY_ARG :: u64 where "ZT_CALL_ACTION_ARG_ENTRY_ARG = 2"

record zt_probe_call_action_t =
  act_enabled :: u64
  act_probe_id :: u64
  act_callee_addr :: u64
  act_arg_count :: u64
  act_args :: "zt_call_action_arg_t list"

definition zero_action_arg :: zt_call_action_arg_t where
  "zero_action_arg = \<lparr>ca_kind = 0, ca_value = 0\<rparr>"

definition zero_action :: zt_probe_call_action_t where
  "zero_action = \<lparr>act_enabled = 0, act_probe_id = 0, act_callee_addr = 0, act_arg_count = 0,
     act_args = replicate ZT_CALL_ACTION_ARG_CAP zero_action_arg\<rparr>"

section \<open>Probes and the session\<close>

record zt_symbol_target_t =
  tgt_symbol :: string
  tgt_module_path :: string
  tgt_remote_addr :: u64

datatype zt_probe_state_t =
  ZT_PROBE_EMPTY | ZT_PROBE_RESOLVED | ZT_PROBE_PREPARED | ZT_PROBE_INSTALLED | ZT_PROBE_DISABLED

record zt_probe_info_t =
  pi_probe_id :: u64
  pi_target :: zt_symbol_target_t
  pi_trampoline_addr :: u64
  pi_trampoline_slot :: int
  pi_orig_code :: "u8 list"
  pi_orig_len :: nat
  pi_state :: zt_probe_state_t
  pi_filter :: zt_probe_filter_t
  pi_call_action :: zt_probe_call_action_t
  pi_call_action_slot :: int
  pi_call_symbol :: string

definition zero_target :: zt_symbol_target_t where
  "zero_target = \<lparr>tgt_symbol = [], tgt_module_path = [], tgt_remote_addr = 0\<rparr>"

definition zero_probe :: zt_probe_info_t where
  "zero_probe = \<lparr>pi_probe_id = 0, pi_target = zero_target, pi_trampoline_addr = 0,
     pi_trampoline_slot = 0, pi_orig_code = replicate ZT_PROBE_ORIG_CODE_MAX 0, pi_orig_len = 0,
     pi_state = ZT_PROBE_EMPTY, pi_filter = zero_filter, pi_call_action = zero_action,
     pi_call_action_slot = 0, pi_call_symbol = []\<rparr>"

record zt_thread_info_t =
  th_tid :: int
  th_stopped :: bool
  th_resume_signal :: int

definition zero_thread :: zt_thread_info_t where
  "zero_thread = \<lparr>th_tid = 0, th_stopped = False, th_resume_signal = 0\<rparr>"

record zt_injector_session_t =
  se_pid :: int
  se_exe_path :: string
  se_image_base :: u64
  se_is_pie :: bool
  se_next_probe_id :: u64
  se_probe_count :: int
  se_thread_count :: nat
  se_threads_stopped :: bool
  se_target_exited :: bool
  se_threads :: "zt_thread_info_t list"
  se_probes :: "zt_probe_info_t list"

definition zero_session :: zt_injector_session_t where
  "zero_session = \<lparr>se_pid = 0, se_exe_path = [], se_image_base = 0, se_is_pie = False,
     se_next_probe_id = 0, se_probe_count = 0, se_thread_count = 0, se_threads_stopped = False,
     se_target_exited = False, se_threads = replicate ZT_THREADS_CAPACITY zero_thread,
     se_probes = replicate ZT_PROBES_CAPACITY zero_probe\<rparr>"

text \<open>
  The lifecycle order of the probe states is the order of the C enumeration.
\<close>

fun probe_state_code :: "zt_probe_state_t \<Rightarrow> nat" where
  "probe_state_code ZT_PROBE_EMPTY = 0"
| "probe_state_code ZT_PROBE_RESOLVED = 1"
| "probe_state_code ZT_PROBE_PREPARED = 2"
| "probe_state_code ZT_PROBE_INSTALLED = 3"
| "probe_state_code ZT_PROBE_DISABLED = 4"

lemma probe_state_code_inject: "probe_state_code a = probe_state_code b \<longleftrightarrow> a = b"
  by (cases a; cases b) simp_all

instantiation zt_probe_state_t :: linorder
begin

definition less_eq_zt_probe_state_t :: "zt_probe_state_t \<Rightarrow> zt_probe_state_t \<Rightarrow> bool" where
  "less_eq_zt_probe_state_t a b = (probe_state_code a \<le> probe_state_code b)"

definition less_zt_probe_state_t :: "zt_probe_state_t \<Rightarrow> zt_probe_state_t \<Rightarrow> bool" where
  "less_zt_probe_state_t a b = (probe_state_code a < probe_state_code b)"

instance
  by standard
    (auto simp: less_eq_zt_probe_state_t_def less_zt_probe_state_t_def probe_state_code_inject
      simp flip: probe_state_code_inject)

end

lemma wf_event_zero [simp]: "wf_event zero_event"
  by (simp add: wf_event_def zero_event_def)

lemma length_zero_filter_tokens [simp, zt_len]:
  "length (fl_tokens zero_filter) = ZT_PROBE_FILTER_TOKEN_CAP"
  by (simp add: zero_filter_def)

end
