(* ===== verification/ZT_Filter.thy ===== *)
theory ZT_Filter
  imports ZT_Data
begin

text \<open>
  Model of \<^verbatim>\<open>src/zt_filter.c\<close>, the compiler and evaluator of conditional probes.
  The compiler turns the text after \<^verbatim>\<open>if\<close> into a token array and validates it by one
  parse without an event; the evaluator parses the same tokens again with recursive descent
  and computes the value on the fly. Both are translated function by function; the C
  context (cursor, error flag, evaluation flag) is a record threaded through the calls, and
  each \<^verbatim>\<open>while\<close> loop of a parse function is a function of its own (suffix \<open>_loop\<close>).
\<close>

section \<open>Evaluation context\<close>

record zt_filter_eval_t =
  fe_filter :: zt_probe_filter_t
  fe_event :: "zt_trace_event_t option"
  fe_pos :: nat
  fe_ok :: bool
  fe_eval_enabled :: bool

definition k_two_char_ops :: "(string \<times> zt_probe_filter_token_type_t) list" where
  "k_two_char_ops =
    [(''=='', ZT_PROBE_FILTER_TOK_EQ), (''!='', ZT_PROBE_FILTER_TOK_NE),
     (''>='', ZT_PROBE_FILTER_TOK_GE), (''<='', ZT_PROBE_FILTER_TOK_LE),
     (''&&'', ZT_PROBE_FILTER_TOK_AND), (''||'', ZT_PROBE_FILTER_TOK_OR)]"

definition k_one_char_ops :: "(string \<times> zt_probe_filter_token_type_t) list" where
  "k_one_char_ops =
    [(''>'', ZT_PROBE_FILTER_TOK_GT), (''<'', ZT_PROBE_FILTER_TOK_LT),
     (''!'', ZT_PROBE_FILTER_TOK_NOT), (''+'', ZT_PROBE_FILTER_TOK_ADD),
     (''-'', ZT_PROBE_FILTER_TOK_SUB), (''*'', ZT_PROBE_FILTER_TOK_MUL),
     (''/'', ZT_PROBE_FILTER_TOK_DIV), (''('', ZT_PROBE_FILTER_TOK_LPAREN),
     ('')'', ZT_PROBE_FILTER_TOK_RPAREN)]"

definition zt_filter_event_arg :: "zt_trace_event_t option \<Rightarrow> nat \<Rightarrow> u64" where
  "zt_filter_event_arg ev i =
     (case ev of None \<Rightarrow> 0
      | Some e \<Rightarrow> if i \<ge> ZT_TRACE_GP_ARG_COUNT then 0 else ev_args e ! i)"

definition zt_filter_skip_spaces :: "string \<Rightarrow> string" where
  "zt_filter_skip_spaces cursor = dropWhile isspace cursor"

definition zt_filter_eval_init ::
  "zt_probe_filter_t \<Rightarrow> zt_trace_event_t option \<Rightarrow> zt_filter_eval_t" where
  "zt_filter_eval_init flt event =
     \<lparr>fe_filter = flt, fe_event = event, fe_pos = 0, fe_ok = True,
      fe_eval_enabled = (event \<noteq> None)\<rparr>"

definition zt_filter_set_eval_enabled ::
  "zt_filter_eval_t \<Rightarrow> bool \<Rightarrow> bool \<times> zt_filter_eval_t" where
  "zt_filter_set_eval_enabled ctx enabled =
     (fe_eval_enabled ctx, ctx\<lparr>fe_eval_enabled := enabled\<rparr>)"

definition zt_filter_peek :: "zt_filter_eval_t \<Rightarrow> zt_probe_filter_token_t option" where
  "zt_filter_peek ctx =
     (if fe_pos ctx \<ge> fl_token_count (fe_filter ctx) then None
      else Some (fl_tokens (fe_filter ctx) ! fe_pos ctx))"

text \<open>
  \<^verbatim>\<open>zt_filter_take\<close> and \<^verbatim>\<open>zt_filter_take_cmp\<close> return 1 with the cursor advanced
  (\<open>Some\<close>) or 0 with the context untouched (\<open>None\<close>).
\<close>

definition zt_filter_take ::
  "zt_filter_eval_t \<Rightarrow> zt_probe_filter_token_type_t \<Rightarrow> zt_filter_eval_t option" where
  "zt_filter_take ctx ty =
     (case zt_filter_peek ctx of
        None \<Rightarrow> None
      | Some token \<Rightarrow>
          if tok_type token \<noteq> ty then None
          else Some (ctx\<lparr>fe_pos := fe_pos ctx + 1\<rparr>))"

fun zt_filter_token_is_cmp :: "zt_probe_filter_token_type_t \<Rightarrow> bool" where
  "zt_filter_token_is_cmp ZT_PROBE_FILTER_TOK_EQ = True"
| "zt_filter_token_is_cmp ZT_PROBE_FILTER_TOK_NE = True"
| "zt_filter_token_is_cmp ZT_PROBE_FILTER_TOK_GT = True"
| "zt_filter_token_is_cmp ZT_PROBE_FILTER_TOK_GE = True"
| "zt_filter_token_is_cmp ZT_PROBE_FILTER_TOK_LT = True"
| "zt_filter_token_is_cmp ZT_PROBE_FILTER_TOK_LE = True"
| "zt_filter_token_is_cmp _ = False"

definition zt_filter_take_cmp ::
  "zt_filter_eval_t \<Rightarrow> (zt_probe_filter_token_type_t \<times> zt_filter_eval_t) option" where
  "zt_filter_take_cmp ctx =
     (case zt_filter_peek ctx of
        None \<Rightarrow> None
      | Some token \<Rightarrow>
          if \<not> zt_filter_token_is_cmp (tok_type token) then None
          else Some (tok_type token, ctx\<lparr>fe_pos := fe_pos ctx + 1\<rparr>))"

fun zt_filter_apply_cmp :: "zt_probe_filter_token_type_t \<Rightarrow> u64 \<Rightarrow> u64 \<Rightarrow> u64" where
  "zt_filter_apply_cmp ZT_PROBE_FILTER_TOK_EQ lhs rhs = of_bool (lhs = rhs)"
| "zt_filter_apply_cmp ZT_PROBE_FILTER_TOK_NE lhs rhs = of_bool (lhs \<noteq> rhs)"
| "zt_filter_apply_cmp ZT_PROBE_FILTER_TOK_GT lhs rhs = of_bool (lhs > rhs)"
| "zt_filter_apply_cmp ZT_PROBE_FILTER_TOK_GE lhs rhs = of_bool (lhs \<ge> rhs)"
| "zt_filter_apply_cmp ZT_PROBE_FILTER_TOK_LT lhs rhs = of_bool (lhs < rhs)"
| "zt_filter_apply_cmp ZT_PROBE_FILTER_TOK_LE lhs rhs = of_bool (lhs \<le> rhs)"
| "zt_filter_apply_cmp _ lhs rhs = 0"

text \<open>
  Short-circuiting parses the skipped side with evaluation switched off and then restores
  the flag.
\<close>

definition zt_filter_parse_with_eval ::
  "zt_filter_eval_t \<Rightarrow> bool \<Rightarrow> (zt_filter_eval_t \<Rightarrow> u64 \<times> zt_filter_eval_t) \<Rightarrow>
   u64 \<times> zt_filter_eval_t" where
  "zt_filter_parse_with_eval ctx eval_enabled parse =
     (let (previous_eval, ctx1) = zt_filter_set_eval_enabled ctx eval_enabled;
          (value, ctx2) = parse ctx1;
          (_, ctx3) = zt_filter_set_eval_enabled ctx2 previous_eval
      in (value, ctx3))"

definition zt_filter_parse_maybe_skipped ::
  "zt_filter_eval_t \<Rightarrow> bool \<Rightarrow> (zt_filter_eval_t \<Rightarrow> u64 \<times> zt_filter_eval_t) \<Rightarrow>
   u64 \<times> zt_filter_eval_t" where
  "zt_filter_parse_maybe_skipped ctx skip_eval parse =
     (if skip_eval then zt_filter_parse_with_eval ctx False parse else parse ctx)"

lemma zt_filter_parse_maybe_skipped_cong [fundef_cong]:
  assumes "ctx = ctx'" and "skip = skip'"
    and "\<And>c. c = ctx' \<or> c = ctx'\<lparr>fe_eval_enabled := False\<rparr> \<Longrightarrow> f c = g c"
  shows "zt_filter_parse_maybe_skipped ctx skip f = zt_filter_parse_maybe_skipped ctx' skip' g"
  using assms
  by (simp add: zt_filter_parse_maybe_skipped_def zt_filter_parse_with_eval_def
      zt_filter_set_eval_enabled_def)

text \<open>
  What every parse function keeps: the filter, the event and the evaluation flag; the cursor
  never moves back and never leaves the tokens, and an error is never cleared.
\<close>

definition fe_le :: "zt_filter_eval_t \<Rightarrow> zt_filter_eval_t \<Rightarrow> bool" where
  "fe_le c c' \<longleftrightarrow> (fe_ok c' \<longrightarrow> fe_ok c) \<and> fe_filter c' = fe_filter c \<and> fe_event c' = fe_event c \<and>
     fe_eval_enabled c' = fe_eval_enabled c \<and> fe_pos c \<le> fe_pos c' \<and>
     (fe_pos c \<le> fl_token_count (fe_filter c) \<longrightarrow> fe_pos c' \<le> fl_token_count (fe_filter c))"

definition fe_left :: "zt_filter_eval_t \<Rightarrow> nat" where
  "fe_left c = fl_token_count (fe_filter c) - fe_pos c"

lemma fe_le_refl [simp]: "fe_le c c"
  by (simp add: fe_le_def)

lemma fe_le_trans [trans]: "fe_le a b \<Longrightarrow> fe_le b c \<Longrightarrow> fe_le a c"
  by (auto simp: fe_le_def)

lemma fe_le_fe_ok [simp]: "fe_le a b \<Longrightarrow> fe_le a (b\<lparr>fe_ok := False\<rparr>)"
  by (simp add: fe_le_def)

lemma fe_left_eval_enabled [simp]: "fe_left (c\<lparr>fe_eval_enabled := b\<rparr>) = fe_left c"
  by (simp add: fe_left_def)

lemma fe_le_left: "fe_le a b \<Longrightarrow> fe_left b \<le> fe_left a"
  by (auto simp: fe_le_def fe_left_def)

lemma zt_filter_take_Some:
  "zt_filter_take c ty = Some c' \<longleftrightarrow>
     fe_pos c < fl_token_count (fe_filter c) \<and>
     tok_type (fl_tokens (fe_filter c) ! fe_pos c) = ty \<and> c' = c\<lparr>fe_pos := Suc (fe_pos c)\<rparr>"
  by (auto simp: zt_filter_take_def zt_filter_peek_def)

lemma zt_filter_take_cmp_Some:
  "zt_filter_take_cmp c = Some (ty, c') \<longleftrightarrow>
     fe_pos c < fl_token_count (fe_filter c) \<and>
     ty = tok_type (fl_tokens (fe_filter c) ! fe_pos c) \<and> zt_filter_token_is_cmp ty \<and>
     c' = c\<lparr>fe_pos := Suc (fe_pos c)\<rparr>"
  by (auto simp: zt_filter_take_cmp_def zt_filter_peek_def)

lemma zt_filter_take_le: "zt_filter_take c ty = Some c' \<Longrightarrow> fe_le c c'"
  by (simp add: zt_filter_take_Some fe_le_def)

lemma zt_filter_take_cmp_le: "zt_filter_take_cmp c = Some (ty, c') \<Longrightarrow> fe_le c c'"
  by (simp add: zt_filter_take_cmp_Some fe_le_def)

lemma zt_filter_take_left:
  "zt_filter_take c ty = Some c' \<Longrightarrow> fe_left c' < fe_left c"
  "zt_filter_take_cmp c = Some (t, c') \<Longrightarrow> fe_left c' < fe_left c"
  by (auto simp: zt_filter_take_Some zt_filter_take_cmp_Some fe_left_def)

lemma zt_filter_step_le:
  "zt_filter_take c ty = Some c1 \<Longrightarrow> fe_le c1 c2 \<Longrightarrow> fe_le c c2"
  "zt_filter_take c ty = Some c1 \<Longrightarrow> fe_le c1 c2 \<Longrightarrow> fe_le c2 c3 \<Longrightarrow> fe_le c c3"
  "zt_filter_take_cmp c = Some (t, c1) \<Longrightarrow> fe_le c1 c2 \<Longrightarrow> fe_le c2 c3 \<Longrightarrow> fe_le c c3"
  using zt_filter_take_le zt_filter_take_cmp_le fe_le_trans by blast+

lemma zt_filter_parse_maybe_skipped_le:
  assumes "zt_filter_parse_maybe_skipped c skip f = (v, c')"
    and "fe_le c (snd (f c))"
    and "fe_le (c\<lparr>fe_eval_enabled := False\<rparr>) (snd (f (c\<lparr>fe_eval_enabled := False\<rparr>)))"
  shows "fe_le c c'"
  using assms
  by (auto simp: zt_filter_parse_maybe_skipped_def zt_filter_parse_with_eval_def
      zt_filter_set_eval_enabled_def fe_le_def case_prod_beta split: if_splits)

lemma zt_filter_skipped_step_le:
  assumes "zt_filter_take c ty = Some c1" and "zt_filter_parse_maybe_skipped c1 skip f = (v, c2)"
    and "\<And>c'. c' = c1 \<or> c' = c1\<lparr>fe_eval_enabled := False\<rparr> \<Longrightarrow> fe_le c' (snd (f c'))"
    and "fe_le c2 c3"
  shows "fe_le c c3"
  using zt_filter_step_le(2) [OF assms(1) zt_filter_parse_maybe_skipped_le [OF assms(2)] assms(4)]
    assms(3) by blast

text \<open>
  The measure under which the twelve mutually recursive functions decrease: the tokens left,
  then the depth of the function in the precedence chain.
\<close>

fun parse_size where
  "parse_size (Inl (Inl (Inl c))) = 8 * fe_left c + 1"
| "parse_size (Inl (Inl (Inr (Inl c)))) = 8 * fe_left c + 2"
| "parse_size (Inl (Inl (Inr (Inr c)))) = 8 * fe_left c + 3"
| "parse_size (Inl (Inr (Inl (l, c)))) = 8 * fe_left c + 1"
| "parse_size (Inl (Inr (Inr (Inl c)))) = 8 * fe_left c + 4"
| "parse_size (Inl (Inr (Inr (Inr (l, c))))) = 8 * fe_left c + 1"
| "parse_size (Inr (Inl (Inl c))) = 8 * fe_left c + 5"
| "parse_size (Inr (Inl (Inr (Inl (l, c))))) = 8 * fe_left c + 1"
| "parse_size (Inr (Inl (Inr (Inr c)))) = 8 * fe_left c + 6"
| "parse_size (Inr (Inr (Inl (l, c)))) = 8 * fe_left c + 1"
| "parse_size (Inr (Inr (Inr (Inl c)))) = 8 * fe_left c + 7"
| "parse_size (Inr (Inr (Inr (Inr (l, c))))) = 8 * fe_left c + 1"

section \<open>Recursive descent\<close>

function zt_filter_parse_primary :: "zt_filter_eval_t \<Rightarrow> u64 \<times> zt_filter_eval_t"
  and zt_filter_parse_unary :: "zt_filter_eval_t \<Rightarrow> u64 \<times> zt_filter_eval_t"
  and zt_filter_parse_mul :: "zt_filter_eval_t \<Rightarrow> u64 \<times> zt_filter_eval_t"
  and zt_filter_parse_mul_loop :: "u64 \<Rightarrow> zt_filter_eval_t \<Rightarrow> u64 \<times> zt_filter_eval_t"
  and zt_filter_parse_add :: "zt_filter_eval_t \<Rightarrow> u64 \<times> zt_filter_eval_t"
  and zt_filter_parse_add_loop :: "u64 \<Rightarrow> zt_filter_eval_t \<Rightarrow> u64 \<times> zt_filter_eval_t"
  and zt_filter_parse_cmp :: "zt_filter_eval_t \<Rightarrow> u64 \<times> zt_filter_eval_t"
  and zt_filter_parse_cmp_loop :: "u64 \<Rightarrow> zt_filter_eval_t \<Rightarrow> u64 \<times> zt_filter_eval_t"
  and zt_filter_parse_and :: "zt_filter_eval_t \<Rightarrow> u64 \<times> zt_filter_eval_t"
  and zt_filter_parse_and_loop :: "u64 \<Rightarrow> zt_filter_eval_t \<Rightarrow> u64 \<times> zt_filter_eval_t"
  and zt_filter_parse_or :: "zt_filter_eval_t \<Rightarrow> u64 \<times> zt_filter_eval_t"
  and zt_filter_parse_or_loop :: "u64 \<Rightarrow> zt_filter_eval_t \<Rightarrow> u64 \<times> zt_filter_eval_t"
where
  "zt_filter_parse_primary ctx =
     (case zt_filter_peek ctx of
        None \<Rightarrow> (0, ctx\<lparr>fe_ok := False\<rparr>)
      | Some token \<Rightarrow>
          (case zt_filter_take ctx ZT_PROBE_FILTER_TOK_NUM of
             Some ctx1 \<Rightarrow> (tok_value token, ctx1)
           | None \<Rightarrow>
          (case zt_filter_take ctx ZT_PROBE_FILTER_TOK_ARG of
             Some ctx1 \<Rightarrow>
               if \<not> fe_eval_enabled ctx1 \<or> fe_event ctx1 = None then (0, ctx1)
               else (zt_filter_event_arg (fe_event ctx1) (unat (tok_arg_index token)), ctx1)
           | None \<Rightarrow>
          (case zt_filter_take ctx ZT_PROBE_FILTER_TOK_LPAREN of
             Some ctx1 \<Rightarrow>
               (case zt_filter_parse_or ctx1 of
                  (value, ctx2) \<Rightarrow>
                    (case zt_filter_take ctx2 ZT_PROBE_FILTER_TOK_RPAREN of
                       Some ctx3 \<Rightarrow> (value, ctx3)
                     | None \<Rightarrow> (value, ctx2\<lparr>fe_ok := False\<rparr>)))
           | None \<Rightarrow> (0, ctx\<lparr>fe_ok := False\<rparr>)))))"
| "zt_filter_parse_unary ctx =
     (case zt_filter_take ctx ZT_PROBE_FILTER_TOK_NOT of
        Some ctx1 \<Rightarrow>
          (case zt_filter_parse_unary ctx1 of (v, ctx2) \<Rightarrow> (of_bool (v = 0), ctx2))
      | None \<Rightarrow> zt_filter_parse_primary ctx)"
| "zt_filter_parse_mul ctx =
     (case zt_filter_parse_unary ctx of (lhs, ctx1) \<Rightarrow> zt_filter_parse_mul_loop lhs ctx1)"
| "zt_filter_parse_mul_loop lhs ctx =
     (if \<not> fe_ok ctx then (lhs, ctx)
      else
       (case zt_filter_take ctx ZT_PROBE_FILTER_TOK_MUL of
          Some ctx1 \<Rightarrow>
            (case zt_filter_parse_unary ctx1 of
               (rhs, ctx2) \<Rightarrow> zt_filter_parse_mul_loop (lhs * rhs) ctx2)
        | None \<Rightarrow>
       (case zt_filter_take ctx ZT_PROBE_FILTER_TOK_DIV of
          Some ctx1 \<Rightarrow>
            (case zt_filter_parse_unary ctx1 of
               (rhs, ctx2) \<Rightarrow>
                 if \<not> fe_eval_enabled ctx2 then zt_filter_parse_mul_loop 0 ctx2
                 else if rhs = 0 then (0, ctx2\<lparr>fe_ok := False\<rparr>)
                 else zt_filter_parse_mul_loop (lhs div rhs) ctx2)
        | None \<Rightarrow> (lhs, ctx))))"
| "zt_filter_parse_add ctx =
     (case zt_filter_parse_mul ctx of (lhs, ctx1) \<Rightarrow> zt_filter_parse_add_loop lhs ctx1)"
| "zt_filter_parse_add_loop lhs ctx =
     (if \<not> fe_ok ctx then (lhs, ctx)
      else
       (case zt_filter_take ctx ZT_PROBE_FILTER_TOK_ADD of
          Some ctx1 \<Rightarrow>
            (case zt_filter_parse_mul ctx1 of
               (rhs, ctx2) \<Rightarrow> zt_filter_parse_add_loop (lhs + rhs) ctx2)
        | None \<Rightarrow>
       (case zt_filter_take ctx ZT_PROBE_FILTER_TOK_SUB of
          Some ctx1 \<Rightarrow>
            (case zt_filter_parse_mul ctx1 of
               (rhs, ctx2) \<Rightarrow> zt_filter_parse_add_loop (lhs - rhs) ctx2)
        | None \<Rightarrow> (lhs, ctx))))"
| "zt_filter_parse_cmp ctx =
     (case zt_filter_parse_add ctx of (lhs, ctx1) \<Rightarrow> zt_filter_parse_cmp_loop lhs ctx1)"
| "zt_filter_parse_cmp_loop lhs ctx =
     (if \<not> fe_ok ctx then (lhs, ctx)
      else
       (case zt_filter_take_cmp ctx of
          None \<Rightarrow> (lhs, ctx)
        | Some (ty, ctx1) \<Rightarrow>
            (case zt_filter_parse_add ctx1 of
               (rhs, ctx2) \<Rightarrow> zt_filter_parse_cmp_loop (zt_filter_apply_cmp ty lhs rhs) ctx2)))"
| "zt_filter_parse_and ctx =
     (case zt_filter_parse_cmp ctx of (lhs, ctx1) \<Rightarrow> zt_filter_parse_and_loop lhs ctx1)"
| "zt_filter_parse_and_loop lhs ctx =
     (if \<not> fe_ok ctx then (lhs, ctx)
      else
       (case zt_filter_take ctx ZT_PROBE_FILTER_TOK_AND of
          Some ctx1 \<Rightarrow>
            (case zt_filter_parse_maybe_skipped ctx1 (fe_eval_enabled ctx1 \<and> lhs = 0)
                    (\<lambda>c. zt_filter_parse_cmp c) of
               (rhs, ctx2) \<Rightarrow>
                 zt_filter_parse_and_loop (of_bool (lhs \<noteq> 0 \<and> rhs \<noteq> 0)) ctx2)
        | None \<Rightarrow> (lhs, ctx)))"
| "zt_filter_parse_or ctx =
     (case zt_filter_parse_and ctx of (lhs, ctx1) \<Rightarrow> zt_filter_parse_or_loop lhs ctx1)"
| "zt_filter_parse_or_loop lhs ctx =
     (if \<not> fe_ok ctx then (lhs, ctx)
      else
       (case zt_filter_take ctx ZT_PROBE_FILTER_TOK_OR of
          Some ctx1 \<Rightarrow>
            (case zt_filter_parse_maybe_skipped ctx1 (fe_eval_enabled ctx1 \<and> lhs \<noteq> 0)
                    (\<lambda>c. zt_filter_parse_and c) of
               (rhs, ctx2) \<Rightarrow>
                 zt_filter_parse_or_loop (of_bool (lhs \<noteq> 0 \<or> rhs \<noteq> 0)) ctx2)
        | None \<Rightarrow> (lhs, ctx)))"
  by pat_completeness auto


lemmas zt_filter_parse_pinduct =
  zt_filter_parse_primary_zt_filter_parse_unary_zt_filter_parse_mul_zt_filter_parse_mul_loop_zt_filter_parse_add_zt_filter_parse_add_loop_zt_filter_parse_cmp_zt_filter_parse_cmp_loop_zt_filter_parse_and_zt_filter_parse_and_loop_zt_filter_parse_or_zt_filter_parse_or_loop.pinduct

lemmas zt_filter_parse_psimps =
  zt_filter_parse_primary.psimps zt_filter_parse_unary.psimps zt_filter_parse_mul.psimps
  zt_filter_parse_mul_loop.psimps zt_filter_parse_add.psimps zt_filter_parse_add_loop.psimps
  zt_filter_parse_cmp.psimps zt_filter_parse_cmp_loop.psimps zt_filter_parse_and.psimps
  zt_filter_parse_and_loop.psimps zt_filter_parse_or.psimps zt_filter_parse_or_loop.psimps

abbreviation parse_dom where
  "parse_dom \<equiv>
  zt_filter_parse_primary_zt_filter_parse_unary_zt_filter_parse_mul_zt_filter_parse_mul_loop_zt_filter_parse_add_zt_filter_parse_add_loop_zt_filter_parse_cmp_zt_filter_parse_cmp_loop_zt_filter_parse_and_zt_filter_parse_and_loop_zt_filter_parse_or_zt_filter_parse_or_loop_dom"

lemma parse_dom_le:
  "(parse_dom (Inl (Inl (Inl c1))) \<Longrightarrow> fe_le c1 (snd (zt_filter_parse_primary c1)))"
  "(parse_dom (Inl (Inl (Inr (Inl c2)))) \<Longrightarrow> fe_le c2 (snd (zt_filter_parse_unary c2)))"
  "(parse_dom (Inl (Inl (Inr (Inr c3)))) \<Longrightarrow> fe_le c3 (snd (zt_filter_parse_mul c3)))"
  "(parse_dom (Inl (Inr (Inl (l4, c4)))) \<Longrightarrow> fe_le c4 (snd (zt_filter_parse_mul_loop l4 c4)))"
  "(parse_dom (Inl (Inr (Inr (Inl c5)))) \<Longrightarrow> fe_le c5 (snd (zt_filter_parse_add c5)))"
  "(parse_dom (Inl (Inr (Inr (Inr (l6, c6))))) \<Longrightarrow> fe_le c6 (snd (zt_filter_parse_add_loop l6 c6)))"
  "(parse_dom (Inr (Inl (Inl c7))) \<Longrightarrow> fe_le c7 (snd (zt_filter_parse_cmp c7)))"
  "(parse_dom (Inr (Inl (Inr (Inl (l8, c8))))) \<Longrightarrow> fe_le c8 (snd (zt_filter_parse_cmp_loop l8 c8)))"
  "(parse_dom (Inr (Inl (Inr (Inr c9)))) \<Longrightarrow> fe_le c9 (snd (zt_filter_parse_and c9)))"
  "(parse_dom (Inr (Inr (Inl (l10, c10)))) \<Longrightarrow> fe_le c10 (snd (zt_filter_parse_and_loop l10 c10)))"
  "(parse_dom (Inr (Inr (Inr (Inl c11)))) \<Longrightarrow> fe_le c11 (snd (zt_filter_parse_or c11)))"
  "(parse_dom (Inr (Inr (Inr (Inr (l12, c12))))) \<Longrightarrow> fe_le c12 (snd (zt_filter_parse_or_loop l12 c12)))"
proof (induction rule: zt_filter_parse_pinduct)
  case (1 ctx)
  then show ?case
    by (auto simp: zt_filter_parse_primary.psimps zt_filter_take_Some fe_le_def
        case_prod_beta split: option.split)
next
  case (2 ctx)
  then show ?case
    by (auto simp: zt_filter_parse_unary.psimps zt_filter_take_Some fe_le_def
        case_prod_beta split: option.split)
next
  case (3 ctx)
  then show ?case
    by (cases "zt_filter_parse_unary ctx")
      (simp add: zt_filter_parse_mul.psimps, blast intro: fe_le_trans)
next
  case (4 lhs ctx)
  then show ?case
    by (simp add: zt_filter_parse_mul_loop.psimps split: option.split prod.split)
      (auto intro: zt_filter_step_le)
next
  case (5 ctx)
  then show ?case
    by (cases "zt_filter_parse_mul ctx")
      (simp add: zt_filter_parse_add.psimps, blast intro: fe_le_trans)
next
  case (6 lhs ctx)
  then show ?case
    by (simp add: zt_filter_parse_add_loop.psimps split: option.split prod.split)
      (auto intro: zt_filter_step_le)
next
  case (7 ctx)
  then show ?case
    by (cases "zt_filter_parse_add ctx")
      (simp add: zt_filter_parse_cmp.psimps, blast intro: fe_le_trans)
next
  case (8 lhs ctx)
  then show ?case
    by (simp add: zt_filter_parse_cmp_loop.psimps split: option.split prod.split)
      (fastforce intro: zt_filter_step_le(3))
next
  case (9 ctx)
  then show ?case
    by (cases "zt_filter_parse_cmp ctx")
      (simp add: zt_filter_parse_and.psimps, blast intro: fe_le_trans)
next
  case (10 lhs ctx)
  then show ?case
    by (simp add: zt_filter_parse_and_loop.psimps split: option.split prod.split)
      (fastforce intro: zt_filter_skipped_step_le)
next
  case (11 ctx)
  then show ?case
    by (cases "zt_filter_parse_and ctx")
      (simp add: zt_filter_parse_or.psimps, blast intro: fe_le_trans)
next
  case (12 lhs ctx)
  then show ?case
    by (simp add: zt_filter_parse_or_loop.psimps split: option.split prod.split)
      (fastforce intro: zt_filter_skipped_step_le)
qed

lemma parse_dom_left:
  "parse_dom (Inl (Inl (Inr (Inl c)))) \<Longrightarrow> (x, y) = zt_filter_parse_unary c \<Longrightarrow>
     zt_filter_parse_unary c = (x, y) \<and> fe_left y \<le> fe_left c"
  "parse_dom (Inl (Inl (Inr (Inr c)))) \<Longrightarrow> (x, y) = zt_filter_parse_mul c \<Longrightarrow>
     zt_filter_parse_mul c = (x, y) \<and> fe_left y \<le> fe_left c"
  "parse_dom (Inl (Inr (Inr (Inl c)))) \<Longrightarrow> (x, y) = zt_filter_parse_add c \<Longrightarrow>
     zt_filter_parse_add c = (x, y) \<and> fe_left y \<le> fe_left c"
  "parse_dom (Inr (Inl (Inl c))) \<Longrightarrow> (x, y) = zt_filter_parse_cmp c \<Longrightarrow>
     zt_filter_parse_cmp c = (x, y) \<and> fe_left y \<le> fe_left c"
  "parse_dom (Inr (Inl (Inr (Inr c)))) \<Longrightarrow> (x, y) = zt_filter_parse_and c \<Longrightarrow>
     zt_filter_parse_and c = (x, y) \<and> fe_left y \<le> fe_left c"
  by (metis parse_dom_le snd_conv fe_le_left)+

lemma parse_dom_skipped_left:
  "(x, y) = zt_filter_parse_maybe_skipped c skip (\<lambda>c. zt_filter_parse_cmp c) \<Longrightarrow>
   (\<And>c'. c' = c \<or> c' = c\<lparr>fe_eval_enabled := False\<rparr> \<Longrightarrow> parse_dom (Inr (Inl (Inl c')))) \<Longrightarrow>
   fe_left y \<le> fe_left c"
  "(x, y) = zt_filter_parse_maybe_skipped c skip (\<lambda>c. zt_filter_parse_and c) \<Longrightarrow>
   (\<And>c'. c' = c \<or> c' = c\<lparr>fe_eval_enabled := False\<rparr> \<Longrightarrow> parse_dom (Inr (Inl (Inr (Inr c'))))) \<Longrightarrow>
   fe_left y \<le> fe_left c"
  by (rule fe_le_left, rule zt_filter_parse_maybe_skipped_le [OF sym], assumption;
      blast intro: parse_dom_le)+

lemmas zt_filter_parse_wf_rule =
  "zt_filter_parse_primary_zt_filter_parse_unary_zt_filter_parse_mul_zt_filter_parse_mul_loop_zt_filter_parse_add_zt_filter_parse_add_loop_zt_filter_parse_cmp_zt_filter_parse_cmp_loop_zt_filter_parse_and_zt_filter_parse_and_loop_zt_filter_parse_or_zt_filter_parse_or_loop.termination"

lemma zt_filter_parse_total: "All parse_dom"
  by (rule zt_filter_parse_wf_rule [of "measure parse_size"])
    (auto dest!: parse_dom_left parse_dom_skipped_left zt_filter_take_left)

termination zt_filter_parse_primary
  by (rule zt_filter_parse_total)

lemmas zt_filter_parse_induct =
  zt_filter_parse_primary_zt_filter_parse_unary_zt_filter_parse_mul_zt_filter_parse_mul_loop_zt_filter_parse_add_zt_filter_parse_add_loop_zt_filter_parse_cmp_zt_filter_parse_cmp_loop_zt_filter_parse_and_zt_filter_parse_and_loop_zt_filter_parse_or_zt_filter_parse_or_loop.induct

lemmas zt_filter_parse_le = parse_dom_le [OF zt_filter_parse_total [rule_format]]

lemmas zt_filter_parse_simps =
  zt_filter_parse_primary.simps zt_filter_parse_unary.simps zt_filter_parse_mul.simps
  zt_filter_parse_mul_loop.simps zt_filter_parse_add.simps zt_filter_parse_add_loop.simps
  zt_filter_parse_cmp.simps zt_filter_parse_cmp_loop.simps zt_filter_parse_and.simps
  zt_filter_parse_and_loop.simps zt_filter_parse_or.simps zt_filter_parse_or_loop.simps

declare zt_filter_parse_simps [simp del]

section \<open>Compiling\<close>

text \<open>
  \<^verbatim>\<open>zt_filter_validate\<close>: one parse without an event; true stands for the return code 0.
\<close>

definition zt_filter_validate :: "zt_probe_filter_t \<Rightarrow> bool" where
  "zt_filter_validate flt =
     (if fl_enabled flt = 0 \<or> fl_token_count flt = 0 then False
      else
        let ctx = snd (zt_filter_parse_or (zt_filter_eval_init flt None))
        in fe_ok ctx \<and> fe_pos ctx = fl_token_count flt)"

definition zt_filter_append_token ::
  "zt_probe_filter_t \<Rightarrow> zt_probe_filter_token_type_t \<Rightarrow> u64 \<Rightarrow> u8 \<Rightarrow> zt_probe_filter_t option" where
  "zt_filter_append_token flt ty value arg_index =
     (let token = \<lparr>tok_type = ty, tok_arg_index = arg_index, tok_value = value\<rparr>
      in if fl_token_count flt \<ge> ZT_PROBE_FILTER_TOKEN_CAP then None
         else Some (flt\<lparr>fl_tokens := (fl_tokens flt)[fl_token_count flt := token],
                        fl_token_count := fl_token_count flt + 1\<rparr>))"

text \<open>
  The return codes 1, 0 and -1 of the tokenizer functions: a token was appended and the
  cursor moved, the text does not start with this kind of token, or an error.
\<close>

datatype append_result = AppendOk zt_probe_filter_t string | AppendNone | AppendError

fun zt_filter_append_operator ::
  "zt_probe_filter_t \<Rightarrow> string \<Rightarrow> (string \<times> zt_probe_filter_token_type_t) list \<Rightarrow> append_result" where
  "zt_filter_append_operator flt cursor [] = AppendNone"
| "zt_filter_append_operator flt cursor ((op_text, ty) # rules) =
     (if \<not> starts_with cursor op_text then zt_filter_append_operator flt cursor rules
      else case zt_filter_append_token flt ty 0 0 of
          None \<Rightarrow> AppendError
        | Some flt' \<Rightarrow> AppendOk flt' (drop (length op_text) cursor))"

definition zt_filter_append_arg :: "zt_probe_filter_t \<Rightarrow> string \<Rightarrow> append_result" where
  "zt_filter_append_arg flt cursor =
     (if \<not> starts_with cursor ''arg'' \<or> \<not> (3 < length cursor \<and> isdigit (cursor ! 3))
      then AppendNone
      else
        let (index, endptr, _) = strtoull 10 (drop 3 cursor)
        in if drop 3 cursor = endptr \<or> index \<ge> of_nat ZT_TRACE_GP_ARG_COUNT then AppendError
           else case zt_filter_append_token flt ZT_PROBE_FILTER_TOK_ARG 0 (ucast index) of
               None \<Rightarrow> AppendError
             | Some flt' \<Rightarrow> AppendOk flt' endptr)"

definition zt_filter_append_number :: "zt_probe_filter_t \<Rightarrow> string \<Rightarrow> append_result" where
  "zt_filter_append_number flt cursor =
     (if \<not> (cursor \<noteq> [] \<and> isdigit (hd cursor)) then AppendNone
      else
        let (value, endptr, erange) = strtoull 0 cursor
        in if cursor = endptr \<or> erange then AppendError
           else case zt_filter_append_token flt ZT_PROBE_FILTER_TOK_NUM value 0 of
               None \<Rightarrow> AppendError
             | Some flt' \<Rightarrow> AppendOk flt' endptr)"

definition zt_filter_append_next_token :: "zt_probe_filter_t \<Rightarrow> string \<Rightarrow> append_result" where
  "zt_filter_append_next_token flt cursor0 =
     (let cursor = zt_filter_skip_spaces cursor0
      in if cursor = [] then AppendNone
         else case zt_filter_append_arg flt cursor of
           AppendNone \<Rightarrow>
             (case zt_filter_append_number flt cursor of
                AppendNone \<Rightarrow>
                  (case zt_filter_append_operator flt cursor k_two_char_ops of
                     AppendNone \<Rightarrow> zt_filter_append_operator flt cursor k_one_char_ops
                   | r \<Rightarrow> r)
              | r \<Rightarrow> r)
         | r \<Rightarrow> r)"

lemma zt_filter_append_operator_less:
  assumes "zt_filter_append_operator flt s rules = AppendOk flt' s'"
    and "\<forall>(t, ty) \<in> set rules. t \<noteq> []"
  shows "length s' < length s"
  using assms
proof (induction flt s rules rule: zt_filter_append_operator.induct)
  case (2 flt cursor op_text ty rules)
  then show ?case
    by (cases "starts_with cursor op_text") (auto simp: starts_with_iff split: option.splits)
qed simp

lemma k_ops_nonempty:
  "\<forall>(t, ty) \<in> set k_two_char_ops. t \<noteq> []" "\<forall>(t, ty) \<in> set k_one_char_ops. t \<noteq> []"
  by (simp_all add: k_two_char_ops_def k_one_char_ops_def)

lemma zt_filter_append_next_token_less:
  assumes "zt_filter_append_next_token flt s = AppendOk flt' s'"
  shows "length s' < length s"
proof -
  let ?c = "zt_filter_skip_spaces s"
  have "length ?c \<le> length s"
    by (simp add: zt_filter_skip_spaces_def length_dropWhile_le)
  moreover have "length s' < length ?c" if "zt_filter_append_arg flt ?c = AppendOk flt' s'"
    using that strtoull_rest_less [of 10 "drop 3 ?c"]
    by (fastforce simp: zt_filter_append_arg_def Let_def split: if_splits option.splits prod.splits)
  moreover have "length s' < length ?c" if "zt_filter_append_number flt ?c = AppendOk flt' s'"
    using that strtoull_rest_less [of 0 ?c]
    by (auto simp: zt_filter_append_number_def Let_def split: if_splits option.splits prod.splits)
  moreover have "length s' < length ?c"
    if "zt_filter_append_operator flt ?c k_two_char_ops = AppendOk flt' s'"
    using zt_filter_append_operator_less [OF that] k_ops_nonempty by blast
  moreover have "length s' < length ?c"
    if "zt_filter_append_operator flt ?c k_one_char_ops = AppendOk flt' s'"
    using zt_filter_append_operator_less [OF that] k_ops_nonempty by blast
  moreover have "zt_filter_append_arg flt ?c = AppendOk flt' s' \<or>
      zt_filter_append_number flt ?c = AppendOk flt' s' \<or>
      zt_filter_append_operator flt ?c k_two_char_ops = AppendOk flt' s' \<or>
      zt_filter_append_operator flt ?c k_one_char_ops = AppendOk flt' s'"
    using assms
    by (auto simp: zt_filter_append_next_token_def Let_def split: if_splits append_result.splits)
  ultimately show ?thesis by linarith
qed

function zt_filter_compile_loop :: "zt_probe_filter_t \<Rightarrow> string \<Rightarrow> zt_probe_filter_t option" where
  "zt_filter_compile_loop flt p =
     (if p = [] then Some flt
      else case zt_filter_append_next_token flt p of
          AppendOk flt' p' \<Rightarrow> zt_filter_compile_loop flt' p'
        | AppendNone \<Rightarrow> None
        | AppendError \<Rightarrow> None)"
  by pat_completeness auto
termination
  by (relation "measure (\<lambda>(flt, p). length p)") (auto dest: zt_filter_append_next_token_less)

declare zt_filter_compile_loop.simps [simp del]

text \<open>
  \<^verbatim>\<open>zt_probe_filter_compile\<close>: \<open>Some\<close> the compiled filter for the return code 0. On
  -1 the callers discard the partly filled structure.
\<close>

definition zt_probe_filter_compile :: "string option \<Rightarrow> zt_probe_filter_t option" where
  "zt_probe_filter_compile expr =
     (case expr of
        None \<Rightarrow> None
      | Some e \<Rightarrow>
          let p = zt_filter_skip_spaces e
          in if p = [] \<or> length p \<ge> ZT_PROBE_FILTER_EXPR_MAX then None
             else case zt_filter_compile_loop (zero_filter\<lparr>fl_expr := p, fl_enabled := 1\<rparr>) p of
                 None \<Rightarrow> None
               | Some flt \<Rightarrow> if zt_filter_validate flt then Some flt else None)"

section \<open>Evaluating\<close>

definition zt_probe_filter_eval ::
  "zt_probe_filter_t option \<Rightarrow> zt_trace_event_t option \<Rightarrow> bool" where
  "zt_probe_filter_eval flt event =
     (case flt of
        None \<Rightarrow> True
      | Some f \<Rightarrow>
          if fl_enabled f = 0 then True
          else
            let (result, ctx) = zt_filter_parse_or (zt_filter_eval_init f event)
            in if \<not> fe_ok ctx \<or> fe_pos ctx \<noteq> fl_token_count f then False
               else result \<noteq> 0)"

end
