(* ===== verification/ZT_FilterSpec.thy ===== *)
theory ZT_FilterSpec
  imports ZT_Filter
begin

text \<open>
  What a filter means, independent of the parser: expression trees, their value with the
  short-circuit rules of C (\<open>None\<close> is a division by zero in an evaluated operand), and the
  precedence grammar that relates token sequences to trees. The two halves of the proof are
  that every successful parse reads the tokens as a tree of the grammar and returns its
  value, and that every token sequence of the grammar is parsed, in both modes of
  evaluation.
\<close>

section \<open>Expressions and their value\<close>

datatype fexpr =
    FNum u64
  | FArg nat
  | FNot fexpr
  | FMul fexpr fexpr
  | FDiv fexpr fexpr
  | FAdd fexpr fexpr
  | FSub fexpr fexpr
  | FCmp zt_probe_filter_token_type_t fexpr fexpr
  | FAnd fexpr fexpr
  | FOr fexpr fexpr

fun feval :: "(nat \<Rightarrow> u64) \<Rightarrow> fexpr \<Rightarrow> u64 option" where
  "feval env (FNum v) = Some v"
| "feval env (FArg i) = Some (env i)"
| "feval env (FNot a) = map_option (\<lambda>x. of_bool (x = 0)) (feval env a)"
| "feval env (FMul a b) = Option.bind (feval env a) (\<lambda>x. map_option (\<lambda>y. x * y) (feval env b))"
| "feval env (FDiv a b) = Option.bind (feval env a) (\<lambda>x. Option.bind (feval env b)
     (\<lambda>y. if y = 0 then None else Some (x div y)))"
| "feval env (FAdd a b) = Option.bind (feval env a) (\<lambda>x. map_option (\<lambda>y. x + y) (feval env b))"
| "feval env (FSub a b) = Option.bind (feval env a) (\<lambda>x. map_option (\<lambda>y. x - y) (feval env b))"
| "feval env (FCmp ty a b) =
     Option.bind (feval env a) (\<lambda>x. map_option (zt_filter_apply_cmp ty x) (feval env b))"
| "feval env (FAnd a b) = Option.bind (feval env a)
     (\<lambda>x. if x = 0 then Some 0 else map_option (\<lambda>y. of_bool (y \<noteq> 0)) (feval env b))"
| "feval env (FOr a b) = Option.bind (feval env a)
     (\<lambda>x. if x \<noteq> 0 then Some 1 else map_option (\<lambda>y. of_bool (y \<noteq> 0)) (feval env b))"

section \<open>The grammar\<close>

type_synonym tok = zt_probe_filter_token_t

inductive g_primary :: "tok list \<Rightarrow> fexpr \<Rightarrow> bool"
  and g_unary :: "tok list \<Rightarrow> fexpr \<Rightarrow> bool"
  and g_mul :: "tok list \<Rightarrow> fexpr \<Rightarrow> bool"
  and g_add :: "tok list \<Rightarrow> fexpr \<Rightarrow> bool"
  and g_cmp :: "tok list \<Rightarrow> fexpr \<Rightarrow> bool"
  and g_and :: "tok list \<Rightarrow> fexpr \<Rightarrow> bool"
  and g_or :: "tok list \<Rightarrow> fexpr \<Rightarrow> bool"
where
  p_num: "tok_type t = ZT_PROBE_FILTER_TOK_NUM \<Longrightarrow> g_primary [t] (FNum (tok_value t))"
| p_arg: "tok_type t = ZT_PROBE_FILTER_TOK_ARG \<Longrightarrow> g_primary [t] (FArg (unat (tok_arg_index t)))"
| p_paren: "tok_type l = ZT_PROBE_FILTER_TOK_LPAREN \<Longrightarrow> g_or ts e \<Longrightarrow>
    tok_type r = ZT_PROBE_FILTER_TOK_RPAREN \<Longrightarrow> g_primary (l # ts @ [r]) e"
| u_not: "tok_type t = ZT_PROBE_FILTER_TOK_NOT \<Longrightarrow> g_unary ts e \<Longrightarrow> g_unary (t # ts) (FNot e)"
| u_prim: "g_primary ts e \<Longrightarrow> g_unary ts e"
| m_unary: "g_unary ts e \<Longrightarrow> g_mul ts e"
| m_mul: "g_mul ts a \<Longrightarrow> tok_type t = ZT_PROBE_FILTER_TOK_MUL \<Longrightarrow> g_unary us b \<Longrightarrow>
    g_mul (ts @ t # us) (FMul a b)"
| m_div: "g_mul ts a \<Longrightarrow> tok_type t = ZT_PROBE_FILTER_TOK_DIV \<Longrightarrow> g_unary us b \<Longrightarrow>
    g_mul (ts @ t # us) (FDiv a b)"
| a_mul: "g_mul ts e \<Longrightarrow> g_add ts e"
| a_add: "g_add ts a \<Longrightarrow> tok_type t = ZT_PROBE_FILTER_TOK_ADD \<Longrightarrow> g_mul us b \<Longrightarrow>
    g_add (ts @ t # us) (FAdd a b)"
| a_sub: "g_add ts a \<Longrightarrow> tok_type t = ZT_PROBE_FILTER_TOK_SUB \<Longrightarrow> g_mul us b \<Longrightarrow>
    g_add (ts @ t # us) (FSub a b)"
| c_add: "g_add ts e \<Longrightarrow> g_cmp ts e"
| c_cmp: "g_cmp ts a \<Longrightarrow> zt_filter_token_is_cmp (tok_type t) \<Longrightarrow> g_add us b \<Longrightarrow>
    g_cmp (ts @ t # us) (FCmp (tok_type t) a b)"
| n_cmp: "g_cmp ts e \<Longrightarrow> g_and ts e"
| n_and: "g_and ts a \<Longrightarrow> tok_type t = ZT_PROBE_FILTER_TOK_AND \<Longrightarrow> g_cmp us b \<Longrightarrow>
    g_and (ts @ t # us) (FAnd a b)"
| o_and: "g_and ts e \<Longrightarrow> g_or ts e"
| o_or: "g_or ts a \<Longrightarrow> tok_type t = ZT_PROBE_FILTER_TOK_OR \<Longrightarrow> g_and us b \<Longrightarrow>
    g_or (ts @ t # us) (FOr a b)"

text \<open>The tokens of a filter, and its meaning on an event: suppressed on a division by zero.\<close>

definition filter_tokens :: "zt_probe_filter_t \<Rightarrow> tok list" where
  "filter_tokens f = take (fl_token_count f) (fl_tokens f)"

definition filter_meaning :: "fexpr \<Rightarrow> zt_trace_event_t \<Rightarrow> bool" where
  "filter_meaning e ev = (case feval (zt_filter_event_arg (Some ev)) e of
     None \<Rightarrow> False | Some v \<Rightarrow> v \<noteq> 0)"

definition slice :: "nat \<Rightarrow> nat \<Rightarrow> 'a list \<Rightarrow> 'a list" where
  "slice a b xs = take (b - a) (drop a xs)"

abbreviation ftoks :: "zt_filter_eval_t \<Rightarrow> tok list" where
  "ftoks c \<equiv> fl_tokens (fe_filter c)"

abbreviation fenv :: "zt_filter_eval_t \<Rightarrow> nat \<Rightarrow> u64" where
  "fenv c \<equiv> zt_filter_event_arg (fe_event c)"

definition wf_ctx :: "zt_filter_eval_t \<Rightarrow> bool" where
  "wf_ctx c = (fl_token_count (fe_filter c) \<le> length (ftoks c) \<and>
     fe_pos c \<le> fl_token_count (fe_filter c))"

lemma slice_Cons:
  assumes "a < b" and "b \<le> length xs"
  shows "slice a b xs = xs ! a # slice (Suc a) b xs"
proof -
  have "drop a xs = xs ! a # drop (Suc a) xs"
    using assms by (simp add: Cons_nth_drop_Suc)
  moreover have "b - a = Suc (b - Suc a)"
    using assms by simp
  ultimately show ?thesis by (simp add: slice_def)
qed

lemma slice_append:
  assumes "a \<le> b" and "b \<le> c"
  shows "slice a c xs = slice a b xs @ slice b c xs"
proof -
  have "c - a = (b - a) + (c - b)" and "b = a + (b - a)"
    using assms by simp_all
  then show ?thesis
    unfolding slice_def by (metis drop_drop add.commute take_add)
qed

lemma slice_self [simp]: "slice a a xs = []"
  by (simp add: slice_def)

lemma slice_op:
  assumes "a \<le> b" and "b < c" and "c \<le> length xs"
  shows "slice a c xs = slice a b xs @ xs ! b # slice (Suc b) c xs"
  using assms slice_append [of a b c xs] slice_Cons [of b c xs] by simp

lemma wf_ctx_le: "wf_ctx c \<Longrightarrow> fe_le c c' \<Longrightarrow> wf_ctx c'"
  by (auto simp: wf_ctx_def fe_le_def)

section \<open>Every successful parse reads a tree of the grammar\<close>

text \<open>
  Shown for the validating mode (evaluation off), where no operand is skipped. \<open>sound\<close> is
  about a parse function, \<open>sound_loop\<close> about a loop whose left operand is already a tree.
\<close>

definition sound ::
  "(tok list \<Rightarrow> fexpr \<Rightarrow> bool) \<Rightarrow> (zt_filter_eval_t \<Rightarrow> u64 \<times> zt_filter_eval_t) \<Rightarrow>
   zt_filter_eval_t \<Rightarrow> bool" where
  "sound g f c \<longleftrightarrow> (\<not> fe_eval_enabled c \<longrightarrow> wf_ctx c \<longrightarrow> fe_ok (snd (f c)) \<longrightarrow>
     (\<exists>e. g (slice (fe_pos c) (fe_pos (snd (f c))) (ftoks c)) e))"

definition sound_loop ::
  "(tok list \<Rightarrow> fexpr \<Rightarrow> bool) \<Rightarrow> (u64 \<Rightarrow> zt_filter_eval_t \<Rightarrow> u64 \<times> zt_filter_eval_t) \<Rightarrow>
   u64 \<Rightarrow> zt_filter_eval_t \<Rightarrow> bool" where
  "sound_loop g f lhs c \<longleftrightarrow> (\<not> fe_eval_enabled c \<longrightarrow> wf_ctx c \<longrightarrow> fe_ok (snd (f lhs c)) \<longrightarrow>
     (\<forall>a e0. a \<le> fe_pos c \<longrightarrow> g (slice a (fe_pos c) (ftoks c)) e0 \<longrightarrow>
       (\<exists>e. g (slice a (fe_pos (snd (f lhs c))) (ftoks c)) e)))"

lemma sound_chain:
  assumes f: "sound g1 f c" and l: "\<And>lhs c1. f c = (lhs, c1) \<Longrightarrow> sound_loop g loop lhs c1"
    and le: "fe_le c (snd (f c))" and lle: "\<And>l c. fe_le c (snd (loop l c))"
    and sub: "\<And>ts e. g1 ts e \<Longrightarrow> g ts e"
    and p: "p c = (case f c of (l, c1) \<Rightarrow> loop l c1)"
  shows "sound g p c"
  unfolding sound_def
proof (intro impI, goal_cases)
  case 1
  obtain lhs c1 where fc: "f c = (lhs, c1)" by fastforce
  have ok: "fe_ok c1" and pc: "p c = loop lhs c1"
    using 1(3) p fc lle [of c1 lhs] by (auto simp: fe_le_def)
  obtain e0 where "g1 (slice (fe_pos c) (fe_pos c1) (ftoks c)) e0"
    using f 1(1,2) ok fc by (auto simp: sound_def)
  moreover have "\<not> fe_eval_enabled c1" "ftoks c1 = ftoks c" "fe_pos c \<le> fe_pos c1" "wf_ctx c1"
    using 1(1,2) le fc wf_ctx_le [of c c1] by (auto simp: fe_le_def)
  ultimately show ?case
    using l [OF fc] sub 1(3) pc unfolding sound_loop_def by metis
qed

lemma sound_step:
  assumes t: "zt_filter_take c ty = Some c1 \<or> zt_filter_take_cmp c = Some (ty, c1)"
    and f: "sound g' f c1" and fc: "f c1 = (r, c2)" and le: "fe_le c1 c2"
    and rest: "\<not> fe_eval_enabled c2 \<Longrightarrow> sound_loop g loop lhs' c2"
    and lle: "fe_le c2 (snd (loop lhs' c2))"
    and rule: "\<And>ts a us b. g ts a \<Longrightarrow> tok_type (ftoks c ! fe_pos c) = ty \<Longrightarrow> g' us b \<Longrightarrow>
      \<exists>e. g (ts @ ftoks c ! fe_pos c # us) e"
    and run: "\<not> fe_eval_enabled c2 \<Longrightarrow> loop lhs c = loop lhs' c2"
  shows "sound_loop g loop lhs c"
  unfolding sound_loop_def
proof (intro impI allI, goal_cases)
  case (1 a e0)
  have pos: "fe_pos c < fl_token_count (fe_filter c)" and ty: "tok_type (ftoks c ! fe_pos c) = ty"
    and c1: "c1 = c\<lparr>fe_pos := Suc (fe_pos c)\<rparr>"
    using t by (auto simp: zt_filter_take_Some zt_filter_take_cmp_Some)
  have c2: "\<not> fe_eval_enabled c2" "ftoks c2 = ftoks c" "Suc (fe_pos c) \<le> fe_pos c2"
    using 1(1) le by (auto simp: fe_le_def c1)
  have ok: "fe_ok c2" using 1(3) run [OF c2(1)] lle by (auto simp: fe_le_def)
  have wf1: "wf_ctx c1" using 1(2) pos by (simp add: wf_ctx_def c1)
  obtain b where gb: "g' (slice (Suc (fe_pos c)) (fe_pos c2) (ftoks c)) b"
    using f fc ok wf1 1(1) by (auto simp: sound_def c1)
  have wf2: "wf_ctx c2" using wf1 le wf_ctx_le by blast
  have "slice a (fe_pos c2) (ftoks c) =
      slice a (fe_pos c) (ftoks c) @ ftoks c ! fe_pos c # slice (Suc (fe_pos c)) (fe_pos c2) (ftoks c)"
    using 1(4) c2 wf2 by (intro slice_op) (auto simp: wf_ctx_def)
  with rule [OF 1(5) ty gb] obtain e where "g (slice a (fe_pos c2) (ftoks c)) e" by auto
  moreover have "a \<le> fe_pos c2" using 1(4) c2(3) by simp
  ultimately show ?case
    using rest [OF c2(1)] 1(3) run c2 wf2 unfolding sound_loop_def by auto
qed

lemma sound_stop:
  assumes "loop lhs c = (lhs, c)"
  shows "sound_loop g loop lhs c"
  using assms by (auto simp: sound_loop_def)

lemma sound_primary:
  assumes "\<And>c1. zt_filter_take c ZT_PROBE_FILTER_TOK_LPAREN = Some c1 \<Longrightarrow> sound g_or zt_filter_parse_or c1"
  shows "sound g_primary zt_filter_parse_primary c"
  unfolding sound_def
proof (intro impI, goal_cases)
  case 1
  let ?t = "ftoks c ! fe_pos c"
  define c1 where "c1 = c\<lparr>fe_pos := Suc (fe_pos c)\<rparr>"
  have pos: "fe_pos c < fl_token_count (fe_filter c)"
    using 1(3) by (auto simp: zt_filter_parse_primary.simps zt_filter_peek_def split: if_splits)
  then have len: "fe_pos c < length (ftoks c)" and pk: "zt_filter_peek c = Some ?t"
    and wf1: "wf_ctx c1"
    using 1(2) by (auto simp: wf_ctx_def zt_filter_peek_def c1_def)
  have tk: "zt_filter_take c ty = (if tok_type ?t = ty then Some c1 else None)" for ty
    using pk by (simp add: zt_filter_take_def c1_def)
  consider "tok_type ?t = ZT_PROBE_FILTER_TOK_NUM" | "tok_type ?t = ZT_PROBE_FILTER_TOK_ARG"
    | "tok_type ?t = ZT_PROBE_FILTER_TOK_LPAREN"
    using 1(3) pk tk by (auto simp: zt_filter_parse_primary.simps split: if_splits)
  then show ?case
  proof cases
    case 1
    with len pk tk show ?thesis
      by (auto simp: zt_filter_parse_primary.simps c1_def slice_Cons intro: p_num)
  next
    case 2
    with len pk tk show ?thesis
      by (auto simp: zt_filter_parse_primary.simps c1_def slice_Cons intro: p_arg)
  next
    case 3
    obtain v c2 where p: "zt_filter_parse_or c1 = (v, c2)" by fastforce
    then obtain c3 where t3: "zt_filter_take c2 ZT_PROBE_FILTER_TOK_RPAREN = Some c3" and ok: "fe_ok c3"
        and run: "snd (zt_filter_parse_primary c) = c3"
      using 1(3) 3 pk tk by (auto simp: zt_filter_parse_primary.simps split: option.splits)
    have c3: "fe_pos c2 < fl_token_count (fe_filter c2)" "c3 = c2\<lparr>fe_pos := Suc (fe_pos c2)\<rparr>"
        "tok_type (ftoks c2 ! fe_pos c2) = ZT_PROBE_FILTER_TOK_RPAREN"
      using t3 by (auto simp: zt_filter_take_Some)
    have c2: "ftoks c2 = ftoks c" "Suc (fe_pos c) \<le> fe_pos c2"
        "fl_token_count (fe_filter c2) \<le> length (ftoks c)"
      using zt_filter_parse_le(11) [of c1] p wf1 by (auto simp: fe_le_def wf_ctx_def c1_def)
    obtain e where "g_or (slice (Suc (fe_pos c)) (fe_pos c2) (ftoks c)) e"
      using assms tk 3 p ok c3 wf1 \<open>\<not> fe_eval_enabled c\<close> by (auto simp: sound_def c1_def)
    moreover have "slice (fe_pos c) (Suc (fe_pos c2)) (ftoks c) =
        ?t # slice (Suc (fe_pos c)) (fe_pos c2) (ftoks c) @ [ftoks c ! fe_pos c2]"
      using slice_op [of "Suc (fe_pos c)" "fe_pos c2" "Suc (fe_pos c2)" "ftoks c"] c2 c3
        slice_Cons [of "fe_pos c" "Suc (fe_pos c2)" "ftoks c"] by simp
    ultimately show ?thesis
      using p_paren [OF 3] c3 c2(1) run by fastforce
  qed
qed

lemma sound_unary:
  assumes p: "zt_filter_take c ZT_PROBE_FILTER_TOK_NOT = None \<Longrightarrow> sound g_primary zt_filter_parse_primary c"
    and u: "\<And>c1. zt_filter_take c ZT_PROBE_FILTER_TOK_NOT = Some c1 \<Longrightarrow> sound g_unary zt_filter_parse_unary c1"
  shows "sound g_unary zt_filter_parse_unary c"
proof (cases "zt_filter_take c ZT_PROBE_FILTER_TOK_NOT")
  case None
  with p [OF None] show ?thesis
    by (auto simp: sound_def zt_filter_parse_unary.simps [of c] intro: u_prim)
next
  case (Some c1)
  show ?thesis
    unfolding sound_def
  proof (intro impI, goal_cases)
    case 1
    obtain v c2 where pu: "zt_filter_parse_unary c1 = (v, c2)" by fastforce
    have run: "snd (zt_filter_parse_unary c) = c2"
      using pu Some by (simp add: zt_filter_parse_unary.simps [of c])
    have c1: "fe_pos c < fl_token_count (fe_filter c)" "c1 = c\<lparr>fe_pos := Suc (fe_pos c)\<rparr>"
        "tok_type (ftoks c ! fe_pos c) = ZT_PROBE_FILTER_TOK_NOT"
      using Some by (auto simp: zt_filter_take_Some)
    have wf1: "wf_ctx c1" using 1(2) c1 by (simp add: wf_ctx_def)
    obtain e where "g_unary (slice (Suc (fe_pos c)) (fe_pos c2) (ftoks c)) e"
      using u [OF Some] pu run 1 c1 wf1 by (auto simp: sound_def)
    moreover have "slice (fe_pos c) (fe_pos c2) (ftoks c) =
        ftoks c ! fe_pos c # slice (Suc (fe_pos c)) (fe_pos c2) (ftoks c)"
      using c1 wf1 zt_filter_parse_le(2) [of c1] pu
      by (intro slice_Cons) (auto simp: fe_le_def wf_ctx_def)
    ultimately show ?case using u_not [OF c1(3)] run by fastforce
  qed
qed

lemma loop_bad:
  "\<not> fe_ok c \<Longrightarrow> zt_filter_parse_mul_loop l c = (l, c)"
  "\<not> fe_ok c \<Longrightarrow> zt_filter_parse_add_loop l c = (l, c)"
  "\<not> fe_ok c \<Longrightarrow> zt_filter_parse_cmp_loop l c = (l, c)"
  "\<not> fe_ok c \<Longrightarrow> zt_filter_parse_and_loop l c = (l, c)"
  "\<not> fe_ok c \<Longrightarrow> zt_filter_parse_or_loop l c = (l, c)"
  by (simp_all add: zt_filter_parse_simps)

lemma skipped_simps:
  "zt_filter_parse_maybe_skipped c False f = f c"
  "zt_filter_parse_maybe_skipped c True f =
    (fst (f (c\<lparr>fe_eval_enabled := False\<rparr>)),
     (snd (f (c\<lparr>fe_eval_enabled := False\<rparr>)))\<lparr>fe_eval_enabled := fe_eval_enabled c\<rparr>)"
  by (simp_all add: zt_filter_parse_maybe_skipped_def zt_filter_parse_with_eval_def
      zt_filter_set_eval_enabled_def case_prod_beta)

lemma sound_mul_loop:
  assumes u: "\<And>c1. fe_ok c \<Longrightarrow> zt_filter_take c ZT_PROBE_FILTER_TOK_MUL = Some c1 \<Longrightarrow> sound g_unary zt_filter_parse_unary c1"
    and v: "\<And>c1. fe_ok c \<Longrightarrow> zt_filter_take c ZT_PROBE_FILTER_TOK_MUL = None \<Longrightarrow>
      zt_filter_take c ZT_PROBE_FILTER_TOK_DIV = Some c1 \<Longrightarrow> sound g_unary zt_filter_parse_unary c1"
    and m: "\<And>c1 r c2. fe_ok c \<Longrightarrow> zt_filter_take c ZT_PROBE_FILTER_TOK_MUL = Some c1 \<Longrightarrow>
      zt_filter_parse_unary c1 = (r, c2) \<Longrightarrow> sound_loop g_mul zt_filter_parse_mul_loop (lhs * r) c2"
    and d: "\<And>c1 r c2. fe_ok c \<Longrightarrow> zt_filter_take c ZT_PROBE_FILTER_TOK_MUL = None \<Longrightarrow>
      zt_filter_take c ZT_PROBE_FILTER_TOK_DIV = Some c1 \<Longrightarrow> zt_filter_parse_unary c1 = (r, c2) \<Longrightarrow>
      \<not> fe_eval_enabled c2 \<Longrightarrow> sound_loop g_mul zt_filter_parse_mul_loop (0) c2"
  shows "sound_loop g_mul zt_filter_parse_mul_loop lhs c"
proof -
  note run = zt_filter_parse_mul_loop.simps [of lhs c]
  have le: "fe_le c1 c2" if "zt_filter_parse_unary c1 = (r, c2)" for c1 c2 r
    using zt_filter_parse_le(2) [of c1] that by simp
  consider "\<not> fe_ok c" | c1 where "fe_ok c" "zt_filter_take c ZT_PROBE_FILTER_TOK_MUL = Some c1"
    | c1 where "fe_ok c" "zt_filter_take c ZT_PROBE_FILTER_TOK_MUL = None" "zt_filter_take c ZT_PROBE_FILTER_TOK_DIV = Some c1"
    | "zt_filter_take c ZT_PROBE_FILTER_TOK_MUL = None" "zt_filter_take c ZT_PROBE_FILTER_TOK_DIV = None"
    by (cases "zt_filter_take c ZT_PROBE_FILTER_TOK_MUL"; cases "zt_filter_take c ZT_PROBE_FILTER_TOK_DIV") auto
  then show ?thesis
  proof cases
    case (2 c1)
    obtain r c2 where p: "zt_filter_parse_unary c1 = (r, c2)" by fastforce
    show ?thesis
      by (rule sound_step [OF disjI1 [OF 2(2)] u [OF 2] p le [OF p] m [OF 2 p]])
        (use 2 p run in \<open>auto simp: zt_filter_parse_le intro: m_mul\<close>)
  next
    case (3 c1)
    obtain r c2 where p: "zt_filter_parse_unary c1 = (r, c2)" by fastforce
    show ?thesis
      by (rule sound_step [OF disjI1 [OF 3(3)] v [OF 3] p le [OF p] d [OF 3 p]])
        (use 3 p run in \<open>auto simp: zt_filter_parse_le intro: m_div\<close>)
  qed (auto intro!: sound_stop simp: run)
qed

lemma sound_add_loop:
  assumes u: "\<And>c1. fe_ok c \<Longrightarrow> zt_filter_take c ZT_PROBE_FILTER_TOK_ADD = Some c1 \<Longrightarrow> sound g_mul zt_filter_parse_mul c1"
    and v: "\<And>c1. fe_ok c \<Longrightarrow> zt_filter_take c ZT_PROBE_FILTER_TOK_ADD = None \<Longrightarrow>
      zt_filter_take c ZT_PROBE_FILTER_TOK_SUB = Some c1 \<Longrightarrow> sound g_mul zt_filter_parse_mul c1"
    and m: "\<And>c1 r c2. fe_ok c \<Longrightarrow> zt_filter_take c ZT_PROBE_FILTER_TOK_ADD = Some c1 \<Longrightarrow>
      zt_filter_parse_mul c1 = (r, c2) \<Longrightarrow> sound_loop g_add zt_filter_parse_add_loop (lhs + r) c2"
    and d: "\<And>c1 r c2. fe_ok c \<Longrightarrow> zt_filter_take c ZT_PROBE_FILTER_TOK_ADD = None \<Longrightarrow>
      zt_filter_take c ZT_PROBE_FILTER_TOK_SUB = Some c1 \<Longrightarrow> zt_filter_parse_mul c1 = (r, c2) \<Longrightarrow>
      \<not> fe_eval_enabled c2 \<Longrightarrow> sound_loop g_add zt_filter_parse_add_loop (lhs - r) c2"
  shows "sound_loop g_add zt_filter_parse_add_loop lhs c"
proof -
  note run = zt_filter_parse_add_loop.simps [of lhs c]
  have le: "fe_le c1 c2" if "zt_filter_parse_mul c1 = (r, c2)" for c1 c2 r
    using zt_filter_parse_le(3) [of c1] that by simp
  consider "\<not> fe_ok c" | c1 where "fe_ok c" "zt_filter_take c ZT_PROBE_FILTER_TOK_ADD = Some c1"
    | c1 where "fe_ok c" "zt_filter_take c ZT_PROBE_FILTER_TOK_ADD = None" "zt_filter_take c ZT_PROBE_FILTER_TOK_SUB = Some c1"
    | "zt_filter_take c ZT_PROBE_FILTER_TOK_ADD = None" "zt_filter_take c ZT_PROBE_FILTER_TOK_SUB = None"
    by (cases "zt_filter_take c ZT_PROBE_FILTER_TOK_ADD"; cases "zt_filter_take c ZT_PROBE_FILTER_TOK_SUB") auto
  then show ?thesis
  proof cases
    case (2 c1)
    obtain r c2 where p: "zt_filter_parse_mul c1 = (r, c2)" by fastforce
    show ?thesis
      by (rule sound_step [OF disjI1 [OF 2(2)] u [OF 2] p le [OF p] m [OF 2 p]])
        (use 2 p run in \<open>auto simp: zt_filter_parse_le intro: a_add\<close>)
  next
    case (3 c1)
    obtain r c2 where p: "zt_filter_parse_mul c1 = (r, c2)" by fastforce
    show ?thesis
      by (rule sound_step [OF disjI1 [OF 3(3)] v [OF 3] p le [OF p] d [OF 3 p]])
        (use 3 p run in \<open>auto simp: zt_filter_parse_le intro: a_sub\<close>)
  qed (auto intro!: sound_stop simp: run)
qed

lemma zt_filter_take_cmp_is_cmp: "zt_filter_take_cmp c = Some (ty, c1) \<Longrightarrow> zt_filter_token_is_cmp ty"
  by (auto simp: zt_filter_take_cmp_Some)

lemma sound_cmp_loop:
  assumes u: "\<And>c1 ty. fe_ok c \<Longrightarrow> zt_filter_take_cmp c = Some (ty, c1) \<Longrightarrow> sound g_add zt_filter_parse_add c1"
    and m: "\<And>c1 ty r c2. fe_ok c \<Longrightarrow> zt_filter_take_cmp c = Some (ty, c1) \<Longrightarrow> 
      zt_filter_parse_add c1 = (r, c2) \<Longrightarrow> sound_loop g_cmp zt_filter_parse_cmp_loop (zt_filter_apply_cmp ty lhs r) c2"
  shows "sound_loop g_cmp zt_filter_parse_cmp_loop lhs c"
proof -
  note run = zt_filter_parse_cmp_loop.simps [of lhs c]
  consider "\<not> fe_ok c" | c1 ty where "fe_ok c" "zt_filter_take_cmp c = Some (ty, c1)" | "zt_filter_take_cmp c = None"
    by fastforce
  then show ?thesis
  proof cases
    case (2 c1 ty)
    obtain r c2 where p: "zt_filter_parse_add c1 = (r, c2)" by fastforce
    have le: "fe_le c1 c2" using zt_filter_parse_le(5) [of c1] p by simp
    have en: "\<not> fe_eval_enabled c2 \<Longrightarrow> \<not> fe_eval_enabled c1" using le by (simp add: fe_le_def)
    show ?thesis
      by (rule sound_step [OF disjI2 [OF 2(2)] u [OF 2] p le m [OF 2 p]])
        (use 2 p run in \<open>auto simp: zt_filter_parse_le dest: zt_filter_take_cmp_is_cmp intro: c_cmp\<close>)
  qed (auto intro!: sound_stop simp: run)
qed

lemma sound_and_loop:
  assumes u: "\<And>c1. fe_ok c \<Longrightarrow> zt_filter_take c ZT_PROBE_FILTER_TOK_AND = Some c1 \<Longrightarrow> sound g_cmp zt_filter_parse_cmp c1"
    and m: "\<And>c1 r c2. fe_ok c \<Longrightarrow> zt_filter_take c ZT_PROBE_FILTER_TOK_AND = Some c1 \<Longrightarrow> \<not> fe_eval_enabled c1 \<Longrightarrow> 
      zt_filter_parse_cmp c1 = (r, c2) \<Longrightarrow> sound_loop g_and zt_filter_parse_and_loop (of_bool (lhs \<noteq> 0 \<and> r \<noteq> 0)) c2"
  shows "sound_loop g_and zt_filter_parse_and_loop lhs c"
proof -
  note run = zt_filter_parse_and_loop.simps [of lhs c]
  consider "\<not> fe_ok c" | c1 where "fe_ok c" "zt_filter_take c ZT_PROBE_FILTER_TOK_AND = Some c1" | "zt_filter_take c ZT_PROBE_FILTER_TOK_AND = None"
    by fastforce
  then show ?thesis
  proof cases
    case (2 c1)
    obtain r c2 where p: "zt_filter_parse_cmp c1 = (r, c2)" by fastforce
    have le: "fe_le c1 c2" using zt_filter_parse_le(7) [of c1] p by simp
    have en: "\<not> fe_eval_enabled c2 \<Longrightarrow> \<not> fe_eval_enabled c1" using le by (simp add: fe_le_def)
    show ?thesis
      by (rule sound_step [OF disjI1 [OF 2(2)] u [OF 2] p le m [OF 2 _ p]])
        (use 2 p run en in \<open>auto simp: zt_filter_parse_le skipped_simps intro: n_and\<close>)
  qed (auto intro!: sound_stop simp: run)
qed

lemma sound_or_loop:
  assumes u: "\<And>c1. fe_ok c \<Longrightarrow> zt_filter_take c ZT_PROBE_FILTER_TOK_OR = Some c1 \<Longrightarrow> sound g_and zt_filter_parse_and c1"
    and m: "\<And>c1 r c2. fe_ok c \<Longrightarrow> zt_filter_take c ZT_PROBE_FILTER_TOK_OR = Some c1 \<Longrightarrow> \<not> fe_eval_enabled c1 \<Longrightarrow> 
      zt_filter_parse_and c1 = (r, c2) \<Longrightarrow> sound_loop g_or zt_filter_parse_or_loop (of_bool (lhs \<noteq> 0 \<or> r \<noteq> 0)) c2"
  shows "sound_loop g_or zt_filter_parse_or_loop lhs c"
proof -
  note run = zt_filter_parse_or_loop.simps [of lhs c]
  consider "\<not> fe_ok c" | c1 where "fe_ok c" "zt_filter_take c ZT_PROBE_FILTER_TOK_OR = Some c1" | "zt_filter_take c ZT_PROBE_FILTER_TOK_OR = None"
    by fastforce
  then show ?thesis
  proof cases
    case (2 c1)
    obtain r c2 where p: "zt_filter_parse_and c1 = (r, c2)" by fastforce
    have le: "fe_le c1 c2" using zt_filter_parse_le(9) [of c1] p by simp
    have en: "\<not> fe_eval_enabled c2 \<Longrightarrow> \<not> fe_eval_enabled c1" using le by (simp add: fe_le_def)
    show ?thesis
      by (rule sound_step [OF disjI1 [OF 2(2)] u [OF 2] p le m [OF 2 _ p]])
        (use 2 p run en in \<open>auto simp: zt_filter_parse_le skipped_simps intro: o_or\<close>)
  qed (auto intro!: sound_stop simp: run)
qed

lemma zt_filter_parse_sound:
  "sound g_primary zt_filter_parse_primary p1"
  "sound g_unary zt_filter_parse_unary p2"
  "sound g_mul zt_filter_parse_mul p3"
  "sound_loop g_mul zt_filter_parse_mul_loop l4 p4"
  "sound g_add zt_filter_parse_add p5"
  "sound_loop g_add zt_filter_parse_add_loop l6 p6"
  "sound g_cmp zt_filter_parse_cmp p7"
  "sound_loop g_cmp zt_filter_parse_cmp_loop l8 p8"
  "sound g_and zt_filter_parse_and p9"
  "sound_loop g_and zt_filter_parse_and_loop l10 p10"
  "sound g_or zt_filter_parse_or p11"
  "sound_loop g_or zt_filter_parse_or_loop l12 p12"
proof (induction p1 and p2 and p3 and l4 p4 and p5 and l6 p6 and p7 and l8 p8 and p9 and l10 p10
    and p11 and l12 p12 rule: zt_filter_parse_induct)
  case (1 ctx)
  show ?case
    by (rule sound_primary) (rule 1, auto simp: zt_filter_take_def zt_filter_peek_def split: if_splits)
next
  case (2 ctx)
  show ?case by (rule sound_unary) (erule 2)+
next
  case (3 ctx)
  show ?case
    by (rule sound_chain [OF 3(1)]) (use 3(2) in \<open>auto simp: zt_filter_parse_le zt_filter_parse_mul.simps intro: m_unary\<close>)
next
  case (4 lhs ctx)
  show ?case
    by (rule sound_mul_loop) (auto intro: 4)
next
  case (5 ctx)
  show ?case
    by (rule sound_chain [OF 5(1)]) (use 5(2) in \<open>auto simp: zt_filter_parse_le zt_filter_parse_add.simps intro: a_mul\<close>)
next
  case (6 lhs ctx)
  show ?case
    by (rule sound_add_loop) (auto intro: 6)
next
  case (7 ctx)
  show ?case
    by (rule sound_chain [OF 7(1)]) (use 7(2) in \<open>auto simp: zt_filter_parse_le zt_filter_parse_cmp.simps intro: c_add\<close>)
next
  case (8 lhs ctx)
  show ?case
    by (rule sound_cmp_loop) (auto intro: 8)
next
  case (9 ctx)
  show ?case
    by (rule sound_chain [OF 9(1)]) (use 9(2) in \<open>auto simp: zt_filter_parse_le zt_filter_parse_and.simps intro: n_cmp\<close>)
next
  case (10 lhs ctx)
  show ?case
  proof (rule sound_and_loop)
    fix c1
    assume t: "fe_ok ctx" "zt_filter_take ctx ZT_PROBE_FILTER_TOK_AND = Some c1"
    then show "sound g_cmp zt_filter_parse_cmp c1"
      using "10.IH"(1) by blast
    show "sound_loop g_and zt_filter_parse_and_loop (of_bool (lhs \<noteq> 0 \<and> r \<noteq> 0)) c2"
      if "\<not> fe_eval_enabled c1" "zt_filter_parse_cmp c1 = (r, c2)" for r c2
      using "10.IH"(2) [of c1 r c2] t that by (simp add: skipped_simps)
  qed
next
  case (11 ctx)
  show ?case
    by (rule sound_chain [OF 11(1)]) (use 11(2) in \<open>auto simp: zt_filter_parse_le zt_filter_parse_or.simps intro: o_and\<close>)
next
  case (12 lhs ctx)
  show ?case
  proof (rule sound_or_loop)
    fix c1
    assume t: "fe_ok ctx" "zt_filter_take ctx ZT_PROBE_FILTER_TOK_OR = Some c1"
    then show "sound g_and zt_filter_parse_and c1"
      using "12.IH"(1) by blast
    show "sound_loop g_or zt_filter_parse_or_loop (of_bool (lhs \<noteq> 0 \<or> r \<noteq> 0)) c2"
      if "\<not> fe_eval_enabled c1" "zt_filter_parse_and c1 = (r, c2)" for r c2
      using "12.IH"(2) [of c1 r c2] t that by (simp add: skipped_simps)
  qed
qed

section \<open>Every token sequence of the grammar is parsed\<close>

definition adv :: "nat \<Rightarrow> zt_filter_eval_t \<Rightarrow> zt_filter_eval_t" where
  "adv n c = c\<lparr>fe_pos := fe_pos c + n\<rparr>"

text \<open>The tokens at the cursor start with \<open>us\<close>.\<close>

definition at :: "zt_filter_eval_t \<Rightarrow> tok list \<Rightarrow> bool" where
  "at c us \<longleftrightarrow> fl_token_count (fe_filter c) \<le> length (ftoks c) \<and>
     fe_pos c + length us \<le> fl_token_count (fe_filter c) \<and>
     take (length us) (drop (fe_pos c) (ftoks c)) = us"

definition follow :: "zt_filter_eval_t \<Rightarrow> (zt_probe_filter_token_type_t \<Rightarrow> bool) \<Rightarrow> bool" where
  "follow c F \<longleftrightarrow> (case zt_filter_peek c of None \<Rightarrow> True | Some t \<Rightarrow> \<not> F (tok_type t))"

text \<open>
  A parse function that starts at a tree \<open>e\<close> of \<open>n\<close> tokens arrives at its loop behind the
  tree, with the value of the tree when evaluation is on; it fails exactly when the tree has
  no value.
\<close>

definition reaches ::
  "fexpr \<Rightarrow> nat \<Rightarrow> (zt_filter_eval_t \<Rightarrow> u64 \<times> zt_filter_eval_t) \<Rightarrow>
   (u64 \<Rightarrow> zt_filter_eval_t \<Rightarrow> u64 \<times> zt_filter_eval_t) \<Rightarrow> zt_filter_eval_t \<Rightarrow> bool" where
  "reaches e n parse loop c \<longleftrightarrow>
     (if fe_eval_enabled c
      then case feval (fenv c) e of
          Some v \<Rightarrow> parse c = loop v (adv n c)
        | None \<Rightarrow> \<not> fe_ok (snd (parse c))
      else \<exists>v. parse c = loop v (adv n c))"

lemma adv_simps [simp]:
  "fe_filter (adv n c) = fe_filter c" "fe_event (adv n c) = fe_event c"
  "fe_ok (adv n c) = fe_ok c" "fe_eval_enabled (adv n c) = fe_eval_enabled c"
  "fe_pos (adv n c) = fe_pos c + n"
  "adv m (adv n c) = adv (n + m) c"
  "(adv n c)\<lparr>fe_eval_enabled := b\<rparr> = adv n (c\<lparr>fe_eval_enabled := b\<rparr>)"
  by (simp_all add: adv_def add.assoc)

lemma at_eval_enabled [simp]: "at (c\<lparr>fe_eval_enabled := b\<rparr>) us = at c us"
  by (simp add: at_def)

lemma follow_eval_enabled [simp]: "follow (c\<lparr>fe_eval_enabled := b\<rparr>) F = follow c F"
  by (simp add: follow_def zt_filter_peek_def)

lemma at_Cons: "at c (t # us) \<Longrightarrow> zt_filter_peek c = Some t \<and> at (adv 1 c) us"
  by (cases "drop (fe_pos c) (ftoks c)")
    (auto simp: at_def zt_filter_peek_def nth_via_drop drop_Suc drop_tl simp flip: drop_drop)

lemma at_append: "at c (ts @ us) \<Longrightarrow> at c ts \<and> at (adv (length ts) c) us"
  by (auto simp: at_def take_add add.commute append_eq_append_conv)

lemma take_peek:
  "zt_filter_peek c = Some t \<Longrightarrow>
   zt_filter_take c ty = (if tok_type t = ty then Some (adv 1 c) else None)"
  "zt_filter_peek c = Some t \<Longrightarrow>
   zt_filter_take_cmp c = (if zt_filter_token_is_cmp (tok_type t) then Some (tok_type t, adv 1 c) else None)"
  by (auto simp: zt_filter_take_def zt_filter_take_cmp_def adv_def)

lemma follow_take: "follow c F \<Longrightarrow> F ty \<Longrightarrow> zt_filter_take c ty = None"
  by (auto simp: follow_def zt_filter_take_def split: option.splits)

definition fol_mul :: "zt_probe_filter_token_type_t \<Rightarrow> bool" where
  "fol_mul t = (t = ZT_PROBE_FILTER_TOK_MUL \<or> t = ZT_PROBE_FILTER_TOK_DIV)"

definition fol_add :: "zt_probe_filter_token_type_t \<Rightarrow> bool" where
  "fol_add t = (fol_mul t \<or> t = ZT_PROBE_FILTER_TOK_ADD \<or> t = ZT_PROBE_FILTER_TOK_SUB)"

definition fol_cmp :: "zt_probe_filter_token_type_t \<Rightarrow> bool" where
  "fol_cmp t = (fol_add t \<or> zt_filter_token_is_cmp t)"

definition fol_and :: "zt_probe_filter_token_type_t \<Rightarrow> bool" where
  "fol_and t = (fol_cmp t \<or> t = ZT_PROBE_FILTER_TOK_AND)"

definition fol_or :: "zt_probe_filter_token_type_t \<Rightarrow> bool" where
  "fol_or t = (fol_and t \<or> t = ZT_PROBE_FILTER_TOK_OR)"

lemmas fol_defs = fol_mul_def fol_add_def fol_cmp_def fol_and_def fol_or_def

lemma follow_take_cmp: "follow c fol_cmp \<Longrightarrow> zt_filter_take_cmp c = None"
  by (auto simp: follow_def zt_filter_take_cmp_def fol_cmp_def split: option.splits)

lemma loop_stop:
  "follow c fol_mul \<Longrightarrow> zt_filter_parse_mul_loop l c = (l, c)"
  "follow c fol_add \<Longrightarrow> zt_filter_parse_add_loop l c = (l, c)"
  "follow c fol_cmp \<Longrightarrow> zt_filter_parse_cmp_loop l c = (l, c)"
  "follow c fol_and \<Longrightarrow> zt_filter_parse_and_loop l c = (l, c)"
  "follow c fol_or \<Longrightarrow> zt_filter_parse_or_loop l c = (l, c)"
  by (simp_all add: zt_filter_parse_mul_loop.simps [of l c] zt_filter_parse_add_loop.simps [of l c]
      zt_filter_parse_cmp_loop.simps [of l c] zt_filter_parse_and_loop.simps [of l c]
      zt_filter_parse_or_loop.simps [of l c] fol_defs follow_take follow_take_cmp)

lemma follow_mono:
  "follow c fol_add \<Longrightarrow> follow c fol_mul" "follow c fol_cmp \<Longrightarrow> follow c fol_add"
  "follow c fol_and \<Longrightarrow> follow c fol_cmp" "follow c fol_or \<Longrightarrow> follow c fol_and"
  by (auto simp: follow_def fol_defs split: option.splits)

text \<open>
  Every occurrence of the tree is parsed when the token behind it is not one of those
  (\<open>F\<close>) that would extend it.
\<close>

definition compl ::
  "(zt_probe_filter_token_type_t \<Rightarrow> bool) \<Rightarrow> (zt_filter_eval_t \<Rightarrow> u64 \<times> zt_filter_eval_t) \<Rightarrow>
   (u64 \<Rightarrow> zt_filter_eval_t \<Rightarrow> u64 \<times> zt_filter_eval_t) \<Rightarrow> tok list \<Rightarrow> fexpr \<Rightarrow> bool" where
  "compl F parse loop ts e \<longleftrightarrow> (\<forall>c. at c ts \<longrightarrow> fe_ok c \<longrightarrow> follow (adv (length ts) c) F \<longrightarrow>
     reaches e (length ts) parse loop c)"

abbreviation fol_none :: "zt_probe_filter_token_type_t \<Rightarrow> bool" where
  "fol_none \<equiv> (\<lambda>t. False)"

lemma follow_none [simp]: "follow c fol_none"
  by (simp add: follow_def split: option.split)

lemma reaches_stop:
  assumes "reaches e n parse loop c" and "\<And>v. loop v (adv n c) = (v, adv n c)"
  shows "reaches e n parse Pair c"
  using assms by (auto simp: reaches_def split: option.split if_splits)

lemma reaches_chain:
  assumes "reaches e n f Pair c" and "parse c = (case f c of (l, c1) \<Rightarrow> loop l c1)"
    and "\<And>l c. \<not> fe_ok c \<Longrightarrow> loop l c = (l, c)"
  shows "reaches e n parse loop c"
  using assms by (auto simp: reaches_def case_prod_beta split: option.splits if_splits)

lemma compl_stop:
  assumes "compl F' parse loop ts e" and "\<And>c. follow c F \<Longrightarrow> follow c F'"
    and "\<And>c v. follow c F \<Longrightarrow> loop v c = (v, c)"
  shows "compl F parse Pair ts e"
  using assms(1) unfolding compl_def by (blast intro: reaches_stop assms(2,3))

lemma compl_chain:
  assumes "compl F f Pair ts e" and "\<And>c. parse c = (case f c of (l, c1) \<Rightarrow> loop l c1)"
    and "\<And>l c. \<not> fe_ok c \<Longrightarrow> loop l c = (l, c)"
  shows "compl F parse loop ts e"
  unfolding compl_def
  by (intro allI impI, rule reaches_chain [OF _ assms(2,3)]) (use assms(1) in \<open>simp_all add: compl_def\<close>)

lemma compl_step:
  assumes a: "compl F' parse loop ts a" and b: "compl F f Pair us b"
    and t: "\<not> F' (tok_type t)"
    and strict: "\<And>env. feval env a = None \<Longrightarrow> feval env (mk a b) = None"
    and off: "\<And>c v r. zt_filter_peek c = Some t \<Longrightarrow> fe_ok c \<Longrightarrow> \<not> fe_eval_enabled c \<Longrightarrow>
      f (adv 1 c) = (r, adv (Suc (length us)) c) \<Longrightarrow>
      \<exists>v'. loop v c = loop v' (adv (Suc (length us)) c)"
    and on: "\<And>c v. zt_filter_peek c = Some t \<Longrightarrow> fe_ok c \<Longrightarrow> fe_eval_enabled c \<Longrightarrow>
      reaches b (length us) f Pair (adv 1 c) \<Longrightarrow>
      reaches b (length us) f Pair (adv 1 (c\<lparr>fe_eval_enabled := False\<rparr>)) \<Longrightarrow>
      feval (fenv c) a = Some v \<Longrightarrow>
      case feval (fenv c) (mk a b) of
        None \<Rightarrow> \<not> fe_ok (snd (loop v c))
      | Some w \<Rightarrow> loop v c = loop w (adv (Suc (length us)) c)"
  shows "compl F parse loop (ts @ t # us) (mk a b)"
  unfolding compl_def
proof (intro allI impI)
  fix c
  let ?c = "adv (length ts) c"
  assume c: "at c (ts @ t # us)" "fe_ok c" "follow (adv (length (ts @ t # us)) c) F"
  have pk: "zt_filter_peek ?c = Some t" and at: "at c ts" "at (adv 1 ?c) us"
    using c(1) by (auto dest!: at_Cons at_append)
  have ra: "reaches a (length ts) parse loop c"
    using a at(1) c(2) pk t by (auto simp: compl_def follow_def)
  have rb: "reaches b (length us) f Pair (adv 1 ?c)"
    "reaches b (length us) f Pair (adv 1 (?c\<lparr>fe_eval_enabled := False\<rparr>))"
    using b at(2) c(2,3) by (auto simp: compl_def simp del: adv_simps(7) simp flip: adv_simps(7))
  show "reaches (mk a b) (length (ts @ t # us)) parse loop c"
  proof (cases "fe_eval_enabled c")
    case True
    show ?thesis
    proof (cases "feval (fenv c) a")
      case None
      with True ra strict [OF None] show ?thesis by (simp add: reaches_def)
    next
      case (Some v)
      with True ra have "parse c = loop v ?c" by (simp add: reaches_def)
      with on [OF pk _ _ rb, of v] True Some c(2) show ?thesis
        by (simp add: reaches_def split: option.splits)
    qed
  next
    case False
    then obtain v where "parse c = loop v ?c" using ra by (auto simp: reaches_def)
    moreover obtain r where "f (adv 1 ?c) = (r, adv (Suc (length us)) ?c)"
      using rb(1) False by (auto simp: reaches_def)
    ultimately show ?thesis using off [OF pk, of r v] False c(2) by (auto simp: reaches_def)
  qed
qed

lemma g_primary_first:
  "g_primary ts e \<Longrightarrow> \<exists>t us. ts = t # us \<and> tok_type t \<noteq> ZT_PROBE_FILTER_TOK_NOT"
  by (auto elim: g_primary.cases)

lemma compl_paren:
  assumes "compl fol_and zt_filter_parse_or zt_filter_parse_or_loop ts e"
    and l: "tok_type l = ZT_PROBE_FILTER_TOK_LPAREN" and r: "tok_type r = ZT_PROBE_FILTER_TOK_RPAREN"
  shows "compl fol_none zt_filter_parse_primary Pair (l # ts @ [r]) e"
  unfolding compl_def
proof (intro allI impI)
  fix c
  assume c: "at c (l # ts @ [r])" "fe_ok c"
  then have pk: "zt_filter_peek c = Some l" "at (adv 1 c) ts"
      "zt_filter_peek (adv (Suc (length ts)) c) = Some r"
    by (auto dest!: at_Cons at_append)
  have "compl fol_or zt_filter_parse_or Pair ts e"
    by (rule compl_stop [OF assms(1)]) (auto intro: loop_stop follow_mono)
  then have "reaches e (length ts) zt_filter_parse_or Pair (adv 1 c)"
    using pk c(2) r by (auto simp: compl_def follow_def fol_defs)
  then show "reaches e (length (l # ts @ [r])) zt_filter_parse_primary Pair c"
    using pk(1,3) l r
    by (auto simp: reaches_def zt_filter_parse_primary.simps [of c] take_peek case_prod_beta
        zt_filter_take_Some split: option.splits if_splits)
qed

lemma compl_not:
  assumes "compl fol_none zt_filter_parse_unary Pair ts e" and "tok_type t = ZT_PROBE_FILTER_TOK_NOT"
  shows "compl fol_none zt_filter_parse_unary Pair (t # ts) (FNot e)"
  unfolding compl_def
proof (intro allI impI)
  fix c
  assume c: "at c (t # ts)" "fe_ok c"
  then have "zt_filter_peek c = Some t" "reaches e (length ts) zt_filter_parse_unary Pair (adv 1 c)"
    using assms(1) by (auto dest!: at_Cons simp: compl_def)
  then show "reaches (FNot e) (length (t # ts)) zt_filter_parse_unary Pair c"
    using assms(2)
    by (auto simp: reaches_def zt_filter_parse_unary.simps [of c] take_peek case_prod_beta
      split: option.splits if_splits)
qed

lemma compl_unary:
  assumes "compl fol_none zt_filter_parse_primary Pair ts e" and "g_primary ts e"
  shows "compl fol_none zt_filter_parse_unary Pair ts e"
  unfolding compl_def
proof (intro allI impI)
  fix c
  assume c: "at c ts" "fe_ok c"
  obtain t us where "ts = t # us" "tok_type t \<noteq> ZT_PROBE_FILTER_TOK_NOT"
    using g_primary_first [OF assms(2)] by auto
  with c have "zt_filter_take c ZT_PROBE_FILTER_TOK_NOT = None"
    by (auto dest!: at_Cons simp: take_peek)
  then show "reaches e (length ts) zt_filter_parse_unary Pair c"
    using assms(1) c by (auto simp: compl_def reaches_def zt_filter_parse_unary.simps [of c] split: option.splits)
qed

lemmas compl_simps = take_peek reaches_def case_prod_beta loop_bad skipped_simps

lemma adv_reenable: "fe_eval_enabled c \<Longrightarrow> adv n (c\<lparr>fe_eval_enabled := True\<rparr>) = adv n c"
  by (simp add: adv_def)

text \<open>One iteration of each loop at its operators.\<close>

lemma loop_iter:
  assumes "zt_filter_peek c = Some t" and "fe_ok c"
  shows "tok_type t = ZT_PROBE_FILTER_TOK_MUL \<Longrightarrow> zt_filter_parse_mul_loop l c =
      (case zt_filter_parse_unary (adv 1 c) of (r, c2) \<Rightarrow> zt_filter_parse_mul_loop (l * r) c2)"
    and "tok_type t = ZT_PROBE_FILTER_TOK_DIV \<Longrightarrow> zt_filter_parse_mul_loop l c =
      (case zt_filter_parse_unary (adv 1 c) of (r, c2) \<Rightarrow>
         if \<not> fe_eval_enabled c2 then zt_filter_parse_mul_loop 0 c2
         else if r = 0 then (0, c2\<lparr>fe_ok := False\<rparr>) else zt_filter_parse_mul_loop (l div r) c2)"
    and "tok_type t = ZT_PROBE_FILTER_TOK_ADD \<Longrightarrow> zt_filter_parse_add_loop l c =
      (case zt_filter_parse_mul (adv 1 c) of (r, c2) \<Rightarrow> zt_filter_parse_add_loop (l + r) c2)"
    and "tok_type t = ZT_PROBE_FILTER_TOK_SUB \<Longrightarrow> zt_filter_parse_add_loop l c =
      (case zt_filter_parse_mul (adv 1 c) of (r, c2) \<Rightarrow> zt_filter_parse_add_loop (l - r) c2)"
    and "zt_filter_token_is_cmp (tok_type t) \<Longrightarrow> zt_filter_parse_cmp_loop l c =
      (case zt_filter_parse_add (adv 1 c) of (r, c2) \<Rightarrow>
         zt_filter_parse_cmp_loop (zt_filter_apply_cmp (tok_type t) l r) c2)"
    and "tok_type t = ZT_PROBE_FILTER_TOK_AND \<Longrightarrow> zt_filter_parse_and_loop l c =
      (case zt_filter_parse_maybe_skipped (adv 1 c) (fe_eval_enabled c \<and> l = 0) zt_filter_parse_cmp of
         (r, c2) \<Rightarrow> zt_filter_parse_and_loop (of_bool (l \<noteq> 0 \<and> r \<noteq> 0)) c2)"
    and "tok_type t = ZT_PROBE_FILTER_TOK_OR \<Longrightarrow> zt_filter_parse_or_loop l c =
      (case zt_filter_parse_maybe_skipped (adv 1 c) (fe_eval_enabled c \<and> l \<noteq> 0) zt_filter_parse_and of
         (r, c2) \<Rightarrow> zt_filter_parse_or_loop (of_bool (l \<noteq> 0 \<or> r \<noteq> 0)) c2)"
  using assms
  by (simp_all add: take_peek zt_filter_parse_mul_loop.simps [of l c] zt_filter_parse_add_loop.simps [of l c]
      zt_filter_parse_cmp_loop.simps [of l c] zt_filter_parse_and_loop.simps [of l c]
      zt_filter_parse_or_loop.simps [of l c])

lemma compl_mul:
  assumes a: "compl fol_none zt_filter_parse_mul zt_filter_parse_mul_loop ts a"
    and t: "tok_type t = ZT_PROBE_FILTER_TOK_MUL" and b: "compl fol_none zt_filter_parse_unary Pair us b"
  shows "compl fol_none zt_filter_parse_mul zt_filter_parse_mul_loop (ts @ t # us) (FMul a b)"
  by (rule compl_step [OF a b])
    (use t in \<open>auto simp: loop_iter compl_simps fol_defs split: option.splits\<close>)

lemma compl_div:
  assumes a: "compl fol_none zt_filter_parse_mul zt_filter_parse_mul_loop ts a"
    and t: "tok_type t = ZT_PROBE_FILTER_TOK_DIV" and b: "compl fol_none zt_filter_parse_unary Pair us b"
  shows "compl fol_none zt_filter_parse_mul zt_filter_parse_mul_loop (ts @ t # us) (FDiv a b)"
  by (rule compl_step [OF a b])
    (use t in \<open>auto simp: loop_iter compl_simps fol_defs split: option.splits\<close>)

lemma compl_add:
  assumes a: "compl fol_mul zt_filter_parse_add zt_filter_parse_add_loop ts a"
    and t: "tok_type t = ZT_PROBE_FILTER_TOK_ADD" and b: "compl fol_mul zt_filter_parse_mul Pair us b"
  shows "compl fol_mul zt_filter_parse_add zt_filter_parse_add_loop (ts @ t # us) (FAdd a b)"
  by (rule compl_step [OF a b])
    (use t in \<open>auto simp: loop_iter compl_simps fol_defs split: option.splits\<close>)

lemma compl_sub:
  assumes a: "compl fol_mul zt_filter_parse_add zt_filter_parse_add_loop ts a"
    and t: "tok_type t = ZT_PROBE_FILTER_TOK_SUB" and b: "compl fol_mul zt_filter_parse_mul Pair us b"
  shows "compl fol_mul zt_filter_parse_add zt_filter_parse_add_loop (ts @ t # us) (FSub a b)"
  by (rule compl_step [OF a b])
    (use t in \<open>auto simp: loop_iter compl_simps fol_defs split: option.splits\<close>)

lemma compl_cmp:
  assumes a: "compl fol_add zt_filter_parse_cmp zt_filter_parse_cmp_loop ts a"
    and t: "zt_filter_token_is_cmp (tok_type t)" and b: "compl fol_add zt_filter_parse_add Pair us b"
  shows "compl fol_add zt_filter_parse_cmp zt_filter_parse_cmp_loop (ts @ t # us) (FCmp (tok_type t) a b)"
  by (rule compl_step [OF a b])
    (use t in \<open>auto simp: loop_iter compl_simps fol_defs split: option.splits\<close>)

lemma compl_and:
  assumes a: "compl fol_cmp zt_filter_parse_and zt_filter_parse_and_loop ts a"
    and t: "tok_type t = ZT_PROBE_FILTER_TOK_AND" and b: "compl fol_cmp zt_filter_parse_cmp Pair us b"
  shows "compl fol_cmp zt_filter_parse_and zt_filter_parse_and_loop (ts @ t # us) (FAnd a b)"
  by (rule compl_step [OF a b])
    (use t in \<open>auto simp: loop_iter compl_simps fol_defs adv_reenable split: option.splits\<close>)

lemma compl_or:
  assumes a: "compl fol_and zt_filter_parse_or zt_filter_parse_or_loop ts a"
    and t: "tok_type t = ZT_PROBE_FILTER_TOK_OR" and b: "compl fol_and zt_filter_parse_and Pair us b"
  shows "compl fol_and zt_filter_parse_or zt_filter_parse_or_loop (ts @ t # us) (FOr a b)"
  by (rule compl_step [OF a b])
    (use t in \<open>auto simp: loop_iter compl_simps fol_defs adv_reenable split: option.splits\<close>)

lemma compl_operand:
  "compl fol_none zt_filter_parse_mul zt_filter_parse_mul_loop ts e \<Longrightarrow>
   compl fol_mul zt_filter_parse_mul Pair ts e"
  "compl fol_mul zt_filter_parse_add zt_filter_parse_add_loop ts e \<Longrightarrow>
   compl fol_add zt_filter_parse_add Pair ts e"
  "compl fol_add zt_filter_parse_cmp zt_filter_parse_cmp_loop ts e \<Longrightarrow>
   compl fol_cmp zt_filter_parse_cmp Pair ts e"
  "compl fol_cmp zt_filter_parse_and zt_filter_parse_and_loop ts e \<Longrightarrow>
   compl fol_and zt_filter_parse_and Pair ts e"
  by (erule compl_stop; simp add: loop_stop follow_mono)+

lemma compl_first:
  "compl fol_none zt_filter_parse_unary Pair ts e \<Longrightarrow>
   compl fol_none zt_filter_parse_mul zt_filter_parse_mul_loop ts e"
  "compl fol_mul zt_filter_parse_mul Pair ts e \<Longrightarrow>
   compl fol_mul zt_filter_parse_add zt_filter_parse_add_loop ts e"
  "compl fol_add zt_filter_parse_add Pair ts e \<Longrightarrow>
   compl fol_add zt_filter_parse_cmp zt_filter_parse_cmp_loop ts e"
  "compl fol_cmp zt_filter_parse_cmp Pair ts e \<Longrightarrow>
   compl fol_cmp zt_filter_parse_and zt_filter_parse_and_loop ts e"
  "compl fol_and zt_filter_parse_and Pair ts e \<Longrightarrow>
   compl fol_and zt_filter_parse_or zt_filter_parse_or_loop ts e"
  by (erule compl_chain; fact zt_filter_parse_simps loop_bad)+

lemma zt_filter_parse_complete:
  "(g_primary ts1 e1 \<longrightarrow> compl fol_none zt_filter_parse_primary Pair ts1 e1) \<and>
   (g_unary ts2 e2 \<longrightarrow> compl fol_none zt_filter_parse_unary Pair ts2 e2) \<and>
   (g_mul ts3 e3 \<longrightarrow> compl fol_none zt_filter_parse_mul zt_filter_parse_mul_loop ts3 e3) \<and>
   (g_add ts4 e4 \<longrightarrow> compl fol_mul zt_filter_parse_add zt_filter_parse_add_loop ts4 e4) \<and>
   (g_cmp ts5 e5 \<longrightarrow> compl fol_add zt_filter_parse_cmp zt_filter_parse_cmp_loop ts5 e5) \<and>
   (g_and ts6 e6 \<longrightarrow> compl fol_cmp zt_filter_parse_and zt_filter_parse_and_loop ts6 e6) \<and>
   (g_or ts7 e7 \<longrightarrow> compl fol_and zt_filter_parse_or zt_filter_parse_or_loop ts7 e7)"
proof (induction rule: g_primary_g_unary_g_mul_g_add_g_cmp_g_and_g_or.induct)
  case (p_num t)
  then show ?case
    by (auto dest!: at_Cons simp: compl_def reaches_def zt_filter_parse_primary.simps take_peek)
next
  case (p_arg t)
  then show ?case
    by (auto dest!: at_Cons simp: compl_def reaches_def zt_filter_parse_primary.simps take_peek
        zt_filter_event_arg_def)
next
  case (p_paren l ts e r)
  then show ?case by (simp add: compl_paren)
next
  case (u_not t ts e)
  then show ?case by (simp add: compl_not)
next
  case (u_prim ts e)
  then show ?case by (simp add: compl_unary)
next
  case (m_unary ts e)
  then show ?case by (simp add: compl_first)
next
  case (m_mul ts a t us b)
  then show ?case by (simp add: compl_mul)
next
  case (m_div ts a t us b)
  then show ?case by (simp add: compl_div)
next
  case (a_mul ts e)
  then show ?case by (simp add: compl_first compl_operand)
next
  case (a_add ts a t us b)
  then show ?case by (simp add: compl_add compl_operand)
next
  case (a_sub ts a t us b)
  then show ?case by (simp add: compl_sub compl_operand)
next
  case (c_add ts e)
  then show ?case by (simp add: compl_first compl_operand)
next
  case (c_cmp ts a t us b)
  then show ?case by (simp add: compl_cmp compl_operand)
next
  case (n_cmp ts e)
  then show ?case by (simp add: compl_first compl_operand)
next
  case (n_and ts a t us b)
  then show ?case by (simp add: compl_and compl_operand)
next
  case (o_and ts e)
  then show ?case by (simp add: compl_first compl_operand)
next
  case (o_or ts a t us b)
  then show ?case by (simp add: compl_or compl_operand)
qed

section \<open>The compiler\<close>

definition wf_filter :: "zt_probe_filter_t \<Rightarrow> bool" where
  "wf_filter f \<longleftrightarrow> length (fl_tokens f) = ZT_PROBE_FILTER_TOKEN_CAP \<and>
     fl_token_count f \<le> ZT_PROBE_FILTER_TOKEN_CAP \<and> fl_enabled f \<noteq> 0 \<and>
     (\<forall>t \<in> set (filter_tokens f). tok_type t = ZT_PROBE_FILTER_TOK_ARG \<longrightarrow>
        unat (tok_arg_index t) < ZT_TRACE_GP_ARG_COUNT)"

text \<open>What the tokenizer does to the filter: one more well-formed token at the end.\<close>

lemma zt_filter_append_token_wf:
  assumes "zt_filter_append_token f ty v i = Some f'" and "wf_filter f"
    and "ty = ZT_PROBE_FILTER_TOK_ARG \<Longrightarrow> unat i < ZT_TRACE_GP_ARG_COUNT"
  shows "wf_filter f'" and "fl_expr f' = fl_expr f"
    and "filter_tokens f' =
      filter_tokens f @ [\<lparr>tok_type = ty, tok_arg_index = i, tok_value = v\<rparr>]"
proof -
  show ft: "filter_tokens f' =
      filter_tokens f @ [\<lparr>tok_type = ty, tok_arg_index = i, tok_value = v\<rparr>]"
    using assms(1,2)
    by (auto simp: zt_filter_append_token_def filter_tokens_def Let_def wf_filter_def
        take_Suc_conv_app_nth split: if_splits)
  show "wf_filter f'" and "fl_expr f' = fl_expr f"
    using assms(1,2,3) ft
    by (auto simp: zt_filter_append_token_def wf_filter_def Let_def split: if_splits)
qed

lemma zt_filter_append_operator_wf:
  assumes "zt_filter_append_operator f s rules = AppendOk f' s'" and "wf_filter f"
    and "\<forall>(t, ty) \<in> set rules. ty \<noteq> ZT_PROBE_FILTER_TOK_ARG"
  shows "wf_filter f' \<and> fl_expr f' = fl_expr f"
  using assms
  by (induction f s rules rule: zt_filter_append_operator.induct)
    (auto dest: zt_filter_append_token_wf split: if_splits option.splits)

lemma k_ops_no_arg:
  "\<forall>(t, ty) \<in> set k_two_char_ops. ty \<noteq> ZT_PROBE_FILTER_TOK_ARG"
  "\<forall>(t, ty) \<in> set k_one_char_ops. ty \<noteq> ZT_PROBE_FILTER_TOK_ARG"
  by (simp_all add: k_two_char_ops_def k_one_char_ops_def)

lemma arg_index_fits: "(i :: u64) < of_nat ZT_TRACE_GP_ARG_COUNT \<Longrightarrow>
    unat (ucast i :: u8) < ZT_TRACE_GP_ARG_COUNT"
proof -
  assume "i < of_nat ZT_TRACE_GP_ARG_COUNT"
  then have "unat i < 6" by (simp add: ZT_TRACE_GP_ARG_COUNT_def word_less_nat_alt)
  then show ?thesis by (simp add: ZT_TRACE_GP_ARG_COUNT_def unsigned_ucast_eq take_bit_eq_mod)
qed

text \<open>The four appenders a token can come from.\<close>

lemma zt_filter_append_next_tokenE:
  assumes "zt_filter_append_next_token f s = AppendOk f' s'"
  obtains (arg) "zt_filter_append_arg f (zt_filter_skip_spaces s) = AppendOk f' s'"
    | (number) "zt_filter_append_number f (zt_filter_skip_spaces s) = AppendOk f' s'"
    | (two) "zt_filter_append_operator f (zt_filter_skip_spaces s) k_two_char_ops = AppendOk f' s'"
    | (one) "zt_filter_append_operator f (zt_filter_skip_spaces s) k_one_char_ops = AppendOk f' s'"
  using assms
  by (auto simp: zt_filter_append_next_token_def Let_def split: if_splits append_result.splits)

lemma zt_filter_append_next_token_wf:
  assumes "zt_filter_append_next_token f s = AppendOk f' s'" and "wf_filter f"
  shows "wf_filter f' \<and> fl_expr f' = fl_expr f"
  using assms(1)
proof (cases rule: zt_filter_append_next_tokenE)
  case arg
  then show ?thesis
    using assms(2) by (auto simp: zt_filter_append_arg_def Let_def not_le arg_index_fits
        dest: zt_filter_append_token_wf split: if_splits prod.splits option.splits)
next
  case number
  then show ?thesis
    using assms(2) by (auto simp: zt_filter_append_number_def Let_def
        dest: zt_filter_append_token_wf split: if_splits prod.splits option.splits)
qed (use assms(2) k_ops_no_arg zt_filter_append_operator_wf in blast)+

lemma zt_filter_compile_loop_wf:
  assumes "zt_filter_compile_loop f s = Some f'" and "wf_filter f"
  shows "wf_filter f' \<and> fl_expr f' = fl_expr f"
  using assms
proof (induction f s rule: zt_filter_compile_loop.induct)
  case (1 f s)
  then show ?case
    using zt_filter_append_next_token_wf
    by (fastforce simp: zt_filter_compile_loop.simps [of f s] split: if_splits append_result.splits)
qed

lemma wf_filter_start: "wf_filter (zero_filter\<lparr>fl_expr := p, fl_enabled := 1\<rparr>)"
  by (simp add: wf_filter_def filter_tokens_def zero_filter_def)

lemma zt_probe_filter_compile_Some:
  assumes "zt_probe_filter_compile (Some s) = Some f"
  shows "wf_filter f" and "zt_filter_validate f" and "fl_expr f = zt_filter_skip_spaces s"
    and "fl_expr f \<noteq> []" and "length (fl_expr f) < ZT_PROBE_FILTER_EXPR_MAX"
  using assms zt_filter_compile_loop_wf [OF _ wf_filter_start]
  by (auto simp: zt_probe_filter_compile_def Let_def split: if_splits option.splits)

section \<open>Parsing a whole filter\<close>

lemma at_start: "wf_filter f \<Longrightarrow> at (zt_filter_eval_init f ev) (filter_tokens f)"
  by (simp add: at_def zt_filter_eval_init_def wf_filter_def filter_tokens_def)

lemma follow_end:
  "wf_filter f \<Longrightarrow> follow (adv (length (filter_tokens f)) (zt_filter_eval_init f ev)) F"
  by (simp add: follow_def zt_filter_peek_def zt_filter_eval_init_def wf_filter_def filter_tokens_def)

lemma zt_filter_parse_or_whole:
  assumes "wf_filter f" and "g_or (filter_tokens f) e"
  shows "reaches e (length (filter_tokens f)) zt_filter_parse_or Pair (zt_filter_eval_init f ev)"
proof (rule reaches_stop)
  have "compl fol_and zt_filter_parse_or zt_filter_parse_or_loop (filter_tokens f) e"
    using zt_filter_parse_complete assms(2) by blast
  then show "reaches e (length (filter_tokens f)) zt_filter_parse_or zt_filter_parse_or_loop
      (zt_filter_eval_init f ev)"
    using at_start [OF assms(1)] follow_end [OF assms(1)]
    by (simp add: compl_def zt_filter_eval_init_def)
qed (rule loop_stop [OF follow_end [OF assms(1)]])

lemma g_or_nonempty: "g_or ts e \<Longrightarrow> ts \<noteq> []"
proof -
  have "(g_primary ts1 e1 \<longrightarrow> ts1 \<noteq> []) \<and> (g_unary ts2 e2 \<longrightarrow> ts2 \<noteq> []) \<and> (g_mul ts3 e3 \<longrightarrow> ts3 \<noteq> []) \<and>
    (g_add ts4 e4 \<longrightarrow> ts4 \<noteq> []) \<and> (g_cmp ts5 e5 \<longrightarrow> ts5 \<noteq> []) \<and> (g_and ts6 e6 \<longrightarrow> ts6 \<noteq> []) \<and>
    (g_or ts e \<longrightarrow> ts \<noteq> [])" for ts1 e1 ts2 e2 ts3 e3 ts4 e4 ts5 e5 ts6 e6
    by (induction rule: g_primary_g_unary_g_mul_g_add_g_cmp_g_and_g_or.induct) simp_all
  then show "g_or ts e \<Longrightarrow> ts \<noteq> []" by blast
qed

lemma zt_filter_validate_grammar:
  assumes wf: "wf_filter f"
  shows "zt_filter_validate f \<longleftrightarrow> (\<exists>e. g_or (filter_tokens f) e)"
proof
  let ?c = "zt_filter_eval_init f None"
  assume "zt_filter_validate f"
  then have "fe_ok (snd (zt_filter_parse_or ?c))"
    and "fe_pos (snd (zt_filter_parse_or ?c)) = fl_token_count f"
    by (auto simp: zt_filter_validate_def Let_def split: if_splits)
  moreover have "wf_ctx ?c" and "\<not> fe_eval_enabled ?c"
    using wf by (simp_all add: wf_ctx_def wf_filter_def zt_filter_eval_init_def)
  ultimately show "\<exists>e. g_or (filter_tokens f) e"
    using zt_filter_parse_sound(11) [of ?c]
    by (simp add: sound_def slice_def filter_tokens_def zt_filter_eval_init_def)
next
  assume "\<exists>e. g_or (filter_tokens f) e"
  then obtain e where e: "g_or (filter_tokens f) e" by blast
  then have "filter_tokens f \<noteq> []" by (rule g_or_nonempty)
  with zt_filter_parse_or_whole [OF wf e, of None] wf show "zt_filter_validate f"
    by (auto simp: zt_filter_validate_def Let_def reaches_def zt_filter_eval_init_def
        wf_filter_def filter_tokens_def)
qed

lemma zt_probe_filter_eval_meaning:
  assumes wf: "wf_filter f" and e: "g_or (filter_tokens f) e"
  shows "zt_probe_filter_eval (Some f) (Some ev) = filter_meaning e ev"
  using zt_filter_parse_or_whole [OF wf e, of "Some ev"] wf
  by (auto simp: zt_probe_filter_eval_def filter_meaning_def Let_def reaches_def case_prod_beta
      zt_filter_eval_init_def wf_filter_def filter_tokens_def split: option.splits)

end
