(* ===== verification/ZT_FilterProps.thy ===== *)
theory ZT_FilterProps
  imports ZT_FilterSpec
begin

text \<open>
  The properties of conditional probes. They rest on the grammar and its two halves in
  \<^verbatim>\<open>ZT_FilterSpec\<close>. The last section prints a token sequence as text and shows that
  compiling the text gives the tokens back.
\<close>

section \<open>Trailing space\<close>

lemma skip_spaces_trailing:
  assumes "s \<noteq> []" and "isspace (last s)" and "zt_filter_skip_spaces s \<noteq> []"
  shows "last (zt_filter_skip_spaces s) = last s"
  using assms unfolding zt_filter_skip_spaces_def by (metis last_appendR takeWhile_dropWhile_id)

lemma append_operator_trailing:
  assumes "zt_filter_append_operator f s rules = AppendOk f' s'"
    and "s \<noteq> []" and "isspace (last s)"
    and "\<forall>(t, ty) \<in> set rules. t \<noteq> [] \<and> \<not> isspace (last t)"
  shows "s' \<noteq> [] \<and> isspace (last s')"
  using assms
proof (induction f s rules rule: zt_filter_append_operator.induct)
  case (2 f s t ty rules)
  show ?case
  proof (cases "starts_with s t")
    case True
    then obtain r where "s = t @ r" by (auto simp: starts_with_iff)
    with True 2 show ?thesis
      by (cases "r = []") (auto split: option.splits)
  next
    case False
    with 2 show ?thesis by auto
  qed
qed simp

lemma k_ops_no_space:
  "\<forall>(t, ty) \<in> set k_two_char_ops. t \<noteq> [] \<and> \<not> isspace (last t)"
  "\<forall>(t, ty) \<in> set k_one_char_ops. t \<noteq> [] \<and> \<not> isspace (last t)"
  by (simp_all add: k_two_char_ops_def k_one_char_ops_def isspace_def)

lemma append_next_token_trailing:
  assumes "zt_filter_append_next_token f s = AppendOk f' s'" and "s \<noteq> []" and "isspace (last s)"
  shows "s' \<noteq> [] \<and> isspace (last s')"
proof -
  let ?c = "zt_filter_skip_spaces s"
  have c: "?c \<noteq> []" using assms(1) by (auto simp: zt_filter_append_next_token_def)
  then have l: "isspace (last ?c)" using skip_spaces_trailing assms by simp
  show ?thesis
    using assms(1)
  proof (cases rule: zt_filter_append_next_tokenE)
    case arg
    then have "drop 3 ?c \<noteq> []" by (auto simp: zt_filter_append_arg_def split: if_splits)
    then have "last (drop 3 ?c) = last ?c" by (simp add: last_drop)
    with arg l \<open>drop 3 ?c \<noteq> []\<close> show ?thesis
      using strtoull_trailing [of 10 "drop 3 ?c"]
      by (fastforce simp: zt_filter_append_arg_def Let_def split: if_splits prod.splits option.splits)
  next
    case number
    with c l show ?thesis
      using strtoull_trailing [of 0 ?c]
      by (fastforce simp: zt_filter_append_number_def Let_def split: if_splits prod.splits option.splits)
  next
    case two
    then show ?thesis using append_operator_trailing c l k_ops_no_space by blast
  next
    case one
    then show ?thesis using append_operator_trailing c l k_ops_no_space by blast
  qed
qed

lemma compile_loop_trailing:
  "s \<noteq> [] \<Longrightarrow> isspace (last s) \<Longrightarrow> zt_filter_compile_loop f s = None"
proof (induction f s rule: zt_filter_compile_loop.induct)
  case (1 f s)
  then show ?case
    using append_next_token_trailing
    by (auto simp: zt_filter_compile_loop.simps [of f s] split: append_result.splits)
qed

section \<open>Printing tokens\<close>

fun op_text :: "zt_probe_filter_token_type_t \<Rightarrow> string" where
  "op_text ZT_PROBE_FILTER_TOK_EQ = ''==''"
| "op_text ZT_PROBE_FILTER_TOK_NE = ''!=''"
| "op_text ZT_PROBE_FILTER_TOK_GT = ''>''"
| "op_text ZT_PROBE_FILTER_TOK_GE = ''>=''"
| "op_text ZT_PROBE_FILTER_TOK_LT = ''<''"
| "op_text ZT_PROBE_FILTER_TOK_LE = ''<=''"
| "op_text ZT_PROBE_FILTER_TOK_AND = ''&&''"
| "op_text ZT_PROBE_FILTER_TOK_OR = ''||''"
| "op_text ZT_PROBE_FILTER_TOK_NOT = ''!''"
| "op_text ZT_PROBE_FILTER_TOK_ADD = ''+''"
| "op_text ZT_PROBE_FILTER_TOK_SUB = ''-''"
| "op_text ZT_PROBE_FILTER_TOK_MUL = ''*''"
| "op_text ZT_PROBE_FILTER_TOK_DIV = ''/''"
| "op_text ZT_PROBE_FILTER_TOK_LPAREN = ''(''"
| "op_text ZT_PROBE_FILTER_TOK_RPAREN = '')''"
| "op_text _ = []"

definition tok_text :: "tok \<Rightarrow> string" where
  "tok_text t = (case tok_type t of
     ZT_PROBE_FILTER_TOK_ARG \<Rightarrow> ''arg'' @ [digit_char (unat (tok_arg_index t))]
   | ZT_PROBE_FILTER_TOK_NUM \<Rightarrow> ''0x'' @ fmt_x (tok_value t)
   | ty \<Rightarrow> op_text ty)"

fun toks_text :: "tok list \<Rightarrow> string" where
  "toks_text [] = []"
| "toks_text [t] = tok_text t"
| "toks_text (t # ts) = tok_text t @ '' '' @ toks_text ts"

text \<open>The tokens the compiler produces: unused fields are zero, argument indices in range.\<close>

definition canonical :: "tok \<Rightarrow> bool" where
  "canonical t = (case tok_type t of
     ZT_PROBE_FILTER_TOK_END \<Rightarrow> False
   | ZT_PROBE_FILTER_TOK_ARG \<Rightarrow> unat (tok_arg_index t) < ZT_TRACE_GP_ARG_COUNT \<and> tok_value t = 0
   | ZT_PROBE_FILTER_TOK_NUM \<Rightarrow> tok_arg_index t = 0
   | _ \<Rightarrow> tok_arg_index t = 0 \<and> tok_value t = 0)"

definition ends :: "string \<Rightarrow> bool" where
  "ends r \<longleftrightarrow> r = [] \<or> hd r = CHR '' ''"

text \<open>\<open>zt_filter_append_token\<close> of the fields of a token.\<close>

definition push_tok :: "zt_probe_filter_t \<Rightarrow> tok \<Rightarrow> zt_probe_filter_t option" where
  "push_tok f t = zt_filter_append_token f (tok_type t) (tok_value t) (tok_arg_index t)"

lemma ends_digit_val: "ends r \<Longrightarrow> r = [] \<or> \<not> digit_val (hd r) < 16"
  by (auto simp: ends_def digit_val_def)

lemma ends_starts_with: "ends r \<Longrightarrow> starts_with r (c # cs) \<Longrightarrow> c = CHR '' ''"
  by (cases r) (auto simp: ends_def)

lemma zt_filter_append_arg_text:
  assumes "ends r" and "unat i < ZT_TRACE_GP_ARG_COUNT"
  shows "zt_filter_append_arg f (''arg'' @ digit_char (unat i) # r) =
    (case zt_filter_append_token f ZT_PROBE_FILTER_TOK_ARG 0 i of
       None \<Rightarrow> AppendError | Some f' \<Rightarrow> AppendOk f' r)"
proof -
  have i: "unat i < 6" using assms(2) by (simp add: ZT_TRACE_GP_ARG_COUNT_def)
  let ?d = "digit_char (unat i)"
  have d: "isdigit ?d" "\<not> isspace ?d" "?d \<noteq> CHR ''-''" "?d \<noteq> CHR ''+''"
    using i digit_char_class [of "unat i"] by simp_all
  have r: "takeWhile (\<lambda>c. digit_val c < 10) r = []" "dropWhile (\<lambda>c. digit_val c < 10) r = r"
    using ends_digit_val [OF assms(1)] by (cases r; auto)+
  have dv: "digit_val ?d = unat i" using i by (simp add: digit_val_digit_char)
  have u: "uint i < 6" using i by (metis of_nat_less_iff of_nat_numeral uint_nat)
  have "strtoull 10 (?d # r) = (ucast i, r, False)"
    using d i u by (simp add: strtoull_def strip_base_def dv r digits_val_def Let_def)
  moreover have "(ucast i :: u64) < of_nat ZT_TRACE_GP_ARG_COUNT"
    using i by (simp add: word_less_nat_alt ZT_TRACE_GP_ARG_COUNT_def unsigned_ucast_eq
        order.strict_trans1 [OF take_bit_nat_less_eq_self])
  moreover have "ucast (ucast i :: u64) = i"
    by (rule bit_word_eqI) (simp add: bit_ucast_iff)
  ultimately show ?thesis
    using d(1) by (simp add: zt_filter_append_arg_def linorder_not_le [symmetric])
qed

lemma zt_filter_append_number_text:
  assumes "ends r"
  shows "zt_filter_append_number f (''0x'' @ fmt_x w @ r) =
    (case zt_filter_append_token f ZT_PROBE_FILTER_TOK_NUM w 0 of
       None \<Rightarrow> AppendError | Some f' \<Rightarrow> AppendOk f' r)"
proof -
  have "r \<noteq> ''0x'' @ fmt_x w @ r"
    by (metis append_assoc append_self_conv2 append_is_Nil_conv list.distinct(1))
  then show ?thesis
    using strtoull_fmt_x_rest [OF ends_digit_val [OF assms], of w]
    by (simp add: zt_filter_append_number_def isdigit_def)
qed

lemma zt_filter_append_operator_text:
  assumes "ends r" and "ty \<notin> {ZT_PROBE_FILTER_TOK_END, ZT_PROBE_FILTER_TOK_ARG, ZT_PROBE_FILTER_TOK_NUM}"
  shows "(case zt_filter_append_operator f (op_text ty @ r) k_two_char_ops of
      AppendNone \<Rightarrow> zt_filter_append_operator f (op_text ty @ r) k_one_char_ops | x \<Rightarrow> x) =
    (case zt_filter_append_token f ty 0 0 of None \<Rightarrow> AppendError | Some f' \<Rightarrow> AppendOk f' r)"
  using assms
  by (cases ty; cases r; cases "zt_filter_append_token f ty 0 0")
    (auto simp: k_two_char_ops_def k_one_char_ops_def ends_def)

lemma op_text_first:
  assumes "ty \<notin> {ZT_PROBE_FILTER_TOK_END, ZT_PROBE_FILTER_TOK_ARG, ZT_PROBE_FILTER_TOK_NUM}"
  shows "\<exists>c cs. op_text ty = c # cs \<and> \<not> isspace c \<and> \<not> isdigit c \<and> c \<noteq> CHR ''a''"
  using assms by (cases ty) (auto simp: isspace_def isdigit_def)

lemma zt_filter_append_next_token_text:
  assumes r: "ends r" and t: "canonical t" and sp: "sp = [] \<or> sp = '' ''"
  shows "zt_filter_append_next_token f (sp @ tok_text t @ r) =
    (case push_tok f t of None \<Rightarrow> AppendError | Some f' \<Rightarrow> AppendOk f' r)"
proof -
  have skip: "zt_filter_skip_spaces (sp @ c # cs) = c # cs" if "\<not> isspace c" for c cs
    using that sp by (auto simp: zt_filter_skip_spaces_def isspace_def)
  consider (arg) "tok_type t = ZT_PROBE_FILTER_TOK_ARG" | (num) "tok_type t = ZT_PROBE_FILTER_TOK_NUM"
    | (op) "tok_type t \<notin> {ZT_PROBE_FILTER_TOK_END, ZT_PROBE_FILTER_TOK_ARG, ZT_PROBE_FILTER_TOK_NUM}"
    using t by (cases "tok_type t") (auto simp: canonical_def)
  then show ?thesis
  proof cases
    case arg
    have "zt_filter_skip_spaces (sp @ ''arg'' @ digit_char (unat (tok_arg_index t)) # r) =
        ''arg'' @ digit_char (unat (tok_arg_index t)) # r"
      using skip [of "CHR ''a''"] by (simp add: isspace_def)
    then show ?thesis
      using arg t zt_filter_append_arg_text [OF r, of "tok_arg_index t" f]
      by (auto simp: zt_filter_append_next_token_def Let_def tok_text_def push_tok_def canonical_def
          split: option.split)
  next
    case num
    have "zt_filter_skip_spaces (sp @ ''0x'' @ fmt_x (tok_value t) @ r) = ''0x'' @ fmt_x (tok_value t) @ r"
      using skip [of "CHR ''0''"] by (simp add: isspace_def)
    moreover have "zt_filter_append_arg f (''0x'' @ fmt_x (tok_value t) @ r) = AppendNone"
      by (simp add: zt_filter_append_arg_def)
    ultimately show ?thesis
      using num t zt_filter_append_number_text [OF r, of f "tok_value t"]
      by (auto simp: zt_filter_append_next_token_def Let_def tok_text_def push_tok_def canonical_def
          split: option.split)
  next
    case op
    obtain c cs where c: "op_text (tok_type t) = c # cs" "\<not> isspace c" "\<not> isdigit c" "c \<noteq> CHR ''a''"
      using op_text_first [OF op] by blast
    have tt: "tok_text t = op_text (tok_type t)" "tok_value t = 0" "tok_arg_index t = 0"
      using op t by (cases "tok_type t"; simp add: tok_text_def canonical_def)+
    have "zt_filter_append_arg f (c # cs @ r) = AppendNone" "zt_filter_append_number f (c # cs @ r) = AppendNone"
      using c by (simp_all add: zt_filter_append_arg_def zt_filter_append_number_def)
    then show ?thesis
      using zt_filter_append_operator_text [OF r op, of f, unfolded c(1) append_Cons] skip [of c "cs @ r"] c
      by (simp add: zt_filter_append_next_token_def Let_def tt push_tok_def)
  qed
qed

fun push_toks :: "zt_probe_filter_t \<Rightarrow> tok list \<Rightarrow> zt_probe_filter_t option" where
  "push_toks f [] = Some f"
| "push_toks f (t # ts) = Option.bind (push_tok f t) (\<lambda>f'. push_toks f' ts)"

lemma tok_text_neq_Nil: "canonical t \<Longrightarrow> tok_text t \<noteq> []"
  by (auto simp: canonical_def tok_text_def split: zt_probe_filter_token_type_t.splits)

lemma zt_filter_compile_loop_text:
  assumes "\<forall>t \<in> set ts. canonical t" and "sp = [] \<or> sp = '' ''" and "ts \<noteq> []"
  shows "zt_filter_compile_loop f (sp @ toks_text ts) = push_toks f ts"
  using assms
proof (induction ts arbitrary: f sp rule: toks_text.induct)
  case (2 t)
  then show ?case
    using zt_filter_append_next_token_text [of "[]" t sp f] tok_text_neq_Nil [of t]
    by (auto simp: zt_filter_compile_loop.simps [of f "sp @ tok_text t"] zt_filter_compile_loop.simps [of _ "[]"]
        ends_def split: option.split)
next
  case (3 t u us)
  let ?r = "'' '' @ toks_text (u # us)"
  have r: "ends ?r" by (simp add: ends_def)
  have "zt_filter_append_next_token f (sp @ tok_text t @ ?r) =
    (case push_tok f t of None \<Rightarrow> AppendError | Some f' \<Rightarrow> AppendOk f' ?r)"
    using zt_filter_append_next_token_text [OF r _ "3.prems"(2)] "3.prems"(1) by simp
  moreover have "zt_filter_compile_loop f' ?r = push_toks f' (u # us)" for f'
    using "3.IH" [of "'' ''" f'] "3.prems" by simp
  moreover have "sp @ tok_text t @ ?r \<noteq> []"
    using tok_text_neq_Nil [of t] "3.prems" by simp
  moreover have "toks_text (t # u # us) = tok_text t @ ?r" by simp
  ultimately show ?case
    by (simp only: zt_filter_compile_loop.simps [of f "sp @ tok_text t @ ?r"] if_False)
      (simp split: option.split)
qed simp

lemma push_toks_Some:
  assumes "wf_filter f" and "\<forall>t \<in> set ts. canonical t"
    and "fl_token_count f + length ts \<le> ZT_PROBE_FILTER_TOKEN_CAP"
  shows "\<exists>f'. push_toks f ts = Some f' \<and> wf_filter f' \<and> filter_tokens f' = filter_tokens f @ ts"
  using assms
proof (induction ts arbitrary: f)
  case (Cons t ts)
  have "fl_token_count f < ZT_PROBE_FILTER_TOKEN_CAP" using Cons.prems by simp
  then obtain f' where f': "push_tok f t = Some f'" "fl_token_count f' = Suc (fl_token_count f)"
    by (auto simp: push_tok_def zt_filter_append_token_def Let_def)
  have arg: "tok_type t = ZT_PROBE_FILTER_TOK_ARG \<Longrightarrow> unat (tok_arg_index t) < ZT_TRACE_GP_ARG_COUNT"
    using Cons.prems(2) by (simp add: canonical_def)
  have "wf_filter f'" "filter_tokens f' = filter_tokens f @ [t]"
    using zt_filter_append_token_wf [OF f'(1) [unfolded push_tok_def] Cons.prems(1) arg] by simp_all
  then show ?case using Cons.IH [of f'] Cons.prems f' by auto
qed simp

lemma toks_text_first:
  assumes "ts \<noteq> []" and "\<forall>t \<in> set ts. canonical t"
  shows "zt_filter_skip_spaces (toks_text ts) = toks_text ts" and "toks_text ts \<noteq> []"
proof -
  obtain t us where ts: "ts = t # us" using assms by (cases ts) auto
  have "\<exists>c cs. tok_text t = c # cs \<and> \<not> isspace c"
    using assms(2) ts
    by (cases "tok_type t") (auto simp: canonical_def tok_text_def isspace_def)
  then obtain c cs where "toks_text ts = c # cs" "\<not> isspace c"
    unfolding ts by (cases us) auto
  then show "zt_filter_skip_spaces (toks_text ts) = toks_text ts" and "toks_text ts \<noteq> []"
    by (simp_all add: zt_filter_skip_spaces_def)
qed

section \<open>Properties\<close>

text \<open>
  C1. The compiled filter decides what the expression means: the tokens of every filter the
  compiler accepts form an expression of the precedence grammar, and the evaluator's verdict
  on an event is that expression's value with C's short-circuit rules on 64-bit wrap-around
  arithmetic, an event being suppressed exactly when the value is zero or an operand that is
  evaluated divides by zero.
\<close>

theorem filter_compile_correct:
  assumes "zt_probe_filter_compile (Some s) = Some f"
  shows "(\<exists>e. g_or (filter_tokens f) e) \<and>
    (\<forall>e ev. g_or (filter_tokens f) e \<longrightarrow>
       zt_probe_filter_eval (Some f) (Some ev) = filter_meaning e ev)"
proof -
  have "wf_filter f" and "zt_filter_validate f"
    using zt_probe_filter_compile_Some [OF assms] by simp_all
  then show ?thesis
    using zt_filter_validate_grammar zt_probe_filter_eval_meaning by blast
qed

theorem filter_compile_correct_witness:
  "\<exists>f e. zt_probe_filter_compile (Some ''arg0 > 1 && arg1/arg0 == 2'') = Some f \<and>
     g_or (filter_tokens f) e \<and>
     zt_probe_filter_eval (Some f) (Some zero_event) = filter_meaning e zero_event"
proof -
  have "\<not> Option.is_none (zt_probe_filter_compile (Some ''arg0 > 1 && arg1/arg0 == 2''))"
    by code_simp
  then obtain f where f: "zt_probe_filter_compile (Some ''arg0 > 1 && arg1/arg0 == 2'') = Some f"
    by (cases "zt_probe_filter_compile (Some ''arg0 > 1 && arg1/arg0 == 2'')") auto
  then show ?thesis using filter_compile_correct [OF f] by blast
qed

text \<open>
  C2. The validating parse accepts exactly the expressions of the grammar: for a well-formed
  token array it succeeds if and only if the tokens are an expression (nothing missing,
  nothing left over).
\<close>

theorem filter_validate_iff:
  assumes "wf_filter f"
  shows "zt_filter_validate f \<longleftrightarrow> (\<exists>e. g_or (filter_tokens f) e)"
  using assms by (rule zt_filter_validate_grammar)

definition example_filter :: zt_probe_filter_t where
  "example_filter = zero_filter\<lparr>fl_enabled := 1, fl_token_count := 1,
     fl_tokens := (fl_tokens zero_filter)[0 := \<lparr>tok_type = ZT_PROBE_FILTER_TOK_ARG,
       tok_arg_index = 2, tok_value = 0\<rparr>]\<rparr>"

theorem filter_validate_iff_witness:
  "wf_filter example_filter \<and> zt_filter_validate example_filter \<and>
   (\<exists>e. g_or (filter_tokens example_filter) e)"
proof -
  have wf: "wf_filter example_filter"
    by code_simp
  have "zt_filter_validate example_filter" by code_simp
  with wf filter_validate_iff [OF wf] show ?thesis by blast
qed

text \<open>
  C3. The structure the injector copies into the target process stays inside its bounds: a
  compiled filter is enabled, has between 1 and 64 tokens in a 64-element array, every
  argument token indexes one of the six captured integer arguments, and the stored text with
  its terminator fits 128 bytes.
\<close>

theorem filter_compile_bounds:
  assumes "zt_probe_filter_compile (Some s) = Some f"
  shows "0 < fl_token_count f \<and> fl_token_count f \<le> ZT_PROBE_FILTER_TOKEN_CAP \<and>
    length (fl_tokens f) = ZT_PROBE_FILTER_TOKEN_CAP \<and> fl_enabled f \<noteq> 0 \<and>
    length (fl_expr f) + 1 \<le> ZT_PROBE_FILTER_EXPR_MAX \<and>
    (\<forall>i < fl_token_count f. tok_type (fl_tokens f ! i) = ZT_PROBE_FILTER_TOK_ARG \<longrightarrow>
       unat (tok_arg_index (fl_tokens f ! i)) < ZT_TRACE_GP_ARG_COUNT)"
proof -
  note f = zt_probe_filter_compile_Some [OF assms]
  have "0 < fl_token_count f"
    using f(2) by (auto simp: zt_filter_validate_def split: if_splits)
  moreover have "fl_tokens f ! i \<in> set (filter_tokens f)" if "i < fl_token_count f" for i
    using that f(1) nth_mem [of i "filter_tokens f"] by (simp add: wf_filter_def filter_tokens_def)
  ultimately show ?thesis
    using f(1,5) by (auto simp: wf_filter_def)
qed

theorem filter_compile_bounds_witness:
  "\<exists>f. zt_probe_filter_compile (Some ''arg5 != 0x10'') = Some f \<and>
     fl_token_count f \<le> ZT_PROBE_FILTER_TOKEN_CAP"
proof -
  have "\<not> Option.is_none (zt_probe_filter_compile (Some ''arg5 != 0x10''))" by code_simp
  then obtain f where f: "zt_probe_filter_compile (Some ''arg5 != 0x10'') = Some f"
    by (cases "zt_probe_filter_compile (Some ''arg5 != 0x10'')") auto
  then show ?thesis using filter_compile_bounds [OF f] by blast
qed

text \<open>
  C4. Print and compile: the text of a token sequence of the grammar (tokens separated by one
  space, numbers in hexadecimal) compiles to a filter with exactly those tokens, when it
  fits the limits of 64 tokens and 127 characters.
\<close>

theorem filter_text_roundtrip:
  assumes "g_or ts e" and "\<forall>t \<in> set ts. canonical t"
    and "length ts \<le> ZT_PROBE_FILTER_TOKEN_CAP"
    and "length (toks_text ts) < ZT_PROBE_FILTER_EXPR_MAX"
  shows "\<exists>f. zt_probe_filter_compile (Some (toks_text ts)) = Some f \<and> filter_tokens f = ts"
proof -
  have ne: "ts \<noteq> []" using assms(1) by (rule g_or_nonempty)
  let ?f0 = "zero_filter\<lparr>fl_expr := toks_text ts, fl_enabled := 1\<rparr>"
  obtain f where f: "push_toks ?f0 ts = Some f" "wf_filter f" "filter_tokens f = ts"
    using push_toks_Some [OF wf_filter_start assms(2), of "toks_text ts"] assms(3)
    by (auto simp: filter_tokens_def zero_filter_def)
  have "zt_filter_compile_loop ?f0 (toks_text ts) = Some f"
    using zt_filter_compile_loop_text [OF assms(2) _ ne, of "[]" ?f0] f by simp
  moreover have "zt_filter_validate f"
    using zt_filter_validate_grammar f assms(1) by auto
  ultimately show ?thesis
    using toks_text_first [OF ne assms(2)] assms(4) f
    by (simp add: zt_probe_filter_compile_def Let_def)
qed

theorem filter_text_roundtrip_witness:
  "\<exists>f. zt_probe_filter_compile (Some ''! arg3'') = Some f \<and>
     map tok_type (filter_tokens f) = [ZT_PROBE_FILTER_TOK_NOT, ZT_PROBE_FILTER_TOK_ARG]"
proof -
  let ?n = "\<lparr>tok_type = ZT_PROBE_FILTER_TOK_NOT, tok_arg_index = 0, tok_value = 0\<rparr>"
  let ?a = "\<lparr>tok_type = ZT_PROBE_FILTER_TOK_ARG, tok_arg_index = 3, tok_value = 0\<rparr>"
  have "g_primary [?a] (FArg (unat (tok_arg_index ?a)))" by (rule p_arg) simp
  then have "g_unary [?n, ?a] (FNot (FArg (unat (tok_arg_index ?a))))"
    by (intro u_not u_prim) simp_all
  then have g: "g_or [?n, ?a] (FNot (FArg (unat (tok_arg_index ?a))))"
    by (intro o_and n_cmp c_add a_mul m_unary)
  have printed: "toks_text [?n, ?a] = ''! arg3''"
    by code_simp
  have "\<exists>f. zt_probe_filter_compile (Some (toks_text [?n, ?a])) = Some f \<and> filter_tokens f = [?n, ?a]"
  proof (rule filter_text_roundtrip [OF g])
    show "length (toks_text [?n, ?a]) < ZT_PROBE_FILTER_EXPR_MAX"
      unfolding printed by (simp add: zt_limits)
  qed (simp_all add: canonical_def zt_limits)
  then show ?thesis unfolding printed by auto
qed

text \<open>
  A trailing white-space character makes every expression fail: the tokenizer is called
  once more on the space and its \<open>no token\<close> answer is taken as an error.
\<close>

theorem filter_compile_trailing_space:
  assumes "isspace c"
  shows "zt_probe_filter_compile (Some (s @ [c])) = None"
proof (cases "zt_filter_skip_spaces (s @ [c]) = []")
  case True
  then show ?thesis by (simp add: zt_probe_filter_compile_def)
next
  case False
  then have "isspace (last (zt_filter_skip_spaces (s @ [c])))"
    using skip_spaces_trailing [of "s @ [c]"] assms by simp
  then show ?thesis
    using compile_loop_trailing [OF False] by (simp add: zt_probe_filter_compile_def Let_def)
qed

theorem filter_compile_trailing_space_witness:
  "zt_probe_filter_compile (Some ''arg0 == 1 '') = None"
  using filter_compile_trailing_space [of "CHR '' ''" "''arg0 == 1''"] by (simp add: isspace_def)

end
