(* ===== verification/ZT_Emit.thy ===== *)
theory ZT_Emit
  imports ZT_Data
begin

text \<open>
  Emitting instruction bytes into a bounded buffer. Both trampoline builders carry the same
  helper \<^verbatim>\<open>zt_emit_bytes\<close>; the locale \<open>byte_sink\<close> states what the builders rely on,
  and the lemmas about sequences of emissions are proved once inside it.
\<close>

section \<open>The interface of an emitter\<close>

locale byte_sink =
  fixes emit :: "'s \<Rightarrow> 'b list \<Rightarrow> 's option"
    and out :: "'s \<Rightarrow> 'b list"
    and room :: "'s \<Rightarrow> nat"
    and ok :: "'s \<Rightarrow> bool"
  assumes emit_fits: "ok s \<Longrightarrow> emit s bs \<noteq> None \<longleftrightarrow> length bs \<le> room s"
    and emit_out: "ok s \<Longrightarrow> emit s bs = Some s' \<Longrightarrow> out s' = out s @ bs"
    and emit_room: "ok s \<Longrightarrow> emit s bs = Some s' \<Longrightarrow> room s = room s' + length bs"
    and emit_ok: "ok s \<Longrightarrow> emit s bs = Some s' \<Longrightarrow> ok s'"
begin

text \<open>A run of emissions, stopping at the first that does not fit.\<close>

fun emits :: "'s \<Rightarrow> 'b list list \<Rightarrow> 's option" where
  "emits s [] = Some s"
| "emits s (b # bs) = Option.bind (emit s b) (\<lambda>s'. emits s' bs)"

lemma emits_Some:
  "ok s \<Longrightarrow> emits s bss = Some s' \<Longrightarrow>
     ok s' \<and> out s' = out s @ concat bss \<and> room s = room s' + length (concat bss)"
proof (induction bss arbitrary: s)
  case (Cons b bss)
  then obtain t where t: "emit s b = Some t" "emits t bss = Some s'"
    by (auto split: Option.bind_splits)
  note l = emit_ok [OF Cons.prems(1) t(1)] emit_out [OF Cons.prems(1) t(1)] emit_room [OF Cons.prems(1) t(1)]
  from Cons.IH [OF l(1) t(2)] l show ?case by simp
qed simp

lemma emits_fits: "ok s \<Longrightarrow> emits s bss \<noteq> None \<longleftrightarrow> length (concat bss) \<le> room s"
proof (induction bss arbitrary: s)
  case (Cons b bss)
  show ?case
  proof (cases "emit s b")
    case None
    then show ?thesis using emit_fits [OF Cons.prems, of b] by simp
  next
    case (Some t)
    with emit_ok [OF Cons.prems Some] emit_room [OF Cons.prems Some] Cons.IH [of t] show ?thesis
      by simp
  qed
qed simp

end

section \<open>The buffer of the trampoline builders\<close>

text \<open>
  The pair of the buffer (whose length is \<^verbatim>\<open>buf_size\<close>) and \<^verbatim>\<open>*offset\<close>; \<open>None\<close> is the
  return code -1.
\<close>

type_synonym emit_buf = "u8 list \<times> nat"

definition zt_emit_bytes :: "emit_buf \<Rightarrow> u8 list \<Rightarrow> emit_buf option" where
  "zt_emit_bytes b src =
     (if snd b + length src > length (fst b) then None
      else Some (buf_put (fst b) (snd b) src, snd b + length src))"

definition eb_out :: "emit_buf \<Rightarrow> u8 list" where
  "eb_out b = take (snd b) (fst b)"

definition eb_room :: "emit_buf \<Rightarrow> nat" where
  "eb_room b = length (fst b) - snd b"

definition eb_ok :: "emit_buf \<Rightarrow> bool" where
  "eb_ok b = (snd b \<le> length (fst b))"

lemma zt_emit_bytes_Some:
  "zt_emit_bytes b src = Some b' \<longleftrightarrow>
     snd b + length src \<le> length (fst b) \<and> b' = (buf_put (fst b) (snd b) src, snd b + length src)"
  by (auto simp: zt_emit_bytes_def)

interpretation eb: byte_sink zt_emit_bytes eb_out eb_room eb_ok
proof
  fix s :: emit_buf and bs :: "u8 list"
  assume ok: "eb_ok s"
  then show "(zt_emit_bytes s bs \<noteq> None) = (length bs \<le> eb_room s)"
    by (auto simp: zt_emit_bytes_def eb_room_def eb_ok_def)
  fix s'
  assume e: "zt_emit_bytes s bs = Some s'"
  with ok show "eb_out s' = eb_out s @ bs" and "eb_room s = eb_room s' + length bs" and "eb_ok s'"
    by (auto simp: zt_emit_bytes_Some eb_out_def eb_room_def eb_ok_def take_buf_put)
qed

text \<open>
  The chains \<^verbatim>\<open>zt_emit_bytes(...) != 0 || zt_emit_bytes(...) != 0 || ...\<close> of the builders.
\<close>

fun zt_emit_seq :: "emit_buf \<Rightarrow> u8 list list \<Rightarrow> emit_buf option" where
  "zt_emit_seq b [] = Some b"
| "zt_emit_seq b (src # srcs) =
     (case zt_emit_bytes b src of None \<Rightarrow> None | Some b' \<Rightarrow> zt_emit_seq b' srcs)"

lemma zt_emit_seq_emits: "zt_emit_seq b srcs = eb.emits b srcs"
  by (induction srcs arbitrary: b) (auto split: option.split)

lemma zt_emit_seq_Some:
  assumes "eb_ok b" and "zt_emit_seq b srcs = Some b'"
  shows "eb_ok b'" and "eb_out b' = eb_out b @ concat srcs"
    and "eb_room b = eb_room b' + length (concat srcs)"
  using eb.emits_Some [OF assms(1) assms(2) [unfolded zt_emit_seq_emits]] by blast+

text \<open>Bytes behind the emitted part are untouched.\<close>

lemma zt_emit_bytes_frame:
  assumes "zt_emit_bytes b src = Some b'"
  shows "length (fst b') = length (fst b)" and "drop (snd b') (fst b') = drop (snd b') (fst b)"
  using assms by (auto simp: zt_emit_bytes_Some buf_put_def)

lemma zt_emit_seq_frame:
  "eb_ok b \<Longrightarrow> zt_emit_seq b bss = Some b' \<Longrightarrow>
     length (fst b') = length (fst b) \<and> drop (snd b') (fst b') = drop (snd b') (fst b) \<and>
     snd b' = snd b + length (concat bss)"
proof (induction bss arbitrary: b)
  case (Cons x bss)
  then obtain t where t: "zt_emit_bytes b x = Some t" "zt_emit_seq t bss = Some b'"
    by (auto split: option.splits)
  note f = zt_emit_bytes_frame [OF t(1)]
  have ok: "eb_ok t" using eb.emit_ok [OF Cons.prems(1) t(1)] .
  have IH: "length (fst b') = length (fst t)" "drop (snd b') (fst b') = drop (snd b') (fst t)"
    "snd b' = snd t + length (concat bss)"
    using Cons.IH [OF ok t(2)] by blast+
  have "drop (snd b') (fst t) = drop (snd b') (fst b)"
    using f(2) IH(3) by (metis add.commute drop_drop)
  then show ?case using IH f t(1) by (auto simp: zt_emit_bytes_Some)
qed simp

end
