(* ===== verification/ZT_TrampX86.thy ===== *)
theory ZT_TrampX86
  imports ZT_Emit
begin

text \<open>
  Model of \<^verbatim>\<open>src/isa/x86_64/trampoline_manager.c\<close>. The Capstone disassembler is a
  parameter: a function from code bytes and their address to the decoded instructions
  (\<open>None\<close> when \<^verbatim>\<open>cs_open\<close> fails), each with the fields the builder reads. What the
  emitted bytes do is stated with the processor model of \<^verbatim>\<open>ZT_X86Machine\<close>.
\<close>

section \<open>Decoded instructions\<close>

datatype x86_id =
    X86_INS_CALL | X86_INS_JMP
  | X86_INS_JAE | X86_INS_JA | X86_INS_JBE | X86_INS_JB | X86_INS_JCXZ | X86_INS_JECXZ
  | X86_INS_JE | X86_INS_JGE | X86_INS_JG | X86_INS_JLE | X86_INS_JL | X86_INS_JNE
  | X86_INS_JNO | X86_INS_JNP | X86_INS_JNS | X86_INS_JO | X86_INS_JP | X86_INS_JRCXZ
  | X86_INS_JS | X86_INS_OTHER

text \<open>An operand: an immediate, a memory operand (with \<^verbatim>\<open>mem.base == X86_REG_RIP\<close>), or other.\<close>

datatype x86_op = X86_OP_IMM u64 | X86_OP_MEM bool | X86_OP_OTHER

record x86_insn =
  xi_id :: x86_id
  xi_address :: u64
  xi_size :: nat
  xi_bytes :: "u8 list"
  xi_operands :: "x86_op list"
  xi_disp :: u64
  xi_disp_offset :: nat
  xi_disp_size :: nat

type_synonym x86_disasm = "u8 list \<Rightarrow> u64 \<Rightarrow> x86_insn list option"

section \<open>The builder\<close>

definition ZT_TRAMPOLINE_TEMPLATE_PREFIX :: "u8 list" where
  "ZT_TRAMPOLINE_TEMPLATE_PREFIX =
     [0x68, 0x00, 0x00, 0x00, 0x00,
      0xFF, 0x15, 0x00, 0x00, 0x00, 0x00,
      0x48, 0x8D, 0x64, 0x24, 0x08]"

definition ZT_TRAMPOLINE_TEMPLATE_SUFFIX :: "u8 list" where
  "ZT_TRAMPOLINE_TEMPLATE_SUFFIX =
     [0xFF, 0x25, 0x00, 0x00, 0x00, 0x00,
      0x00, 0x00, 0x00, 0x00, 0x00, 0x00, 0x00, 0x00,
      0x00, 0x00, 0x00, 0x00, 0x00, 0x00, 0x00, 0x00]"

text \<open>\<^verbatim>\<open>disp_value\<close> is a signed 64-bit value, given by its word.\<close>

definition zt_patch_disp32 :: "u8 list \<Rightarrow> nat \<Rightarrow> nat \<Rightarrow> nat \<Rightarrow> u64 \<Rightarrow> u8 list option" where
  "zt_patch_disp32 buf insn_offset disp_offset disp_size disp_value =
     (if disp_size \<noteq> 4 \<or> sint disp_value < - (2 ^ 31) \<or> sint disp_value > 2 ^ 31 - 1 then None
      else Some (buf_put buf (insn_offset + disp_offset) (le32 (ucast disp_value))))"

fun op_is_imm :: "x86_op \<Rightarrow> bool" where
  "op_is_imm (X86_OP_IMM v) = True"
| "op_is_imm _ = False"

fun op_imm :: "x86_op \<Rightarrow> u64" where
  "op_imm (X86_OP_IMM v) = v"
| "op_imm _ = 0"

definition zt_is_rel_call :: "x86_insn \<Rightarrow> bool" where
  "zt_is_rel_call insn = (xi_id insn = X86_INS_CALL \<and> length (xi_operands insn) > 0 \<and>
     op_is_imm (xi_operands insn ! 0))"

definition zt_is_rel_jmp :: "x86_insn \<Rightarrow> bool" where
  "zt_is_rel_jmp insn = (xi_id insn = X86_INS_JMP \<and> length (xi_operands insn) > 0 \<and>
     op_is_imm (xi_operands insn ! 0))"

definition zt_is_conditional_jump :: "x86_insn \<Rightarrow> bool" where
  "zt_is_conditional_jump insn \<longleftrightarrow>
     xi_id insn \<notin> {X86_INS_CALL, X86_INS_JMP, X86_INS_OTHER}"

fun zt_inverse_short_jcc_opcode :: "x86_id \<Rightarrow> u8 option" where
  "zt_inverse_short_jcc_opcode X86_INS_JO = Some 0x71"
| "zt_inverse_short_jcc_opcode X86_INS_JNO = Some 0x70"
| "zt_inverse_short_jcc_opcode X86_INS_JB = Some 0x73"
| "zt_inverse_short_jcc_opcode X86_INS_JAE = Some 0x72"
| "zt_inverse_short_jcc_opcode X86_INS_JE = Some 0x75"
| "zt_inverse_short_jcc_opcode X86_INS_JNE = Some 0x74"
| "zt_inverse_short_jcc_opcode X86_INS_JBE = Some 0x77"
| "zt_inverse_short_jcc_opcode X86_INS_JA = Some 0x76"
| "zt_inverse_short_jcc_opcode X86_INS_JS = Some 0x79"
| "zt_inverse_short_jcc_opcode X86_INS_JNS = Some 0x78"
| "zt_inverse_short_jcc_opcode X86_INS_JP = Some 0x7B"
| "zt_inverse_short_jcc_opcode X86_INS_JNP = Some 0x7A"
| "zt_inverse_short_jcc_opcode X86_INS_JL = Some 0x7D"
| "zt_inverse_short_jcc_opcode X86_INS_JGE = Some 0x7C"
| "zt_inverse_short_jcc_opcode X86_INS_JLE = Some 0x7F"
| "zt_inverse_short_jcc_opcode X86_INS_JG = Some 0x7E"
| "zt_inverse_short_jcc_opcode _ = None"

definition zt_rewrite_rel_call :: "emit_buf \<Rightarrow> u64 \<Rightarrow> emit_buf option" where
  "zt_rewrite_rel_call b target_addr =
     zt_emit_seq b [[0x41, 0x53], [0x49, 0xBB], le64 target_addr, [0x41, 0xFF, 0xD3], [0x41, 0x5B]]"

definition zt_rewrite_rel_jmp :: "emit_buf \<Rightarrow> u64 \<Rightarrow> emit_buf option" where
  "zt_rewrite_rel_jmp b target_addr =
     zt_emit_seq b [[0x49, 0xBB], le64 target_addr, [0x41, 0xFF, 0xE3]]"

definition zt_rewrite_cond_jmp :: "emit_buf \<Rightarrow> x86_insn \<Rightarrow> u64 \<Rightarrow> emit_buf option" where
  "zt_rewrite_cond_jmp b insn target_addr =
     (case zt_inverse_short_jcc_opcode (xi_id insn) of
        None \<Rightarrow> None
      | Some opcode \<Rightarrow>
          (case zt_emit_bytes b [opcode, 13] of
             None \<Rightarrow> None
           | Some b' \<Rightarrow> zt_rewrite_rel_jmp b' target_addr))"

text \<open>
  The inner loop over the operands: the first RIP-relative memory operand rebases the
  displacement of the copied instruction and ends the loop.
\<close>

fun x86_rebase_operands ::
  "u64 \<Rightarrow> x86_insn \<Rightarrow> nat \<Rightarrow> u8 list \<Rightarrow> x86_op list \<Rightarrow> u8 list option" where
  "x86_rebase_operands trampoline_code_addr cur insn_offset buf [] = Some buf"
| "x86_rebase_operands trampoline_code_addr cur insn_offset buf (op # ops) =
     (if op = X86_OP_MEM True then
        let old_next = xi_address cur + of_nat (xi_size cur);
            old_target = old_next + xi_disp cur;
            new_next = trampoline_code_addr + of_nat insn_offset + of_nat (xi_size cur);
            new_disp = old_target - new_next
        in zt_patch_disp32 buf insn_offset (xi_disp_offset cur) (xi_disp_size cur) new_disp
      else x86_rebase_operands trampoline_code_addr cur insn_offset buf ops)"

definition x86_emit_one :: "u64 \<Rightarrow> emit_buf \<Rightarrow> x86_insn \<Rightarrow> emit_buf option" where
  "x86_emit_one trampoline_code_addr b cur =
     (if zt_is_rel_call cur then zt_rewrite_rel_call b (op_imm (xi_operands cur ! 0))
      else if zt_is_rel_jmp cur then zt_rewrite_rel_jmp b (op_imm (xi_operands cur ! 0))
      else if zt_is_conditional_jump cur then
        (if length (xi_operands cur) = 0 \<or> \<not> op_is_imm (xi_operands cur ! 0) then None
         else zt_rewrite_cond_jmp b cur (op_imm (xi_operands cur ! 0)))
      else
        case zt_emit_bytes b (take (xi_size cur) (xi_bytes cur)) of
          None \<Rightarrow> None
        | Some b' \<Rightarrow>
            (case x86_rebase_operands trampoline_code_addr cur (snd b) (fst b') (xi_operands cur) of
               None \<Rightarrow> None
             | Some buf \<Rightarrow> Some (buf, snd b')))"

fun x86_emit_all :: "u64 \<Rightarrow> emit_buf \<Rightarrow> x86_insn list \<Rightarrow> emit_buf option" where
  "x86_emit_all trampoline_code_addr b [] = Some b"
| "x86_emit_all trampoline_code_addr b (cur # rest) =
     (case x86_emit_one trampoline_code_addr b cur of
        None \<Rightarrow> None
      | Some b' \<Rightarrow> x86_emit_all trampoline_code_addr b' rest)"

definition x86_emit_relocated_orig_code ::
  "x86_disasm \<Rightarrow> zt_probe_info_t \<Rightarrow> u64 \<Rightarrow> u8 list \<Rightarrow> emit_buf option" where
  "x86_emit_relocated_orig_code disasm probe trampoline_code_addr buf =
     (case disasm (take (pi_orig_len probe) (pi_orig_code probe)) (tgt_remote_addr (pi_target probe)) of
        None \<Rightarrow> None
      | Some insns \<Rightarrow>
          if insns = [] then None else x86_emit_all trampoline_code_addr (buf, 0) insns)"

text \<open>
  \<^verbatim>\<open>zt_build_trampoline\<close>: the buffer and \<^verbatim>\<open>*trampoline_size_out\<close>. The relocated code
  is emitted into the part of the buffer behind the prefix.
\<close>

definition x86_build_trampoline ::
  "x86_disasm \<Rightarrow> zt_probe_info_t \<Rightarrow> u64 \<Rightarrow> u64 \<Rightarrow> nat \<Rightarrow> (u8 list \<times> nat) option" where
  "x86_build_trampoline disasm probe entry_stub_addr trampoline_addr trampoline_buf_size =
     (if trampoline_addr = 0 \<or> entry_stub_addr = 0 then None
      else if pi_orig_len probe = 0 \<or> pi_orig_len probe > ZT_PROBE_ORIG_CODE_MAX then None
      else do {
        let continue_addr = tgt_remote_addr (pi_target probe) + of_nat (pi_orig_len probe);
        (buf1, offset) \<leftarrow> zt_emit_bytes (replicate trampoline_buf_size 0x90, 0) ZT_TRAMPOLINE_TEMPLATE_PREFIX;
        let buf2 = buf_put buf1 1 (le32 (ucast (pi_probe_id probe)));
        (sub, relocated_size) \<leftarrow> x86_emit_relocated_orig_code disasm probe
          (trampoline_addr + of_nat (length ZT_TRAMPOLINE_TEMPLATE_PREFIX)) (drop offset buf2);
        let buf3 = take offset buf2 @ sub;
        (buf4, offset4) \<leftarrow> zt_emit_bytes (buf3, offset + relocated_size) ZT_TRAMPOLINE_TEMPLATE_SUFFIX;
        let p = length ZT_TRAMPOLINE_TEMPLATE_PREFIX;
        let needed_size = p + relocated_size + length ZT_TRAMPOLINE_TEMPLATE_SUFFIX;
        let entry_slot_offset = p + relocated_size + 6;
        let continue_slot_offset = entry_slot_offset + 8;
        let call_disp = entry_slot_offset - 11;
        let jmp_disp = continue_slot_offset - (p + relocated_size + 6);
        if offset4 \<noteq> needed_size then None
        else do {
          let buf5 = buf_put buf4 7 (le32 (of_nat call_disp));
          let buf6 = buf_put buf5 (p + relocated_size + 2) (le32 (of_nat jmp_disp));
          let buf7 = buf_put buf6 (p + relocated_size + 6) (le64 entry_stub_addr);
          let buf8 = buf_put buf7 (p + relocated_size + 14) (le64 continue_addr);
          Some (buf8, offset4)
        }
      })"

end
