(* ===== verification/ZT_Memory.thy ===== *)
theory ZT_Memory
  imports ZT_Prelude
begin

text \<open>
  A byte-addressed 64-bit memory: fetching bytes, loading and storing little-endian
  64-bit values, and code stored at an address. The processor models execute from it.
\<close>

section \<open>Access\<close>

definition fetch :: "(u64 \<Rightarrow> u8) \<Rightarrow> u64 \<Rightarrow> nat \<Rightarrow> u8 list" where
  "fetch m a n = map (\<lambda>i. m (a + of_nat i)) [0..<n]"

definition load64 :: "(u64 \<Rightarrow> u8) \<Rightarrow> u64 \<Rightarrow> u64" where
  "load64 m a = le_word (fetch m a 8)"

definition store64 :: "(u64 \<Rightarrow> u8) \<Rightarrow> u64 \<Rightarrow> u64 \<Rightarrow> u64 \<Rightarrow> u8" where
  "store64 m a v = (\<lambda>x. if x - a < 8 then le64 v ! unat (x - a) else m x)"

section \<open>Code in memory\<close>

definition code_at :: "(u64 \<Rightarrow> u8) \<Rightarrow> u64 \<Rightarrow> u8 list \<Rightarrow> bool" where
  "code_at m a bs \<longleftrightarrow> fetch m a (length bs) = bs"

lemma length_fetch [simp]: "length (fetch m a n) = n"
  by (simp add: fetch_def)

lemma nth_fetch [simp]: "i < n \<Longrightarrow> fetch m a n ! i = m (a + of_nat i)"
  by (simp add: fetch_def)

lemma fetch_add: "fetch m a (n + k) = fetch m a n @ fetch m (a + of_nat n) k"
  by (rule nth_equalityI) (auto simp: nth_append of_nat_diff)

lemma code_at_append:
  "code_at m a (xs @ ys) \<longleftrightarrow> code_at m a xs \<and> code_at m (a + of_nat (length xs)) ys"
  by (simp add: code_at_def fetch_add)

lemma code_at_Cons: "code_at m a (x # xs) \<longleftrightarrow> m a = x \<and> code_at m (a + 1) xs"
  using code_at_append [of m a "[x]" xs] by (simp add: code_at_def fetch_def)

lemma code_at_Nil [simp]: "code_at m a []"
  by (simp add: code_at_def fetch_def)

lemma code_at_concat_nth:
  assumes "code_at m a (concat xss)" and "k < length xss"
  shows "code_at m (a + of_nat (length (concat (take k xss)))) (xss ! k)"
proof -
  have "concat xss = concat (take k xss) @ xss ! k @ concat (drop (Suc k) xss)"
    using assms(2) by (metis concat.simps(2) concat_append id_take_nth_drop)
  with assms(1) show ?thesis by (simp add: code_at_append)
qed

lemma code_at_load64: "code_at m a (le64 v) \<Longrightarrow> load64 m a = v"
  by (simp add: code_at_def load64_def)

lemma code_at_load32: "code_at m a (le32 v) \<Longrightarrow> le_word (fetch m a 4) = v"
  by (simp add: code_at_def)

lemma load64_store64 [simp]: "load64 (store64 m a v) a = v"
proof -
  have "fetch (store64 m a v) a 8 = le64 v"
    by (rule nth_equalityI) (auto simp: store64_def unat_of_nat word_less_nat_alt)
  then show ?thesis by (simp add: load64_def)
qed

text \<open>The \<open>k\<close> bytes below the stack pointer do not overlap \<open>n\<close> bytes of code.\<close>

definition below_clear :: "u64 \<Rightarrow> u64 \<Rightarrow> u64 \<Rightarrow> nat \<Rightarrow> bool" where
  "below_clear sp k a n \<longleftrightarrow> (\<forall>i < n. k \<le> a + of_nat i - (sp - k))"

lemma below_clear_8:
  assumes "below_clear sp 16 a n"
  shows "below_clear sp 8 a n" and "below_clear (sp - 8) 8 a n"
proof -
  have *: "8 \<le> x - (sp - 8) \<and> 8 \<le> x - (sp - 8 - 8)" if "16 \<le> x - (sp - 16)" for x :: u64
  proof -
    define d where "d = x - (sp - 16)"
    have d: "x - (sp - 8) = d - 8" "x - (sp - 8 - 8) = d" and "16 \<le> d"
      using that by (simp_all add: d_def)
    have "unat (d - 8) = unat d - 8"
      using \<open>16 \<le> d\<close> unat_sub [of 8 d] by (simp add: word_le_nat_alt)
    then show ?thesis using \<open>16 \<le> d\<close> unfolding d by (simp add: word_le_nat_alt)
  qed
  show "below_clear sp 8 a n" and "below_clear (sp - 8) 8 a n"
    using assms * by (auto simp: below_clear_def)
qed

lemma code_at_store64:
  assumes "code_at m a bs" and "below_clear sp 8 a (length bs)"
  shows "code_at (store64 m (sp - 8) v) a bs"
  using assms unfolding code_at_def
  by (intro nth_equalityI) (auto simp: store64_def below_clear_def not_less list_eq_iff_nth_eq)

lemma load64_store64_above: "load64 (store64 m (a - 8) v) a = load64 m a"
proof -
  have "fetch (store64 m (a - 8) v) a 8 = fetch m a 8"
  proof (rule nth_equalityI)
    fix i
    assume "i < length (fetch (store64 m (a - 8) v) a 8)"
    then have i: "i < 8" by simp
    have "unat (of_nat i + 8 :: u64) = i + 8"
      using i by (simp add: unat_word_ariths unat_of_nat)
    then have "\<not> (a + of_nat i - (a - 8) < (8 :: u64))"
      by (simp add: word_less_nat_alt)
    with i show "fetch (store64 m (a - 8) v) a 8 ! i = fetch m a 8 ! i" by (simp add: store64_def)
  qed simp
  then show ?thesis by (simp add: load64_def)
qed

section \<open>A memory that holds given code\<close>

definition load_code :: "u64 \<Rightarrow> u8 list \<Rightarrow> u64 \<Rightarrow> u8" where
  "load_code a bs = (\<lambda>x. if unat (x - a) < length bs then bs ! unat (x - a) else 0)"

lemma code_at_load_code:
  assumes "length bs < 2 ^ 64"
  shows "code_at (load_code a bs) a bs"
  unfolding code_at_def
proof (rule nth_equalityI)
  fix i
  assume "i < length (fetch (load_code a bs) a (length bs))"
  then have i: "i < length bs" by simp
  then have "unat (of_nat i :: u64) = i" using assms by (simp add: unat_of_nat)
  with i show "fetch (load_code a bs) a (length bs) ! i = bs ! i" by (simp add: load_code_def)
qed simp

text \<open>A stack that grows down from the start of the code does not overlap it.\<close>

lemma below_clear_self:
  assumes "n < 2 ^ 63"
  shows "below_clear a 16 a n"
  unfolding below_clear_def
proof (intro allI impI)
  fix i
  assume "i < n"
  with assms have "unat (of_nat i + 16 :: u64) = i + 16"
    by (simp add: unat_word_ariths unat_of_nat)
  then show "16 \<le> a + of_nat i - (a - 16)" by (simp add: word_le_nat_alt)
qed

lemma take_fetch: "k \<le> n \<Longrightarrow> take k (fetch m a n) = fetch m a k"
  by (rule nth_equalityI) auto

lemma buf_get_fetch: "i + k \<le> n \<Longrightarrow> buf_get (fetch m a n) i k = fetch m (a + of_nat i) k"
  by (rule nth_equalityI) (auto simp: buf_get_def algebra_simps)

end
