(* ===== verification/ZT_X86Machine.thy ===== *)
theory ZT_X86Machine
  imports ZT_Memory
begin

text \<open>
  The x86-64 instructions the trampoline builder emits, executed from memory: the
  registers they touch, the status flags the conditional jumps read, and a byte-addressed
  64-bit memory. This is the reference the trampoline theorems are stated against.
\<close>

section \<open>State\<close>

record x86_flags =
  fCF :: bool
  fZF :: bool
  fSF :: bool
  fOF :: bool
  fPF :: bool

record x86_state =
  x_rip :: u64
  x_rsp :: u64
  x_r11 :: u64
  x_flags :: x86_flags
  x_mem :: "u64 \<Rightarrow> u8"

text \<open>The condition encoded in the low four bits of a conditional jump.\<close>

definition x86_cond :: "nat \<Rightarrow> x86_flags \<Rightarrow> bool" where
  "x86_cond c f =
     ((if c div 2 = 0 then fOF f
       else if c div 2 = 1 then fCF f
       else if c div 2 = 2 then fZF f
       else if c div 2 = 3 then fCF f \<or> fZF f
       else if c div 2 = 4 then fSF f
       else if c div 2 = 5 then fPF f
       else if c div 2 = 6 then fSF f \<noteq> fOF f
       else fZF f \<or> fSF f \<noteq> fOF f) = even c)"

definition push64 :: "x86_state \<Rightarrow> u64 \<Rightarrow> x86_state" where
  "push64 s v = s\<lparr>x_rsp := x_rsp s - 8, x_mem := store64 (x_mem s) (x_rsp s - 8) v\<rparr>"

section \<open>Execution\<close>

text \<open>
  One instruction; \<open>None\<close> for an opcode outside the subset. \<open>scast\<close> sign-extends the
  32-bit and 8-bit displacements.
\<close>

definition x86_step :: "x86_state \<Rightarrow> x86_state option" where
  "x86_step s =
     (let m = x_mem s; ip = x_rip s;
          b = fetch m ip 5;
          imm32 = (\<lambda>k. scast (le_word (fetch m (ip + k) 4) :: u32) :: u64)
      in
      if b ! 0 = 0x68 then Some (push64 (s\<lparr>x_rip := ip + 5\<rparr>) (imm32 1))
      else if b ! 0 = 0xFF \<and> b ! 1 = 0x15 then
        Some (push64 (s\<lparr>x_rip := load64 m (ip + 6 + imm32 2)\<rparr>) (ip + 6))
      else if b ! 0 = 0xFF \<and> b ! 1 = 0x25 then
        Some (s\<lparr>x_rip := load64 m (ip + 6 + imm32 2)\<rparr>)
      else if b = [0x48, 0x8D, 0x64, 0x24, 0x08] then
        Some (s\<lparr>x_rip := ip + 5, x_rsp := x_rsp s + 8\<rparr>)
      else if b ! 0 = 0x41 \<and> b ! 1 = 0x53 then Some (push64 (s\<lparr>x_rip := ip + 2\<rparr>) (x_r11 s))
      else if b ! 0 = 0x41 \<and> b ! 1 = 0x5B then
        Some (s\<lparr>x_rip := ip + 2, x_r11 := load64 m (x_rsp s), x_rsp := x_rsp s + 8\<rparr>)
      else if b ! 0 = 0x49 \<and> b ! 1 = 0xBB then
        Some (s\<lparr>x_rip := ip + 10, x_r11 := load64 m (ip + 2)\<rparr>)
      else if b ! 0 = 0x41 \<and> b ! 1 = 0xFF \<and> b ! 2 = 0xD3 then
        Some (push64 (s\<lparr>x_rip := x_r11 s\<rparr>) (ip + 3))
      else if b ! 0 = 0x41 \<and> b ! 1 = 0xFF \<and> b ! 2 = 0xE3 then Some (s\<lparr>x_rip := x_r11 s\<rparr>)
      else if 0x70 \<le> b ! 0 \<and> b ! 0 \<le> 0x7F then
        Some (s\<lparr>x_rip := ip + 2 + (if x86_cond (unat (b ! 0) - 0x70) (x_flags s) then scast (b ! 1) else 0)\<rparr>)
      else None)"

fun x86_run :: "nat \<Rightarrow> x86_state \<Rightarrow> x86_state option" where
  "x86_run 0 s = Some s"
| "x86_run (Suc n) s = Option.bind (x86_step s) (x86_run n)"

section \<open>Single instructions\<close>

lemmas step_simps = x86_step_def Let_def code_at_append code_at_Cons

lemma step_push_imm:
  "code_at (x_mem s) (x_rip s) ([0x68] @ le32 v) \<Longrightarrow>
   x86_step s = Some (push64 (s\<lparr>x_rip := x_rip s + 5\<rparr>) (scast v))"
  using code_at_load32 [of "x_mem s" "x_rip s + 1" v] by (simp add: step_simps add.commute [of 2])

lemma step_call_mem:
  assumes "code_at (x_mem s) (x_rip s) ([0xFF, 0x15] @ le32 v)"
  shows "x86_step s = Some (push64 (s\<lparr>x_rip := load64 (x_mem s) (x_rip s + 6 + scast v)\<rparr>) (x_rip s + 6))"
  using assms code_at_load32 [of "x_mem s" "x_rip s + 2" v] by (simp add: step_simps add.commute [of 2])

lemma step_jmp_mem:
  assumes "code_at (x_mem s) (x_rip s) ([0xFF, 0x25] @ le32 v)"
  shows "x86_step s = Some (s\<lparr>x_rip := load64 (x_mem s) (x_rip s + 6 + scast v)\<rparr>)"
  using assms code_at_load32 [of "x_mem s" "x_rip s + 2" v] by (simp add: step_simps add.commute [of 2])

lemma step_lea_rsp:
  assumes "code_at (x_mem s) (x_rip s) [0x48, 0x8D, 0x64, 0x24, 0x08]"
  shows "x86_step s = Some (s\<lparr>x_rip := x_rip s + 5, x_rsp := x_rsp s + 8\<rparr>)"
proof -
  have "fetch (x_mem s) (x_rip s) 5 = [0x48, 0x8D, 0x64, 0x24, 0x08]"
    using assms by (simp add: code_at_def numeral_eq_Suc)
  moreover have "x_mem s (x_rip s) = 0x48" using assms by (simp add: code_at_Cons)
  ultimately show ?thesis by (simp add: x86_step_def Let_def)
qed

lemma fetch_neq_lea:
  "code_at m a (c # cs) \<Longrightarrow> c \<noteq> 0x48 \<Longrightarrow> fetch m a 5 \<noteq> [0x48, 0x8D, 0x64, 0x24, 0x08]"
  by (auto simp: code_at_Cons fetch_def upt_rec)

lemma step_push_r11:
  assumes "code_at (x_mem s) (x_rip s) [0x41, 0x53]"
  shows "x86_step s = Some (push64 (s\<lparr>x_rip := x_rip s + 2\<rparr>) (x_r11 s))"
  using assms fetch_neq_lea [OF assms] by (simp add: step_simps add.commute [of 2])

lemma step_pop_r11:
  assumes "code_at (x_mem s) (x_rip s) [0x41, 0x5B]"
  shows "x86_step s = Some (s\<lparr>x_rip := x_rip s + 2, x_r11 := load64 (x_mem s) (x_rsp s), x_rsp := x_rsp s + 8\<rparr>)"
  using assms fetch_neq_lea [OF assms] by (simp add: step_simps add.commute [of 2])

lemma step_movabs_r11:
  assumes "code_at (x_mem s) (x_rip s) ([0x49, 0xBB] @ le64 v)"
  shows "x86_step s = Some (s\<lparr>x_rip := x_rip s + 10, x_r11 := v\<rparr>)"
  using assms fetch_neq_lea [OF assms [unfolded append_Cons]] code_at_load64 [of "x_mem s" "x_rip s + 2" v]
  by (simp add: step_simps add.commute [of 2])

lemma step_call_r11:
  assumes "code_at (x_mem s) (x_rip s) [0x41, 0xFF, 0xD3]"
  shows "x86_step s = Some (push64 (s\<lparr>x_rip := x_r11 s\<rparr>) (x_rip s + 3))"
  using assms fetch_neq_lea [OF assms] by (simp add: step_simps add.commute [of 2])

lemma step_jmp_r11:
  assumes "code_at (x_mem s) (x_rip s) [0x41, 0xFF, 0xE3]"
  shows "x86_step s = Some (s\<lparr>x_rip := x_r11 s\<rparr>)"
  using assms fetch_neq_lea [OF assms] by (simp add: step_simps add.commute [of 2])

lemma step_jcc:
  assumes "code_at (x_mem s) (x_rip s) [op, d]" and "0x70 \<le> op" and "op \<le> 0x7F"
  shows "x86_step s = Some (s\<lparr>x_rip := x_rip s + 2 +
    (if x86_cond (unat op - 0x70) (x_flags s) then scast d else 0)\<rparr>)"
proof -
  have "op \<notin> {0x68, 0xFF, 0x48, 0x41, 0x49}" using assms(2,3) by (auto simp: word_le_nat_alt)
  then show ?thesis
    using assms fetch_neq_lea [OF assms(1)] by (simp add: step_simps add.commute [of 2])
qed

end
