(* ===== verification/ZT_TrampX86Props.thy ===== *)
theory ZT_TrampX86Props
  imports ZT_TrampX86 ZT_X86Machine
begin

text \<open>
  What an x86-64 trampoline does. First the layout: a prefix that calls \<^verbatim>\<open>entry_stub\<close>,
  one chunk per original instruction, and a suffix that jumps back behind the patch. Then a
  model of the processor for the instructions the builder emits, and the executions of the
  three parts. The stub addresses, the flags and the stack are those of the machine when
  the patched function is entered.
\<close>

section \<open>Chunks\<close>

text \<open>A decoded instruction as Capstone produces it.\<close>

definition wf_insn :: "x86_insn \<Rightarrow> bool" where
  "wf_insn i \<longleftrightarrow> length (xi_bytes i) = xi_size i \<and> xi_disp_offset i + xi_disp_size i \<le> xi_size i"

definition x86_rip_relative :: "x86_insn \<Rightarrow> bool" where
  "x86_rip_relative i \<longleftrightarrow> X86_OP_MEM True \<in> set (xi_operands i)"

text \<open>The displacement of the copy at \<open>addr\<close>.\<close>

definition x86_new_disp :: "u64 \<Rightarrow> x86_insn \<Rightarrow> u64" where
  "x86_new_disp addr i = (xi_address i + of_nat (xi_size i) + xi_disp i) - (addr + of_nat (xi_size i))"

definition jmp_abs :: "u64 \<Rightarrow> u8 list" where
  "jmp_abs t = [0x49, 0xBB] @ le64 t @ [0x41, 0xFF, 0xE3]"

definition call_abs :: "u64 \<Rightarrow> u8 list" where
  "call_abs t = [0x41, 0x53, 0x49, 0xBB] @ le64 t @ [0x41, 0xFF, 0xD3, 0x41, 0x5B]"

definition x86_chunk :: "u64 \<Rightarrow> x86_insn \<Rightarrow> u8 list" where
  "x86_chunk addr i =
     (let t = op_imm (xi_operands i ! 0) in
      if zt_is_rel_call i then call_abs t
      else if zt_is_rel_jmp i then jmp_abs t
      else if zt_is_conditional_jump i then
        [the (zt_inverse_short_jcc_opcode (xi_id i)), 13] @ jmp_abs t
      else if x86_rip_relative i then
        buf_put (xi_bytes i) (xi_disp_offset i) (le32 (ucast (x86_new_disp addr i)))
      else xi_bytes i)"

lemma buf_put_inner:
  "off = length a + k \<Longrightarrow> k + length y \<le> length x \<Longrightarrow>
   buf_put (a @ x @ b) off y = a @ buf_put x k y @ b"
  by (simp add: buf_put_def)

lemma x86_rebase_operands_eq:
  "x86_rebase_operands tca cur off buf ops =
     (if X86_OP_MEM True \<in> set ops then
        zt_patch_disp32 buf off (xi_disp_offset cur) (xi_disp_size cur)
          (x86_new_disp (tca + of_nat off) cur)
      else Some buf)"
  by (induction ops) (auto simp: x86_new_disp_def Let_def)

lemma x86_emit_one_copy:
  assumes ok: "eb_ok b" and wf: "wf_insn i"
    and nb: "\<not> zt_is_rel_call i" "\<not> zt_is_rel_jmp i" "\<not> zt_is_conditional_jump i"
    and e: "x86_emit_one tca b i = Some b'"
  shows "eb_ok b'" and "eb_out b' = eb_out b @ x86_chunk (tca + of_nat (snd b)) i"
    and "length (fst b') = length (fst b)"
proof -
  let ?bs = "xi_bytes i"
  obtain b1 where b1: "zt_emit_bytes b ?bs = Some b1"
    using e nb wf by (auto simp: x86_emit_one_def wf_insn_def split: option.splits)
  then have fits: "snd b + length ?bs \<le> length (fst b)"
    and b1': "b1 = (buf_put (fst b) (snd b) ?bs, snd b + length ?bs)"
    by (auto simp: zt_emit_bytes_Some)
  obtain buf where re: "x86_rebase_operands tca i (snd b) (fst b1) (xi_operands i) = Some buf"
    and b': "b' = (buf, snd b1)"
    using e nb wf b1 by (auto simp: x86_emit_one_def wf_insn_def split: option.splits)
  have "buf = take (snd b) (fst b) @ x86_chunk (tca + of_nat (snd b)) i @ drop (snd b + length ?bs) (fst b)
      \<and> length (x86_chunk (tca + of_nat (snd b)) i) = length ?bs"
  proof (cases "x86_rip_relative i")
    case True
    then have d: "xi_disp_size i = 4"
        "buf = buf_put (fst b1) (snd b + xi_disp_offset i) (le32 (ucast (x86_new_disp (tca + of_nat (snd b)) i)))"
      using re by (auto simp: x86_rebase_operands_eq x86_rip_relative_def zt_patch_disp32_def split: if_splits)
    show ?thesis
      using True d fits wf nb b1' ok
      by (auto simp: x86_chunk_def buf_put_def [of "fst b"] wf_insn_def eb_ok_def
          intro!: buf_put_inner)
  next
    case False
    then show ?thesis
      using re nb b1' wf by (auto simp: x86_rebase_operands_eq x86_rip_relative_def x86_chunk_def
          buf_put_def wf_insn_def)
  qed
  then show "eb_ok b'" and "eb_out b' = eb_out b @ x86_chunk (tca + of_nat (snd b)) i"
    and "length (fst b') = length (fst b)"
    using b' b1' fits by (auto simp: eb_ok_def eb_out_def)
qed

lemma x86_emit_one_jump:
  assumes ok: "eb_ok b"
    and j: "zt_is_rel_call i \<or> zt_is_rel_jmp i \<or> zt_is_conditional_jump i"
    and e: "x86_emit_one tca b i = Some b'"
  shows "eb_ok b'" and "eb_out b' = eb_out b @ x86_chunk (tca + of_nat (snd b)) i"
    and "length (fst b') = length (fst b)"
proof -
  obtain bss where s: "zt_emit_seq b bss = Some b'" and c: "concat bss = x86_chunk (tca + of_nat (snd b)) i"
  proof -
    consider "zt_is_rel_call i" | "\<not> zt_is_rel_call i" "zt_is_rel_jmp i"
      | "\<not> zt_is_rel_call i" "\<not> zt_is_rel_jmp i" "zt_is_conditional_jump i"
      using j by blast
    then show thesis
    proof cases
      case 1
      then show thesis
        using e that [of "[[0x41, 0x53], [0x49, 0xBB], le64 (op_imm (xi_operands i ! 0)), [0x41, 0xFF, 0xD3], [0x41, 0x5B]]"]
        by (simp add: x86_emit_one_def zt_rewrite_rel_call_def x86_chunk_def call_abs_def)
    next
      case 2
      then show thesis
        using e that [of "[[0x49, 0xBB], le64 (op_imm (xi_operands i ! 0)), [0x41, 0xFF, 0xE3]]"]
        by (simp add: x86_emit_one_def zt_rewrite_rel_jmp_def x86_chunk_def jmp_abs_def)
    next
      case 3
      then obtain opc b1 where "zt_inverse_short_jcc_opcode (xi_id i) = Some opc"
          "zt_emit_bytes b [opc, 13] = Some b1"
          "zt_rewrite_rel_jmp b1 (op_imm (xi_operands i ! 0)) = Some b'"
        using e by (auto simp: x86_emit_one_def zt_rewrite_cond_jmp_def split: if_splits option.splits)
      then show thesis
        using 3 that [of "[[opc, 13], [0x49, 0xBB], le64 (op_imm (xi_operands i ! 0)), [0x41, 0xFF, 0xE3]]"]
        by (simp add: zt_rewrite_rel_jmp_def x86_chunk_def jmp_abs_def)
    qed
  qed
  show "eb_ok b'" and "eb_out b' = eb_out b @ x86_chunk (tca + of_nat (snd b)) i"
    using zt_emit_seq_Some [OF ok s] c by simp_all
  show "length (fst b') = length (fst b)"
    using zt_emit_seq_frame [OF ok s] by blast
qed

lemma x86_emit_one_Some:
  assumes "eb_ok b" and "wf_insn i" and "x86_emit_one tca b i = Some b'"
  shows "eb_ok b'" and "eb_out b' = eb_out b @ x86_chunk (tca + of_nat (snd b)) i"
    and "length (fst b') = length (fst b)"
  using x86_emit_one_copy [OF assms(1,2) _ _ _ assms(3)] x86_emit_one_jump [OF assms(1) _ assms(3)]
  by blast+

text \<open>The chunks of a run of instructions, laid out from \<open>addr\<close> on.\<close>

fun x86_chunks :: "u64 \<Rightarrow> x86_insn list \<Rightarrow> u8 list list" where
  "x86_chunks addr [] = []"
| "x86_chunks addr (i # is) =
     x86_chunk addr i # x86_chunks (addr + of_nat (length (x86_chunk addr i))) is"

lemma length_eb_out: "eb_ok b \<Longrightarrow> length (eb_out b) = snd b"
  by (simp add: eb_ok_def eb_out_def)

lemma x86_emit_all_Some:
  assumes "eb_ok b" and "\<forall>i \<in> set is. wf_insn i" and "x86_emit_all tca b is = Some b'"
  shows "eb_ok b' \<and> eb_out b' = eb_out b @ concat (x86_chunks (tca + of_nat (snd b)) is) \<and>
    length (fst b') = length (fst b)"
  using assms
proof (induction "is" arbitrary: b)
  case (Cons i "is")
  then obtain b1 where b1: "x86_emit_one tca b i = Some b1" "x86_emit_all tca b1 is = Some b'"
    by (auto split: option.splits)
  have l: "eb_ok b1" "eb_out b1 = eb_out b @ x86_chunk (tca + of_nat (snd b)) i"
      "length (fst b1) = length (fst b)"
    using x86_emit_one_Some [OF Cons.prems(1) _ b1(1)] Cons.prems(2) by auto
  have "snd b1 = snd b + length (x86_chunk (tca + of_nat (snd b)) i)"
    using length_eb_out [OF l(1)] length_eb_out [OF Cons.prems(1)] l(2) by simp
  then show ?case
    using Cons.IH [OF l(1) _ b1(2)] Cons.prems(2) l by (simp add: add.assoc)
qed simp

section \<open>Layout\<close>

definition x86_prefix :: "u64 \<Rightarrow> nat \<Rightarrow> u8 list" where
  "x86_prefix probe_id r =
     [0x68] @ le32 (ucast probe_id) @ [0xFF, 0x15] @ le32 (of_nat (r + 11)) @ [0x48, 0x8D, 0x64, 0x24, 0x08]"

definition x86_suffix :: "u64 \<Rightarrow> u64 \<Rightarrow> u8 list" where
  "x86_suffix entry_addr cont = [0xFF, 0x25] @ le32 8 @ le64 entry_addr @ le64 cont"

lemma length_x86_prefix [simp]: "length (x86_prefix p r) = 16"
  by (simp add: x86_prefix_def)

lemma length_x86_suffix [simp]: "length (x86_suffix a c) = 22"
  by (simp add: x86_suffix_def)

lemma buf_put_at:
  "off = length a \<Longrightarrow> length y = length x \<Longrightarrow> buf_put (a @ x @ b) off y = a @ y @ b"
  by (simp add: buf_put_def)

definition x86_continue :: "zt_probe_info_t \<Rightarrow> u64" where
  "x86_continue p = tgt_remote_addr (pi_target p) + of_nat (pi_orig_len p)"

lemma fill_prefix:
  "buf_put (buf_put (ZT_TRAMPOLINE_TEMPLATE_PREFIX @ R) 1 (le32 (ucast pid))) 7 (le32 (of_nat (r + 11)))
     = x86_prefix pid r @ R"
proof -
  have "ZT_TRAMPOLINE_TEMPLATE_PREFIX @ R = [0x68] @ [0, 0, 0, 0] @
      ([0xFF, 0x15, 0, 0, 0, 0, 0x48, 0x8D, 0x64, 0x24, 0x08] @ R)"
    by (simp add: ZT_TRAMPOLINE_TEMPLATE_PREFIX_def)
  then have "buf_put (ZT_TRAMPOLINE_TEMPLATE_PREFIX @ R) 1 (le32 (ucast pid)) =
      [0x68] @ le32 (ucast pid) @ ([0xFF, 0x15, 0, 0, 0, 0, 0x48, 0x8D, 0x64, 0x24, 0x08] @ R)"
    by (simp only:) (rule buf_put_at; simp)
  also have "\<dots> = ([0x68] @ le32 (ucast pid) @ [0xFF, 0x15]) @ [0, 0, 0, 0] @ ([0x48, 0x8D, 0x64, 0x24, 0x08] @ R)"
    by simp
  finally show ?thesis
    by (simp only:) (subst buf_put_at; simp add: x86_prefix_def)
qed

lemma buf_put_commute:
  assumes "o1 + length x \<le> o2" and "o2 + length y \<le> length buf"
  shows "buf_put (buf_put buf o1 x) o2 y = buf_put (buf_put buf o2 y) o1 x"
  using assms by (intro nth_equalityI) (auto simp: nth_buf_put)

lemma fill_suffix:
  assumes "length P = n"
  shows "buf_put (buf_put (buf_put (P @ ZT_TRAMPOLINE_TEMPLATE_SUFFIX @ R) (n + 2) (le32 8))
      (n + 6) (le64 a)) (n + 14) (le64 c) = P @ x86_suffix a c @ R"
proof -
  let ?z4 = "[0, 0, 0, 0] :: u8 list" and ?z8 = "[0, 0, 0, 0, 0, 0, 0, 0] :: u8 list"
  have "P @ ZT_TRAMPOLINE_TEMPLATE_SUFFIX @ R = (P @ [0xFF, 0x25]) @ ?z4 @ (?z8 @ ?z8 @ R)"
    by (simp add: ZT_TRAMPOLINE_TEMPLATE_SUFFIX_def)
  then have "buf_put (P @ ZT_TRAMPOLINE_TEMPLATE_SUFFIX @ R) (n + 2) (le32 8) =
      (P @ [0xFF, 0x25] @ le32 8) @ ?z8 @ (?z8 @ R)"
    by (simp only:) (subst buf_put_at; simp add: assms)
  moreover have "buf_put ((P @ [0xFF, 0x25] @ le32 8) @ ?z8 @ (?z8 @ R)) (n + 6) (le64 a) =
      (P @ [0xFF, 0x25] @ le32 8 @ le64 a) @ ?z8 @ R"
    by (subst buf_put_at; simp add: assms)
  moreover have "buf_put ((P @ [0xFF, 0x25] @ le32 8 @ le64 a) @ ?z8 @ R) (n + 14) (le64 c) =
      P @ x86_suffix a c @ R"
    by (subst buf_put_at; simp add: assms x86_suffix_def)
  ultimately show ?thesis by simp
qed

text \<open>
  The bytes of a finished trampoline: the prefix with the probe id, the chunks of the
  original instructions, and the suffix with the two addresses.
\<close>

lemma x86_build_trampoline_layout:
  assumes build: "x86_build_trampoline disasm probe stub ta cap = Some (buf, n)"
    and dis: "disasm (take (pi_orig_len probe) (pi_orig_code probe)) (tgt_remote_addr (pi_target probe)) = Some is"
    and wf: "\<forall>i \<in> set is. wf_insn i"
  shows "n \<le> cap \<and> length buf = cap \<and>
    take n buf = x86_prefix (pi_probe_id probe) (length (concat (x86_chunks (ta + 16) is))) @
      concat (x86_chunks (ta + 16) is) @ x86_suffix stub (x86_continue probe)"
proof -
  let ?P = ZT_TRAMPOLINE_TEMPLATE_PREFIX and ?S = ZT_TRAMPOLINE_TEMPLATE_SUFFIX
  let ?R = "concat (x86_chunks (ta + 16) is)"
  have lP: "length ?P = 16" and lS: "length ?S = 22"
    by (simp_all add: ZT_TRAMPOLINE_TEMPLATE_PREFIX_def ZT_TRAMPOLINE_TEMPLATE_SUFFIX_def)
  define b1 where "b1 = ?P @ replicate (cap - 16) 0x90"
  define b2 where "b2 = buf_put b1 1 (le32 (ucast (pi_probe_id probe)))"
  have g: "ta \<noteq> 0" "stub \<noteq> 0" "pi_orig_len probe \<noteq> 0" "\<not> pi_orig_len probe > ZT_PROBE_ORIG_CODE_MAX"
    using build by (simp_all add: x86_build_trampoline_def split: if_splits)
  have "zt_emit_bytes (replicate cap 0x90, 0) ?P \<noteq> None"
    using build g by (auto simp: x86_build_trampoline_def bind_eq_Some_conv)
  then have cap: "16 \<le> cap"
    using lP by (simp add: zt_emit_bytes_def split: if_splits)
  have e1: "zt_emit_bytes (replicate cap 0x90, 0) ?P = Some (b1, 16)"
    using cap lP by (simp add: zt_emit_bytes_def b1_def buf_put_def)
  have lb2: "length b2 = cap" using cap lP by (simp add: b2_def b1_def)
  have d2: "drop 16 b2 = replicate (cap - 16) 0x90" "take 16 b2 = buf_put ?P 1 (le32 (ucast (pi_probe_id probe)))"
    using lP by (simp_all add: b2_def b1_def buf_put_def)
  obtain sub r b4 n4 where r: "x86_emit_relocated_orig_code disasm probe (ta + 16) (drop 16 b2) = Some (sub, r)"
    and e4: "zt_emit_bytes (take 16 b2 @ sub, 16 + r) ?S = Some (b4, n4)"
    using build g e1 lP by (auto simp: x86_build_trampoline_def bind_eq_Some_conv b2_def Let_def)
  have "x86_emit_all (ta + 16) (drop 16 b2, 0) is = Some (sub, r)"
    using r dis by (auto simp: x86_emit_relocated_orig_code_def split: if_splits)
  then have sub: "r \<le> length sub" "take r sub = ?R" "length sub = cap - 16"
    using x86_emit_all_Some [of "(drop 16 b2, 0)" "is" "ta + 16" "(sub, r)"] wf lb2
    by (auto simp: eb_ok_def eb_out_def)
  have lR: "length ?R = r" using sub by (metis length_take min.absorb2)
  have e4': "16 + r + 22 \<le> cap" "n4 = 38 + r" "b4 = take (16 + r) (take 16 b2 @ sub) @ ?S @ drop (38 + r) (take 16 b2 @ sub)"
    using e4 lS sub lb2 cap by (auto simp: zt_emit_bytes_Some buf_put_def)
  then have b4: "b4 = buf_put ?P 1 (le32 (ucast (pi_probe_id probe))) @ ?R @ ?S @ drop (22 + r) sub"
    using sub d2 lP by (simp add: buf_put_def)
  let ?rest = "drop (22 + r) sub"
  have b4': "b4 = buf_put (?P @ ?R @ ?S @ ?rest) 1 (le32 (ucast (pi_probe_id probe)))"
    unfolding b4 using lP by (simp add: buf_put_def)
  have n: "n = 38 + r" and buf: "buf = buf_put (buf_put (buf_put (buf_put b4 7 (le32 (of_nat (r + 11))))
      (16 + r + 2) (le32 8)) (16 + r + 6) (le64 stub)) (16 + r + 14) (le64 (x86_continue probe))"
    using build g e1 lP r e4 e4'(2) lS unfolding b2_def
    by (auto simp: x86_build_trampoline_def x86_continue_def bind_eq_Some_conv Let_def ac_simps split: if_splits)
  have "buf_put b4 7 (le32 (of_nat (r + 11))) = (x86_prefix (pi_probe_id probe) r @ ?R) @ ?S @ ?rest"
    unfolding b4' by (simp only: fill_prefix append_assoc)
  then have "buf = (x86_prefix (pi_probe_id probe) r @ ?R) @ x86_suffix stub (x86_continue probe) @ ?rest"
    unfolding buf by (simp only:) (rule fill_suffix; simp add: lR)
  then show ?thesis using n lR e4'(1) sub by simp
qed

section \<open>Executing the parts\<close>

text \<open>What a conditional jump tests, by its mnemonic.\<close>

fun jcc_taken :: "x86_id \<Rightarrow> x86_flags \<Rightarrow> bool" where
  "jcc_taken X86_INS_JO f = fOF f"
| "jcc_taken X86_INS_JNO f = (\<not> fOF f)"
| "jcc_taken X86_INS_JB f = fCF f"
| "jcc_taken X86_INS_JAE f = (\<not> fCF f)"
| "jcc_taken X86_INS_JE f = fZF f"
| "jcc_taken X86_INS_JNE f = (\<not> fZF f)"
| "jcc_taken X86_INS_JBE f = (fCF f \<or> fZF f)"
| "jcc_taken X86_INS_JA f = (\<not> fCF f \<and> \<not> fZF f)"
| "jcc_taken X86_INS_JS f = fSF f"
| "jcc_taken X86_INS_JNS f = (\<not> fSF f)"
| "jcc_taken X86_INS_JP f = fPF f"
| "jcc_taken X86_INS_JNP f = (\<not> fPF f)"
| "jcc_taken X86_INS_JL f = (fSF f \<noteq> fOF f)"
| "jcc_taken X86_INS_JGE f = (fSF f = fOF f)"
| "jcc_taken X86_INS_JLE f = (fZF f \<or> fSF f \<noteq> fOF f)"
| "jcc_taken X86_INS_JG f = (\<not> fZF f \<and> fSF f = fOF f)"
| "jcc_taken _ f = False"

lemma inverse_opcode_correct:
  assumes "zt_inverse_short_jcc_opcode i = Some opc"
  shows "0x70 \<le> opc" and "opc \<le> 0x7F" and "x86_cond (unat opc - 0x70) f \<longleftrightarrow> \<not> jcc_taken i f"
  using assms by (cases i; auto simp: x86_cond_def)+

lemma run_jmp_abs:
  assumes "code_at (x_mem s) (x_rip s) (jmp_abs t)"
  shows "x86_run 2 s = Some (s\<lparr>x_rip := t, x_r11 := t\<rparr>)"
proof -
  let ?s1 = "s\<lparr>x_rip := x_rip s + 10, x_r11 := t\<rparr>"
  have c: "code_at (x_mem s) (x_rip s) ([0x49, 0xBB] @ le64 t)"
      "code_at (x_mem ?s1) (x_rip ?s1) [0x41, 0xFF, 0xE3]"
    using assms by (simp_all add: jmp_abs_def code_at_append code_at_Cons add.assoc)
  show ?thesis
    using step_movabs_r11 [OF c(1)] step_jmp_r11 [OF c(2)] by (simp add: numeral_2_eq_2)
qed

lemma run_call_abs:
  assumes code: "code_at (x_mem s) (x_rip s) (call_abs t)"
    and clear: "below_clear (x_rsp s) 16 (x_rip s) (length (call_abs t))"
  shows "\<exists>s'. x86_run 3 s = Some s' \<and> x_rip s' = t \<and> x_rsp s' = x_rsp s - 16 \<and>
    load64 (x_mem s') (x_rsp s - 16) = x_rip s + 15 \<and> load64 (x_mem s') (x_rsp s - 8) = x_r11 s"
proof -
  let ?s1 = "push64 (s\<lparr>x_rip := x_rip s + 2\<rparr>) (x_r11 s)"
  let ?s2 = "?s1\<lparr>x_rip := x_rip s + 12, x_r11 := t\<rparr>"
  let ?s3 = "push64 (?s2\<lparr>x_rip := t\<rparr>) (x_rip s + 15)"
  have code1: "code_at (x_mem ?s1) (x_rip s) (call_abs t)"
    using code_at_store64 [OF code below_clear_8(1) [OF clear]] by (simp add: push64_def)
  have c1: "code_at (x_mem s) (x_rip s) [0x41, 0x53]"
    using code by (simp add: call_abs_def code_at_append code_at_Cons)
  have c2: "code_at (x_mem ?s1) (x_rip ?s1) ([0x49, 0xBB] @ le64 t)"
    using code1 by (simp add: call_abs_def code_at_append code_at_Cons push64_def add.assoc)
  have c3: "code_at (x_mem ?s2) (x_rip ?s2) [0x41, 0xFF, 0xD3]"
    using code1 by (simp add: call_abs_def code_at_append code_at_Cons add.assoc)
  have "x86_run 3 s = Some ?s3"
    using step_push_r11 [OF c1] step_movabs_r11 [OF c2] step_call_r11 [OF c3]
    by (simp add: numeral_3_eq_3 push64_def add.assoc)
  moreover have "load64 (x_mem ?s3) (x_rsp s - 8) = x_r11 s"
    using load64_store64_above [of "x_mem ?s1" "x_rsp s - 8" "x_rip s + 15"] by (simp add: push64_def)
  ultimately show ?thesis by (simp add: push64_def)
qed

lemma run_cond_jmp:
  assumes opc: "zt_inverse_short_jcc_opcode i = Some opc"
    and code: "code_at (x_mem s) (x_rip s) ([opc, 13] @ jmp_abs t)"
  shows "jcc_taken i (x_flags s) \<Longrightarrow> x86_run 3 s = Some (s\<lparr>x_rip := t, x_r11 := t\<rparr>)"
    and "\<not> jcc_taken i (x_flags s) \<Longrightarrow>
      x86_run 1 s = Some (s\<lparr>x_rip := x_rip s + of_nat (length ([opc, 13] @ jmp_abs t))\<rparr>)"
proof -
  note o = inverse_opcode_correct [OF opc]
  have c: "code_at (x_mem s) (x_rip s) [opc, 13]"
    using code by (simp add: code_at_append code_at_Cons)
  note step = step_jcc [OF c o(1,2), unfolded o(3)]
  let ?s1 = "s\<lparr>x_rip := x_rip s + 2\<rparr>"
  have j: "code_at (x_mem ?s1) (x_rip ?s1) (jmp_abs t)"
    using code by (simp add: code_at_append code_at_Cons add.commute [of 2])
  show "x86_run 3 s = Some (s\<lparr>x_rip := t, x_r11 := t\<rparr>)" if "jcc_taken i (x_flags s)"
    using step that run_jmp_abs [OF j] by (simp add: numeral_3_eq_3 numeral_2_eq_2)
  show "x86_run 1 s = Some (s\<lparr>x_rip := x_rip s + of_nat (length ([opc, 13] @ jmp_abs t))\<rparr>)"
    if "\<not> jcc_taken i (x_flags s)"
    using step that by (simp add: jmp_abs_def)
qed

section \<open>Displacements\<close>

lemma scast_ucast_32:
  assumes "- (2 ^ 31) \<le> sint (d :: u64)" and "sint d \<le> 2 ^ 31 - 1"
  shows "scast (ucast d :: u32) = d"
proof -
  have "sint (ucast d :: u32) = signed_take_bit 31 (sint d)"
    by (simp add: sint_uint unsigned_ucast_eq signed_take_bit_take_bit min_def)
  also have "\<dots> = sint d" using assms by (intro signed_take_bit_int_eq_self) auto
  finally show ?thesis by (simp add: scast_eq)
qed

lemma x86_emit_one_disp:
  assumes "x86_emit_one tca b i = Some b'" and "x86_rip_relative i"
    and "\<not> zt_is_rel_call i" "\<not> zt_is_rel_jmp i" "\<not> zt_is_conditional_jump i"
  shows "xi_disp_size i = 4 \<and>
    scast (ucast (x86_new_disp (tca + of_nat (snd b)) i) :: u32) = x86_new_disp (tca + of_nat (snd b)) i"
  using assms
  by (auto simp: x86_emit_one_def x86_rebase_operands_eq x86_rip_relative_def zt_patch_disp32_def
      scast_ucast_32 split: option.splits if_splits)

fun x86_disps_ok :: "u64 \<Rightarrow> x86_insn list \<Rightarrow> bool" where
  "x86_disps_ok addr [] = True"
| "x86_disps_ok addr (i # is) =
     ((x86_rip_relative i \<and> \<not> zt_is_rel_call i \<and> \<not> zt_is_rel_jmp i \<and> \<not> zt_is_conditional_jump i \<longrightarrow>
         xi_disp_size i = 4 \<and> scast (ucast (x86_new_disp addr i) :: u32) = x86_new_disp addr i) \<and>
      x86_disps_ok (addr + of_nat (length (x86_chunk addr i))) is)"

definition x86_opcodes_ok :: "x86_insn list \<Rightarrow> bool" where
  "x86_opcodes_ok is = (\<forall>i \<in> set is. \<not> zt_is_rel_call i \<longrightarrow> \<not> zt_is_rel_jmp i \<longrightarrow>
     zt_is_conditional_jump i \<longrightarrow> zt_inverse_short_jcc_opcode (xi_id i) \<noteq> None)"

lemma x86_emit_all_ok:
  assumes "eb_ok b" and "\<forall>i \<in> set is. wf_insn i" and "x86_emit_all tca b is = Some b'"
  shows "x86_disps_ok (tca + of_nat (snd b)) is \<and> x86_opcodes_ok is"
  using assms
proof (induction "is" arbitrary: b)
  case (Cons i "is")
  then obtain b1 where b1: "x86_emit_one tca b i = Some b1" "x86_emit_all tca b1 is = Some b'"
    by (auto split: option.splits)
  have l: "eb_ok b1" "eb_out b1 = eb_out b @ x86_chunk (tca + of_nat (snd b)) i"
    using x86_emit_one_Some [OF Cons.prems(1) _ b1(1)] Cons.prems(2) by auto
  have s: "snd b1 = snd b + length (x86_chunk (tca + of_nat (snd b)) i)"
    using length_eb_out [OF l(1)] length_eb_out [OF Cons.prems(1)] l(2) by simp
  have "zt_inverse_short_jcc_opcode (xi_id i) \<noteq> None"
    if "\<not> zt_is_rel_call i" "\<not> zt_is_rel_jmp i" "zt_is_conditional_jump i"
    using b1(1) that by (auto simp: x86_emit_one_def zt_rewrite_cond_jmp_def split: if_splits option.splits)
  with x86_emit_one_disp [OF b1(1)] Cons.IH [OF l(1) _ b1(2)] Cons.prems(2) s show ?case
    by (auto simp: x86_opcodes_ok_def add.assoc)
qed (simp add: x86_opcodes_ok_def)

text \<open>The address of the chunk of the \<open>k\<close>-th instruction.\<close>

definition x86_chunk_addr :: "u64 \<Rightarrow> x86_insn list \<Rightarrow> nat \<Rightarrow> u64" where
  "x86_chunk_addr addr is k = addr + of_nat (length (concat (take k (x86_chunks addr is))))"

lemma length_x86_chunks [simp]: "length (x86_chunks addr is) = length is"
  by (induction "is" arbitrary: addr) simp_all

lemma x86_chunk_addr_Suc:
  "x86_chunk_addr addr (i # is) (Suc k) = x86_chunk_addr (addr + of_nat (length (x86_chunk addr i))) is k"
  by (simp add: x86_chunk_addr_def add.assoc)

lemma nth_x86_chunks:
  "k < length is \<Longrightarrow> x86_chunks addr is ! k = x86_chunk (x86_chunk_addr addr is k) (is ! k)"
proof (induction "is" arbitrary: addr k)
  case (Cons i "is")
  then show ?case
    by (cases k) (simp_all add: x86_chunk_addr_Suc, simp add: x86_chunk_addr_def)
qed simp

lemma x86_disps_ok_nth:
  "x86_disps_ok addr is \<Longrightarrow> k < length is \<Longrightarrow> x86_rip_relative (is ! k) \<Longrightarrow>
   \<not> zt_is_rel_call (is ! k) \<Longrightarrow> \<not> zt_is_rel_jmp (is ! k) \<Longrightarrow> \<not> zt_is_conditional_jump (is ! k) \<Longrightarrow>
   xi_disp_size (is ! k) = 4 \<and>
   scast (ucast (x86_new_disp (x86_chunk_addr addr is k) (is ! k)) :: u32) =
     x86_new_disp (x86_chunk_addr addr is k) (is ! k)"
proof (induction "is" arbitrary: addr k)
  case (Cons i "is")
  show ?case
  proof (cases k)
    case 0
    then show ?thesis using Cons.prems by (simp add: x86_chunk_addr_def)
  next
    case (Suc m)
    then show ?thesis
      using Cons.prems Cons.IH [of "addr + of_nat (length (x86_chunk addr i))" m]
      by (simp add: x86_chunk_addr_Suc)
  qed
qed simp

text \<open>What a successful build gives: the layout and the facts about its chunks.\<close>

definition x86_built ::
  "x86_disasm \<Rightarrow> zt_probe_info_t \<Rightarrow> u64 \<Rightarrow> u64 \<Rightarrow> nat \<Rightarrow> u8 list \<Rightarrow> nat \<Rightarrow> x86_insn list \<Rightarrow> bool" where
  "x86_built disasm probe stub ta cap buf n is \<longleftrightarrow>
     x86_build_trampoline disasm probe stub ta cap = Some (buf, n) \<and>
     disasm (take (pi_orig_len probe) (pi_orig_code probe)) (tgt_remote_addr (pi_target probe)) = Some is \<and>
     (\<forall>i \<in> set is. wf_insn i)"

lemma x86_built_layout:
  assumes "x86_built disasm probe stub ta cap buf n is"
  shows "n \<le> cap" and "length buf = cap"
    and "take n buf = x86_prefix (pi_probe_id probe) (length (concat (x86_chunks (ta + 16) is))) @
      concat (x86_chunks (ta + 16) is) @ x86_suffix stub (x86_continue probe)"
  using x86_build_trampoline_layout [of disasm probe stub ta cap buf n "is"] assms
  by (auto simp: x86_built_def)

lemma x86_built_ok:
  assumes "x86_built disasm probe stub ta cap buf n is"
  shows "x86_disps_ok (ta + 16) is" and "x86_opcodes_ok is"
proof -
  obtain b0 b1 where b: "x86_emit_all (ta + 16) (b0, 0) is = Some b1"
    using assms
    by (auto simp: x86_built_def x86_build_trampoline_def bind_eq_Some_conv Let_def
        x86_emit_relocated_orig_code_def ZT_TRAMPOLINE_TEMPLATE_PREFIX_def split: if_splits option.splits)
  have "eb_ok (b0, 0)" by (simp add: eb_ok_def)
  from x86_emit_all_ok [OF this _ b] assms
  show "x86_disps_ok (ta + 16) is" and "x86_opcodes_ok is" by (auto simp: x86_built_def)
qed

lemma x86_built_parts:
  assumes "x86_built disasm probe stub ta cap buf n is" and "code_at m ta (take n buf)"
  defines "r \<equiv> length (concat (x86_chunks (ta + 16) is))"
  shows "code_at m ta (x86_prefix (pi_probe_id probe) r)"
    and "code_at m (ta + 16) (concat (x86_chunks (ta + 16) is))"
    and "code_at m (ta + 16 + of_nat r) (x86_suffix stub (x86_continue probe))"
    and "n = r + 38"
proof -
  note l = x86_built_layout [OF assms(1), folded r_def]
  show "code_at m ta (x86_prefix (pi_probe_id probe) r)"
    and "code_at m (ta + 16) (concat (x86_chunks (ta + 16) is))"
    and "code_at m (ta + 16 + of_nat r) (x86_suffix stub (x86_continue probe))"
    using assms(2) unfolding l(3) by (simp_all add: code_at_append r_def)
  have "length (take n buf) = r + 38" unfolding l(3) by (simp add: r_def)
  then show "n = r + 38" using l(1,2) by simp
qed

section \<open>Properties\<close>

lemma scast_small:
  assumes "x < 2 ^ 31"
  shows "scast (ucast (x :: u64) :: u32) = x"
proof (rule scast_ucast_32)
  have u: "uint x < 2 ^ 31" using assms by (simp add: word_less_def)
  have "sint x = signed_take_bit 63 (uint x)" by (simp add: sint_uint)
  also have "\<dots> = uint x"
    using u order_trans [OF _ uint_ge_0 [of x], of "- (2 ^ 63)"]
    by (intro signed_take_bit_int_eq_self) simp_all
  finally have "sint x = uint x" .
  then show "- (2 ^ 31) \<le> sint x" and "sint x \<le> 2 ^ 31 - 1"
    using u order_trans [OF _ uint_ge_0 [of x], of "- (2 ^ 31)"] by simp_all
qed

lemma scast_of_nat_small:
  assumes "k < 2 ^ 31"
  shows "scast (of_nat k :: u32) = (of_nat k :: u64)"
proof -
  have "(of_nat k :: u64) < 2 ^ 31"
    using assms by (simp add: word_less_nat_alt unat_of_nat)
  then have "scast (ucast (of_nat k :: u64) :: u32) = (of_nat k :: u64)" by (rule scast_small)
  moreover have "(ucast (of_nat k :: u64) :: u32) = of_nat k"
    using assms by (simp add: unsigned_of_nat take_bit_nat_eq_self)
  ultimately show ?thesis by simp
qed

text \<open>
  C6. A trampoline calls the entry stub: executed from its first byte in a memory that holds
  the bytes the builder produced, it arrives at \<^verbatim>\<open>entry_stub\<close> after two instructions with
  the probe id and the trampoline's return address on the stack, where the stub reads
  \<^verbatim>\<open>func_id\<close> and \<^verbatim>\<open>trampoline_ret_addr\<close>, and nothing else changed; when the stub
  returns there, the next instruction drops the probe id and execution is at the relocated
  code with the stack pointer the function was entered with.
\<close>

theorem x86_trampoline_enters_stub:
  assumes built: "x86_built disasm probe stub ta cap buf n is"
    and cap: "cap \<le> ZT_TRAMPOLINE_MAX_SIZE" and pid: "pi_probe_id probe < 2 ^ 31"
    and code: "code_at (x_mem s) ta (take n buf)" and ip: "x_rip s = ta"
    and clear: "below_clear (x_rsp s) 16 ta n"
  shows "(\<exists>s'. x86_run 2 s = Some s' \<and> x_rip s' = stub \<and> x_rsp s' = x_rsp s - 16 \<and>
      load64 (x_mem s') (x_rsp s') = ta + 11 \<and>
      load64 (x_mem s') (x_rsp s' + 8) = pi_probe_id probe \<and>
      x_flags s' = x_flags s \<and> x_r11 s' = x_r11 s) \<and>
    (\<forall>t. x_rip t = ta + 11 \<and> x_rsp t = x_rsp s - 8 \<and> code_at (x_mem t) ta (take n buf) \<longrightarrow>
      x86_run 1 t = Some (t\<lparr>x_rip := ta + 16, x_rsp := x_rsp s\<rparr>))"
proof -
  define r where "r = length (concat (x86_chunks (ta + 16) is))"
  note parts = x86_built_parts [OF built, folded r_def]
  have n: "n = r + 38" "n \<le> 512"
    using parts(4) [OF code] x86_built_layout(1) [OF built] cap by (simp_all add: ZT_TRAMPOLINE_MAX_SIZE_def)
  let ?id = "pi_probe_id probe"
  let ?s1 = "push64 (s\<lparr>x_rip := x_rip s + 5\<rparr>) (scast (ucast ?id :: u32))"
  have len: "length (take n buf) = n"
    using x86_built_layout(1,2) [OF built] by simp
  have code1: "code_at (x_mem ?s1) ta (take n buf)"
    using code_at_store64 [OF code] below_clear_8(1) [OF clear] len by (simp add: push64_def)
  have c1: "code_at (x_mem s) (x_rip s) ([0x68] @ le32 (ucast ?id))"
    using parts(1) [OF code] ip by (simp add: x86_prefix_def code_at_append code_at_Cons)
  have c2: "code_at (x_mem ?s1) (x_rip ?s1) ([0xFF, 0x15] @ le32 (of_nat (r + 11)))"
    using parts(1) [OF code1] ip
    by (simp add: x86_prefix_def code_at_append code_at_Cons push64_def add.assoc)
  have "load64 (x_mem ?s1) (ta + 16 + of_nat r + 6) = stub"
    using parts(3) [OF code1]
    by (intro code_at_load64) (simp add: x86_suffix_def code_at_append code_at_Cons add.assoc)
  moreover have "x_rip ?s1 + 6 + scast (of_nat (r + 11) :: u32) = ta + 16 + of_nat r + 6"
    using n ip by (subst scast_of_nat_small) (simp_all add: push64_def ac_simps)
  ultimately have "x86_run 2 s = Some (push64 (?s1\<lparr>x_rip := stub\<rparr>) (ta + 11))"
    using step_push_imm [OF c1] step_call_mem [OF c2] ip by (simp add: numeral_2_eq_2 push64_def add.assoc)
  moreover have "load64 (x_mem (push64 (?s1\<lparr>x_rip := stub\<rparr>) (ta + 11))) (x_rsp s - 8) = ?id"
    using load64_store64_above [of "x_mem ?s1" "x_rsp s - 8" "ta + 11"] scast_small [OF pid]
    by (simp add: push64_def)
  moreover have "x86_run 1 t = Some (t\<lparr>x_rip := ta + 16, x_rsp := x_rsp s\<rparr>)"
    if t: "x_rip t = ta + 11" "x_rsp t = x_rsp s - 8" "code_at (x_mem t) ta (take n buf)" for t
  proof -
    have "code_at (x_mem t) (x_rip t) [0x48, 0x8D, 0x64, 0x24, 0x08]"
      using parts(1) [OF t(3)] t(1) by (simp add: x86_prefix_def code_at_append code_at_Cons add.assoc)
    from step_lea_rsp [OF this] t show ?thesis by (simp add: add.assoc)
  qed
  ultimately show ?thesis by (auto simp: push64_def)
qed

definition ex_insns :: "x86_insn list" where
  "ex_insns =
    [\<lparr>xi_id = X86_INS_JE, xi_address = 0x401000, xi_size = 2, xi_bytes = [0x74, 0x20],
      xi_operands = [X86_OP_IMM 0x401022], xi_disp = 0, xi_disp_offset = 0, xi_disp_size = 0\<rparr>,
     \<lparr>xi_id = X86_INS_OTHER, xi_address = 0x401002, xi_size = 7,
      xi_bytes = [0x48, 0x8B, 0x05, 0x10, 0x00, 0x00, 0x00],
      xi_operands = [X86_OP_OTHER, X86_OP_MEM True], xi_disp = 0x10, xi_disp_offset = 3, xi_disp_size = 4\<rparr>,
     \<lparr>xi_id = X86_INS_CALL, xi_address = 0x401009, xi_size = 5, xi_bytes = [0xE8, 0x10, 0, 0, 0],
      xi_operands = [X86_OP_IMM 0x40101E], xi_disp = 0, xi_disp_offset = 0, xi_disp_size = 0\<rparr>]"

definition ex_probe :: zt_probe_info_t where
  "ex_probe = zero_probe\<lparr>pi_probe_id := 7, pi_target := \<lparr>tgt_symbol = ''f'', tgt_module_path = ''/m'',
     tgt_remote_addr = 0x401000\<rparr>, pi_orig_len := 14, pi_state := ZT_PROBE_PREPARED\<rparr>"

definition ex_disasm :: x86_disasm where
  "ex_disasm code addr = Some ex_insns"

definition ex_tramp :: "u8 list \<times> nat" where
  "ex_tramp = the (x86_build_trampoline ex_disasm ex_probe 0x5000 0x7000 512)"

lemma ex_built: "x86_built ex_disasm ex_probe 0x5000 0x7000 512 (fst ex_tramp) (snd ex_tramp) ex_insns"
proof -
  have "\<not> Option.is_none (x86_build_trampoline ex_disasm ex_probe 0x5000 0x7000 512)" by code_simp
  moreover have "\<forall>i \<in> set ex_insns. wf_insn i" by (simp add: ex_insns_def wf_insn_def)
  ultimately show ?thesis
    by (cases "x86_build_trampoline ex_disasm ex_probe 0x5000 0x7000 512")
      (auto simp: x86_built_def ex_disasm_def ex_tramp_def)
qed

definition ex_state :: "u64 \<Rightarrow> x86_state" where
  "ex_state ip = \<lparr>x_rip = ip, x_rsp = 0x7000, x_r11 = 3,
     x_flags = \<lparr>fCF = False, fZF = True, fSF = False, fOF = False, fPF = False\<rparr>,
     x_mem = load_code 0x7000 (take (snd ex_tramp) (fst ex_tramp))\<rparr>"

lemma ex_code: "code_at (x_mem (ex_state ip)) 0x7000 (take (snd ex_tramp) (fst ex_tramp))"
proof -
  have "length (take (snd ex_tramp) (fst ex_tramp)) \<le> 512"
    using x86_built_layout(1,2) [OF ex_built] by simp
  then show ?thesis unfolding ex_state_def by (simp add: code_at_load_code)
qed

lemma ex_clear: "below_clear (x_rsp (ex_state ip)) 16 0x7000 (snd ex_tramp)"
  using x86_built_layout(1) [OF ex_built] below_clear_self [of "snd ex_tramp" "0x7000"]
  by (simp add: ex_state_def)

theorem x86_trampoline_enters_stub_witness:
  "\<exists>s'. x86_run 2 (ex_state 0x7000) = Some s' \<and> x_rip s' = 0x5000 \<and>
     load64 (x_mem s') (x_rsp s' + 8) = 7"
proof -
  have "(512 :: nat) \<le> ZT_TRAMPOLINE_MAX_SIZE" by (simp add: zt_limits)
  moreover have "pi_probe_id ex_probe < 2 ^ 31" by (simp add: ex_probe_def)
  ultimately show ?thesis
    using x86_trampoline_enters_stub [OF ex_built _ _ ex_code _ ex_clear [of "0x7000"]]
    by (simp add: ex_state_def ex_probe_def) blast
qed

text \<open>
  C7. A trampoline ends by jumping back behind the patch: the instruction after the
  relocated code transfers control to the address of the function plus the number of bytes
  that were saved, and changes no register, flag or memory. The whole trampoline fits its
  slot.
\<close>

theorem x86_trampoline_continues:
  assumes built: "x86_built disasm probe stub ta cap buf n is"
    and code: "code_at (x_mem s) ta (take n buf)"
    and ip: "x_rip s = ta + 16 + of_nat (length (concat (x86_chunks (ta + 16) is)))"
  shows "x86_run 1 s =
      Some (s\<lparr>x_rip := tgt_remote_addr (pi_target probe) + of_nat (pi_orig_len probe)\<rparr>) \<and>
    n = 38 + length (concat (x86_chunks (ta + 16) is)) \<and> n \<le> cap"
proof -
  note parts = x86_built_parts [OF built code]
  have c: "code_at (x_mem s) (x_rip s) ([0xFF, 0x25] @ le32 8)"
    using parts(3) ip by (simp add: x86_suffix_def code_at_append code_at_Cons)
  have "code_at (x_mem s) (x_rip s + 6 + 8) (le64 (x86_continue probe))"
    using parts(3) ip by (simp add: x86_suffix_def code_at_append code_at_Cons add.assoc)
  from step_jmp_mem [OF c] code_at_load64 [OF this] parts(4) x86_built_layout(1) [OF built]
  show ?thesis by (simp add: x86_continue_def)
qed

theorem x86_trampoline_continues_witness:
  "\<exists>s. x86_run 1 s = Some (s\<lparr>x_rip := 0x40100E\<rparr>)"
proof -
  let ?ip = "0x7000 + 16 + of_nat (length (concat (x86_chunks (0x7000 + 16) ex_insns)))"
  have "x_rip (ex_state ?ip) = ?ip" by (simp add: ex_state_def)
  from x86_trampoline_continues [OF ex_built ex_code this]
  have "x86_run 1 (ex_state ?ip) = Some ((ex_state ?ip)\<lparr>x_rip := 0x40100E\<rparr>)"
    by (simp add: ex_probe_def)
  then show ?thesis by blast
qed

text \<open>
  C8. Relocated branches reach the original targets: executing the copy of the k-th
  instruction, a relative jump arrives at its target; a conditional jump arrives at its
  target exactly when its condition holds and otherwise at the copy of the next
  instruction; a relative call arrives at the called function with the address of the
  instruction after the copied call as the return address, on top of the saved \<^verbatim>\<open>r11\<close>.
\<close>

theorem x86_relocated_branches:
  assumes built: "x86_built disasm probe stub ta cap buf n is"
    and code: "code_at (x_mem s) ta (take n buf)" and k: "k < length is"
    and ip: "x_rip s = x86_chunk_addr (ta + 16) is k"
    and clear: "below_clear (x_rsp s) 16 (x_rip s) (length (x86_chunk (x_rip s) (is ! k)))"
  defines "i \<equiv> is ! k" and "t \<equiv> op_imm (xi_operands (is ! k) ! 0)"
  shows "(zt_is_rel_jmp i \<longrightarrow> x86_run 2 s = Some (s\<lparr>x_rip := t, x_r11 := t\<rparr>)) \<and>
    (zt_is_conditional_jump i \<longrightarrow>
       (if jcc_taken (xi_id i) (x_flags s) then x86_run 3 s = Some (s\<lparr>x_rip := t, x_r11 := t\<rparr>)
        else x86_run 1 s = Some (s\<lparr>x_rip := x86_chunk_addr (ta + 16) is (Suc k)\<rparr>))) \<and>
    (zt_is_rel_call i \<longrightarrow>
       (\<exists>s'. x86_run 3 s = Some s' \<and> x_rip s' = t \<and> x_rsp s' = x_rsp s - 16 \<and>
          load64 (x_mem s') (x_rsp s') = x_rip s + 15 \<and> load64 (x_mem s') (x_rsp s' + 8) = x_r11 s))"
proof -
  have "code_at (x_mem s) (x_rip s) (x86_chunks (ta + 16) is ! k)"
    using code_at_concat_nth [OF x86_built_parts(2) [OF built code]] k ip by (simp add: x86_chunk_addr_def)
  then have c: "code_at (x_mem s) (x_rip s) (x86_chunk (x_rip s) i)"
    using nth_x86_chunks [OF k] ip by (simp add: i_def)
  have nxt: "x86_chunk_addr (ta + 16) is (Suc k) = x_rip s + of_nat (length (x86_chunk (x_rip s) i))"
    using k nth_x86_chunks [OF k, of "ta + 16"] ip
    by (simp add: x86_chunk_addr_def take_Suc_conv_app_nth i_def add.assoc)
  have excl: "zt_is_rel_jmp i \<Longrightarrow> \<not> zt_is_rel_call i" "zt_is_conditional_jump i \<Longrightarrow> \<not> zt_is_rel_call i \<and> \<not> zt_is_rel_jmp i"
    by (auto simp: zt_is_rel_jmp_def zt_is_rel_call_def zt_is_conditional_jump_def)
  have "x86_run 2 s = Some (s\<lparr>x_rip := t, x_r11 := t\<rparr>)" if "zt_is_rel_jmp i"
    using c that excl run_jmp_abs [of s t] by (simp add: x86_chunk_def t_def i_def)
  moreover have "if jcc_taken (xi_id i) (x_flags s) then x86_run 3 s = Some (s\<lparr>x_rip := t, x_r11 := t\<rparr>)
      else x86_run 1 s = Some (s\<lparr>x_rip := x86_chunk_addr (ta + 16) is (Suc k)\<rparr>)"
    if j: "zt_is_conditional_jump i"
  proof -
    obtain opc where o: "zt_inverse_short_jcc_opcode (xi_id i) = Some opc"
      using x86_built_ok(2) [OF built] k j excl by (auto simp: x86_opcodes_ok_def i_def)
    have ch: "x86_chunk (x_rip s) i = [opc, 13] @ jmp_abs t"
      using j excl o by (simp add: x86_chunk_def t_def i_def)
    show ?thesis
      using run_cond_jmp [OF o c [unfolded ch]] unfolding nxt ch by simp
  qed
  moreover have "\<exists>s'. x86_run 3 s = Some s' \<and> x_rip s' = t \<and> x_rsp s' = x_rsp s - 16 \<and>
      load64 (x_mem s') (x_rsp s') = x_rip s + 15 \<and> load64 (x_mem s') (x_rsp s' + 8) = x_r11 s"
    if "zt_is_rel_call i"
  proof -
    have ch: "x86_chunk (x_rip s) i = call_abs t" using that by (simp add: x86_chunk_def t_def i_def)
    show ?thesis
      using run_call_abs [OF c [unfolded ch]] clear ch by (fastforce simp: i_def)
  qed
  ultimately show ?thesis by blast
qed

theorem x86_relocated_branches_witness:
  "x86_run 3 (ex_state (0x7000 + 16)) = Some ((ex_state (0x7000 + 16))\<lparr>x_rip := 0x401022, x_r11 := 0x401022\<rparr>)"
proof -
  let ?s = "ex_state (0x7000 + 16)"
  have ip: "x_rip ?s = x86_chunk_addr (0x7000 + 16) ex_insns 0"
    by (simp add: ex_state_def x86_chunk_addr_def)
  have len: "length (x86_chunk (x_rip ?s) (ex_insns ! 0)) = 15"
    by (simp add: ex_insns_def x86_chunk_def zt_is_rel_call_def zt_is_rel_jmp_def
        zt_is_conditional_jump_def jmp_abs_def)
  have "below_clear (x_rsp ?s) 16 (x_rip ?s) (length (x86_chunk (x_rip ?s) (ex_insns ! 0)))"
    unfolding len below_clear_def
  proof (intro allI impI)
    fix i :: nat
    assume "i < 15"
    then have "unat (32 + of_nat i :: u64) = 32 + i" by (simp add: unat_word_ariths unat_of_nat)
    then show "16 \<le> x_rip ?s + of_nat i - (x_rsp ?s - 16)"
      by (simp add: ex_state_def word_le_nat_alt)
  qed
  from x86_relocated_branches [OF ex_built ex_code _ ip this] show ?thesis
    by (simp add: ex_insns_def zt_is_conditional_jump_def ex_state_def)
qed



end
