(* ===== verification/ZT_TrampA64.thy ===== *)
theory ZT_TrampA64
  imports ZT_Emit
begin

text \<open>
  Model of \<^verbatim>\<open>src/isa/aarch64/trampoline_manager.c\<close>. As on x86-64 the Capstone
  disassembler is a parameter. The emitter helpers that read \<^verbatim>\<open>insn->bytes\<close> take the
  instruction word that \<^verbatim>\<open>zt_read_u32\<close> yields.
\<close>

section \<open>Decoded instructions\<close>

datatype a64_id =
    ARM64_INS_ADR | ARM64_INS_ADRP | ARM64_INS_BL | ARM64_INS_B
  | ARM64_INS_CBNZ | ARM64_INS_CBZ | ARM64_INS_TBNZ | ARM64_INS_TBZ
  | ARM64_INS_LDR | ARM64_INS_LDRB | ARM64_INS_LDRH | ARM64_INS_LDRSB | ARM64_INS_LDRSH
  | ARM64_INS_LDRSW | ARM64_INS_OTHER

datatype a64_op = ARM64_OP_IMM u64 | ARM64_OP_OTHER

text \<open>\<open>ai_cc\<close> is Capstone's condition: 0 for none, 1 (EQ) to 14 (LE), 15 (AL), 16 (NV).\<close>

record a64_insn =
  ai_id :: a64_id
  ai_size :: nat
  ai_bytes :: "u8 list"
  ai_operands :: "a64_op list"
  ai_cc :: nat

type_synonym a64_disasm = "u8 list \<Rightarrow> u64 \<Rightarrow> a64_insn list option"

definition ARM64_CC_EQ :: nat where "ARM64_CC_EQ = 1"
definition ARM64_CC_LE :: nat where "ARM64_CC_LE = 14"
definition ZT_AARCH64_INSN_SIZE :: nat where "ZT_AARCH64_INSN_SIZE = 4"

section \<open>Emitting instruction words\<close>

definition zt_emit_u32 :: "emit_buf \<Rightarrow> u32 \<Rightarrow> emit_buf option" where
  "zt_emit_u32 b insn = zt_emit_bytes b (le32 insn)"

definition a64_imm16 :: "u64 \<Rightarrow> nat \<Rightarrow> u32" where
  "a64_imm16 value hw = ucast (drop_bit (hw * 16) value AND 0xffff)"

definition a64_mov_insn :: "u32 \<Rightarrow> u64 \<Rightarrow> nat \<Rightarrow> u32" where
  "a64_mov_insn rd value hw =
     (if hw = 0 then 0xD2800000 else 0xF2800000) OR push_bit 21 (of_nat hw) OR
     push_bit 5 (a64_imm16 value hw) OR rd"

fun zt_emit_mov_abs_loop :: "emit_buf \<Rightarrow> u32 \<Rightarrow> u64 \<Rightarrow> nat list \<Rightarrow> emit_buf option" where
  "zt_emit_mov_abs_loop b rd value [] = Some b"
| "zt_emit_mov_abs_loop b rd value (hw # hws) =
     (if hw \<noteq> 0 \<and> a64_imm16 value hw = 0 then zt_emit_mov_abs_loop b rd value hws
      else case zt_emit_u32 b (a64_mov_insn rd value hw) of
          None \<Rightarrow> None
        | Some b' \<Rightarrow> zt_emit_mov_abs_loop b' rd value hws)"

definition zt_emit_mov_abs :: "emit_buf \<Rightarrow> u32 \<Rightarrow> u64 \<Rightarrow> emit_buf option" where
  "zt_emit_mov_abs b rd value =
     (if rd > 31 then None else zt_emit_mov_abs_loop b rd value [0, 1, 2, 3])"

definition zt_mov_abs_size :: "u64 \<Rightarrow> nat" where
  "zt_mov_abs_size value =
     (1 + length (List.filter (\<lambda>hw. drop_bit (hw * 16) value AND 0xffff \<noteq> 0) [1, 2, 3])) *
     ZT_AARCH64_INSN_SIZE"

function zt_fill_nops_loop :: "u8 list \<Rightarrow> nat \<Rightarrow> u8 list" where
  "zt_fill_nops_loop buf offset =
     (if offset + 4 \<le> length buf then zt_fill_nops_loop (buf_put buf offset (le32 0xD503201F)) (offset + 4)
      else buf)"
  by pat_completeness auto
termination
  by (relation "measure (\<lambda>(buf, offset). length buf - offset)") auto

declare zt_fill_nops_loop.simps [simp del]

definition zt_fill_nops :: "u8 list \<Rightarrow> u8 list" where
  "zt_fill_nops buf = zt_fill_nops_loop buf 0"

definition zt_read_u32 :: "u8 list \<Rightarrow> u32" where
  "zt_read_u32 buf = le_word (take 4 buf)"

definition zt_aarch64_branch_target :: "a64_insn \<Rightarrow> nat \<Rightarrow> u64 option" where
  "zt_aarch64_branch_target insn operand_index =
     (if operand_index \<ge> length (ai_operands insn) then None
      else case ai_operands insn ! operand_index of
          ARM64_OP_IMM imm \<Rightarrow> Some imm
        | ARM64_OP_OTHER \<Rightarrow> None)"

definition zt_emit_abs_branch :: "emit_buf \<Rightarrow> u64 \<Rightarrow> emit_buf option" where
  "zt_emit_abs_branch b target_addr =
     do { b1 \<leftarrow> zt_emit_mov_abs b 16 target_addr; zt_emit_u32 b1 0xD61F0200 }"

definition zt_emit_abs_call :: "emit_buf \<Rightarrow> u64 \<Rightarrow> emit_buf option" where
  "zt_emit_abs_call b target_addr =
     do { b1 \<leftarrow> zt_emit_mov_abs b 16 target_addr; zt_emit_u32 b1 0xD63F0200 }"

definition zt_aarch64_cond_code :: "nat \<Rightarrow> nat option" where
  "zt_aarch64_cond_code cond =
     (if cond < ARM64_CC_EQ \<or> cond > ARM64_CC_LE then None else Some (cond - ARM64_CC_EQ))"

definition zt_aarch64_inverse_cond :: "nat \<Rightarrow> nat option" where
  "zt_aarch64_inverse_cond cond =
     (case zt_aarch64_cond_code cond of None \<Rightarrow> None | Some code \<Rightarrow> Some (code XOR 1))"

definition zt_aarch64_encode_b_cond :: "nat \<Rightarrow> nat \<Rightarrow> u32" where
  "zt_aarch64_encode_b_cond cond byte_offset =
     0x54000000 OR push_bit 5 (of_nat (byte_offset div ZT_AARCH64_INSN_SIZE) AND 0x7ffff) OR
     (of_nat cond AND 0xf)"

definition zt_emit_cond_abs_branch :: "emit_buf \<Rightarrow> nat \<Rightarrow> u64 \<Rightarrow> emit_buf option" where
  "zt_emit_cond_abs_branch b cond target_addr =
     (case zt_aarch64_inverse_cond cond of
        None \<Rightarrow> None
      | Some inverse_cond \<Rightarrow>
          let skip_bytes = ZT_AARCH64_INSN_SIZE + zt_mov_abs_size target_addr + ZT_AARCH64_INSN_SIZE
          in do { b1 \<leftarrow> zt_emit_u32 b (zt_aarch64_encode_b_cond inverse_cond skip_bytes);
                  zt_emit_abs_branch b1 target_addr })"

text \<open>The word count in the rewritten branch: over the branch itself, the move and the jump.\<close>

definition a64_skip_words :: "u64 \<Rightarrow> u32" where
  "a64_skip_words target_addr = of_nat
     ((ZT_AARCH64_INSN_SIZE + zt_mov_abs_size target_addr + ZT_AARCH64_INSN_SIZE) div ZT_AARCH64_INSN_SIZE)"

definition a64_cb_rewritten :: "u32 \<Rightarrow> u64 \<Rightarrow> u32" where
  "a64_cb_rewritten w target_addr =
     ((w XOR push_bit 24 1) AND NOT (push_bit 5 0x7ffff)) OR push_bit 5 (a64_skip_words target_addr)"

definition zt_emit_cb_abs_branch :: "emit_buf \<Rightarrow> a64_insn \<Rightarrow> u64 \<Rightarrow> emit_buf option" where
  "zt_emit_cb_abs_branch b insn target_addr =
     do { b1 \<leftarrow> zt_emit_u32 b (a64_cb_rewritten (zt_read_u32 (ai_bytes insn)) target_addr);
          zt_emit_abs_branch b1 target_addr }"

definition a64_tb_rewritten :: "u32 \<Rightarrow> u64 \<Rightarrow> u32" where
  "a64_tb_rewritten w target_addr =
     ((w XOR push_bit 24 1) AND NOT (push_bit 5 0x3fff)) OR push_bit 5 (a64_skip_words target_addr)"

definition zt_emit_tb_abs_branch :: "emit_buf \<Rightarrow> a64_insn \<Rightarrow> u64 \<Rightarrow> emit_buf option" where
  "zt_emit_tb_abs_branch b insn target_addr =
     do { b1 \<leftarrow> zt_emit_u32 b (a64_tb_rewritten (zt_read_u32 (ai_bytes insn)) target_addr);
          zt_emit_abs_branch b1 target_addr }"

definition zt_emit_adr_like :: "emit_buf \<Rightarrow> a64_insn \<Rightarrow> emit_buf option" where
  "zt_emit_adr_like b insn =
     do { target_addr \<leftarrow> zt_aarch64_branch_target insn 1;
          zt_emit_mov_abs b (zt_read_u32 (ai_bytes insn) AND 0x1f) target_addr }"

section \<open>Relocating\<close>

definition a64_is_literal_load :: "a64_insn \<Rightarrow> bool" where
  "a64_is_literal_load insn =
     (length (ai_operands insn) \<ge> 2 \<and> (case ai_operands insn ! 1 of ARM64_OP_IMM _ \<Rightarrow> True | _ \<Rightarrow> False))"

definition zt_emit_relocated_insn :: "emit_buf \<Rightarrow> a64_insn \<Rightarrow> emit_buf option" where
  "zt_emit_relocated_insn b insn =
     (let copy = zt_emit_bytes b (take (ai_size insn) (ai_bytes insn)) in
      if ai_size insn \<noteq> ZT_AARCH64_INSN_SIZE then None
      else case ai_id insn of
        ARM64_INS_ADR \<Rightarrow> zt_emit_adr_like b insn
      | ARM64_INS_ADRP \<Rightarrow> zt_emit_adr_like b insn
      | ARM64_INS_BL \<Rightarrow>
          do { target_addr \<leftarrow> zt_aarch64_branch_target insn 0; zt_emit_abs_call b target_addr }
      | ARM64_INS_B \<Rightarrow>
          do { target_addr \<leftarrow> zt_aarch64_branch_target insn 0;
               if ai_cc insn \<ge> ARM64_CC_EQ \<and> ai_cc insn \<le> ARM64_CC_LE
               then zt_emit_cond_abs_branch b (ai_cc insn) target_addr
               else zt_emit_abs_branch b target_addr }
      | ARM64_INS_CBNZ \<Rightarrow>
          do { target_addr \<leftarrow> zt_aarch64_branch_target insn 1; zt_emit_cb_abs_branch b insn target_addr }
      | ARM64_INS_CBZ \<Rightarrow>
          do { target_addr \<leftarrow> zt_aarch64_branch_target insn 1; zt_emit_cb_abs_branch b insn target_addr }
      | ARM64_INS_TBNZ \<Rightarrow>
          do { target_addr \<leftarrow> zt_aarch64_branch_target insn 2; zt_emit_tb_abs_branch b insn target_addr }
      | ARM64_INS_TBZ \<Rightarrow>
          do { target_addr \<leftarrow> zt_aarch64_branch_target insn 2; zt_emit_tb_abs_branch b insn target_addr }
      | ARM64_INS_OTHER \<Rightarrow> copy
      | _ \<Rightarrow> if a64_is_literal_load insn then None else copy)"

fun a64_emit_all :: "emit_buf \<Rightarrow> a64_insn list \<Rightarrow> emit_buf option" where
  "a64_emit_all b [] = Some b"
| "a64_emit_all b (cur # rest) = do { b' \<leftarrow> zt_emit_relocated_insn b cur; a64_emit_all b' rest }"

definition a64_emit_relocated_orig_code ::
  "a64_disasm \<Rightarrow> zt_probe_info_t \<Rightarrow> u8 list \<Rightarrow> emit_buf option" where
  "a64_emit_relocated_orig_code disasm probe buf =
     (if pi_orig_len probe = 0 \<or> pi_orig_len probe mod ZT_AARCH64_INSN_SIZE \<noteq> 0 then None
      else case disasm (take (pi_orig_len probe) (pi_orig_code probe)) (tgt_remote_addr (pi_target probe)) of
          None \<Rightarrow> None
        | Some insns \<Rightarrow> if insns = [] then None else a64_emit_all (buf, 0) insns)"

definition a64_build_trampoline ::
  "a64_disasm \<Rightarrow> zt_probe_info_t \<Rightarrow> u64 \<Rightarrow> u64 \<Rightarrow> u8 list \<Rightarrow> (u8 list \<times> nat) option" where
  "a64_build_trampoline disasm probe entry_stub_addr trampoline_addr trampoline_buf =
     (if trampoline_addr = 0 \<or> entry_stub_addr = 0 then None
      else if pi_orig_len probe = 0 \<or> pi_orig_len probe > ZT_PROBE_ORIG_CODE_MAX then None
      else do {
        let continue_addr = tgt_remote_addr (pi_target probe) + of_nat (pi_orig_len probe);
        let b0 = (zt_fill_nops trampoline_buf, 0);
        b1 \<leftarrow> zt_emit_u32 b0 0xAA1E03EF;
        b2 \<leftarrow> zt_emit_mov_abs b1 17 (pi_probe_id probe);
        b3 \<leftarrow> zt_emit_mov_abs b2 16 entry_stub_addr;
        b4 \<leftarrow> zt_emit_u32 b3 0xD63F0200;
        b5 \<leftarrow> zt_emit_u32 b4 0xAA0F03FE;
        (sub, relocated_size) \<leftarrow> a64_emit_relocated_orig_code disasm probe (drop (snd b5) (fst b5));
        let b6 = (take (snd b5) (fst b5) @ sub, snd b5 + relocated_size);
        b7 \<leftarrow> zt_emit_mov_abs b6 16 continue_addr;
        b8 \<leftarrow> zt_emit_u32 b7 0xD61F0200;
        Some b8
      })"

end
