(* ===== verification/ZT_A64Machine.thy ===== *)
theory ZT_A64Machine
  imports ZT_Memory
begin

text \<open>
  The AArch64 instructions the trampoline builder emits or rewrites: wide moves, the
  register move, branches through a register, the conditional branches, and the literal load
  of the probe patch. Register 31
  reads as zero and ignores writes.
\<close>

section \<open>State and decoding\<close>

record a64_state =
  a_pc :: u64
  a_x :: "nat \<Rightarrow> u64"
  a_n :: bool
  a_z :: bool
  a_c :: bool
  a_v :: bool
  a_mem :: "u64 \<Rightarrow> u8"

definition fld :: "nat \<Rightarrow> nat \<Rightarrow> u32 \<Rightarrow> u32" where
  "fld lo len w = take_bit len (drop_bit lo w)"

definition getx :: "a64_state \<Rightarrow> u32 \<Rightarrow> u64" where
  "getx s r = (if r = 31 then 0 else a_x s (unat r))"

definition setx :: "a64_state \<Rightarrow> u32 \<Rightarrow> u64 \<Rightarrow> a64_state" where
  "setx s r v = (if r = 31 then s else s\<lparr>a_x := (a_x s)(unat r := v)\<rparr>)"

definition a64_cond :: "nat \<Rightarrow> a64_state \<Rightarrow> bool" where
  "a64_cond c s =
     ((if c div 2 = 0 then a_z s
       else if c div 2 = 1 then a_c s
       else if c div 2 = 2 then a_n s
       else if c div 2 = 3 then a_v s
       else if c div 2 = 4 then a_c s \<and> \<not> a_z s
       else if c div 2 = 5 then a_n s = a_v s
       else if c div 2 = 6 then a_n s = a_v s \<and> \<not> a_z s
       else True) = (even c \<or> c = 15))"

definition off19 :: "u32 \<Rightarrow> u64" where
  "off19 w = push_bit 2 (signed_take_bit 18 (ucast (fld 5 19 w)))"

definition off14 :: "u32 \<Rightarrow> u64" where
  "off14 w = push_bit 2 (signed_take_bit 13 (ucast (fld 5 14 w)))"

text \<open>Whether a compare-and-branch or test-and-branch word takes its branch.\<close>

definition cb_taken :: "u32 \<Rightarrow> a64_state \<Rightarrow> bool" where
  "cb_taken w s = (((if fld 31 1 w = 1 then getx s (fld 0 5 w) else take_bit 32 (getx s (fld 0 5 w))) = 0)
     = (fld 24 1 w = 0))"

definition tb_taken :: "u32 \<Rightarrow> a64_state \<Rightarrow> bool" where
  "tb_taken w s = (bit (getx s (fld 0 5 w)) (unat (push_bit 5 (fld 31 1 w) OR fld 19 5 w)) = (fld 24 1 w \<noteq> 0))"

definition a64_step :: "a64_state \<Rightarrow> a64_state option" where
  "a64_step s =
     (let w = le_word (fetch (a_mem s) (a_pc s) 4) :: u32;
          nxt = a_pc s + 4;
          hw16 = 16 * unat (fld 21 2 w);
          imm16 = ucast (fld 5 16 w) :: u64
      in
      if fld 23 9 w = 0x1A5 then Some ((setx s (fld 0 5 w) (push_bit hw16 imm16))\<lparr>a_pc := nxt\<rparr>)
      else if fld 23 9 w = 0x1E5 then
        Some ((setx s (fld 0 5 w)
          (getx s (fld 0 5 w) AND NOT (push_bit hw16 0xffff) OR push_bit hw16 imm16))\<lparr>a_pc := nxt\<rparr>)
      else if fld 10 22 w = 0x3587C0 \<and> fld 0 5 w = 0 then Some (s\<lparr>a_pc := getx s (fld 5 5 w)\<rparr>)
      else if fld 10 22 w = 0x358FC0 \<and> fld 0 5 w = 0 then
        Some ((setx s 30 nxt)\<lparr>a_pc := getx s (fld 5 5 w)\<rparr>)
      else if fld 24 8 w = 0x54 \<and> fld 4 1 w = 0 then
        Some (s\<lparr>a_pc := if a64_cond (unat (fld 0 4 w)) s then a_pc s + off19 w else nxt\<rparr>)
      else if fld 25 6 w = 0x1A then Some (s\<lparr>a_pc := if cb_taken w s then a_pc s + off19 w else nxt\<rparr>)
      else if fld 25 6 w = 0x1B then Some (s\<lparr>a_pc := if tb_taken w s then a_pc s + off14 w else nxt\<rparr>)
      else if fld 21 11 w = 0x550 \<and> fld 5 11 w = 0x1F then
        Some ((setx s (fld 0 5 w) (getx s (fld 16 5 w)))\<lparr>a_pc := nxt\<rparr>)
      else if fld 24 8 w = 0x58 then
        Some ((setx s (fld 0 5 w) (load64 (a_mem s) (a_pc s + off19 w)))\<lparr>a_pc := nxt\<rparr>)
      else None)"

fun a64_run :: "nat \<Rightarrow> a64_state \<Rightarrow> a64_state option" where
  "a64_run 0 s = Some s"
| "a64_run (Suc n) s = Option.bind (a64_step s) (a64_run n)"

section \<open>Executing\<close>

lemma a64_run_add: "a64_run (m + n) s = Option.bind (a64_run m s) (a64_run n)"
  by (induction m arbitrary: s) (auto split: Option.bind_split)

lemma setx_frame [simp]:
  "a_mem (setx s r v) = a_mem s" "a_pc (setx s r v) = a_pc s"
  "a_n (setx s r v) = a_n s" "a_z (setx s r v) = a_z s" "a_c (setx s r v) = a_c s" "a_v (setx s r v) = a_v s"
  by (simp_all add: setx_def)

lemma fld_simps:
  "fld lo len (a OR b) = fld lo len a OR fld lo len b"
  "fld lo len (a AND b) = fld lo len a AND fld lo len b"
  "fld lo len (a XOR b) = fld lo len a XOR fld lo len b"
  by (simp_all add: fld_def)

lemma bit_fld: "bit (fld lo len w) k \<longleftrightarrow> k < len \<and> bit w (lo + k)"
  by (auto simp: fld_def bit_take_bit_iff bit_drop_bit_eq)

text \<open>A field of a value that lies below it is zero.\<close>

lemma fld_small:
  assumes "w = take_bit lo w"
  shows "fld lo len w = 0"
proof (rule bit_word_eqI)
  fix k
  have "\<not> bit w (lo + k)" using assms by (metis bit_take_bit_iff not_add_less1)
  then show "bit (fld lo len w) k = bit (0 :: u32) k" by (simp add: bit_fld)
qed

text \<open>The field of a value that was shifted into place.\<close>

lemma fld_push:
  assumes "v = take_bit len v" and "lo + len \<le> 32"
  shows "fld lo len (push_bit lo v) = v"
proof (rule bit_word_eqI)
  fix k
  assume "k < LENGTH(32)"
  have "bit v k \<Longrightarrow> k < len" using assms(1) by (metis bit_take_bit_iff)
  then show "bit (fld lo len (push_bit lo v)) k = bit v k"
    using assms(2) by (auto simp: bit_fld bit_push_bit_iff)
qed

text \<open>A field that a shifted value does not reach, above or below it.\<close>

lemma fld_push_above:
  assumes "v = take_bit len v" and "lo + len \<le> lo2"
  shows "fld lo2 len2 (push_bit lo v) = 0"
proof (rule bit_word_eqI)
  fix k
  have "bit v (lo2 + k - lo) \<Longrightarrow> lo2 + k - lo < len" using assms(1) by (metis bit_take_bit_iff)
  then have "\<not> bit v (lo2 + k - lo)" using assms(2) by auto
  then show "bit (fld lo2 len2 (push_bit lo v)) k = bit (0 :: u32) k"
    by (simp add: bit_fld bit_push_bit_iff)
qed

lemma fld_push_below:
  assumes "lo2 + len2 \<le> lo"
  shows "fld lo2 len2 (push_bit lo v) = 0"
  by (rule bit_word_eqI) (use assms in \<open>auto simp: bit_fld bit_push_bit_iff\<close>)

end
