(* ===== verification/ZT_TrampA64Props.thy ===== *)
theory ZT_TrampA64Props
  imports ZT_TrampA64 ZT_A64Machine
begin

text \<open>
  What an AArch64 trampoline does, executed by the processor model: the 64-bit immediates
  it materializes, the branches it expands, the call of the entry stub and the branch back
  into the function.
\<close>

section \<open>Materialized immediates\<close>

lemma bit_a64_imm16: "bit (a64_imm16 v hw) k \<longleftrightarrow> k < 16 \<and> bit v (hw * 16 + k)"
proof -
  have m: "(0xffff :: u64) = mask 16" by (simp add: mask_numeral)
  show ?thesis
    unfolding a64_imm16_def m
    by (auto simp: bit_ucast_iff bit_and_iff bit_mask_iff bit_drop_bit_eq)
qed

lemma fld_const:
  "fld 23 9 0xD2800000 = 0x1A5" "fld 23 9 0xF2800000 = 0x1E5"
  "fld 21 2 0xD2800000 = 0" "fld 21 2 0xF2800000 = 0"
  "fld 5 16 0xD2800000 = 0" "fld 5 16 0xF2800000 = 0"
  "fld 0 5 0xD2800000 = 0" "fld 0 5 0xF2800000 = 0"
  by (code_simp)+

lemma a64_imm16_take: "a64_imm16 v hw = take_bit 16 (a64_imm16 v hw)"
  by (rule bit_word_eqI) (auto simp: bit_take_bit_iff bit_a64_imm16)

lemma mov_decode:
  assumes rd: "rd = take_bit 5 rd" and hw: "hw < 4"
  shows "fld 23 9 (a64_mov_insn rd v hw) = (if hw = 0 then 0x1A5 else 0x1E5)"
    and "fld 21 2 (a64_mov_insn rd v hw) = of_nat hw"
    and "fld 5 16 (a64_mov_insn rd v hw) = a64_imm16 v hw"
    and "fld 0 5 (a64_mov_insn rd v hw) = rd"
proof -
  have h: "(of_nat hw :: u32) = take_bit 2 (of_nat hw)"
    using hw by (simp add: take_bit_of_nat take_bit_nat_eq_self)
  have r: "rd = take_bit n rd" if "5 \<le> n" for n
    using rd that by (metis take_bit_take_bit min.absorb2 min.commute)
  note f = fld_simps fld_const fld_push [OF h] fld_push_above [OF h] fld_push_below
    fld_push [OF a64_imm16_take] fld_push_above [OF a64_imm16_take] fld_small [OF r]
  show "fld 23 9 (a64_mov_insn rd v hw) = (if hw = 0 then 0x1A5 else 0x1E5)"
    and "fld 21 2 (a64_mov_insn rd v hw) = of_nat hw"
    and "fld 5 16 (a64_mov_insn rd v hw) = a64_imm16 v hw"
    by (simp_all add: a64_mov_insn_def f)
  have "fld 0 5 rd = rd" using rd by (simp add: fld_def)
  then show "fld 0 5 (a64_mov_insn rd v hw) = rd"
    by (simp add: a64_mov_insn_def f)
qed

text \<open>The words of a materialized immediate.\<close>

definition mov_words :: "u32 \<Rightarrow> u64 \<Rightarrow> u32 list" where
  "mov_words rd v = map (a64_mov_insn rd v) (0 # List.filter (\<lambda>hw. a64_imm16 v hw \<noteq> 0) [1, 2, 3])"

definition words_bytes :: "u32 list \<Rightarrow> u8 list" where
  "words_bytes ws = concat (map le32 ws)"

lemma words_bytes_simps [simp]:
  "words_bytes [] = []" "words_bytes (w # ws) = le32 w @ words_bytes ws"
  "words_bytes (ws @ vs) = words_bytes ws @ words_bytes vs"
  by (simp_all add: words_bytes_def)

lemma length_words_bytes [simp]: "length (words_bytes ws) = 4 * length ws"
  by (induction ws) simp_all

lemma zt_emit_mov_abs_loop_seq:
  "zt_emit_mov_abs_loop b rd v hws = zt_emit_seq b
     (map le32 (map (a64_mov_insn rd v) (List.filter (\<lambda>hw. hw = 0 \<or> a64_imm16 v hw \<noteq> 0) hws)))"
  by (induction hws arbitrary: b) (auto simp: zt_emit_u32_def split: option.split)

lemma zt_emit_mov_abs_seq:
  "\<not> rd > 31 \<Longrightarrow> zt_emit_mov_abs b rd v = zt_emit_seq b (map le32 (mov_words rd v))"
proof -
  have "List.filter (\<lambda>hw. hw = 0 \<or> a64_imm16 v hw \<noteq> 0) [0, 1, 2, 3] =
      0 # List.filter (\<lambda>hw. a64_imm16 v hw \<noteq> 0) [1, 2, 3]"
    by simp
  then show "\<not> rd > 31 \<Longrightarrow> zt_emit_mov_abs b rd v = zt_emit_seq b (map le32 (mov_words rd v))"
    by (simp only: zt_emit_mov_abs_def zt_emit_mov_abs_loop_seq mov_words_def if_False)
qed

lemma zt_emit_seq_append:
  "zt_emit_seq b (xs @ ys) = Option.bind (zt_emit_seq b xs) (\<lambda>b'. zt_emit_seq b' ys)"
  by (induction xs arbitrary: b) (auto split: option.split)

lemma zt_emit_u32_seq: "zt_emit_u32 b w = zt_emit_seq b [le32 w]"
  by (simp add: zt_emit_u32_def split: option.split)

lemma zt_mov_abs_size_words: "zt_mov_abs_size v = 4 * length (mov_words rd v)"
proof -
  have "(drop_bit (hw * 16) v AND 0xffff \<noteq> 0) = (a64_imm16 v hw \<noteq> 0)" for hw
  proof -
    have m: "(0xffff :: u64) = mask 16" by (simp add: mask_numeral)
    have "drop_bit (hw * 16) v AND 0xffff = ucast (a64_imm16 v hw)"
      unfolding m
      by (rule bit_word_eqI) (auto simp: bit_a64_imm16 bit_ucast_iff bit_and_iff bit_mask_iff bit_drop_bit_eq)
    moreover have "a64_imm16 v hw = 0" if "(ucast (a64_imm16 v hw) :: u64) = 0"
    proof (rule bit_word_eqI)
      fix k
      have "bit (ucast (a64_imm16 v hw) :: u64) k = bit (a64_imm16 v hw) k"
        by (auto simp: bit_ucast_iff bit_a64_imm16)
      with that show "bit (a64_imm16 v hw) k = bit 0 k" by simp
    qed
    ultimately show ?thesis by auto
  qed
  then show ?thesis
    by (simp add: zt_mov_abs_size_def mov_words_def ZT_AARCH64_INSN_SIZE_def)
qed

text \<open>Executing them.\<close>

lemma a64_step_movz:
  assumes "code_at (a_mem s) (a_pc s) (le32 (a64_mov_insn rd v 0))" and "rd = take_bit 5 rd"
  shows "a64_step s = Some ((setx s rd (take_bit 16 v))\<lparr>a_pc := a_pc s + 4\<rparr>)"
proof -
  have "ucast (a64_imm16 v 0) = take_bit 16 v"
    by (rule bit_word_eqI) (auto simp: bit_a64_imm16 bit_ucast_iff bit_take_bit_iff)
  then show ?thesis
    using code_at_load32 [OF assms(1)] mov_decode [OF assms(2), of 0 v] by (simp add: a64_step_def Let_def)
qed

lemma a64_step_movk:
  assumes "code_at (a_mem s) (a_pc s) (le32 (a64_mov_insn rd v hw))" and "rd = take_bit 5 rd"
    and "hw \<noteq> 0" "hw < 4" and "getx s rd = take_bit (16 * hw) v"
  shows "a64_step s = Some ((setx s rd (take_bit (16 * Suc hw) v))\<lparr>a_pc := a_pc s + 4\<rparr>)"
proof -
  have m: "(0xffff :: u64) = mask 16" by (simp add: mask_numeral)
  have h: "unat (of_nat hw :: u32) = hw" using assms(4) by (simp add: unat_of_nat)
  have "take_bit (16 * hw) v AND NOT (push_bit (16 * hw) 0xffff) OR push_bit (16 * hw) (ucast (a64_imm16 v hw))
      = take_bit (16 * Suc hw) v"
    unfolding m using assms(4)
    by (intro bit_word_eqI)
      (auto simp: bit_simps bit_a64_imm16 bit_ucast_iff bit_mask_iff algebra_simps)
  then show ?thesis
    using code_at_load32 [OF assms(1)] mov_decode [OF assms(2,4), of v] assms(3,5) h
    by (simp add: a64_step_def Let_def)
qed

lemma setx_setx [simp]: "(setx ((setx s r a)\<lparr>a_pc := p\<rparr>) r b)\<lparr>a_pc := q\<rparr> = (setx s r b)\<lparr>a_pc := q\<rparr>"
  by (simp add: setx_def)

lemma getx_setx [simp]: "r \<noteq> 31 \<Longrightarrow> getx (setx s r v) r = v"
  by (simp add: getx_def setx_def)

lemma getx_setx_other [simp]: "q \<noteq> r \<Longrightarrow> getx (setx s r v) q = getx s q"
  by (auto simp: getx_def setx_def dest!: unsigned_word_eqI)

lemma getx_pc [simp]: "getx (s\<lparr>a_pc := p\<rparr>) r = getx s r"
  by (simp add: getx_def)

lemma setx_self: "getx s r = v \<Longrightarrow> setx s r v = s"
  by (auto simp: getx_def setx_def)

lemma take_bit_skip:
  assumes "a64_imm16 v hw = 0"
  shows "take_bit (16 * Suc hw) v = take_bit (16 * hw) v"
proof (rule bit_word_eqI)
  fix k
  have "\<not> bit v k" if "16 * hw \<le> k" "k < 16 * Suc hw"
    using assms bit_a64_imm16 [of v hw "k - 16 * hw"] that by (simp add: mult.commute)
  then show "bit (take_bit (16 * Suc hw) v) k = bit (take_bit (16 * hw) v) k"
    by (cases "k < 16 * hw") (auto simp: bit_take_bit_iff)
qed

lemma run_mov_tail:
  assumes "hw \<noteq> 0" and "hw + n = 4" and "rd = take_bit 5 rd" and "rd \<noteq> 31"
    and "getx s rd = take_bit (16 * hw) v"
    and "code_at (a_mem s) (a_pc s)
      (words_bytes (map (a64_mov_insn rd v) (List.filter (\<lambda>h. a64_imm16 v h \<noteq> 0) [hw..<4])))"
  defines "ws \<equiv> \<lambda>hw. List.filter (\<lambda>h. a64_imm16 v h \<noteq> 0) [hw..<4]"
  shows "a64_run (length (ws hw)) s = Some ((setx s rd v)\<lparr>a_pc := a_pc s + of_nat (4 * length (ws hw))\<rparr>)"
  using assms(1-6)
proof (induction n arbitrary: hw s)
  case 0
  have "take_bit 64 v = v" by (rule bit_word_eqI) (simp add: bit_take_bit_iff)
  with 0 show ?case by (simp add: ws_def setx_self)
next
  case (Suc n)
  have up: "[hw..<4] = hw # [Suc hw..<4]" using Suc.prems by (simp add: upt_rec)
  show ?case
  proof (cases "a64_imm16 v hw = 0")
    case True
    then show ?thesis
      using Suc.IH [of "Suc hw" s] Suc.prems take_bit_skip [OF True] up by (simp add: ws_def)
  next
    case False
    let ?s1 = "(setx s rd (take_bit (16 * Suc hw) v))\<lparr>a_pc := a_pc s + 4\<rparr>"
    have c: "code_at (a_mem s) (a_pc s) (le32 (a64_mov_insn rd v hw))"
        "code_at (a_mem ?s1) (a_pc ?s1) (words_bytes (map (a64_mov_insn rd v) (ws (Suc hw))))"
      using Suc.prems(6) False up by (simp_all add: ws_def code_at_append)
    have "a64_run (length (ws (Suc hw))) ?s1 =
        Some ((setx ?s1 rd v)\<lparr>a_pc := a_pc ?s1 + of_nat (4 * length (ws (Suc hw)))\<rparr>)"
      using Suc.IH [of "Suc hw" ?s1] Suc.prems c(2) by (simp add: ws_def)
    moreover have "a64_step s = Some ?s1"
      using a64_step_movk [OF c(1) Suc.prems(3,1) _ Suc.prems(5)] Suc.prems(2) by simp
    ultimately show ?thesis using False up by (simp add: ws_def algebra_simps)
  qed
qed

lemma run_mov_words:
  assumes "rd = take_bit 5 rd" and "rd \<noteq> 31"
    and "code_at (a_mem s) (a_pc s) (words_bytes (mov_words rd v))"
  shows "a64_run (length (mov_words rd v)) s =
    Some ((setx s rd v)\<lparr>a_pc := a_pc s + of_nat (4 * length (mov_words rd v))\<rparr>)"
proof -
  let ?s1 = "(setx s rd (take_bit 16 v))\<lparr>a_pc := a_pc s + 4\<rparr>"
  let ?ws = "List.filter (\<lambda>h. a64_imm16 v h \<noteq> 0) [1..<4]"
  have l: "[1, 2, 3] = [1..<4 :: nat]" by (simp add: upt_rec)
  have c: "code_at (a_mem s) (a_pc s) (le32 (a64_mov_insn rd v 0))"
      "code_at (a_mem ?s1) (a_pc ?s1) (words_bytes (map (a64_mov_insn rd v) ?ws))"
    using assms(3) unfolding mov_words_def l by (simp_all add: code_at_append)
  have "a64_run (length ?ws) ?s1 = Some ((setx ?s1 rd v)\<lparr>a_pc := a_pc ?s1 + of_nat (4 * length ?ws)\<rparr>)"
    by (rule run_mov_tail [of 1 3]) (use assms c(2) in simp_all)
  then show ?thesis
    unfolding mov_words_def l using a64_step_movz [OF c(1) assms(1)] by (simp add: algebra_simps)
qed

section \<open>Branches through x16\<close>

definition abs_branch_words :: "u64 \<Rightarrow> u32 list" where
  "abs_branch_words t = mov_words 16 t @ [0xD61F0200]"

definition abs_call_words :: "u64 \<Rightarrow> u32 list" where
  "abs_call_words t = mov_words 16 t @ [0xD63F0200]"

lemma fld_branch_const:
  "fld 23 9 0xD61F0200 = 0x1AC" "fld 10 22 0xD61F0200 = 0x3587C0" "fld 0 5 0xD61F0200 = 0" "fld 5 5 0xD61F0200 = 16"
  "fld 23 9 0xD63F0200 = 0x1AC" "fld 10 22 0xD63F0200 = 0x358FC0" "fld 0 5 0xD63F0200 = 0" "fld 5 5 0xD63F0200 = 16"
  by code_simp+

lemma a64_step_br:
  assumes "code_at (a_mem s) (a_pc s) (le32 0xD61F0200)"
  shows "a64_step s = Some (s\<lparr>a_pc := getx s 16\<rparr>)"
  using code_at_load32 [OF assms] by (simp add: a64_step_def Let_def fld_branch_const)

lemma a64_step_blr:
  assumes "code_at (a_mem s) (a_pc s) (le32 0xD63F0200)"
  shows "a64_step s = Some ((setx s 30 (a_pc s + 4))\<lparr>a_pc := getx s 16\<rparr>)"
  using code_at_load32 [OF assms] by (simp add: a64_step_def Let_def fld_branch_const)

lemma x16: "(16 :: u32) = take_bit 5 16" "(17 :: u32) = take_bit 5 17" "(16 :: u32) \<noteq> 31" "(17 :: u32) \<noteq> 31"
  by simp_all

lemma length_abs_words:
  "length (abs_branch_words t) = length (mov_words 16 t) + 1"
  "length (abs_call_words t) = length (mov_words 16 t) + 1"
  by (simp_all add: abs_branch_words_def abs_call_words_def)

lemma a64_run_1: "a64_run 1 s = a64_step s"
  by (cases "a64_step s") simp_all

lemma run_abs_branch:
  assumes "code_at (a_mem s) (a_pc s) (words_bytes (abs_branch_words t))"
  shows "a64_run (length (abs_branch_words t)) s = Some ((setx s 16 t)\<lparr>a_pc := t\<rparr>)"
proof -
  let ?s1 = "(setx s 16 t)\<lparr>a_pc := a_pc s + of_nat (4 * length (mov_words 16 t))\<rparr>"
  have c: "code_at (a_mem s) (a_pc s) (words_bytes (mov_words 16 t))"
      "code_at (a_mem ?s1) (a_pc ?s1) (le32 0xD61F0200)"
    using assms by (simp_all add: abs_branch_words_def code_at_append)
  have "a64_step ?s1 = Some ((setx s 16 t)\<lparr>a_pc := t\<rparr>)"
    using a64_step_br [OF c(2)] by simp
  then show ?thesis
    by (simp only: length_abs_words a64_run_add run_mov_words [OF x16(1,3) c(1)] Option.bind.bind_lunit a64_run_1)
qed

lemma run_abs_call:
  assumes "code_at (a_mem s) (a_pc s) (words_bytes (abs_call_words t))"
  shows "a64_run (length (abs_call_words t)) s =
    Some ((setx (setx s 16 t) 30 (a_pc s + of_nat (4 * length (abs_call_words t))))\<lparr>a_pc := t\<rparr>)"
proof -
  let ?s1 = "(setx s 16 t)\<lparr>a_pc := a_pc s + of_nat (4 * length (mov_words 16 t))\<rparr>"
  have c: "code_at (a_mem s) (a_pc s) (words_bytes (mov_words 16 t))"
      "code_at (a_mem ?s1) (a_pc ?s1) (le32 0xD63F0200)"
    using assms by (simp_all add: abs_call_words_def code_at_append)
  have "(setx ?s1 30 v)\<lparr>a_pc := p\<rparr> = (setx (setx s 16 t) 30 v)\<lparr>a_pc := p\<rparr>" for v p
    by (simp add: setx_def)
  then have "a64_step ?s1 =
      Some ((setx (setx s 16 t) 30 (a_pc s + of_nat (4 * length (abs_call_words t))))\<lparr>a_pc := t\<rparr>)"
    using a64_step_blr [OF c(2)] getx_setx [OF x16(3)] by (simp add: length_abs_words algebra_simps)
  then show ?thesis
    by (simp only: length_abs_words a64_run_add run_mov_words [OF x16(1,3) c(1)] Option.bind.bind_lunit a64_run_1)
qed

section \<open>Conditional branches\<close>

lemma fld_fld:
  assumes "lo2 \<le> lo" and "lo + len \<le> lo2 + len2"
  shows "fld lo len w = take_bit len (drop_bit (lo - lo2) (fld lo2 len2 w))"
  by (rule bit_word_eqI) (use assms in \<open>auto simp: bit_fld bit_take_bit_iff bit_drop_bit_eq\<close>)

lemma fld_25_6:
  "fld 23 9 w = 0x1A5 \<Longrightarrow> fld 25 6 w = 0x29" "fld 23 9 w = 0x1E5 \<Longrightarrow> fld 25 6 w = 0x39"
  "fld 10 22 w = 0x3587C0 \<Longrightarrow> fld 25 6 w = 0x2B" "fld 10 22 w = 0x358FC0 \<Longrightarrow> fld 25 6 w = 0x2B"
  "fld 24 8 w = 0x54 \<Longrightarrow> fld 25 6 w = 0x2A"
proof -
  have t: "take_bit 6 (drop_bit 2 (0x1A5 :: u32)) = 0x29" "take_bit 6 (drop_bit 2 (0x1E5 :: u32)) = 0x39"
    "take_bit 6 (drop_bit 15 (0x3587C0 :: u32)) = 0x2B" "take_bit 6 (drop_bit 15 (0x358FC0 :: u32)) = 0x2B"
    "take_bit 6 (drop_bit 1 (0x54 :: u32)) = 0x2A"
    by code_simp+
  have f: "fld 25 6 w = take_bit 6 (drop_bit 2 (fld 23 9 w))" "fld 25 6 w = take_bit 6 (drop_bit 15 (fld 10 22 w))"
    "fld 25 6 w = take_bit 6 (drop_bit 1 (fld 24 8 w))"
    using fld_fld [of 23 25 6 9 w] fld_fld [of 10 25 6 22 w] fld_fld [of 24 25 6 8 w] by simp_all
  show "fld 23 9 w = 0x1A5 \<Longrightarrow> fld 25 6 w = 0x29" by (simp only: f(1) t)
  show "fld 23 9 w = 0x1E5 \<Longrightarrow> fld 25 6 w = 0x39" by (simp only: f(1) t)
  show "fld 10 22 w = 0x3587C0 \<Longrightarrow> fld 25 6 w = 0x2B" by (simp only: f(2) t)
  show "fld 10 22 w = 0x358FC0 \<Longrightarrow> fld 25 6 w = 0x2B" by (simp only: f(2) t)
  show "fld 24 8 w = 0x54 \<Longrightarrow> fld 25 6 w = 0x2A" by (simp only: f(3) t)
qed

lemma a64_step_cb:
  assumes "code_at (a_mem s) (a_pc s) (le32 w)" and "fld 25 6 w = 0x1A"
  shows "a64_step s = Some (s\<lparr>a_pc := if cb_taken w s then a_pc s + off19 w else a_pc s + 4\<rparr>)"
proof -
  have n: "fld 23 9 w \<noteq> 0x1A5" "fld 23 9 w \<noteq> 0x1E5" "fld 10 22 w \<noteq> 0x3587C0" "fld 10 22 w \<noteq> 0x358FC0"
      "fld 24 8 w \<noteq> 0x54"
    using assms(2) fld_25_6 [of w] by auto
  show ?thesis
    unfolding a64_step_def Let_def code_at_load32 [OF assms(1)] using n assms(2)
    by (simp only: if_False if_True simp_thms)
qed

lemma a64_step_tb:
  assumes "code_at (a_mem s) (a_pc s) (le32 w)" and "fld 25 6 w = 0x1B"
  shows "a64_step s = Some (s\<lparr>a_pc := if tb_taken w s then a_pc s + off14 w else a_pc s + 4\<rparr>)"
proof -
  have n: "fld 23 9 w \<noteq> 0x1A5" "fld 23 9 w \<noteq> 0x1E5" "fld 10 22 w \<noteq> 0x3587C0" "fld 10 22 w \<noteq> 0x358FC0"
      "fld 24 8 w \<noteq> 0x54" "fld 25 6 w \<noteq> 0x1A"
    using assms(2) fld_25_6 [of w] by auto
  show ?thesis
    unfolding a64_step_def Let_def code_at_load32 [OF assms(1)] using n assms(2)
    by (simp only: if_False if_True simp_thms)
qed

lemma a64_step_bcond:
  assumes "code_at (a_mem s) (a_pc s) (le32 w)" and "fld 24 8 w = 0x54" and "fld 4 1 w = 0"
  shows "a64_step s =
    Some (s\<lparr>a_pc := if a64_cond (unat (fld 0 4 w)) s then a_pc s + off19 w else a_pc s + 4\<rparr>)"
proof -
  have n: "fld 23 9 w \<noteq> 0x1A5" "fld 23 9 w \<noteq> 0x1E5" "fld 10 22 w \<noteq> 0x3587C0" "fld 10 22 w \<noteq> 0x358FC0"
    using assms(2) fld_25_6 [of w] by auto
  show ?thesis
    unfolding a64_step_def Let_def code_at_load32 [OF assms(1)] using n assms(2,3)
    by (simp only: if_False if_True simp_thms)
qed

text \<open>The branch words that skip an expansion.\<close>

lemma length_mov_words: "1 \<le> length (mov_words rd v)" "length (mov_words rd v) \<le> 4"
proof -
  have "length (List.filter (\<lambda>hw. a64_imm16 v hw \<noteq> 0) [1, 2, 3]) \<le> length [1, 2, 3 :: nat]"
    by (rule length_filter_le)
  then show "1 \<le> length (mov_words rd v)" "length (mov_words rd v) \<le> 4"
    by (simp_all add: mov_words_def)
qed

lemma a64_skip_words_eq: "a64_skip_words t = of_nat (length (abs_branch_words t) + 1)"
proof -
  have "(4 + 4 * length (mov_words 16 t) + 4) div 4 = length (mov_words 16 t) + 2" by simp
  then show ?thesis
    by (simp add: a64_skip_words_def zt_mov_abs_size_words [of t 16] ZT_AARCH64_INSN_SIZE_def length_abs_words)
qed

lemma a64_skip_words_small: "a64_skip_words t = take_bit 5 (a64_skip_words t)"
proof -
  have "length (abs_branch_words t) + 1 < 2 ^ 5" using length_mov_words [of 16 t] by (simp add: length_abs_words)
  then show ?thesis
    unfolding a64_skip_words_eq by (simp only: take_bit_of_nat take_bit_nat_eq_self)
qed

lemma bit_skip: "bit (a64_skip_words t) j \<Longrightarrow> j < 5"
  using a64_skip_words_small [of t] by (metis bit_take_bit_iff)

lemma bit_cb_rewritten:
  assumes "j < 32"
  shows "bit (a64_cb_rewritten w t) j =
    (if j = 24 then \<not> bit w 24 else if 5 \<le> j \<and> j < 24 then bit (a64_skip_words t) (j - 5) else bit w j)"
proof -
  have m: "(0x7ffff :: u32) = mask 19" by (simp add: mask_numeral)
  have p: "bit (push_bit 24 (1 :: u32)) j = (j = 24)" using assms by (auto simp only: bit_push_bit_iff bit_1_iff) auto
  show ?thesis
    unfolding a64_cb_rewritten_def m using assms bit_skip [of t "j - 5"]
    by (auto simp only: bit_or_iff bit_and_iff bit_xor_iff bit_not_iff p) (auto simp: bit_push_bit_iff bit_mask_iff split: if_splits)
qed

lemma bit_tb_rewritten:
  assumes "j < 32"
  shows "bit (a64_tb_rewritten w t) j =
    (if j = 24 then \<not> bit w 24 else if 5 \<le> j \<and> j < 19 then bit (a64_skip_words t) (j - 5) else bit w j)"
proof -
  have m: "(0x3fff :: u32) = mask 14" by (simp add: mask_numeral)
  have p: "bit (push_bit 24 (1 :: u32)) j = (j = 24)" using assms by (auto simp only: bit_push_bit_iff bit_1_iff) auto
  show ?thesis
    unfolding a64_tb_rewritten_def m using assms bit_skip [of t "j - 5"]
    by (auto simp only: bit_or_iff bit_and_iff bit_xor_iff bit_not_iff p) (auto simp: bit_push_bit_iff bit_mask_iff split: if_splits)
qed

lemma fld_eqI:
  assumes "\<And>j. lo \<le> j \<Longrightarrow> j < lo + len \<Longrightarrow> j < 32 \<Longrightarrow> bit w j = bit v j" 
  shows "fld lo len w = fld lo len v"
proof (rule bit_word_eqI)
  fix k
  show "bit (fld lo len w) k = bit (fld lo len v) k"
    using assms [of "lo + k"] by (cases "lo + k < 32") (auto simp: bit_fld dest: bit_imp_le_length)
qed

lemma fld_bit: "fld lo 1 w = (if bit w lo then 1 else 0)"
  by (rule bit_word_eqI) (auto simp: bit_fld bit_1_iff)

lemma cb_fields:
  "fld 25 6 (a64_cb_rewritten w t) = fld 25 6 w" "fld 31 1 (a64_cb_rewritten w t) = fld 31 1 w"
  "fld 0 5 (a64_cb_rewritten w t) = fld 0 5 w"
  "fld 24 1 (a64_cb_rewritten w t) = 0 \<longleftrightarrow> fld 24 1 w \<noteq> 0"
  "fld 5 19 (a64_cb_rewritten w t) = a64_skip_words t"
proof -
  show "fld 25 6 (a64_cb_rewritten w t) = fld 25 6 w" "fld 31 1 (a64_cb_rewritten w t) = fld 31 1 w"
    "fld 0 5 (a64_cb_rewritten w t) = fld 0 5 w"
    by (rule fld_eqI; simp add: bit_cb_rewritten)+
  show "fld 24 1 (a64_cb_rewritten w t) = 0 \<longleftrightarrow> fld 24 1 w \<noteq> 0"
    by (simp add: fld_bit bit_cb_rewritten del: One_nat_def)
  show "fld 5 19 (a64_cb_rewritten w t) = a64_skip_words t"
  proof (rule bit_word_eqI)
    fix k :: nat
    show "bit (fld 5 19 (a64_cb_rewritten w t)) k = bit (a64_skip_words t) k"
      using bit_skip [of t k] bit_cb_rewritten [of "5 + k" w t] by (auto simp: bit_fld)
  qed
qed

lemma tb_fields:
  "fld 25 6 (a64_tb_rewritten w t) = fld 25 6 w" "fld 31 1 (a64_tb_rewritten w t) = fld 31 1 w"
  "fld 0 5 (a64_tb_rewritten w t) = fld 0 5 w" "fld 19 5 (a64_tb_rewritten w t) = fld 19 5 w"
  "fld 24 1 (a64_tb_rewritten w t) = 0 \<longleftrightarrow> fld 24 1 w \<noteq> 0"
  "fld 5 14 (a64_tb_rewritten w t) = a64_skip_words t"
proof -
  show "fld 25 6 (a64_tb_rewritten w t) = fld 25 6 w" "fld 31 1 (a64_tb_rewritten w t) = fld 31 1 w"
    "fld 0 5 (a64_tb_rewritten w t) = fld 0 5 w" "fld 19 5 (a64_tb_rewritten w t) = fld 19 5 w"
    by (rule fld_eqI; simp add: bit_tb_rewritten)+
  show "fld 24 1 (a64_tb_rewritten w t) = 0 \<longleftrightarrow> fld 24 1 w \<noteq> 0"
    by (simp add: fld_bit bit_tb_rewritten del: One_nat_def)
  show "fld 5 14 (a64_tb_rewritten w t) = a64_skip_words t"
  proof (rule bit_word_eqI)
    fix k :: nat
    show "bit (fld 5 14 (a64_tb_rewritten w t)) k = bit (a64_skip_words t) k"
      using bit_skip [of t k] bit_tb_rewritten [of "5 + k" w t] by (auto simp: bit_fld)
  qed
qed

lemma cb_taken_rewritten: "cb_taken (a64_cb_rewritten w t) s \<longleftrightarrow> \<not> cb_taken w s"
  unfolding cb_taken_def cb_fields by auto

lemma tb_taken_rewritten: "tb_taken (a64_tb_rewritten w t) s \<longleftrightarrow> \<not> tb_taken w s"
  unfolding tb_taken_def tb_fields by auto

lemma ucast_of_nat_32: "k < 2 ^ 32 \<Longrightarrow> (ucast (of_nat k :: u32) :: u64) = of_nat k"
  by (simp add: word_unat_eq_iff unat_of_nat unsigned_ucast_eq take_bit_nat_eq_self)

lemma off_small:
  assumes "f = a64_skip_words t" and "4 < n"
  shows "push_bit 2 (signed_take_bit n (ucast f)) = (of_nat (4 * (length (abs_branch_words t) + 1)) :: u64)"
proof -
  let ?k = "length (abs_branch_words t) + 1"
  have k: "?k \<le> 6" using length_mov_words [of 16 t] by (simp add: length_abs_words)
  have u: "(ucast f :: u64) = of_nat ?k"
    unfolding assms(1) a64_skip_words_eq using k by (intro ucast_of_nat_32) simp
  have "signed_take_bit n (of_nat ?k :: u64) = of_nat ?k"
  proof (rule bit_word_eqI)
    fix j
    have s: "bit (of_nat ?k :: u64) i \<Longrightarrow> i < 5" for i
      using bit_skip [of t i] unfolding u [symmetric] assms(1) by (simp only: bit_ucast_iff)
    show "bit (signed_take_bit n (of_nat ?k :: u64)) j = bit (of_nat ?k :: u64) j"
      using s [of n] s [of j] assms(2) by (auto simp: bit_signed_take_bit_iff min_def)
  qed
  then have "push_bit 2 (signed_take_bit n (ucast f)) = push_bit 2 (of_nat ?k :: u64)" by (simp only: u)
  also have "\<dots> = of_nat (4 * ?k)" by (simp add: push_bit_eq_mult)
  finally show ?thesis .
qed

lemma off_rewritten:
  "off19 (a64_cb_rewritten w t) = of_nat (4 * (length (abs_branch_words t) + 1))"
  "off14 (a64_tb_rewritten w t) = of_nat (4 * (length (abs_branch_words t) + 1))"
  unfolding off19_def off14_def cb_fields tb_fields by (rule off_small [OF refl]; simp)+

text \<open>The inverted condition of a conditional branch.\<close>

lemma a64_cond_inverse:
  assumes "c < 14"
  shows "a64_cond (c XOR 1) s \<longleftrightarrow> \<not> a64_cond c s"
proof -
  have "list_all (\<lambda>c. (c XOR 1) div 2 = c div 2 \<and> (even (c XOR 1) \<longleftrightarrow> odd c) \<and> c div 2 < 7 \<and> c XOR 1 < 14)
      [0..<14 :: nat]"
    by code_simp
  then have "(c XOR 1) div 2 = c div 2 \<and> (even (c XOR 1) \<longleftrightarrow> odd c) \<and> c div 2 < 7 \<and> c XOR 1 < 14"
    using assms by (simp only: list_all_iff set_upt) simp
  then show ?thesis using assms by (auto simp: a64_cond_def)
qed

lemma a64_xor_less: "c < 14 \<Longrightarrow> c XOR 1 < (16 :: nat)"
proof -
  assume "c < 14"
  moreover have "list_all (\<lambda>c. c XOR 1 < (16 :: nat)) [0..<14]" by code_simp
  ultimately show "c XOR 1 < 16" by (simp only: list_all_iff set_upt) simp
qed

lemma bcond_fields:
  assumes "c < 16"
  shows "fld 24 8 (zt_aarch64_encode_b_cond c (4 * k)) = 0x54"
    and "fld 4 1 (zt_aarch64_encode_b_cond c (4 * k)) = 0"
    and "unat (fld 0 4 (zt_aarch64_encode_b_cond c (4 * k))) = c"
    and "fld 5 19 (zt_aarch64_encode_b_cond c (4 * k)) = take_bit 19 (of_nat k)"
proof -
  have m: "(0x7ffff :: u32) = mask 19" "(0xf :: u32) = mask 4" by (simp_all add: mask_numeral)
  have e: "zt_aarch64_encode_b_cond c (4 * k) =
      0x54000000 OR push_bit 5 (take_bit 19 (of_nat k)) OR take_bit 4 (of_nat c)"
    by (simp add: zt_aarch64_encode_b_cond_def ZT_AARCH64_INSN_SIZE_def m take_bit_eq_mask)
  have b: "fld 24 8 0x54000000 = 0x54" "fld 4 1 0x54000000 = 0" "fld 0 4 0x54000000 = 0" "fld 5 19 0x54000000 = 0"
    by code_simp+
  have t: "take_bit 19 (of_nat k :: u32) = take_bit 19 (take_bit 19 (of_nat k))"
      "\<And>n. 4 \<le> n \<Longrightarrow> take_bit 4 (of_nat c :: u32) = take_bit n (take_bit 4 (of_nat c))"
    by (simp_all add: min_def)
  note f = fld_simps b fld_push [OF t(1)] fld_push_above [OF t(1)] fld_push_below fld_small [OF t(2)]
  have c: "unat (take_bit 4 (of_nat c :: u32)) = c"
    using assms by (simp add: take_bit_of_nat take_bit_nat_eq_self unat_of_nat)
  show "fld 24 8 (zt_aarch64_encode_b_cond c (4 * k)) = 0x54"
    and "fld 4 1 (zt_aarch64_encode_b_cond c (4 * k)) = 0"
    and "fld 5 19 (zt_aarch64_encode_b_cond c (4 * k)) = take_bit 19 (of_nat k)"
    unfolding e by (simp_all add: f del: One_nat_def)
  have "fld 0 4 (take_bit 4 (of_nat c)) = take_bit 4 (of_nat c)" by (simp add: fld_def)
  then show "unat (fld 0 4 (zt_aarch64_encode_b_cond c (4 * k))) = c"
    unfolding e using c by (simp add: f)
qed

definition a64_bcond_rewritten :: "nat \<Rightarrow> u64 \<Rightarrow> u32" where
  "a64_bcond_rewritten cond t =
     zt_aarch64_encode_b_cond ((cond - 1) XOR 1) (4 * (length (abs_branch_words t) + 1))"

lemma off_bcond:
  assumes "c < 16"
  shows "off19 (zt_aarch64_encode_b_cond c (4 * (length (abs_branch_words t) + 1))) =
    of_nat (4 * (length (abs_branch_words t) + 1))"
proof -
  have "take_bit 19 (of_nat (length (abs_branch_words t) + 1)) = a64_skip_words t"
    unfolding a64_skip_words_eq [symmetric]
    by (rule bit_word_eqI) (use bit_skip in \<open>fastforce simp: bit_take_bit_iff\<close>)
  then show ?thesis
    unfolding off19_def bcond_fields(4) [OF assms] by (intro off_small) auto
qed

section \<open>What a relocated instruction becomes\<close>

definition a64_target :: "a64_insn \<Rightarrow> nat \<Rightarrow> u64" where
  "a64_target i k = (case zt_aarch64_branch_target i k of Some t \<Rightarrow> t | None \<Rightarrow> 0)"

definition a64_chunk :: "a64_insn \<Rightarrow> u8 list" where
  "a64_chunk i =
     (let w = zt_read_u32 (ai_bytes i); t = a64_target i;
          copy = take 4 (ai_bytes i)
      in case ai_id i of
        ARM64_INS_ADR \<Rightarrow> words_bytes (mov_words (w AND 0x1f) (t 1))
      | ARM64_INS_ADRP \<Rightarrow> words_bytes (mov_words (w AND 0x1f) (t 1))
      | ARM64_INS_BL \<Rightarrow> words_bytes (abs_call_words (t 0))
      | ARM64_INS_B \<Rightarrow> if ARM64_CC_EQ \<le> ai_cc i \<and> ai_cc i \<le> ARM64_CC_LE
          then words_bytes (a64_bcond_rewritten (ai_cc i) (t 0) # abs_branch_words (t 0))
          else words_bytes (abs_branch_words (t 0))
      | ARM64_INS_CBNZ \<Rightarrow> words_bytes (a64_cb_rewritten w (t 1) # abs_branch_words (t 1))
      | ARM64_INS_CBZ \<Rightarrow> words_bytes (a64_cb_rewritten w (t 1) # abs_branch_words (t 1))
      | ARM64_INS_TBNZ \<Rightarrow> words_bytes (a64_tb_rewritten w (t 2) # abs_branch_words (t 2))
      | ARM64_INS_TBZ \<Rightarrow> words_bytes (a64_tb_rewritten w (t 2) # abs_branch_words (t 2))
      | _ \<Rightarrow> copy)"

lemma emits_words_bind:
  assumes "\<And>b. f b = zt_emit_seq b (map le32 ws)" and "\<And>b. g b = zt_emit_seq b (map le32 vs)"
  shows "Option.bind (f b) g = zt_emit_seq b (map le32 (ws @ vs))"
proof -
  have "g = (\<lambda>b. zt_emit_seq b (map le32 vs))" using assms(2) by (rule ext)
  then show ?thesis by (simp only: assms(1) map_append zt_emit_seq_append)
qed

lemma emit_u32_words: "zt_emit_u32 b w = zt_emit_seq b (map le32 [w])"
  by (simp add: zt_emit_u32_seq del: zt_emit_seq.simps)

lemma emit_abs_branch_words: "zt_emit_abs_branch b t = zt_emit_seq b (map le32 (abs_branch_words t))"
  unfolding zt_emit_abs_branch_def abs_branch_words_def
  by (rule emits_words_bind [OF zt_emit_mov_abs_seq emit_u32_words]) simp

lemma emit_abs_call_words: "zt_emit_abs_call b t = zt_emit_seq b (map le32 (abs_call_words t))"
  unfolding zt_emit_abs_call_def abs_call_words_def
  by (rule emits_words_bind [OF zt_emit_mov_abs_seq emit_u32_words]) simp

lemma emit_rewritten_words:
  "Option.bind (zt_emit_u32 b w) (\<lambda>b1. zt_emit_abs_branch b1 t) = zt_emit_seq b (map le32 (w # abs_branch_words t))"
  using emits_words_bind [of "\<lambda>b. zt_emit_u32 b w" "[w]" "\<lambda>b. zt_emit_abs_branch b t" "abs_branch_words t" b]
    emit_u32_words emit_abs_branch_words
  by (simp only: append.simps)

lemma emit_cb_words: "zt_emit_cb_abs_branch b i t =
    zt_emit_seq b (map le32 (a64_cb_rewritten (zt_read_u32 (ai_bytes i)) t # abs_branch_words t))"
  unfolding zt_emit_cb_abs_branch_def by (rule emit_rewritten_words)

lemma emit_tb_words: "zt_emit_tb_abs_branch b i t =
    zt_emit_seq b (map le32 (a64_tb_rewritten (zt_read_u32 (ai_bytes i)) t # abs_branch_words t))"
  unfolding zt_emit_tb_abs_branch_def by (rule emit_rewritten_words)

lemma emit_cond_words:
  assumes "ARM64_CC_EQ \<le> c" and "c \<le> ARM64_CC_LE"
  shows "zt_emit_cond_abs_branch b c t =
    zt_emit_seq b (map le32 (a64_bcond_rewritten c t # abs_branch_words t))"
proof -
  have "zt_aarch64_inverse_cond c = Some ((c - 1) XOR 1)"
    using assms by (simp add: zt_aarch64_inverse_cond_def zt_aarch64_cond_code_def ARM64_CC_EQ_def ARM64_CC_LE_def)
  moreover have "ZT_AARCH64_INSN_SIZE + zt_mov_abs_size t + ZT_AARCH64_INSN_SIZE = 4 * (length (abs_branch_words t) + 1)"
    by (simp add: zt_mov_abs_size_words [of t 16] ZT_AARCH64_INSN_SIZE_def length_abs_words)
  ultimately show ?thesis
    unfolding zt_emit_cond_abs_branch_def Let_def
    by (simp only: option.case emit_rewritten_words a64_bcond_rewritten_def)
qed

lemma concat_map_le32: "concat (map le32 ws) = words_bytes ws"
  by (simp add: words_bytes_def)

lemma zt_emit_relocated_insn_chunk:
  assumes ok: "eb_ok b" and e: "zt_emit_relocated_insn b i = Some b'" and w: "length (ai_bytes i) = 4"
  shows "\<exists>bss. zt_emit_seq b bss = Some b' \<and> concat bss = a64_chunk i"
proof -
  have sz: "ai_size i = 4" using e by (simp add: zt_emit_relocated_insn_def ZT_AARCH64_INSN_SIZE_def Let_def split: if_splits)
  have rd: "\<not> zt_read_u32 (ai_bytes i) AND 0x1f > (31 :: u32)"
    by (simp add: not_less word_and_le1)
  have cp: "\<exists>bss. zt_emit_seq b bss = Some b' \<and> concat bss = take 4 (ai_bytes i)"
    if "zt_emit_bytes b (take 4 (ai_bytes i)) = Some b'"
    using that by (intro exI [of _ "[take 4 (ai_bytes i)]"]) simp
  have ws: "\<exists>bss. zt_emit_seq b bss = Some b' \<and> concat bss = words_bytes ws"
    if "zt_emit_seq b (map le32 ws) = Some b'" for ws
    using that by (intro exI [of _ "map le32 ws"]) (simp add: words_bytes_def)
  note d = zt_emit_relocated_insn_def Let_def sz ZT_AARCH64_INSN_SIZE_def a64_target_def
    zt_emit_adr_like_def emit_cb_words emit_tb_words emit_abs_branch_words emit_abs_call_words emit_cond_words
    zt_emit_mov_abs_seq [OF rd]
  show ?thesis
    using e cp ws
    by (cases "ai_id i")
      (auto simp only: d a64_chunk_def a64_id.case bind_eq_Some_conv option.case simp_thms if_False if_True split: if_splits)
qed

section \<open>The layout of a trampoline\<close>

lemma a64_emit_all_chunks:
  "eb_ok b \<Longrightarrow> a64_emit_all b is = Some b' \<Longrightarrow> \<forall>i \<in> set is. length (ai_bytes i) = 4 \<Longrightarrow>
     \<exists>bss. zt_emit_seq b bss = Some b' \<and> concat bss = concat (map a64_chunk is)"
proof (induction "is" arbitrary: b)
  case Nil
  then show ?case by (intro exI [of _ "[]"]) simp
next
  case (Cons i "is")
  then obtain t where t: "zt_emit_relocated_insn b i = Some t" "a64_emit_all t is = Some b'"
    by (auto simp: bind_eq_Some_conv)
  obtain bss where b: "zt_emit_seq b bss = Some t" "concat bss = a64_chunk i"
    using zt_emit_relocated_insn_chunk [OF Cons.prems(1) t(1)] Cons.prems(3) by auto
  obtain css where c: "zt_emit_seq t css = Some b'" "concat css = concat (map a64_chunk is)"
    using Cons.IH [OF zt_emit_seq_Some(1) [OF Cons.prems(1) b(1)] t(2)] Cons.prems(3) by auto
  show ?case
    using b c by (intro exI [of _ "bss @ css"]) (simp add: zt_emit_seq_append)
qed

definition a64_prologue :: "zt_probe_info_t \<Rightarrow> u64 \<Rightarrow> u32 list" where
  "a64_prologue probe stub =
     [0xAA1E03EF] @ mov_words 17 (pi_probe_id probe) @ abs_call_words stub @ [0xAA0F03FE]"

definition a64_continue :: "zt_probe_info_t \<Rightarrow> u64" where
  "a64_continue probe = tgt_remote_addr (pi_target probe) + of_nat (pi_orig_len probe)"

definition a64_body :: "a64_insn list \<Rightarrow> u8 list" where
  "a64_body is = concat (map a64_chunk is)"

definition a64_built :: "a64_disasm \<Rightarrow> zt_probe_info_t \<Rightarrow> u64 \<Rightarrow> u64 \<Rightarrow> u8 list \<Rightarrow> u8 list \<Rightarrow> nat \<Rightarrow>
    a64_insn list \<Rightarrow> bool" where
  "a64_built disasm probe stub ta buf0 buf n is \<longleftrightarrow>
     a64_build_trampoline disasm probe stub ta buf0 = Some (buf, n) \<and>
     disasm (take (pi_orig_len probe) (pi_orig_code probe)) (tgt_remote_addr (pi_target probe)) = Some is \<and>
     (\<forall>i \<in> set is. length (ai_bytes i) = 4)"

lemma length_zt_fill_nops [simp]: "length (zt_fill_nops b) = length b"
proof -
  have "length (zt_fill_nops_loop b k) = length b" for k
  proof (induction b k rule: zt_fill_nops_loop.induct)
    case (1 buf offset)
    then show ?case by (subst zt_fill_nops_loop.simps) (auto simp: buf_put_def)
  qed
  then show ?thesis by (simp add: zt_fill_nops_def)
qed

text \<open>Splicing the relocated code back into the buffer is emitting it.\<close>

lemma emit_splice:
  assumes "eb_ok b" and "zt_emit_seq (drop (snd b) (fst b), 0) bss = Some (sub, r)"
  defines "b' \<equiv> (take (snd b) (fst b) @ sub, snd b + r)"
  shows "eb_ok b'" and "eb_out b' = eb_out b @ concat bss" and "length (fst b') = length (fst b)"
proof -
  have ok: "eb_ok (drop (snd b) (fst b), 0)" by (simp add: eb_ok_def)
  note f = zt_emit_seq_frame [OF ok assms(2)] zt_emit_seq_Some [OF ok assms(2)]
  have r: "r \<le> length sub" "take r sub = concat bss" "length sub = length (fst b) - snd b"
    using f by (simp_all add: eb_ok_def eb_out_def)
  show "eb_ok b'" and "eb_out b' = eb_out b @ concat bss" and "length (fst b') = length (fst b)"
    using r assms(1) by (simp_all add: b'_def eb_ok_def eb_out_def)
qed

lemma a64_built_layout:
  assumes "a64_built disasm probe stub ta buf0 buf n is"
  shows "n \<le> length buf0" and "length buf = length buf0"
    and "take n buf = words_bytes (a64_prologue probe stub) @ a64_body is @
      words_bytes (abs_branch_words (a64_continue probe))"
proof -
  let ?b0 = "(zt_fill_nops buf0, 0)"
  obtain b5 sub r b6 where b5: "zt_emit_seq ?b0 (map le32 (a64_prologue probe stub)) = Some b5"
    and sub: "a64_emit_all (drop (snd b5) (fst b5), 0) is = Some (sub, r)"
    and b6: "b6 = (take (snd b5) (fst b5) @ sub, snd b5 + r)"
    and e: "zt_emit_seq b6 (map le32 (abs_branch_words (a64_continue probe))) = Some (buf, n)"
  proof -
    have r: "\<not> (17 :: u32) > 31" "\<not> (16 :: u32) > 31" by simp_all
    show thesis
      using assms that
      unfolding a64_built_def a64_build_trampoline_def a64_emit_relocated_orig_code_def Let_def
        a64_prologue_def abs_call_words_def abs_branch_words_def a64_continue_def map_append zt_emit_seq_append
      by (auto simp: bind_eq_Some_conv zt_emit_mov_abs_seq [OF r(1)] zt_emit_mov_abs_seq [OF r(2)] zt_emit_u32_seq
          simp del: zt_emit_seq.simps split: if_splits option.splits)
  qed
  have ok0: "eb_ok ?b0" and out0: "eb_out ?b0 = []" by (simp_all add: eb_ok_def eb_out_def)
  note f5 = zt_emit_seq_Some [OF ok0 b5] zt_emit_seq_frame [OF ok0 b5]
  obtain bss where bss: "zt_emit_seq (drop (snd b5) (fst b5), 0) bss = Some (sub, r)" "concat bss = a64_body is"
    using a64_emit_all_chunks [OF _ sub] assms by (auto simp: eb_ok_def a64_built_def a64_body_def)
  note f6 = emit_splice [OF f5(1) bss(1), folded b6]
  note f8 = zt_emit_seq_Some [OF f6(1) e] zt_emit_seq_frame [OF f6(1) e]
  show "n \<le> length buf0" and "length buf = length buf0" 
    using f5(4) f6(3) f8(1,4) by (simp_all add: eb_ok_def)
  show "take n buf = words_bytes (a64_prologue probe stub) @ a64_body is @
      words_bytes (abs_branch_words (a64_continue probe))"
    using f8(2) f6(2) f5(2) bss(2) out0 by (simp add: eb_out_def concat_map_le32)
qed

lemma a64_built_parts:
  assumes "a64_built disasm probe stub ta buf0 buf n is" and "code_at m ta (take n buf)"
  defines "body \<equiv> ta + of_nat (4 * length (a64_prologue probe stub))"
  shows "code_at m ta (words_bytes (a64_prologue probe stub))"
    and "code_at m body (a64_body is)"
    and "code_at m (body + of_nat (length (a64_body is))) (words_bytes (abs_branch_words (a64_continue probe)))"
  using assms(2) unfolding a64_built_layout(3) [OF assms(1)] by (simp_all add: code_at_append body_def)

lemma fld_mov_reg:
  "fld 23 9 0xAA1E03EF = 0x154" "fld 10 22 0xAA1E03EF = 0x2A8780" "fld 24 8 0xAA1E03EF = 0xAA" "fld 25 6 0xAA1E03EF = 0x15"
  "fld 21 11 0xAA1E03EF = 0x550" "fld 5 11 0xAA1E03EF = 0x1F" "fld 0 5 0xAA1E03EF = 15" "fld 16 5 0xAA1E03EF = 30"
  "fld 23 9 0xAA0F03FE = 0x154" "fld 10 22 0xAA0F03FE = 0x2A83C0" "fld 24 8 0xAA0F03FE = 0xAA" "fld 25 6 0xAA0F03FE = 0x15"
  "fld 21 11 0xAA0F03FE = 0x550" "fld 5 11 0xAA0F03FE = 0x1F" "fld 0 5 0xAA0F03FE = 30" "fld 16 5 0xAA0F03FE = 15"
  by code_simp+

lemma a64_step_save_lr:
  assumes "code_at (a_mem s) (a_pc s) (le32 0xAA1E03EF)"
  shows "a64_step s = Some ((setx s 15 (getx s 30))\<lparr>a_pc := a_pc s + 4\<rparr>)"
  using code_at_load32 [OF assms] by (simp add: a64_step_def Let_def fld_mov_reg)

lemma a64_step_restore_lr:
  assumes "code_at (a_mem s) (a_pc s) (le32 0xAA0F03FE)"
  shows "a64_step s = Some ((setx s 30 (getx s 15))\<lparr>a_pc := a_pc s + 4\<rparr>)"
  using code_at_load32 [OF assms] by (simp add: a64_step_def Let_def fld_mov_reg)

lemma setx_pc: "setx (s\<lparr>a_pc := p\<rparr>) r v = (setx s r v)\<lparr>a_pc := p\<rparr>"
  by (simp add: setx_def)

lemma run_prologue:
  assumes code: "code_at (a_mem s) (a_pc s) (words_bytes (a64_prologue probe stub))"
  defines "r \<equiv> a_pc s + of_nat (4 * (length (a64_prologue probe stub) - 1))"
  shows "a64_run (length (a64_prologue probe stub) - 1) s =
      Some ((setx (setx (setx (setx s 15 (getx s 30)) 17 (pi_probe_id probe)) 16 stub) 30 r)\<lparr>a_pc := stub\<rparr>)"
    and "code_at (a_mem s) r (le32 0xAA0F03FE)"
proof -
  let ?m = "mov_words 17 (pi_probe_id probe)"
  let ?s1 = "(setx s 15 (getx s 30))\<lparr>a_pc := a_pc s + 4\<rparr>"
  let ?s2 = "(setx ?s1 17 (pi_probe_id probe))\<lparr>a_pc := a_pc ?s1 + of_nat (4 * length ?m)\<rparr>"
  have n: "length (a64_prologue probe stub) - 1 = 1 + (length ?m + length (abs_call_words stub))"
    by (simp add: a64_prologue_def)
  have c: "code_at (a_mem s) (a_pc s) (le32 0xAA1E03EF)"
      "code_at (a_mem ?s1) (a_pc ?s1) (words_bytes ?m)"
      "code_at (a_mem ?s2) (a_pc ?s2) (words_bytes (abs_call_words stub))"
      "code_at (a_mem s) r (le32 0xAA0F03FE)"
    using code by (simp_all add: a64_prologue_def code_at_append r_def algebra_simps)
  show "code_at (a_mem s) r (le32 0xAA0F03FE)" by (rule c)
  have r: "r = a_pc ?s2 + of_nat (4 * length (abs_call_words stub))"
    unfolding r_def n by (simp add: algebra_simps)
  have "a64_run (length (a64_prologue probe stub) - 1) s =
      Some ((setx (setx ?s2 16 stub) 30 r)\<lparr>a_pc := stub\<rparr>)"
    unfolding n a64_run_add a64_run_1 a64_step_save_lr [OF c(1)] Option.bind.bind_lunit
      run_mov_words [OF x16(2,4) c(2)] run_abs_call [OF c(3)] r by (rule refl)
  then show "a64_run (length (a64_prologue probe stub) - 1) s =
      Some ((setx (setx (setx (setx s 15 (getx s 30)) 17 (pi_probe_id probe)) 16 stub) 30 r)\<lparr>a_pc := stub\<rparr>)"
    by (simp add: setx_pc)
qed

section \<open>Properties\<close>


text \<open>An example: \<^verbatim>\<open>cbz x0, 0x401040\<close>, \<^verbatim>\<open>adr x1, 0x401104\<close>, and two instructions that are copied.\<close>

definition a64_ex_insns :: "a64_insn list" where
  "a64_ex_insns =
     [\<lparr>ai_id = ARM64_INS_CBZ, ai_size = 4, ai_bytes = [0x00, 0x02, 0x00, 0xB4],
       ai_operands = [ARM64_OP_OTHER, ARM64_OP_IMM 0x401040], ai_cc = 0\<rparr>,
      \<lparr>ai_id = ARM64_INS_ADR, ai_size = 4, ai_bytes = [0x01, 0x08, 0x00, 0x10],
       ai_operands = [ARM64_OP_OTHER, ARM64_OP_IMM 0x401104], ai_cc = 0\<rparr>,
      \<lparr>ai_id = ARM64_INS_OTHER, ai_size = 4, ai_bytes = [0xFD, 0x7B, 0xBF, 0xA9], ai_operands = [], ai_cc = 0\<rparr>,
      \<lparr>ai_id = ARM64_INS_OTHER, ai_size = 4, ai_bytes = [0xFD, 0x03, 0x00, 0x91], ai_operands = [], ai_cc = 0\<rparr>]"

definition a64_ex_probe :: zt_probe_info_t where
  "a64_ex_probe = zero_probe\<lparr>pi_probe_id := 7, pi_target := \<lparr>tgt_symbol = ''f'', tgt_module_path = ''/m'',
     tgt_remote_addr = 0x401000\<rparr>, pi_orig_len := 16, pi_state := ZT_PROBE_PREPARED,
     pi_orig_code := concat (map ai_bytes a64_ex_insns)\<rparr>"

definition a64_ex_disasm :: a64_disasm where
  "a64_ex_disasm code addr = Some a64_ex_insns"

definition a64_ex_tramp :: "u8 list \<times> nat" where
  "a64_ex_tramp = the (a64_build_trampoline a64_ex_disasm a64_ex_probe 0x5000 0x7000 (replicate 72 0))"

definition a64_ex_state :: "u64 \<Rightarrow> a64_state" where
  "a64_ex_state ip = \<lparr>a_pc = ip, a_x = (\<lambda>_. 0)(30 := 0x1234), a_n = False, a_z = False, a_c = False, a_v = False,
     a_mem = load_code 0x7000 (take (snd a64_ex_tramp) (fst a64_ex_tramp))\<rparr>"

lemma a64_ex_built:
  "a64_built a64_ex_disasm a64_ex_probe 0x5000 0x7000 (replicate 72 0) (fst a64_ex_tramp) (snd a64_ex_tramp) a64_ex_insns"
proof -
  have "\<not> Option.is_none (a64_build_trampoline a64_ex_disasm a64_ex_probe 0x5000 0x7000 (replicate 72 0))" by code_simp
  moreover have "\<forall>i \<in> set a64_ex_insns. length (ai_bytes i) = 4" by (simp add: a64_ex_insns_def)
  ultimately show ?thesis
    by (cases "a64_build_trampoline a64_ex_disasm a64_ex_probe 0x5000 0x7000 (replicate 72 0)")
      (auto simp: a64_built_def a64_ex_disasm_def a64_ex_tramp_def)
qed

lemma a64_ex_code: "code_at (a_mem (a64_ex_state ip)) 0x7000 (take (snd a64_ex_tramp) (fst a64_ex_tramp))"
proof -
  have "length (take (snd a64_ex_tramp) (fst a64_ex_tramp)) \<le> 512"
    using a64_built_layout(1,2) [OF a64_ex_built] by simp
  then show ?thesis unfolding a64_ex_state_def by (simp add: code_at_load_code)
qed


text \<open>
  C11. An AArch64 trampoline ends by branching back behind the patch: from the word after the
  relocated code, control arrives at the address of the function plus the number of saved
  bytes, with only the scratch register \<^verbatim>\<open>x16\<close> changed; the whole trampoline fits the
  buffer it was built in.
\<close>

theorem a64_trampoline_continues:
  assumes built: "a64_built disasm probe stub ta buf0 buf n is"
    and code: "code_at (a_mem s) ta (take n buf)"
    and ip: "a_pc s = ta + of_nat (4 * length (a64_prologue probe stub)) + of_nat (length (a64_body is))"
  shows "(\<exists>m. a64_run m s = Some ((setx s 16 (tgt_remote_addr (pi_target probe) + of_nat (pi_orig_len probe)))
      \<lparr>a_pc := tgt_remote_addr (pi_target probe) + of_nat (pi_orig_len probe)\<rparr>)) \<and> n \<le> length buf0"
proof
  show "n \<le> length buf0" by (rule a64_built_layout(1) [OF built])
  have "code_at (a_mem s) (a_pc s) (words_bytes (abs_branch_words (a64_continue probe)))"
    using a64_built_parts(3) [OF built code] ip by simp
  from run_abs_branch [OF this]
  show "\<exists>m. a64_run m s = Some ((setx s 16 (tgt_remote_addr (pi_target probe) + of_nat (pi_orig_len probe)))
      \<lparr>a_pc := tgt_remote_addr (pi_target probe) + of_nat (pi_orig_len probe)\<rparr>)"
    unfolding a64_continue_def by (rule exI)
qed

theorem a64_trampoline_continues_witness:
  "\<exists>ip m. a64_run m (a64_ex_state ip) = Some ((setx (a64_ex_state ip) 16 0x401010)\<lparr>a_pc := 0x401010\<rparr>)"
proof -
  let ?ip = "0x7000 + of_nat (4 * length (a64_prologue a64_ex_probe 0x5000)) + of_nat (length (a64_body a64_ex_insns))"
  have ip: "a_pc (a64_ex_state ?ip) = ?ip" by (simp add: a64_ex_state_def)
  have t: "tgt_remote_addr (pi_target a64_ex_probe) + of_nat (pi_orig_len a64_ex_probe) = 0x401010"
    by (simp add: a64_ex_probe_def)
  show ?thesis
    using a64_trampoline_continues [OF a64_ex_built a64_ex_code ip, unfolded t, THEN conjunct1]
    by (rule exI [of _ ?ip])
qed

text \<open>
  What the relocation relies on in the decoder's answer: a compare-and-branch or
  test-and-branch has the encoding of its class.
\<close>

definition a64_decoded :: "a64_insn \<Rightarrow> bool" where
  "a64_decoded i =
     ((ai_id i \<in> {ARM64_INS_CBZ, ARM64_INS_CBNZ} \<longrightarrow> fld 25 6 (zt_read_u32 (ai_bytes i)) = 0x1A) \<and>
      (ai_id i \<in> {ARM64_INS_TBZ, ARM64_INS_TBNZ} \<longrightarrow> fld 25 6 (zt_read_u32 (ai_bytes i)) = 0x1B))"

definition a64_chunk_addr :: "u64 \<Rightarrow> a64_insn list \<Rightarrow> nat \<Rightarrow> u64" where
  "a64_chunk_addr body is k = body + of_nat (length (a64_body (take k is)))"

text \<open>A conditional expansion: the rewritten branch word and the absolute branch it skips.\<close>

lemma run_expansion:
  assumes code: "code_at (a_mem s) (a_pc s) (words_bytes (w # abs_branch_words t))"
    and step: "code_at (a_mem s) (a_pc s) (le32 w) \<Longrightarrow> a64_step s = Some (s\<lparr>a_pc := if c then a_pc s + off else a_pc s + 4\<rparr>)"
    and off: "off = of_nat (4 * (length (abs_branch_words t) + 1))"
  shows "if \<not> c then \<exists>m. a64_run m s = Some ((setx s 16 t)\<lparr>a_pc := t\<rparr>)
    else a64_run 1 s = Some (s\<lparr>a_pc := a_pc s + of_nat (length (words_bytes (w # abs_branch_words t)))\<rparr>)"
proof -
  let ?s1 = "s\<lparr>a_pc := a_pc s + 4\<rparr>"
  have cw: "code_at (a_mem s) (a_pc s) (le32 w)" "code_at (a_mem ?s1) (a_pc ?s1) (words_bytes (abs_branch_words t))"
    using code by (simp_all add: code_at_append)
  have "\<exists>m. a64_run m s = Some ((setx s 16 t)\<lparr>a_pc := t\<rparr>)" if "\<not> c"
  proof (rule exI)
    show "a64_run (1 + length (abs_branch_words t)) s = Some ((setx s 16 t)\<lparr>a_pc := t\<rparr>)"
      using that step [OF cw(1)] run_abs_branch [OF cw(2)] by (simp add: setx_pc)
  qed
  moreover have "a64_run 1 s = Some (s\<lparr>a_pc := a_pc s + of_nat (length (words_bytes (w # abs_branch_words t)))\<rparr>)" if "c"
    using that step [OF cw(1)] off by (simp add: algebra_simps)
  ultimately show ?thesis by simp
qed

definition a64_goes :: "a64_state \<Rightarrow> u64 \<Rightarrow> bool" where
  "a64_goes s t = (\<exists>m. a64_run m s = Some ((setx s 16 t)\<lparr>a_pc := t\<rparr>))"

definition a64_falls :: "a64_state \<Rightarrow> u64 \<Rightarrow> bool" where
  "a64_falls s nxt = (a64_run 1 s = Some (s\<lparr>a_pc := nxt\<rparr>))"

lemma run_chunk_branch:
  assumes "code_at (a_mem s) (a_pc s) (a64_chunk i)"
    and "ai_id i = ARM64_INS_B" "ai_cc i \<notin> {ARM64_CC_EQ..ARM64_CC_LE}"
  shows "a64_goes s (a64_target i 0)"
proof -
  have "a64_chunk i = words_bytes (abs_branch_words (a64_target i 0))"
    using assms(2,3) by (auto simp: a64_chunk_def)
  then show ?thesis using run_abs_branch assms(1) unfolding a64_goes_def by metis
qed

lemma a64_step_bcond_rewritten:
  assumes "code_at (a_mem s) (a_pc s) (le32 (a64_bcond_rewritten c t))" and "c \<in> {ARM64_CC_EQ..ARM64_CC_LE}"
  shows "a64_step s = Some (s\<lparr>a_pc := if \<not> a64_cond (c - 1) s
    then a_pc s + of_nat (4 * (length (abs_branch_words t) + 1)) else a_pc s + 4\<rparr>)"
proof -
  have l: "c - 1 < 14" using assms(2) by (auto simp: ARM64_CC_EQ_def ARM64_CC_LE_def)
  note x = a64_xor_less [OF l]
  show ?thesis
    using a64_step_bcond [OF assms(1)] unfolding a64_bcond_rewritten_def bcond_fields [OF x] off_bcond [OF x]
      a64_cond_inverse [OF l] by blast
qed

lemma run_chunk_bcond:
  assumes c: "code_at (a_mem s) (a_pc s) (a64_chunk i)"
    and j: "ai_id i = ARM64_INS_B" "ai_cc i \<in> {ARM64_CC_EQ..ARM64_CC_LE}"
  shows "if a64_cond (ai_cc i - 1) s then a64_goes s (a64_target i 0)
    else a64_falls s (a_pc s + of_nat (length (a64_chunk i)))"
proof -
  have ch: "a64_chunk i = words_bytes (a64_bcond_rewritten (ai_cc i) (a64_target i 0) # abs_branch_words (a64_target i 0))"
    using j by (simp add: a64_chunk_def Let_def)
  from run_expansion [OF c [unfolded ch] a64_step_bcond_rewritten [OF _ j(2)] refl]
  show ?thesis unfolding a64_goes_def a64_falls_def ch by simp
qed

lemma run_chunk_cb:
  assumes c: "code_at (a_mem s) (a_pc s) (a64_chunk i)" and dec: "a64_decoded i"
    and j: "ai_id i \<in> {ARM64_INS_CBZ, ARM64_INS_CBNZ}"
  shows "if cb_taken (zt_read_u32 (ai_bytes i)) s then a64_goes s (a64_target i 1)
    else a64_falls s (a_pc s + of_nat (length (a64_chunk i)))"
proof -
  let ?w = "a64_cb_rewritten (zt_read_u32 (ai_bytes i)) (a64_target i 1)"
  have ch: "a64_chunk i = words_bytes (?w # abs_branch_words (a64_target i 1))"
    using j by (auto simp: a64_chunk_def Let_def)
  have "fld 25 6 ?w = 0x1A" using dec j by (auto simp: a64_decoded_def cb_fields)
  from run_expansion [OF c [unfolded ch] a64_step_cb [OF _ this] off_rewritten(1)]
  show ?thesis unfolding a64_goes_def a64_falls_def ch cb_taken_rewritten by simp
qed

lemma run_chunk_tb:
  assumes c: "code_at (a_mem s) (a_pc s) (a64_chunk i)" and dec: "a64_decoded i"
    and j: "ai_id i \<in> {ARM64_INS_TBZ, ARM64_INS_TBNZ}"
  shows "if tb_taken (zt_read_u32 (ai_bytes i)) s then a64_goes s (a64_target i 2)
    else a64_falls s (a_pc s + of_nat (length (a64_chunk i)))"
proof -
  let ?w = "a64_tb_rewritten (zt_read_u32 (ai_bytes i)) (a64_target i 2)"
  have ch: "a64_chunk i = words_bytes (?w # abs_branch_words (a64_target i 2))"
    using j by (auto simp: a64_chunk_def Let_def)
  have "fld 25 6 ?w = 0x1B" using dec j by (auto simp: a64_decoded_def tb_fields)
  from run_expansion [OF c [unfolded ch] a64_step_tb [OF _ this] off_rewritten(2)]
  show ?thesis unfolding a64_goes_def a64_falls_def ch tb_taken_rewritten by simp
qed

lemma run_chunk_bl:
  assumes c: "code_at (a_mem s) (a_pc s) (a64_chunk i)" and j: "ai_id i = ARM64_INS_BL"
  shows "\<exists>m. a64_run m s = Some ((setx (setx s 16 (a64_target i 0)) 30 (a_pc s + of_nat (length (a64_chunk i))))
    \<lparr>a_pc := a64_target i 0\<rparr>)"
proof -
  have ch: "a64_chunk i = words_bytes (abs_call_words (a64_target i 0))" using j by (simp add: a64_chunk_def)
  from run_abs_call [OF c [unfolded ch]] show ?thesis unfolding ch by auto
qed

lemma run_chunk_adr:
  assumes c: "code_at (a_mem s) (a_pc s) (a64_chunk i)" and j: "ai_id i \<in> {ARM64_INS_ADR, ARM64_INS_ADRP}"
    and rd: "zt_read_u32 (ai_bytes i) AND 0x1f \<noteq> 31"
  shows "\<exists>m. a64_run m s = Some ((setx s (zt_read_u32 (ai_bytes i) AND 0x1f) (a64_target i 1))
    \<lparr>a_pc := a_pc s + of_nat (length (a64_chunk i))\<rparr>)"
proof -
  let ?rd = "zt_read_u32 (ai_bytes i) AND 0x1f"
  have ch: "a64_chunk i = words_bytes (mov_words ?rd (a64_target i 1))"
    using j by (auto simp: a64_chunk_def Let_def)
  have m: "(0x1f :: u32) = mask 5" by (simp add: mask_numeral)
  have "?rd = take_bit 5 ?rd" unfolding m by (simp flip: take_bit_eq_mask)
  from run_mov_words [OF this rd c [unfolded ch]] show ?thesis unfolding ch by auto
qed

text \<open>
  C12. Relocated AArch64 instructions keep their meaning: executing the copy of the k-th
  instruction, an unconditional branch arrives at its target; a conditional, compare or test
  branch arrives at its target exactly when the original condition holds, and otherwise at
  the copy of the next instruction; a branch with link arrives at the called function and
  leaves the next instruction's address in the link register; an address computation leaves
  the address the original instruction computed in the destination register.
\<close>

theorem a64_relocated_instructions:
  assumes built: "a64_built disasm probe stub ta buf0 buf n is"
    and code: "code_at (a_mem s) ta (take n buf)" and k: "k < length is"
    and ip: "a_pc s = a64_chunk_addr (ta + of_nat (4 * length (a64_prologue probe stub))) is k"
    and dec: "a64_decoded (is ! k)"
  defines "i \<equiv> is ! k" and "w \<equiv> zt_read_u32 (ai_bytes (is ! k))"
    and "nxt \<equiv> a64_chunk_addr (ta + of_nat (4 * length (a64_prologue probe stub))) is (Suc k)"
  shows "(ai_id i = ARM64_INS_B \<and> ai_cc i \<notin> {ARM64_CC_EQ..ARM64_CC_LE} \<longrightarrow> a64_goes s (a64_target i 0)) \<and>
    (ai_id i = ARM64_INS_B \<and> ai_cc i \<in> {ARM64_CC_EQ..ARM64_CC_LE} \<longrightarrow>
       (if a64_cond (ai_cc i - 1) s then a64_goes s (a64_target i 0) else a64_falls s nxt)) \<and>
    (ai_id i \<in> {ARM64_INS_CBZ, ARM64_INS_CBNZ} \<longrightarrow> (if cb_taken w s then a64_goes s (a64_target i 1) else a64_falls s nxt)) \<and>
    (ai_id i \<in> {ARM64_INS_TBZ, ARM64_INS_TBNZ} \<longrightarrow> (if tb_taken w s then a64_goes s (a64_target i 2) else a64_falls s nxt)) \<and>
    (ai_id i = ARM64_INS_BL \<longrightarrow>
       (\<exists>m. a64_run m s = Some ((setx (setx s 16 (a64_target i 0)) 30 nxt)\<lparr>a_pc := a64_target i 0\<rparr>))) \<and>
    (ai_id i \<in> {ARM64_INS_ADR, ARM64_INS_ADRP} \<and> w AND 0x1f \<noteq> 31 \<longrightarrow>
       (\<exists>m. a64_run m s = Some ((setx s (w AND 0x1f) (a64_target i 1))\<lparr>a_pc := nxt\<rparr>)))"
proof -
  have "code_at (a_mem s) (a_pc s) (map a64_chunk is ! k)"
    using code_at_concat_nth [OF a64_built_parts(2) [OF built code, unfolded a64_body_def]] k ip
    by (simp add: a64_chunk_addr_def a64_body_def take_map)
  then have c: "code_at (a_mem s) (a_pc s) (a64_chunk i)" using k by (simp add: i_def)
  have nxt: "nxt = a_pc s + of_nat (length (a64_chunk i))"
    using k ip by (simp add: nxt_def a64_chunk_addr_def a64_body_def take_Suc_conv_app_nth i_def add.assoc)
  show ?thesis
    using run_chunk_branch [OF c] run_chunk_bcond [OF c] run_chunk_cb [OF c] run_chunk_tb [OF c]
      run_chunk_bl [OF c] run_chunk_adr [OF c] dec
    unfolding nxt w_def i_def by blast
qed

theorem a64_relocated_instructions_witness:
  "\<exists>ip m. a64_run m (a64_ex_state ip) = Some ((setx (a64_ex_state ip) 16 0x401040)\<lparr>a_pc := 0x401040\<rparr>)"
proof -
  let ?b = "0x7000 + of_nat (4 * length (a64_prologue a64_ex_probe 0x5000))"
  let ?ip = "a64_chunk_addr ?b a64_ex_insns 0"
  have ip: "a_pc (a64_ex_state ?ip) = a64_chunk_addr ?b a64_ex_insns 0" by (simp add: a64_ex_state_def)
  have r: "zt_read_u32 (ai_bytes (a64_ex_insns ! 0)) = 0xB4000200" by (simp add: a64_ex_insns_def) code_simp
  have f: "fld 25 6 0xB4000200 = 0x1A" "fld 31 1 0xB4000200 = 1" "fld 0 5 0xB4000200 = 0" "fld 24 1 0xB4000200 = 0"
    by code_simp+
  have id: "ai_id (a64_ex_insns ! 0) = ARM64_INS_CBZ" by (simp add: a64_ex_insns_def)
  have t: "a64_target (a64_ex_insns ! 0) 1 = 0x401040"
    by (simp add: a64_ex_insns_def a64_target_def zt_aarch64_branch_target_def)
  have d: "a64_decoded (a64_ex_insns ! 0)" unfolding a64_decoded_def r f id by simp
  have k: "0 < length a64_ex_insns" by (simp add: a64_ex_insns_def)
  have "cb_taken 0xB4000200 (a64_ex_state ?ip)"
    unfolding cb_taken_def f by (simp add: a64_ex_state_def getx_def)
  then have "a64_goes (a64_ex_state ?ip) 0x401040"
    using a64_relocated_instructions [OF a64_ex_built a64_ex_code k ip d] unfolding r id t by simp
  then show ?thesis unfolding a64_goes_def by blast
qed

end
