(* ===== verification/ZT_Payload.thy ===== *)
theory ZT_Payload
  imports ZT_Data
begin

text \<open>
  Model of \<^verbatim>\<open>src/zt_payload.c\<close>, the code that runs inside the traced process, and of
  the C-level effect of the two assembly stubs that call it.

  The thread-local variables are the record \<open>zt_tls\<close>, the globals and the shared buffer the
  fields of \<open>payload\<close>; the memory a configured buffer address points to is a function from
  addresses to buffers. The kernel (clock, thread id, processor number) and the functions a
  call action invokes are parameters: they act on an abstract world, and an invoked function
  may also change the payload's own state, because it runs in the traced process.
\<close>

section \<open>State\<close>

record zt_saved_probe_frame_t =
  sf_ret_addr :: u64
  sf_probe_id :: u64
  sf_call_id :: u64

definition ZT_MAX_SAVED_RET_ADDR :: nat where "ZT_MAX_SAVED_RET_ADDR = 256"
definition ZT_FP_STATE_VEC_OFFSET :: nat where "ZT_FP_STATE_VEC_OFFSET = 0"
definition ZT_FP_STATE_VEC_STRIDE :: nat where "ZT_FP_STATE_VEC_STRIDE = 16"
definition NSEC_PER_SEC :: u64 where "NSEC_PER_SEC = 1000000000"

record zt_tls =
  saved_frames :: "zt_saved_probe_frame_t list"
  call_stack_idx :: nat
  last_call_id :: u64
  cached_tid :: u64
  in_call_action :: bool

record ctx_t =
  ctx_r15 :: u64
  ctx_r14 :: u64
  ctx_r13 :: u64
  ctx_r12 :: u64
  ctx_r11 :: u64
  ctx_r10 :: u64
  gp_arg5 :: u64
  gp_arg4 :: u64
  gp_arg0 :: u64
  gp_arg1 :: u64
  ctx_rbp :: u64
  gp_arg2 :: u64
  gp_arg3 :: u64
  ctx_rbx :: u64
  gp_retval0 :: u64
  status_flags :: u64
  trampoline_ret_addr :: u64
  func_id :: u64

record zt_trace_buffer_t =
  tb_magic :: u64
  tb_write_seq :: u64
  tb_call_action_count :: u64
  tb_call_actions :: "zt_probe_call_action_t list"
  tb_events :: "zt_trace_event_t list"

record zt_payload_config_t =
  shared_buffer_addr :: u64
  shared_buffer_size :: u64

text \<open>\<^verbatim>\<open>sizeof(zt_trace_buffer_t)\<close>: three words, 32 actions of 128 bytes, 4096 events of 168 bytes.\<close>

definition sizeof_zt_trace_buffer_t :: u64 where
  "sizeof_zt_trace_buffer_t = 692248"

definition zero_buffer :: zt_trace_buffer_t where
  "zero_buffer = \<lparr>tb_magic = 0, tb_write_seq = 0, tb_call_action_count = 0,
     tb_call_actions = replicate ZT_PAYLOAD_PROBE_ACTION_CAP zero_action,
     tb_events = replicate ZT_TRACE_EVENT_CAPACITY zero_event\<rparr>"

record 'w payload =
  ps_world :: 'w
  ps_tls :: zt_tls
  g_payload_config :: zt_payload_config_t
  g_call_id_seq :: u64
  ps_mem :: "u64 \<Rightarrow> zt_trace_buffer_t"

text \<open>
  The environment: \<^verbatim>\<open>clock_gettime\<close> (seconds and nanoseconds, or failure),
  \<^verbatim>\<open>syscall(SYS_gettid)\<close>, \<^verbatim>\<open>sched_getcpu\<close>, and a call of target code.
\<close>

record 'w payload_env =
  env_clock :: "'w \<Rightarrow> (u64 \<times> u64) option \<times> 'w"
  env_gettid :: "'w \<Rightarrow> u64 \<times> 'w"
  env_getcpu :: "'w \<Rightarrow> int \<times> 'w"
  env_invoke :: "u64 \<Rightarrow> u64 list \<Rightarrow> 'w payload \<Rightarrow> u64 \<times> 'w payload"

section \<open>Time, thread and processor\<close>

definition zt_clock_monotonic_ns :: "'w payload_env \<Rightarrow> 'w payload \<Rightarrow> u64 \<times> 'w payload" where
  "zt_clock_monotonic_ns E s =
     (case env_clock E (ps_world s) of
        (None, w) \<Rightarrow> (0, s\<lparr>ps_world := w\<rparr>)
      | (Some (tv_sec, tv_nsec), w) \<Rightarrow> (tv_sec * NSEC_PER_SEC + tv_nsec, s\<lparr>ps_world := w\<rparr>))"

definition zt_gettid_u64 :: "'w payload_env \<Rightarrow> 'w payload \<Rightarrow> u64 \<times> 'w payload" where
  "zt_gettid_u64 E s =
     (if cached_tid (ps_tls s) = 0 then
        (case env_gettid E (ps_world s) of
           (t, w) \<Rightarrow> (t, s\<lparr>ps_world := w, ps_tls := (ps_tls s)\<lparr>cached_tid := t\<rparr>\<rparr>))
      else (cached_tid (ps_tls s), s))"

definition zt_getcpu_u64 :: "'w payload_env \<Rightarrow> 'w payload \<Rightarrow> u64 \<times> 'w payload" where
  "zt_getcpu_u64 E s =
     (case env_getcpu E (ps_world s) of
        (cpu, w) \<Rightarrow> (if cpu \<ge> 0 then of_int cpu else 0, s\<lparr>ps_world := w\<rparr>))"

section \<open>The shared buffer\<close>

text \<open>The address of the buffer; \<open>None\<close> is the \<^verbatim>\<open>NULL\<close> result.\<close>

definition zt_get_trace_buffer :: "'w payload \<Rightarrow> u64 option" where
  "zt_get_trace_buffer s =
     (if shared_buffer_addr (g_payload_config s) = 0 \<or>
         shared_buffer_size (g_payload_config s) < sizeof_zt_trace_buffer_t then None
      else Some (shared_buffer_addr (g_payload_config s)))"

definition put_buffer :: "u64 \<Rightarrow> zt_trace_buffer_t \<Rightarrow> 'w payload \<Rightarrow> 'w payload" where
  "put_buffer a b s = s\<lparr>ps_mem := (ps_mem s)(a := b)\<rparr>"

definition put_event :: "u64 \<Rightarrow> nat \<Rightarrow> zt_trace_event_t \<Rightarrow> 'w payload \<Rightarrow> 'w payload" where
  "put_event a i e s = put_buffer a ((ps_mem s a)\<lparr>tb_events := (tb_events (ps_mem s a))[i := e]\<rparr>) s"

definition get_event :: "u64 \<Rightarrow> nat \<Rightarrow> 'w payload \<Rightarrow> zt_trace_event_t" where
  "get_event a i s = tb_events (ps_mem s a) ! i"

text \<open>\<open>fp_state_area\<close> is the stub's snapshot of the eight vector registers, 128 bytes, or \<^verbatim>\<open>NULL\<close>.\<close>

definition zt_fp_state_vec_low64 :: "u8 list option \<Rightarrow> int \<Rightarrow> u64" where
  "zt_fp_state_vec_low64 fp_state_area index =
     (case fp_state_area of
        None \<Rightarrow> 0
      | Some area \<Rightarrow>
          if index < 0 \<or> index \<ge> int ZT_TRACE_FP_ARG_COUNT then 0
          else le_word (buf_get area (ZT_FP_STATE_VEC_OFFSET + nat index * ZT_FP_STATE_VEC_STRIDE) 8))"

text \<open>A reserved slot is the buffer's address with the index of the slot.\<close>

definition zt_reserve_event_slot :: "'w payload \<Rightarrow> ((u64 \<times> nat) \<times> u64) option \<times> 'w payload" where
  "zt_reserve_event_slot s =
     (case zt_get_trace_buffer s of
        None \<Rightarrow> (None, s)
      | Some a \<Rightarrow>
          if tb_magic (ps_mem s a) \<noteq> ZT_TRACE_BUFFER_MAGIC then (None, s)
          else
            let seq = tb_write_seq (ps_mem s a);
                s1 = put_buffer a ((ps_mem s a)\<lparr>tb_write_seq := seq + 1\<rparr>) s;
                i = unat (seq mod of_nat ZT_TRACE_EVENT_CAPACITY)
            in (Some ((a, i), seq + 1), put_event a i ((get_event a i s1)\<lparr>ev_committed_seq := 0\<rparr>) s1))"

definition zt_commit_event_slot :: "u64 \<times> nat \<Rightarrow> u64 \<Rightarrow> 'w payload \<Rightarrow> 'w payload" where
  "zt_commit_event_slot slot commit_seq s =
     (if commit_seq = 0 then s
      else put_event (fst slot) (snd slot)
        ((get_event (fst slot) (snd slot) s)\<lparr>ev_committed_seq := commit_seq\<rparr>) s)"

definition upd_event :: "u64 \<times> nat \<Rightarrow> (zt_trace_event_t \<Rightarrow> zt_trace_event_t) \<Rightarrow> 'w payload \<Rightarrow> 'w payload" where
  "upd_event slot f s = put_event (fst slot) (snd slot) (f (get_event (fst slot) (snd slot) s)) s"

definition zt_init_event_header ::
  "'w payload_env \<Rightarrow> u64 \<times> nat \<Rightarrow> u64 \<Rightarrow> u64 \<Rightarrow> u64 \<Rightarrow> 'w payload \<Rightarrow> 'w payload" where
  "zt_init_event_header E slot probe_id event_type call_id s =
     (let s1 = upd_event slot (\<lambda>e. e\<lparr>ev_probe_id := probe_id, ev_event_type := event_type, ev_call_id := call_id\<rparr>) s;
          (ns, s2) = zt_clock_monotonic_ns E s1;
          s3 = upd_event slot (\<lambda>e. e\<lparr>ev_timestamp_ns := ns\<rparr>) s2;
          (tid, s4) = zt_gettid_u64 E s3;
          s5 = upd_event slot (\<lambda>e. e\<lparr>ev_tid := tid\<rparr>) s4;
          (cpu, s6) = zt_getcpu_u64 E s5
      in upd_event slot (\<lambda>e. e\<lparr>ev_cpu_id := cpu\<rparr>) s6)"

section \<open>Call actions\<close>

text \<open>
  \<open>enabled\<close> is the value of the first atomic load; the snapshot holds the fields read
  afterwards, its own \<open>act_enabled\<close> being the second atomic load.
\<close>

definition zt_copy_call_action_if_match ::
  "u64 \<Rightarrow> zt_probe_call_action_t \<Rightarrow> u64 \<Rightarrow> zt_probe_call_action_t option" where
  "zt_copy_call_action_if_match enabled snapshot probe_id =
     (if enabled = 0 then None
      else if act_enabled snapshot \<noteq> enabled \<or> act_probe_id snapshot \<noteq> probe_id \<or>
          act_callee_addr snapshot = 0 \<or> act_arg_count snapshot > of_nat ZT_CALL_ACTION_ARG_CAP then None
      else Some snapshot)"

fun zt_find_call_action_loop ::
  "zt_probe_call_action_t list \<Rightarrow> u64 \<Rightarrow> nat \<Rightarrow> nat list \<Rightarrow> zt_probe_call_action_t option" where
  "zt_find_call_action_loop actions probe_id home_slot [] = None"
| "zt_find_call_action_loop actions probe_id home_slot (i # is) =
     (if i = home_slot then zt_find_call_action_loop actions probe_id home_slot is
      else case zt_copy_call_action_if_match (act_enabled (actions ! i)) (actions ! i) probe_id of
          Some a \<Rightarrow> Some a
        | None \<Rightarrow> zt_find_call_action_loop actions probe_id home_slot is)"

definition zt_find_call_action :: "'w payload \<Rightarrow> u64 \<Rightarrow> zt_probe_call_action_t option" where
  "zt_find_call_action s probe_id =
     (case zt_get_trace_buffer s of
        None \<Rightarrow> None
      | Some a \<Rightarrow>
          let b = ps_mem s a; actions = tb_call_actions b in
          if tb_magic b \<noteq> ZT_TRACE_BUFFER_MAGIC \<or> tb_call_action_count b = 0 \<or> probe_id = 0 then None
          else
            let home_slot = unat (probe_id mod of_nat ZT_PAYLOAD_PROBE_ACTION_CAP) in
            case zt_copy_call_action_if_match (act_enabled (actions ! home_slot)) (actions ! home_slot) probe_id of
              Some act \<Rightarrow> Some act
            | None \<Rightarrow> zt_find_call_action_loop actions probe_id home_slot [0..<ZT_PAYLOAD_PROBE_ACTION_CAP])"

definition zt_context_gp_arg :: "ctx_t \<Rightarrow> u64 \<Rightarrow> u64" where
  "zt_context_gp_arg context index =
     (if index = 0 then gp_arg0 context
      else if index = 1 then gp_arg1 context
      else if index = 2 then gp_arg2 context
      else if index = 3 then gp_arg3 context
      else if index = 4 then gp_arg4 context
      else if index = 5 then gp_arg5 context
      else 0)"

definition zt_resolve_call_args :: "zt_probe_call_action_t \<Rightarrow> ctx_t \<Rightarrow> u64 list" where
  "zt_resolve_call_args action context =
     map (\<lambda>i. if of_nat i < act_arg_count action then
                (let arg = act_args action ! i in
                 if ca_kind arg = ZT_CALL_ACTION_ARG_CONST then ca_value arg
                 else if ca_kind arg = ZT_CALL_ACTION_ARG_ENTRY_ARG then zt_context_gp_arg context (ca_value arg)
                 else 0)
              else 0) [0..<ZT_CALL_ACTION_ARG_CAP]"

definition zt_call_action_invoke ::
  "'w payload_env \<Rightarrow> u64 \<Rightarrow> u64 \<Rightarrow> u64 list \<Rightarrow> 'w payload \<Rightarrow> u64 \<times> 'w payload" where
  "zt_call_action_invoke E callee_addr arg_count args s =
     env_invoke E callee_addr (take (if arg_count < 6 then unat arg_count else 6) args) s"

definition set_in_call_action :: "bool \<Rightarrow> 'w payload \<Rightarrow> 'w payload" where
  "set_in_call_action b s = s\<lparr>ps_tls := (ps_tls s)\<lparr>in_call_action := b\<rparr>\<rparr>"

definition zt_run_call_action :: "'w payload_env \<Rightarrow> ctx_t \<Rightarrow> u64 \<Rightarrow> 'w payload \<Rightarrow> 'w payload" where
  "zt_run_call_action E context call_id s =
     (if in_call_action (ps_tls s) then s
      else case zt_find_call_action s (func_id context) of
        None \<Rightarrow> s
      | Some action \<Rightarrow>
          let call_args = zt_resolve_call_args action context;
              (retval, s1) = zt_call_action_invoke E (act_callee_addr action) (act_arg_count action) call_args
                 (set_in_call_action True s);
              s2 = set_in_call_action False s1
          in case zt_reserve_event_slot s2 of
               (None, s3) \<Rightarrow> s3
             | (Some (slot, commit_seq), s3) \<Rightarrow>
                 let s4 = zt_init_event_header E slot (func_id context) (event_type_code ZT_TRACE_EVENT_CALL) call_id s3;
                     s5 = upd_event slot (\<lambda>e. e\<lparr>
                        ev_args := (ev_args e)[0 := act_callee_addr action, 1 := retval, 2 := act_arg_count action],
                        ev_fp_args := buf_put (ev_fp_args e) 0 call_args\<rparr>) s4
                 in zt_commit_event_slot slot commit_seq s5)"

section \<open>Entry points\<close>

definition zt_payload_init :: "zt_payload_config_t option \<Rightarrow> 'w payload \<Rightarrow> 'w payload" where
  "zt_payload_init config s =
     (let s1 = (case config of None \<Rightarrow> s | Some c \<Rightarrow> s\<lparr>g_payload_config := c\<rparr>);
          s2 = (case zt_get_trace_buffer s1 of
                  None \<Rightarrow> s1
                | Some a \<Rightarrow> put_buffer a (zero_buffer\<lparr>tb_magic := ZT_TRACE_BUFFER_MAGIC, tb_write_seq := 0\<rparr>) s1)
      in s2\<lparr>g_call_id_seq := 0\<rparr>)"

fun peek_call_id_c :: "zt_tls \<Rightarrow> u64" where
  "peek_call_id_c t =
     (if call_stack_idx t = 0 then 0 else sf_call_id (saved_frames t ! (call_stack_idx t - 1)))"

definition zt_handle_entry :: "'w payload_env \<Rightarrow> ctx_t \<Rightarrow> u8 list option \<Rightarrow> 'w payload \<Rightarrow> 'w payload" where
  "zt_handle_entry E context fp_state_area s =
     (let call_id = g_call_id_seq s + 1;
          s1 = s\<lparr>g_call_id_seq := call_id, ps_tls := (ps_tls s)\<lparr>last_call_id := call_id\<rparr>\<rparr>
      in case zt_reserve_event_slot s1 of
           (None, s2) \<Rightarrow> s2
         | (Some (slot, commit_seq), s2) \<Rightarrow>
             let s3 = zt_init_event_header E slot (func_id context) (event_type_code ZT_TRACE_EVENT_ENTRY) call_id s2;
                 s4 = upd_event slot (\<lambda>e. e\<lparr>
                    ev_args := (ev_args e)[0 := gp_arg0 context, 1 := gp_arg1 context, 2 := gp_arg2 context,
                      3 := gp_arg3 context, 4 := gp_arg4 context, 5 := gp_arg5 context],
                    ev_fp_args := buf_put (ev_fp_args e) 0
                      (map (\<lambda>i. zt_fp_state_vec_low64 fp_state_area (int i)) [0..<8])\<rparr>) s3
             in zt_run_call_action E context call_id (zt_commit_event_slot slot commit_seq s4))"

definition zt_handle_return :: "'w payload_env \<Rightarrow> ctx_t \<Rightarrow> u8 list option \<Rightarrow> 'w payload \<Rightarrow> 'w payload" where
  "zt_handle_return E context fp_state_area s =
     (let call_id = peek_call_id_c (ps_tls s) in
      if call_id = 0 then s
      else case zt_reserve_event_slot s of
           (None, s2) \<Rightarrow> s2
         | (Some (slot, commit_seq), s2) \<Rightarrow>
             let s3 = zt_init_event_header E slot (func_id context) (event_type_code ZT_TRACE_EVENT_RETURN) call_id s2;
                 s4 = upd_event slot (\<lambda>e. e\<lparr>
                    ev_args := (ev_args e)[0 := gp_retval0 context],
                    ev_fp_args := (ev_fp_args e)[0 := zt_fp_state_vec_low64 fp_state_area 0]\<rparr>) s3
             in zt_commit_event_slot slot commit_seq s4)"

text \<open>The first component is the C return value: 1 when the frame was not saved.\<close>

definition save_probe_frame_c :: "u64 \<Rightarrow> u64 \<Rightarrow> zt_tls \<Rightarrow> u64 \<times> zt_tls" where
  "save_probe_frame_c ret_addr fid t =
     (if call_stack_idx t \<ge> ZT_MAX_SAVED_RET_ADDR then (1, t)
      else (0, t\<lparr>saved_frames := (saved_frames t)[call_stack_idx t :=
             \<lparr>sf_ret_addr = ret_addr, sf_probe_id = fid, sf_call_id = last_call_id t\<rparr>],
           call_stack_idx := call_stack_idx t + 1\<rparr>))"

definition peek_probe_id_c :: "zt_tls \<Rightarrow> u64" where
  "peek_probe_id_c t =
     (if call_stack_idx t = 0 then 0 else sf_probe_id (saved_frames t ! (call_stack_idx t - 1)))"

definition get_ret_addr_c :: "zt_tls \<Rightarrow> u64 \<times> zt_tls" where
  "get_ret_addr_c t =
     (if call_stack_idx t = 0 then (0, t)
      else (sf_ret_addr (saved_frames t ! (call_stack_idx t - 1)), t\<lparr>call_stack_idx := call_stack_idx t - 1\<rparr>))"

section \<open>The stubs\<close>

text \<open>
  \<^verbatim>\<open>entry_stub\<close> calls \<^verbatim>\<open>zt_handle_entry\<close> and then saves the caller's return address,
  ignoring the result, before it replaces it by the address of \<^verbatim>\<open>exit_stub\<close>. When the
  function returns, \<^verbatim>\<open>exit_stub\<close> looks the probe up, reports the return and resumes at the
  popped address.
\<close>

definition entry_stub :: "'w payload_env \<Rightarrow> ctx_t \<Rightarrow> u8 list option \<Rightarrow> u64 \<Rightarrow> 'w payload \<Rightarrow> 'w payload" where
  "entry_stub E context fp ret_addr s =
     (let s1 = zt_handle_entry E context fp s
      in s1\<lparr>ps_tls := snd (save_probe_frame_c ret_addr (func_id context) (ps_tls s1))\<rparr>)"

definition exit_stub :: "'w payload_env \<Rightarrow> ctx_t \<Rightarrow> u8 list option \<Rightarrow> 'w payload \<Rightarrow> u64 \<times> 'w payload" where
  "exit_stub E context fp s =
     (let s1 = zt_handle_return E (context\<lparr>func_id := peek_probe_id_c (ps_tls s)\<rparr>) fp s;
          (ret_addr, t) = get_ret_addr_c (ps_tls s1)
      in (ret_addr, s1\<lparr>ps_tls := t\<rparr>))"

end
