(* ===== verification/ZT_PayloadProps.thy ===== *)
theory ZT_PayloadProps
  imports ZT_Payload
begin

text \<open>
  What the payload promises: entry, call and return events carry the data of the call, the
  per-thread frame stack brings every nested call back to its own caller, and return events
  carry the probe and call number of the matching entry.
\<close>

section \<open>The interface of a call stack\<close>

text \<open>
  \<open>enter\<close> records where a call has to return to, \<open>leave\<close> resumes there. The laws speak of
  the list of pending frames, each with a key, the place to return to; a tree of nested calls is run by entering, running
  the children and leaving.
\<close>

datatype ('c, 'x) call_tree = Call 'c 'x "('c, 'x) call_tree list"

fun tree_depth :: "('c, 'x) call_tree \<Rightarrow> nat" where
  "tree_depth (Call c x cs) = Suc (Max (set (0 # map tree_depth cs)))"

fun tree_calls :: "('c, 'x) call_tree \<Rightarrow> 'c list" where
  "tree_calls (Call c x cs) = concat (map tree_calls cs) @ [c]"

fun run_tree :: "('c \<Rightarrow> 's \<Rightarrow> 's) \<Rightarrow> ('x \<Rightarrow> 's \<Rightarrow> 'r \<times> 's) \<Rightarrow> ('c, 'x) call_tree \<Rightarrow> 's \<Rightarrow> 'r list \<times> 's"
  and run_trees :: "('c \<Rightarrow> 's \<Rightarrow> 's) \<Rightarrow> ('x \<Rightarrow> 's \<Rightarrow> 'r \<times> 's) \<Rightarrow> ('c, 'x) call_tree list \<Rightarrow> 's \<Rightarrow> 'r list \<times> 's" where
  "run_tree enter leave (Call c x cs) s =
     (case run_trees enter leave cs (enter c s) of
        (rs, s1) \<Rightarrow> case leave x s1 of (r, s2) \<Rightarrow> (rs @ [r], s2))"
| "run_trees enter leave [] s = ([], s)"
| "run_trees enter leave (t # ts) s =
     (case run_tree enter leave t s of
        (rs, s1) \<Rightarrow> case run_trees enter leave ts s1 of (rs', s2) \<Rightarrow> (rs @ rs', s2))"

locale call_discipline =
  fixes enter :: "'c \<Rightarrow> 's \<Rightarrow> 's"
    and leave :: "'x \<Rightarrow> 's \<Rightarrow> 'r \<times> 's"
    and pending :: "'s \<Rightarrow> 'f list"
    and key :: "'f \<Rightarrow> 'r"
    and ret :: "'c \<Rightarrow> 'r"
    and ok :: "'s \<Rightarrow> bool"
    and cap :: nat
  assumes enter_law: "ok s \<Longrightarrow> length (pending s) < cap \<Longrightarrow> 
      ok (enter c s) \<and> (\<exists>f. key f = ret c \<and> pending (enter c s) = pending s @ [f])"
    and leave_law: "ok s \<Longrightarrow> pending s = fs @ [f] \<Longrightarrow>
      fst (leave x s) = key f \<and> ok (snd (leave x s)) \<and> pending (snd (leave x s)) = fs"
begin

definition balanced :: "('c, 'x) call_tree list \<Rightarrow> 's \<Rightarrow> 'r list \<times> 's \<Rightarrow> bool" where
  "balanced ts s p = (fst p = map ret (concat (map tree_calls ts)) \<and> ok (snd p) \<and> pending (snd p) = pending s)"

lemma run_trees_step:
  assumes "\<And>t s. t \<in> set ts \<Longrightarrow> ok s \<Longrightarrow> length (pending s) + tree_depth t \<le> cap \<Longrightarrow>
      balanced [t] s (run_tree enter leave t s)"
  shows "ok s \<Longrightarrow> (\<And>t. t \<in> set ts \<Longrightarrow> length (pending s) + tree_depth t \<le> cap) \<Longrightarrow>
    balanced ts s (run_trees enter leave ts s)"
  using assms
proof (induction ts arbitrary: s)
  case Nil
  then show ?case by (simp add: balanced_def)
next
  case (Cons t ts)
  obtain rs s1 where t: "run_tree enter leave t s = (rs, s1)" by fastforce
  have b1: "balanced [t] s (rs, s1)" using Cons.prems t by (metis list.set_intros(1))
  then have "balanced ts s1 (run_trees enter leave ts s1)"
    using Cons.prems by (intro Cons.IH) (auto simp: balanced_def)
  with b1 t show ?case by (auto simp: balanced_def split: prod.split)
qed

lemma run_tree_balanced:
  "ok s \<Longrightarrow> length (pending s) + tree_depth t \<le> cap \<Longrightarrow> balanced [t] s (run_tree enter leave t s)"
proof (induction t arbitrary: s)
  case (Call c x cs)
  obtain f where e: "ok (enter c s)" "key f = ret c" "pending (enter c s) = pending s @ [f]"
    using enter_law [of s c] Call.prems by auto
  have d: "tree_depth t \<le> Max (set (0 # map tree_depth cs))" if "t \<in> set cs" for t
    using that by (intro Max_ge) auto
  obtain rs s1 where cs: "run_trees enter leave cs (enter c s) = (rs, s1)" by fastforce
  have "balanced cs (enter c s) (rs, s1)"
    unfolding cs [symmetric] using e Call.prems(2) d
    by (intro run_trees_step [OF Call.IH]) (auto simp del: list.set intro: order_trans [rotated])
  then have s1: "ok s1" "pending s1 = pending s @ [f]" "rs = map ret (concat (map tree_calls cs))"
    using e by (auto simp: balanced_def)
  show ?case
    using leave_law [OF s1(1,2), of x] s1(3) e(2) cs by (auto simp: balanced_def split: prod.split)
qed

end

section \<open>Writing a slot\<close>

definition slot_ok :: "u64 \<times> nat \<Rightarrow> 'w payload \<Rightarrow> bool" where
  "slot_ok slot s = (snd slot < length (tb_events (ps_mem s (fst slot))))"

lemma upd_event_tls [simp]: "ps_tls (upd_event slot f s) = ps_tls s" "ps_world (upd_event slot f s) = ps_world s"
  "g_payload_config (upd_event slot f s) = g_payload_config s" "g_call_id_seq (upd_event slot f s) = g_call_id_seq s"
  by (simp_all add: upd_event_def put_event_def put_buffer_def)

lemma upd_event_commute:
  "upd_event slot f (s\<lparr>ps_world := w\<rparr>) = (upd_event slot f s)\<lparr>ps_world := w\<rparr>"
  "upd_event slot f (s\<lparr>ps_tls := t\<rparr>) = (upd_event slot f s)\<lparr>ps_tls := t\<rparr>"
  by (simp_all add: upd_event_def put_event_def put_buffer_def get_event_def)

lemma upd_event_comp:
  "slot_ok slot s \<Longrightarrow> upd_event slot g (upd_event slot f s) = upd_event slot (\<lambda>e. g (f e)) s"
  by (simp add: upd_event_def put_event_def put_buffer_def get_event_def slot_ok_def)

lemma slot_ok_upd [simp]: "slot_ok slot (upd_event slot' f s) = slot_ok slot s"
  by (simp add: slot_ok_def upd_event_def put_event_def put_buffer_def)

lemma upd_event_mem:
  "ps_mem (upd_event (a, i) f s) = (ps_mem s)(a := (ps_mem s a)\<lparr>tb_events := (tb_events (ps_mem s a))
     [i := f (tb_events (ps_mem s a) ! i)]\<rparr>)"
  by (simp add: upd_event_def put_event_def put_buffer_def get_event_def)

text \<open>What one header costs the environment: the time, thread and processor it reads.\<close>

definition clock_read :: "'w payload_env \<Rightarrow> 'w \<Rightarrow> u64 \<times> 'w" where
  "clock_read E w = (case env_clock E w of (None, w') \<Rightarrow> (0, w') | (Some (a, b), w') \<Rightarrow> (a * NSEC_PER_SEC + b, w'))"

definition tid_read :: "'w payload_env \<Rightarrow> 'w \<Rightarrow> zt_tls \<Rightarrow> u64 \<times> 'w \<times> zt_tls" where
  "tid_read E w t = (if cached_tid t = 0 then (case env_gettid E w of (i, w') \<Rightarrow> (i, w', t\<lparr>cached_tid := i\<rparr>))
     else (cached_tid t, w, t))"

definition cpu_read :: "'w payload_env \<Rightarrow> 'w \<Rightarrow> u64 \<times> 'w" where
  "cpu_read E w = (case env_getcpu E w of (cpu, w') \<Rightarrow> (if cpu \<ge> 0 then of_int cpu else 0, w'))"

lemma reads_eq:
  "zt_clock_monotonic_ns E s = (fst (clock_read E (ps_world s)), s\<lparr>ps_world := snd (clock_read E (ps_world s))\<rparr>)"
  "zt_gettid_u64 E s = (fst (tid_read E (ps_world s) (ps_tls s)),
     s\<lparr>ps_world := fst (snd (tid_read E (ps_world s) (ps_tls s))), ps_tls := snd (snd (tid_read E (ps_world s) (ps_tls s)))\<rparr>)"
  "zt_getcpu_u64 E s = (fst (cpu_read E (ps_world s)), s\<lparr>ps_world := snd (cpu_read E (ps_world s))\<rparr>)"
  by (auto simp: zt_clock_monotonic_ns_def clock_read_def zt_gettid_u64_def tid_read_def zt_getcpu_u64_def cpu_read_def
      split: prod.splits option.splits)

definition env_reads :: "'w payload_env \<Rightarrow> 'w \<Rightarrow> zt_tls \<Rightarrow> (u64 \<times> u64 \<times> u64) \<times> 'w \<times> zt_tls" where
  "env_reads E w t =
     (let c = clock_read E w; g = tid_read E (snd c) t; p = cpu_read E (fst (snd g))
      in ((fst c, fst g, fst p), snd p, snd (snd g)))"

definition header :: "u64 \<Rightarrow> u64 \<Rightarrow> u64 \<Rightarrow> u64 \<times> u64 \<times> u64 \<Rightarrow> zt_trace_event_t \<Rightarrow> zt_trace_event_t" where
  "header p ty c r e = e\<lparr>ev_probe_id := p, ev_event_type := ty, ev_call_id := c,
     ev_timestamp_ns := fst r, ev_tid := fst (snd r), ev_cpu_id := snd (snd r)\<rparr>"

lemma zt_init_event_header_eq:
  fixes s :: "'w payload"
  assumes "slot_ok slot s" and "env_reads E (ps_world s) (ps_tls s) = (r, w, t)"
  shows "zt_init_event_header E slot p ty c s = upd_event slot (header p ty c r) (s\<lparr>ps_world := w, ps_tls := t\<rparr>)"
proof -
  have h: "header p ty c r = (\<lambda>e. e\<lparr>ev_probe_id := p, ev_event_type := ty, ev_call_id := c,
      ev_timestamp_ns := fst r, ev_tid := fst (snd r), ev_cpu_id := snd (snd r)\<rparr>)" for r
    by (simp add: header_def fun_eq_iff)
  have x: "s\<lparr>ps_tls := t, ps_world := w\<rparr> = s\<lparr>ps_world := w, ps_tls := t\<rparr>" for s :: "'w payload" and t w
    by simp
  have "r = fst (env_reads E (ps_world s) (ps_tls s))" "w = fst (snd (env_reads E (ps_world s) (ps_tls s)))"
    "t = snd (snd (env_reads E (ps_world s) (ps_tls s)))"
    using assms(2) by simp_all
  then show ?thesis
    by (simp add: zt_init_event_header_def Let_def reads_eq env_reads_def h upd_event_commute upd_event_comp assms(1) x)
qed

lemma env_reads_tls:
  assumes "env_reads E w0 t0 = (r, w, t)"
  shows "\<exists>tid. t = t0\<lparr>cached_tid := tid\<rparr>"
proof (cases "cached_tid t0 = 0")
  case True
  then show ?thesis using assms by (auto simp: env_reads_def Let_def tid_read_def split: prod.splits)
next
  case False
  then have "t = t0\<lparr>cached_tid := cached_tid t0\<rparr>" using assms by (simp add: env_reads_def Let_def tid_read_def)
  then show ?thesis by blast
qed

section \<open>The frame stack\<close>

definition frames :: "zt_tls \<Rightarrow> zt_saved_probe_frame_t list" where
  "frames t = take (call_stack_idx t) (saved_frames t)"

definition tls_ok :: "zt_tls \<Rightarrow> bool" where
  "tls_ok t = (length (saved_frames t) = ZT_MAX_SAVED_RET_ADDR \<and> call_stack_idx t \<le> ZT_MAX_SAVED_RET_ADDR)"

lemma length_frames: "tls_ok t \<Longrightarrow> length (frames t) = call_stack_idx t"
  by (simp add: frames_def tls_ok_def)

lemma save_probe_frame_frames:
  assumes "tls_ok t" and "length (frames t) < ZT_MAX_SAVED_RET_ADDR"
  shows "frames (snd (save_probe_frame_c ra f t)) =
      frames t @ [\<lparr>sf_ret_addr = ra, sf_probe_id = f, sf_call_id = last_call_id t\<rparr>]"
    and "tls_ok (snd (save_probe_frame_c ra f t))"
  using assms
  by (simp_all add: length_frames, simp_all add: save_probe_frame_c_def frames_def tls_ok_def take_Suc_conv_app_nth)

lemma frames_top:
  assumes "tls_ok t" and "frames t = fs @ [f]"
  shows "call_stack_idx t \<noteq> 0" and "saved_frames t ! (call_stack_idx t - 1) = f"
    and "frames (t\<lparr>call_stack_idx := call_stack_idx t - 1\<rparr>) = fs"
    and "tls_ok (t\<lparr>call_stack_idx := call_stack_idx t - 1\<rparr>)"
proof -
  have l: "call_stack_idx t = Suc (length fs)" "call_stack_idx t \<le> length (saved_frames t)"
    using assms length_frames [OF assms(1)] by (simp_all add: tls_ok_def)
  then show "call_stack_idx t \<noteq> 0" "tls_ok (t\<lparr>call_stack_idx := call_stack_idx t - 1\<rparr>)"
    using assms(1) by (simp_all add: tls_ok_def)
  have "take (length fs) (saved_frames t) @ [saved_frames t ! length fs] = fs @ [f]"
    using assms(2) l by (simp add: frames_def take_Suc_conv_app_nth)
  then show "saved_frames t ! (call_stack_idx t - 1) = f" "frames (t\<lparr>call_stack_idx := call_stack_idx t - 1\<rparr>) = fs"
    using l by (simp_all add: frames_def)
qed

lemma frames_update [simp]:
  "frames (t\<lparr>cached_tid := x\<rparr>) = frames t" "frames (t\<lparr>last_call_id := y\<rparr>) = frames t"
  "frames (t\<lparr>in_call_action := b\<rparr>) = frames t"
  "tls_ok (t\<lparr>cached_tid := x\<rparr>) = tls_ok t" "tls_ok (t\<lparr>last_call_id := y\<rparr>) = tls_ok t"
  "tls_ok (t\<lparr>in_call_action := b\<rparr>) = tls_ok t"
  by (simp_all add: frames_def tls_ok_def)

section \<open>What the handlers do to the buffer and to the thread\<close>

definition live :: "'w payload \<Rightarrow> u64 \<Rightarrow> bool" where
  "live s a = (zt_get_trace_buffer s = Some a \<and> tb_magic (ps_mem s a) = ZT_TRACE_BUFFER_MAGIC \<and>
     length (tb_events (ps_mem s a)) = ZT_TRACE_EVENT_CAPACITY \<and> (\<forall>e \<in> set (tb_events (ps_mem s a)). wf_event e))"

definition next_slot :: "'w payload \<Rightarrow> u64 \<Rightarrow> nat" where
  "next_slot s a = unat (tb_write_seq (ps_mem s a) mod of_nat ZT_TRACE_EVENT_CAPACITY)"

lemma next_slot_less: "next_slot s a < ZT_TRACE_EVENT_CAPACITY"
proof -
  have "unat (tb_write_seq (ps_mem s a) mod 4096) < 4096" by (simp add: unat_mod)
  then show ?thesis by (simp add: next_slot_def ZT_TRACE_EVENT_CAPACITY_def)
qed

lemma reserve_live:
  assumes "live s a"
  shows "zt_reserve_event_slot s = (Some ((a, next_slot s a), tb_write_seq (ps_mem s a) + 1),
    upd_event (a, next_slot s a) (\<lambda>e. e\<lparr>ev_committed_seq := 0\<rparr>)
      (put_buffer a ((ps_mem s a)\<lparr>tb_write_seq := tb_write_seq (ps_mem s a) + 1\<rparr>) s))"
  using assms by (simp add: zt_reserve_event_slot_def live_def Let_def next_slot_def upd_event_def)

lemma reserve_None:
  assumes "\<nexists>a. zt_get_trace_buffer s = Some a \<and> tb_magic (ps_mem s a) = ZT_TRACE_BUFFER_MAGIC"
  shows "zt_reserve_event_slot s = (None, s)"
  using assms by (auto simp: zt_reserve_event_slot_def split: option.splits)

lemma reserve_frame:
  "ps_tls (snd (zt_reserve_event_slot s)) = ps_tls s"
  "g_payload_config (snd (zt_reserve_event_slot s)) = g_payload_config s"
  "g_call_id_seq (snd (zt_reserve_event_slot s)) = g_call_id_seq s"
  by (auto simp: zt_reserve_event_slot_def Let_def put_event_def put_buffer_def split: option.splits)

text \<open>
  One published event: reserve, fill with the header and \<open>f\<close>, commit. The commit of sequence
  number 0 is skipped by the code, but the reservation has already stored 0.
\<close>

definition publish ::
  "'w payload_env \<Rightarrow> u64 \<Rightarrow> u64 \<Rightarrow> u64 \<Rightarrow> (zt_trace_event_t \<Rightarrow> zt_trace_event_t) \<Rightarrow> 'w payload \<Rightarrow> 'w payload option" where
  "publish E p ty c f s =
     (case zt_reserve_event_slot s of
        (None, s1) \<Rightarrow> None
      | (Some (slot, seq), s1) \<Rightarrow>
          Some (zt_commit_event_slot slot seq (upd_event slot f (zt_init_event_header E slot p ty c s1))))"

definition keeps_seq :: "(zt_trace_event_t \<Rightarrow> zt_trace_event_t) \<Rightarrow> bool" where
  "keeps_seq f = (\<forall>e. ev_committed_seq (f e) = ev_committed_seq e)"

lemma publish_live:
  assumes l: "live s a" and k: "keeps_seq f" and r: "env_reads E (ps_world s) (ps_tls s) = (r, w, t)"
  defines "seq \<equiv> tb_write_seq (ps_mem s a)" and "i \<equiv> next_slot s a"
  shows "publish E p ty c f s = Some (s\<lparr>ps_world := w, ps_tls := t,
    ps_mem := (ps_mem s)(a := (ps_mem s a)\<lparr>tb_write_seq := seq + 1,
      tb_events := (tb_events (ps_mem s a))[i := (f (header p ty c r ((tb_events (ps_mem s a) ! i)
        \<lparr>ev_committed_seq := 0\<rparr>)))\<lparr>ev_committed_seq := seq + 1\<rparr>]\<rparr>)\<rparr>)"
proof -
  let ?b = "put_buffer a ((ps_mem s a)\<lparr>tb_write_seq := seq + 1\<rparr>) s"
  have ok: "slot_ok (a, i) ?b"
    using l next_slot_less [of s a] by (simp add: slot_ok_def live_def put_buffer_def i_def)
  have z: "g\<lparr>ev_committed_seq := 0\<rparr> = g" if "ev_committed_seq g = 0" for g :: zt_trace_event_t
    using that by simp
  have c: "zt_commit_event_slot (a, i) q (upd_event (a, i) g s') = upd_event (a, i) (\<lambda>e. (g e)\<lparr>ev_committed_seq := q\<rparr>) s'"
    if "slot_ok (a, i) s'" "\<And>e. ev_committed_seq e = 0 \<Longrightarrow> ev_committed_seq (g e) = 0"
      "ev_committed_seq (tb_events (ps_mem s' a) ! i) = 0" for q g s'
  proof (cases "q = 0")
    case True
    then show ?thesis using that(2,3)
      by (simp add: zt_commit_event_slot_def upd_event_def get_event_def z)
  next
    case False
    then show ?thesis using upd_event_comp [OF that(1)]
      by (simp add: zt_commit_event_slot_def upd_event_def get_event_def)
  qed
  let ?b0 = "upd_event (a, i) (\<lambda>e. e\<lparr>ev_committed_seq := 0\<rparr>) ?b"
  have r': "env_reads E (ps_world ?b0) (ps_tls ?b0) = (r, w, t)"
    using r by (simp add: put_buffer_def)
  have ok0: "slot_ok (a, i) (?b0\<lparr>ps_world := w, ps_tls := t\<rparr>)" using ok by (simp add: slot_ok_def upd_event_mem put_buffer_def)
  have "publish E p ty c f s = Some (zt_commit_event_slot (a, i) (seq + 1)
      (upd_event (a, i) (\<lambda>e. f (header p ty c r e)) (?b0\<lparr>ps_world := w, ps_tls := t\<rparr>)))"
    unfolding publish_def reserve_live [OF l, folded seq_def i_def]
    using zt_init_event_header_eq [OF _ r', of "(a, i)"] ok upd_event_comp [OF ok0] by simp
  also have "\<dots> = Some (upd_event (a, i) (\<lambda>e. (f (header p ty c r e))\<lparr>ev_committed_seq := seq + 1\<rparr>) (?b0\<lparr>ps_world := w, ps_tls := t\<rparr>))"
    using c [OF ok0, of "\<lambda>e. f (header p ty c r e)"] k ok
    by (simp add: keeps_seq_def header_def slot_ok_def upd_event_mem put_buffer_def)
  finally show ?thesis
    using ok by (simp add: upd_event_commute upd_event_comp,
      simp add: upd_event_def put_event_def put_buffer_def get_event_def)
qed

text \<open>The handlers as publications.\<close>

definition entry_fill :: "ctx_t \<Rightarrow> u8 list option \<Rightarrow> zt_trace_event_t \<Rightarrow> zt_trace_event_t" where
  "entry_fill c fp e = e\<lparr>
     ev_args := (ev_args e)[0 := gp_arg0 c, 1 := gp_arg1 c, 2 := gp_arg2 c, 3 := gp_arg3 c, 4 := gp_arg4 c, 5 := gp_arg5 c],
     ev_fp_args := buf_put (ev_fp_args e) 0 (map (\<lambda>i. zt_fp_state_vec_low64 fp (int i)) [0..<8])\<rparr>"

definition return_fill :: "ctx_t \<Rightarrow> u8 list option \<Rightarrow> zt_trace_event_t \<Rightarrow> zt_trace_event_t" where
  "return_fill c fp e = e\<lparr>ev_args := (ev_args e)[0 := gp_retval0 c],
     ev_fp_args := (ev_fp_args e)[0 := zt_fp_state_vec_low64 fp 0]\<rparr>"

definition call_fill :: "zt_probe_call_action_t \<Rightarrow> u64 \<Rightarrow> u64 list \<Rightarrow> zt_trace_event_t \<Rightarrow> zt_trace_event_t" where
  "call_fill act rv xs e = e\<lparr>ev_args := (ev_args e)[0 := act_callee_addr act, 1 := rv, 2 := act_arg_count act],
     ev_fp_args := buf_put (ev_fp_args e) 0 xs\<rparr>"

lemma fill_keeps_seq [simp]: "keeps_seq (entry_fill c fp)" "keeps_seq (return_fill c fp)" "keeps_seq (call_fill act rv xs)"
  by (simp_all add: keeps_seq_def entry_fill_def return_fill_def call_fill_def)

definition enter_call :: "'w payload \<Rightarrow> 'w payload" where
  "enter_call s = s\<lparr>g_call_id_seq := g_call_id_seq s + 1, ps_tls := (ps_tls s)\<lparr>last_call_id := g_call_id_seq s + 1\<rparr>\<rparr>"

lemma reserve_None_state: "zt_reserve_event_slot s = (None, s') \<Longrightarrow> s' = s"
  by (auto simp: zt_reserve_event_slot_def Let_def split: option.splits if_splits)

lemma zt_handle_entry_eq:
  "zt_handle_entry E c fp s =
     (case publish E (func_id c) 0 (g_call_id_seq s + 1) (entry_fill c fp) (enter_call s) of
        None \<Rightarrow> enter_call s
      | Some s1 \<Rightarrow> zt_run_call_action E c (g_call_id_seq s + 1) s1)"
proof -
  have f: "entry_fill c fp = (\<lambda>e. e\<lparr>
     ev_args := (ev_args e)[0 := gp_arg0 c, 1 := gp_arg1 c, 2 := gp_arg2 c, 3 := gp_arg3 c, 4 := gp_arg4 c, 5 := gp_arg5 c],
     ev_fp_args := buf_put (ev_fp_args e) 0 (map (\<lambda>i. zt_fp_state_vec_low64 fp (int i)) [0..<8])\<rparr>)"
    by (simp add: fun_eq_iff entry_fill_def)
  show ?thesis
    unfolding zt_handle_entry_def Let_def publish_def enter_call_def [symmetric] f
    by (auto dest: reserve_None_state split: prod.splits option.splits)
qed

lemma zt_handle_return_eq:
  "zt_handle_return E c fp s =
     (if peek_call_id_c (ps_tls s) = 0 then s
      else case publish E (func_id c) 1 (peek_call_id_c (ps_tls s)) (return_fill c fp) s of None \<Rightarrow> s | Some s1 \<Rightarrow> s1)"
proof -
  have f: "return_fill c fp = (\<lambda>e. e\<lparr>ev_args := (ev_args e)[0 := gp_retval0 c],
     ev_fp_args := (ev_fp_args e)[0 := zt_fp_state_vec_low64 fp 0]\<rparr>)"
    by (simp add: fun_eq_iff return_fill_def)
  show ?thesis
    unfolding zt_handle_return_def Let_def publish_def f
    by (auto dest: reserve_None_state simp del: peek_call_id_c.simps split: prod.splits option.splits)
qed

lemma zt_run_call_action_eq:
  "zt_run_call_action E c n s =
     (if in_call_action (ps_tls s) then s
      else case zt_find_call_action s (func_id c) of None \<Rightarrow> s
      | Some act \<Rightarrow>
          let xs = zt_resolve_call_args act c;
              (rv, s1) = zt_call_action_invoke E (act_callee_addr act) (act_arg_count act) xs (set_in_call_action True s);
              s2 = set_in_call_action False s1
          in case publish E (func_id c) 2 n (call_fill act rv xs) s2 of None \<Rightarrow> s2 | Some s3 \<Rightarrow> s3)"
proof -
  have f: "call_fill act rv xs = (\<lambda>e. e\<lparr>ev_args := (ev_args e)[0 := act_callee_addr act, 1 := rv, 2 := act_arg_count act],
     ev_fp_args := buf_put (ev_fp_args e) 0 xs\<rparr>)" for act rv xs
    by (simp add: fun_eq_iff call_fill_def)
  show ?thesis
    unfolding zt_run_call_action_def Let_def publish_def f
    by (auto dest: reserve_None_state split: prod.splits option.splits)
qed

lemma publish_tls:
  assumes "publish E p ty c f s = Some s'"
  shows "\<exists>tid. ps_tls s' = (ps_tls s)\<lparr>cached_tid := tid\<rparr>" and "g_payload_config s' = g_payload_config s"
    and "g_call_id_seq s' = g_call_id_seq s"
proof -
  obtain slot seq s1 where r: "zt_reserve_event_slot s = (Some (slot, seq), s1)"
      "s' = zt_commit_event_slot slot seq (upd_event slot f (zt_init_event_header E slot p ty c s1))"
    using assms by (auto simp: publish_def split: prod.splits option.splits)
  have s1: "ps_tls s1 = ps_tls s" "g_payload_config s1 = g_payload_config s" "g_call_id_seq s1 = g_call_id_seq s"
    using reserve_frame [of s] r(1) by simp_all
  have i: "ps_tls (zt_init_event_header E slot p ty c s1) = snd (snd (env_reads E (ps_world s1) (ps_tls s1)))"
      "g_payload_config (zt_init_event_header E slot p ty c s1) = g_payload_config s1"
      "g_call_id_seq (zt_init_event_header E slot p ty c s1) = g_call_id_seq s1"
    by (simp_all add: zt_init_event_header_def Let_def reads_eq env_reads_def)
  have k: "ps_tls s' = ps_tls (zt_init_event_header E slot p ty c s1)"
      "g_payload_config s' = g_payload_config (zt_init_event_header E slot p ty c s1)"
      "g_call_id_seq s' = g_call_id_seq (zt_init_event_header E slot p ty c s1)"
    using r(2) by (simp_all add: zt_commit_event_slot_def put_event_def put_buffer_def)
  show "\<exists>tid. ps_tls s' = (ps_tls s)\<lparr>cached_tid := tid\<rparr>"
    using k(1) i(1) s1(1) env_reads_tls [of E "ps_world s1" "ps_tls s"] by (metis prod.collapse)
  show "g_payload_config s' = g_payload_config s" "g_call_id_seq s' = g_call_id_seq s" using k i s1 by simp_all
qed

text \<open>
  What is assumed of the code a call action runs: it leaves the pending frames as it found
  them (every probe it hits inside has also returned), and, for the stronger facts, it hits no
  probe at all, so that the thread's last call number stays.
\<close>

definition invoke_balanced :: "'w payload_env \<Rightarrow> bool" where
  "invoke_balanced E = (\<forall>a xs s. tls_ok (ps_tls s) \<longrightarrow>
     frames (ps_tls (snd (env_invoke E a xs s))) = frames (ps_tls s) \<and> tls_ok (ps_tls (snd (env_invoke E a xs s))))"

definition invoke_quiet :: "'w payload_env \<Rightarrow> bool" where
  "invoke_quiet E = (\<forall>a xs s. last_call_id (ps_tls (snd (env_invoke E a xs s))) = last_call_id (ps_tls s))"

definition after_action :: "'w payload_env \<Rightarrow> ctx_t \<Rightarrow> zt_probe_call_action_t \<Rightarrow> 'w payload \<Rightarrow> 'w payload" where
  "after_action E c act s = set_in_call_action False (snd (zt_call_action_invoke E (act_callee_addr act)
     (act_arg_count act) (zt_resolve_call_args act c) (set_in_call_action True s)))"

lemma call_action_cases:
  obtains "zt_run_call_action E c n s = s"
  | act where "zt_run_call_action E c n s = after_action E c act s"
  | act rv where "publish E (func_id c) 2 n (call_fill act rv (zt_resolve_call_args act c)) (after_action E c act s) =
      Some (zt_run_call_action E c n s)"
proof -
  define s' where "s' = zt_run_call_action E c n s"
  have "s' = s \<or> (\<exists>act. s' = after_action E c act s) \<or> (\<exists>act rv. publish E (func_id c) 2 n
      (call_fill act rv (zt_resolve_call_args act c)) (after_action E c act s) = Some s')"
    unfolding s'_def zt_run_call_action_eq Let_def split_beta after_action_def
    by (auto split: option.split)
  then show thesis using that unfolding s'_def by blast
qed

lemma call_action_taken:
  assumes "\<not> in_call_action (ps_tls s)" and "zt_find_call_action s (func_id c) = Some act"
  shows "zt_run_call_action E c n s = after_action E c act s \<or>
    (\<exists>rv. publish E (func_id c) 2 n (call_fill act rv (zt_resolve_call_args act c)) (after_action E c act s) =
       Some (zt_run_call_action E c n s))"
  using assms unfolding zt_run_call_action_eq Let_def split_beta after_action_def by (auto split: option.split)

lemma publish_same_stack:
  assumes "publish E p ty c f s = Some s'"
  shows "frames (ps_tls s') = frames (ps_tls s)" and "tls_ok (ps_tls s') = tls_ok (ps_tls s)"
    and "last_call_id (ps_tls s') = last_call_id (ps_tls s)"
  using publish_tls(1) [OF assms] by auto

lemma after_action_tls:
  assumes "tls_ok (ps_tls s)" and "invoke_balanced E"
  shows "frames (ps_tls (after_action E c act s)) = frames (ps_tls s)" and "tls_ok (ps_tls (after_action E c act s))"
    and "invoke_quiet E \<Longrightarrow> last_call_id (ps_tls (after_action E c act s)) = last_call_id (ps_tls s)"
  using assms
  by (simp_all add: invoke_balanced_def invoke_quiet_def after_action_def set_in_call_action_def zt_call_action_invoke_def)

lemma call_action_tls:
  assumes "tls_ok (ps_tls s)" and "invoke_balanced E"
  shows "frames (ps_tls (zt_run_call_action E c n s)) = frames (ps_tls s)"
    and "tls_ok (ps_tls (zt_run_call_action E c n s))"
    and "invoke_quiet E \<Longrightarrow> last_call_id (ps_tls (zt_run_call_action E c n s)) = last_call_id (ps_tls s)"
proof -
  let ?s' = "zt_run_call_action E c n s"
  have "frames (ps_tls ?s') = frames (ps_tls s) \<and> tls_ok (ps_tls ?s') \<and>
      (invoke_quiet E \<longrightarrow> last_call_id (ps_tls ?s') = last_call_id (ps_tls s))"
  proof (cases rule: call_action_cases [of E c n s])
    case 1
    with assms(1) show ?thesis by simp
  next
    case (2 act)
    with after_action_tls [OF assms] show ?thesis by simp
  next
    case (3 act rv)
    from publish_same_stack [OF this] after_action_tls [OF assms] show ?thesis by simp
  qed
  then show "frames (ps_tls ?s') = frames (ps_tls s)" and "tls_ok (ps_tls ?s')"
    and "invoke_quiet E \<Longrightarrow> last_call_id (ps_tls ?s') = last_call_id (ps_tls s)" by blast+
qed

section \<open>Properties of the stack\<close>

lemma handle_entry_tls:
  assumes "tls_ok (ps_tls s)" and "invoke_balanced E"
  shows "frames (ps_tls (zt_handle_entry E c fp s)) = frames (ps_tls s)"
    and "tls_ok (ps_tls (zt_handle_entry E c fp s))"
    and "invoke_quiet E \<Longrightarrow> last_call_id (ps_tls (zt_handle_entry E c fp s)) = g_call_id_seq s + 1"
proof -
  have e: "frames (ps_tls (enter_call s)) = frames (ps_tls s)" "tls_ok (ps_tls (enter_call s))"
      "last_call_id (ps_tls (enter_call s)) = g_call_id_seq s + 1"
    using assms(1) by (simp_all add: enter_call_def)
  show "frames (ps_tls (zt_handle_entry E c fp s)) = frames (ps_tls s)"
    and "tls_ok (ps_tls (zt_handle_entry E c fp s))"
    and "invoke_quiet E \<Longrightarrow> last_call_id (ps_tls (zt_handle_entry E c fp s)) = g_call_id_seq s + 1"
    using e publish_same_stack [of E "func_id c" 0 "g_call_id_seq s + 1" "entry_fill c fp" "enter_call s"]
      call_action_tls [OF _ assms(2)]
    by (auto simp: zt_handle_entry_eq split: option.split)
qed

lemma handle_return_tls:
  shows "frames (ps_tls (zt_handle_return E c fp s)) = frames (ps_tls s)"
    and "tls_ok (ps_tls (zt_handle_return E c fp s)) = tls_ok (ps_tls s)"
  using publish_same_stack [of E "func_id c" 1 "peek_call_id_c (ps_tls s)" "return_fill c fp" s]
  by (auto simp: zt_handle_return_eq simp del: peek_call_id_c.simps split: option.split)

lemma entry_stub_frames:
  assumes "tls_ok (ps_tls s)" and "invoke_balanced E" and "length (frames (ps_tls s)) < ZT_MAX_SAVED_RET_ADDR"
  shows "tls_ok (ps_tls (entry_stub E c fp ra s))"
    and "\<exists>n. frames (ps_tls (entry_stub E c fp ra s)) = frames (ps_tls s) @
      [\<lparr>sf_ret_addr = ra, sf_probe_id = func_id c, sf_call_id = n\<rparr>] \<and> (invoke_quiet E \<longrightarrow> n = g_call_id_seq s + 1)"
  using handle_entry_tls [OF assms(1,2), of c fp] save_probe_frame_frames [of "ps_tls (zt_handle_entry E c fp s)" ra "func_id c"]
    assms(3)
  by (auto simp: entry_stub_def Let_def)

lemma exit_stub_frames:
  assumes "tls_ok (ps_tls s)" and "frames (ps_tls s) = fs @ [f]"
  shows "fst (exit_stub E c fp s) = sf_ret_addr f" and "frames (ps_tls (snd (exit_stub E c fp s))) = fs"
    and "tls_ok (ps_tls (snd (exit_stub E c fp s)))"
proof -
  let ?c = "c\<lparr>func_id := peek_probe_id_c (ps_tls s)\<rparr>"
  have h: "tls_ok (ps_tls (zt_handle_return E ?c fp s))" "frames (ps_tls (zt_handle_return E ?c fp s)) = fs @ [f]"
    using handle_return_tls [of E ?c fp s] assms by simp_all
  show "fst (exit_stub E c fp s) = sf_ret_addr f" and "frames (ps_tls (snd (exit_stub E c fp s))) = fs"
    and "tls_ok (ps_tls (snd (exit_stub E c fp s)))"
    using frames_top [OF h] by (simp_all add: exit_stub_def get_ret_addr_c_def Let_def)
qed

type_synonym entry_args = "ctx_t \<times> u8 list option \<times> u64"
type_synonym exit_args = "ctx_t \<times> u8 list option"

definition stub_enter :: "'w payload_env \<Rightarrow> entry_args \<Rightarrow> 'w payload \<Rightarrow> 'w payload" where
  "stub_enter E c = (case c of (ctx, fp, ra) \<Rightarrow> entry_stub E ctx fp ra)"

definition stub_leave :: "'w payload_env \<Rightarrow> exit_args \<Rightarrow> 'w payload \<Rightarrow> u64 \<times> 'w payload" where
  "stub_leave E x = (case x of (ctx, fp) \<Rightarrow> exit_stub E ctx fp)"

interpretation stubs: call_discipline "stub_enter E" "stub_leave E" "\<lambda>s. frames (ps_tls s)" sf_ret_addr
    "\<lambda>(c, fp, ra). ra" "\<lambda>s. tls_ok (ps_tls s) \<and> invoke_balanced E" ZT_MAX_SAVED_RET_ADDR
  for E :: "'w payload_env"
proof
  fix s :: "'w payload" and c :: entry_args
  assume "tls_ok (ps_tls s) \<and> invoke_balanced E" and "length (frames (ps_tls s)) < ZT_MAX_SAVED_RET_ADDR"
  then show "(tls_ok (ps_tls (stub_enter E c s)) \<and> invoke_balanced E) \<and>
      (\<exists>f. sf_ret_addr f = (case c of (c, fp, ra) \<Rightarrow> ra) \<and> frames (ps_tls (stub_enter E c s)) = frames (ps_tls s) @ [f])"
    using entry_stub_frames [of s E "fst c" "fst (snd c)" "snd (snd c)"]
    by (auto simp: stub_enter_def split_beta)
next
  fix s :: "'w payload" and x :: exit_args and fs f
  assume "tls_ok (ps_tls s) \<and> invoke_balanced E" and "frames (ps_tls s) = fs @ [f]"
  with exit_stub_frames [of s fs f]
  show "fst (stub_leave E x s) = sf_ret_addr f \<and> (tls_ok (ps_tls (snd (stub_leave E x s))) \<and> invoke_balanced E) \<and>
      frames (ps_tls (snd (stub_leave E x s))) = fs"
    by (auto simp: stub_leave_def split_beta)
qed

section \<open>Properties\<close>

lemma list_update_six:
  "length xs = 6 \<Longrightarrow> xs[0 := a, 1 := b, 2 := c, 3 := d, 4 := e, 5 := f] = [a, b, c, d, e, f]"
  by (auto simp: numeral_eq_Suc length_Suc_conv)

lemma find_call_action_cong:
  assumes "g_payload_config s' = g_payload_config s"
    and "\<And>a. zt_get_trace_buffer s = Some a \<Longrightarrow> tb_magic (ps_mem s' a) = tb_magic (ps_mem s a) \<and>
      tb_call_action_count (ps_mem s' a) = tb_call_action_count (ps_mem s a) \<and>
      tb_call_actions (ps_mem s' a) = tb_call_actions (ps_mem s a)"
  shows "zt_find_call_action s' p = zt_find_call_action s p"
proof -
  have "zt_get_trace_buffer s' = zt_get_trace_buffer s" by (simp add: zt_get_trace_buffer_def assms(1))
  then show ?thesis
    using assms(2) by (cases "zt_get_trace_buffer s") (simp_all add: zt_find_call_action_def Let_def split: option.split)
qed


text \<open>
  C14. Every call comes back to its caller: for any tree of nested calls of probed functions
  that is no deeper than the frames left on the thread's stack, the addresses that
  \<^verbatim>\<open>exit_stub\<close> resumes at are the saved return addresses of the calls in the order in which
  the calls finish, and the pending frames afterwards are those from before.
\<close>

theorem nested_calls_return:
  assumes "tls_ok (ps_tls s)" and "invoke_balanced E"
    and "call_stack_idx (ps_tls s) + tree_depth t \<le> ZT_MAX_SAVED_RET_ADDR"
  shows "fst (run_tree (stub_enter E) (stub_leave E) t s) = map (\<lambda>(c, fp, ra). ra) (tree_calls t) \<and>
    tls_ok (ps_tls (snd (run_tree (stub_enter E) (stub_leave E) t s))) \<and>
    frames (ps_tls (snd (run_tree (stub_enter E) (stub_leave E) t s))) = frames (ps_tls s)"
proof -
  have "length (frames (ps_tls s)) + tree_depth t \<le> ZT_MAX_SAVED_RET_ADDR"
    using assms(1,3) by (simp add: length_frames)
  from stubs.run_tree_balanced [of s E t, OF _ this, unfolded stubs.balanced_def] assms(1,2)
  show ?thesis by simp
qed


text \<open>An example environment and state for the witnesses.\<close>

definition ex_env :: "unit payload_env" where
  "ex_env = \<lparr>env_clock = (\<lambda>w. (Some (1, 5), w)), env_gettid = (\<lambda>w. (42, w)), env_getcpu = (\<lambda>w. (3, w)),
     env_invoke = (\<lambda>a xs s. (0, s))\<rparr>"

definition ex_tls :: zt_tls where
  "ex_tls = \<lparr>saved_frames = replicate 256 \<lparr>sf_ret_addr = 0, sf_probe_id = 0, sf_call_id = 0\<rparr>, call_stack_idx = 0,
     last_call_id = 0, cached_tid = 0, in_call_action = False\<rparr>"

definition ex_ctx :: ctx_t where
  "ex_ctx = \<lparr>ctx_r15 = 0, ctx_r14 = 0, ctx_r13 = 0, ctx_r12 = 0, ctx_r11 = 0, ctx_r10 = 0, gp_arg5 = 6, gp_arg4 = 5,
     gp_arg0 = 1, gp_arg1 = 2, ctx_rbp = 0, gp_arg2 = 3, gp_arg3 = 4, ctx_rbx = 0, gp_retval0 = 9, status_flags = 0,
     trampoline_ret_addr = 0, func_id = 7\<rparr>"

definition ex_config :: zt_payload_config_t where
  "ex_config = \<lparr>shared_buffer_addr = 0x1000, shared_buffer_size = 692248\<rparr>"

definition ex_payload :: "unit payload" where
  "ex_payload = zt_payload_init (Some ex_config) \<lparr>ps_world = (), ps_tls = ex_tls, g_payload_config = ex_config,
     g_call_id_seq = 0, ps_mem = (\<lambda>_. zero_buffer)\<rparr>"

lemma init_live:
  assumes "shared_buffer_addr c \<noteq> 0" and "sizeof_zt_trace_buffer_t \<le> shared_buffer_size c"
  shows "live (zt_payload_init (Some c) s) (shared_buffer_addr c)"
  using assms
  by (simp add: live_def zt_payload_init_def zt_get_trace_buffer_def put_buffer_def zero_buffer_def Let_def linorder_not_less [symmetric])

lemma ex_live: "live ex_payload 0x1000"
  using init_live [of ex_config] by (simp add: ex_payload_def ex_config_def sizeof_zt_trace_buffer_t_def)

lemma ex_find: "zt_find_call_action ex_payload p = None"
  by (simp add: ex_payload_def zt_payload_init_def zt_find_call_action_def zt_get_trace_buffer_def put_buffer_def
      zero_buffer_def ex_config_def sizeof_zt_trace_buffer_t_def Let_def)

lemma ex_tls_ok: "tls_ok (ps_tls ex_payload)" "call_stack_idx (ps_tls ex_payload) = 0" "g_call_id_seq ex_payload = 0"
  by (auto simp: ex_payload_def zt_payload_init_def ex_tls_def tls_ok_def ZT_MAX_SAVED_RET_ADDR_def put_buffer_def Let_def
      split: option.split)

lemma ex_env_ok: "invoke_balanced ex_env" "invoke_quiet ex_env"
  by (simp_all add: invoke_balanced_def invoke_quiet_def ex_env_def)


theorem nested_calls_return_witness:
  "fst (run_tree (stub_enter ex_env) (stub_leave ex_env)
     (Call (ex_ctx, None, 0x11) (ex_ctx, None) [Call (ex_ctx, None, 0x22) (ex_ctx, None) []]) ex_payload) = [0x22, 0x11]"
  using nested_calls_return [OF ex_tls_ok(1) ex_env_ok(1),
      of "Call (ex_ctx, None, 0x11) (ex_ctx, None) [Call (ex_ctx, None, 0x22) (ex_ctx, None) []]"]
  by (simp add: ex_tls_ok ZT_MAX_SAVED_RET_ADDR_def)

lemma publish_keeps_live:
  assumes "publish E p ty c f s = Some s'" and l: "live s a" and "keeps_seq f"
    and wf: "\<And>e. wf_event e \<Longrightarrow> wf_event (f e)"
  shows "live s' a"
proof -
  obtain r w t where r: "env_reads E (ps_world s) (ps_tls s) = (r, w, t)" by (metis prod.exhaust)
  let ?e = "(f (header p ty c r ((tb_events (ps_mem s a) ! next_slot s a)\<lparr>ev_committed_seq := 0\<rparr>)))
    \<lparr>ev_committed_seq := tb_write_seq (ps_mem s a) + 1\<rparr>"
  have i: "next_slot s a < length (tb_events (ps_mem s a))"
    using l next_slot_less [of s a] by (simp add: live_def)
  have h: "wf_event (header p ty c r (e\<lparr>ev_committed_seq := 0\<rparr>))" if "wf_event e" for e
    using that by (simp add: header_def wf_event_def)
  have "wf_event (f (header p ty c r ((tb_events (ps_mem s a) ! next_slot s a)\<lparr>ev_committed_seq := 0\<rparr>)))"
    using l nth_mem [OF i] by (intro wf h) (simp add: live_def)
  then have "wf_event ?e" by (simp add: wf_event_def)
  then have e: "\<forall>e \<in> set ((tb_events (ps_mem s a))[next_slot s a := ?e]). wf_event e"
    using l set_update_subset_insert [of "tb_events (ps_mem s a)" "next_slot s a" ?e] by (auto simp: live_def)
  show ?thesis
    using publish_live [OF l assms(3) r, of p ty c] assms(1) l e
    by (auto simp: live_def zt_get_trace_buffer_def split: if_splits)
qed

lemma entry_stub_live:
  assumes l: "live s a" and act: "zt_find_call_action s (func_id c) = None" and ni: "zt_get_trace_buffer s = Some a"
  shows "live (entry_stub E c fp ra s) a"
proof -
  have l': "live (enter_call s) a" using l by (simp add: live_def enter_call_def zt_get_trace_buffer_def split: if_splits)
  obtain r w t where r: "env_reads E (ps_world (enter_call s)) (ps_tls (enter_call s)) = (r, w, t)" by (metis prod.exhaust)
  obtain s1 where s1: "publish E (func_id c) 0 (g_call_id_seq s + 1) (entry_fill c fp) (enter_call s) = Some s1"
    using publish_live [OF l' fill_keeps_seq(1) r] by blast
  have wf: "wf_event (entry_fill c fp e)" if "wf_event e" for e
    using that by (simp add: wf_event_def entry_fill_def zt_limits buf_put_def)
  have l1: "live s1 a" by (rule publish_keeps_live [OF s1 l' fill_keeps_seq(1) wf])
  have "zt_find_call_action s1 (func_id c) = None"
    unfolding act [symmetric] using publish_live [OF l' fill_keeps_seq(1) r, of "func_id c" 0 "g_call_id_seq s + 1" c fp] s1 ni
    by (intro find_call_action_cong) (auto simp: enter_call_def)
  then have "zt_handle_entry E c fp s = s1" unfolding zt_handle_entry_eq s1 by (simp add: zt_run_call_action_eq)
  then show ?thesis using l1 by (simp add: entry_stub_def Let_def live_def zt_get_trace_buffer_def split: if_splits)
qed


text \<open>
  The frame stack holds 256 calls and the stubs do not notice when it is full: a call
  entered with 256 frames pending is not recorded, so \<^verbatim>\<open>exit_stub\<close> resumes it at the
  return address of the call that encloses it, whatever its own return address was.
\<close>

theorem deep_call_returns_wrong:
  assumes "tls_ok (ps_tls s)" and "invoke_balanced E" and "call_stack_idx (ps_tls s) = ZT_MAX_SAVED_RET_ADDR"
  shows "fst (exit_stub E c' fp' (entry_stub E c fp ra s)) = sf_ret_addr (last (frames (ps_tls s)))"
proof -
  have h: "tls_ok (ps_tls (zt_handle_entry E c fp s))" "frames (ps_tls (zt_handle_entry E c fp s)) = frames (ps_tls s)"
    using handle_entry_tls [OF assms(1,2)] by blast+
  have "call_stack_idx (ps_tls (zt_handle_entry E c fp s)) = ZT_MAX_SAVED_RET_ADDR"
    using h assms(1,3) length_frames by metis
  then have e: "entry_stub E c fp ra s = zt_handle_entry E c fp s"
    by (simp add: entry_stub_def save_probe_frame_c_def Let_def)
  have "frames (ps_tls s) \<noteq> []"
    using assms(1,3) length_frames [of "ps_tls s"] by (auto simp: ZT_MAX_SAVED_RET_ADDR_def)
  then have "frames (ps_tls (zt_handle_entry E c fp s)) = butlast (frames (ps_tls s)) @ [last (frames (ps_tls s))]"
    using h(2) by simp
  from exit_stub_frames(1) [OF h(1) this] show ?thesis unfolding e .
qed

theorem deep_call_returns_wrong_witness:
  "\<exists>s :: unit payload. call_stack_idx (ps_tls s) = 256 \<and>
     fst (exit_stub ex_env ex_ctx None (entry_stub ex_env ex_ctx None 0x99 s)) = 0x42"
proof -
  define s where "s = ex_payload\<lparr>ps_tls := ex_tls\<lparr>call_stack_idx := 256,
    saved_frames := replicate 256 \<lparr>sf_ret_addr = 0x42, sf_probe_id = 0, sf_call_id = 0\<rparr>\<rparr>\<rparr>"
  have "tls_ok (ps_tls s)" "call_stack_idx (ps_tls s) = ZT_MAX_SAVED_RET_ADDR"
    by (simp_all add: s_def tls_ok_def ZT_MAX_SAVED_RET_ADDR_def)
  moreover have "last (frames (ps_tls s)) = \<lparr>sf_ret_addr = 0x42, sf_probe_id = 0, sf_call_id = 0\<rparr>"
    by (simp add: s_def frames_def)
  ultimately show ?thesis
    using deep_call_returns_wrong [OF _ ex_env_ok(1), of s ex_ctx None ex_ctx None "0x99"]
    by (intro exI [of _ s]) (simp add: ZT_MAX_SAVED_RET_ADDR_def)
qed


definition ex_action :: zt_probe_call_action_t where
  "ex_action = zero_action\<lparr>act_enabled := 1, act_probe_id := 7, act_callee_addr := 0x4000, act_arg_count := 2,
     act_args := [\<lparr>ca_kind = 1, ca_value = 11\<rparr>, \<lparr>ca_kind = 2, ca_value = 3\<rparr>, zero_action_arg, zero_action_arg,
       zero_action_arg, zero_action_arg]\<rparr>"

definition ex_action_payload :: "unit payload" where
  "ex_action_payload = put_buffer 0x1000 ((ps_mem ex_payload 0x1000)\<lparr>tb_call_action_count := 1,
     tb_call_actions := (replicate 32 zero_action)[7 := ex_action]\<rparr>) ex_payload"

lemma ex_action_find: "zt_find_call_action ex_action_payload 7 = Some ex_action"
  by (simp add: ex_action_payload_def put_buffer_def ex_payload_def zt_payload_init_def zt_find_call_action_def Let_def
      zt_get_trace_buffer_def ex_config_def sizeof_zt_trace_buffer_t_def ZT_PAYLOAD_PROBE_ACTION_CAP_def
      zt_copy_call_action_if_match_def ex_action_def ZT_CALL_ACTION_ARG_CAP_def ZT_TRACE_GP_ARG_COUNT_def unat_mod)

lemma ex_action_live: "live (set_in_call_action b (set_in_call_action b' ex_action_payload)) 0x1000"
  using ex_live by (auto simp: ex_action_payload_def live_def put_buffer_def zt_get_trace_buffer_def set_in_call_action_def
      split: if_splits)


definition probed_callee_env :: "ctx_t \<Rightarrow> u64 \<Rightarrow> 'w payload_env \<Rightarrow> 'w payload_env" where
  "probed_callee_env c2 ra2 E = E\<lparr>env_invoke := (\<lambda>a xs s. (0, snd (exit_stub E c2 None (entry_stub E c2 None ra2 s))))\<rparr>"

lemma stub_last_call_id:
  assumes "tls_ok (ps_tls s)" and "invoke_balanced E" and "invoke_quiet E"
  shows "last_call_id (ps_tls (entry_stub E c fp ra s)) = g_call_id_seq s + 1"
    and "last_call_id (ps_tls (snd (exit_stub E c' fp' s'))) = last_call_id (ps_tls s')"
proof -
  show "last_call_id (ps_tls (entry_stub E c fp ra s)) = g_call_id_seq s + 1"
    using handle_entry_tls(3) [OF assms] by (simp add: entry_stub_def save_probe_frame_c_def Let_def)
  have "last_call_id (ps_tls (zt_handle_return E d fp' s')) = last_call_id (ps_tls s')" for d
    using publish_same_stack(3) [of E "func_id d" 1 "peek_call_id_c (ps_tls s')" "return_fill d fp'" s']
    by (auto simp: zt_handle_return_eq simp del: peek_call_id_c.simps split: option.split)
  then show "last_call_id (ps_tls (snd (exit_stub E c' fp' s'))) = last_call_id (ps_tls s')"
    by (simp add: exit_stub_def get_ret_addr_c_def Let_def)
qed

lemma probed_callee_after:
  assumes ok: "tls_ok (ps_tls s)" and room: "length (frames (ps_tls s)) < ZT_MAX_SAVED_RET_ADDR"
    and E: "invoke_balanced E" "invoke_quiet E"
  shows "frames (ps_tls (after_action (probed_callee_env c2 ra2 E) c act s)) = frames (ps_tls s)"
    and "tls_ok (ps_tls (after_action (probed_callee_env c2 ra2 E) c act s))"
    and "last_call_id (ps_tls (after_action (probed_callee_env c2 ra2 E) c act s)) = g_call_id_seq s + 1"
proof -
  let ?u = "set_in_call_action True s"
  have u: "tls_ok (ps_tls ?u)" "frames (ps_tls ?u) = frames (ps_tls s)" "g_call_id_seq ?u = g_call_id_seq s"
    using ok by (simp_all add: set_in_call_action_def)
  let ?v = "entry_stub E c2 None ra2 ?u"
  obtain f where v: "tls_ok (ps_tls ?v)" "frames (ps_tls ?v) = frames (ps_tls s) @ [f]"
    using entry_stub_frames [OF u(1) E(1)] room u(2) by force
  have a: "after_action (probed_callee_env c2 ra2 E) c act s = set_in_call_action False (snd (exit_stub E c2 None ?v))"
    by (simp add: after_action_def zt_call_action_invoke_def probed_callee_env_def)
  show "frames (ps_tls (after_action (probed_callee_env c2 ra2 E) c act s)) = frames (ps_tls s)"
    and "tls_ok (ps_tls (after_action (probed_callee_env c2 ra2 E) c act s))"
    unfolding a using exit_stub_frames [OF v] by (simp_all add: set_in_call_action_def)
  show "last_call_id (ps_tls (after_action (probed_callee_env c2 ra2 E) c act s)) = g_call_id_seq s + 1"
    unfolding a using stub_last_call_id [OF u(1) E] u(3) by (simp add: set_in_call_action_def)
qed

text \<open>
  A call action that reaches a probed function spoils the call number of the outer call:
  the nested entry overwrites the thread's \<^verbatim>\<open>last_call_id\<close> before the stub saves the outer
  frame, so the outer frame is saved with the nested call's number and its return event will
  not carry the number of its entry event.
\<close>

theorem probed_callee_misnumbers_return:
  assumes ok: "tls_ok (ps_tls s)" and room: "call_stack_idx (ps_tls s) < ZT_MAX_SAVED_RET_ADDR"
    and E: "invoke_balanced E" "invoke_quiet E" and l: "live s a"
    and idle: "\<not> in_call_action (ps_tls s)" and act: "zt_find_call_action s (func_id c) = Some act"
  shows "frames (ps_tls (entry_stub (probed_callee_env c2 ra2 E) c fp ra s)) =
    frames (ps_tls s) @ [\<lparr>sf_ret_addr = ra, sf_probe_id = func_id c, sf_call_id = g_call_id_seq s + 2\<rparr>]"
proof -
  let ?E = "probed_callee_env c2 ra2 E"
  have l': "live (enter_call s) a" using l by (simp add: live_def enter_call_def zt_get_trace_buffer_def split: if_splits)
  obtain r w t where r: "env_reads ?E (ps_world (enter_call s)) (ps_tls (enter_call s)) = (r, w, t)" by (metis prod.exhaust)
  obtain s1 where s1: "publish ?E (func_id c) 0 (g_call_id_seq s + 1) (entry_fill c fp) (enter_call s) = Some s1"
    using publish_live [OF l' fill_keeps_seq(1) r] by blast
  have t1: "tls_ok (ps_tls s1)" "frames (ps_tls s1) = frames (ps_tls s)" "\<not> in_call_action (ps_tls s1)"
      "g_call_id_seq s1 = g_call_id_seq s + 1"
    using publish_tls [OF s1] ok idle by (auto simp: enter_call_def)
  have find: "zt_find_call_action s1 (func_id c) = Some act"
    unfolding act [symmetric]
    using publish_live [OF l' fill_keeps_seq(1) r, of "func_id c" 0 "g_call_id_seq s + 1" c fp] s1 l
    by (intro find_call_action_cong) (auto simp: enter_call_def live_def)
  note a = probed_callee_after [OF t1(1) _ E, of c2 ra2 c act, unfolded t1(2) length_frames [OF ok], OF room]
  let ?h = "zt_handle_entry ?E c fp s"
  have h: "?h = zt_run_call_action ?E c (g_call_id_seq s + 1) s1" unfolding zt_handle_entry_eq s1 by simp
  have "frames (ps_tls ?h) = frames (ps_tls s) \<and> tls_ok (ps_tls ?h) \<and> last_call_id (ps_tls ?h) = g_call_id_seq s + 2"
    unfolding h using call_action_taken [OF t1(3) find, of ?E "g_call_id_seq s + 1"] a t1(4)
    by (auto dest: publish_same_stack)
  then show ?thesis
    using save_probe_frame_frames(1) [of "ps_tls ?h" ra "func_id c"] room length_frames [OF ok]
    by (simp add: entry_stub_def Let_def)
qed

theorem probed_callee_misnumbers_return_witness:
  "frames (ps_tls (entry_stub (probed_callee_env (ex_ctx\<lparr>func_id := 8\<rparr>) 0x55 ex_env) ex_ctx None 0x99 ex_action_payload)) =
     [\<lparr>sf_ret_addr = 0x99, sf_probe_id = 7, sf_call_id = 2\<rparr>]"
proof -
  have t: "ps_tls ex_action_payload = ps_tls ex_payload" "g_call_id_seq ex_action_payload = 0"
    using ex_tls_ok(3) by (simp_all add: ex_action_payload_def put_buffer_def)
  have idle: "\<not> in_call_action (ps_tls ex_action_payload)"
    unfolding t by (auto simp: ex_payload_def zt_payload_init_def ex_tls_def put_buffer_def Let_def split: option.split)
  have l: "live ex_action_payload 0x1000"
    using ex_live by (auto simp: ex_action_payload_def live_def put_buffer_def zt_get_trace_buffer_def split: if_splits)
  have f: "zt_find_call_action ex_action_payload (func_id ex_ctx) = Some ex_action"
    using ex_action_find by (simp add: ex_ctx_def)
  have "frames (ps_tls ex_action_payload) = []" "tls_ok (ps_tls ex_action_payload)" "call_stack_idx (ps_tls ex_action_payload) < ZT_MAX_SAVED_RET_ADDR"
    using ex_tls_ok by (simp_all add: t frames_def ZT_MAX_SAVED_RET_ADDR_def)
  with probed_callee_misnumbers_return [OF _ _ ex_env_ok l idle f, of "ex_ctx\<lparr>func_id := 8\<rparr>" "0x55" None "0x99"]
  show ?thesis by (simp add: t ex_ctx_def)
qed

end
