(* ===== verification/ZT_OS.thy ===== *)
theory ZT_OS
  imports ZT_Memory
begin

text \<open>
  The operating system calls the injector makes, as a record of functions on an abstract
  world: \<^verbatim>\<open>process_vm_readv\<close> and \<^verbatim>\<open>process_vm_writev\<close>, the \<^verbatim>\<open>ptrace\<close> requests,
  \<^verbatim>\<open>waitpid\<close>, the files below \<^verbatim>\<open>/proc\<close>, and reading files. They are parameters of
  the model; \<open>os_mem_ok\<close> states what is documented of the calls that move memory. The type
  \<open>'r\<close> is the register set of the instruction set (\<^verbatim>\<open>struct user_regs_struct\<close> or
  \<^verbatim>\<open>struct user_pt_regs\<close>).

  A call that can fail returns the error number as \<open>Inl\<close> where the sources look at
  \<^verbatim>\<open>errno\<close>, and \<open>None\<close> or \<open>False\<close> where they do not.
\<close>

section \<open>Error numbers and signals\<close>

datatype errno = ESRCH | EINTR | ECHILD | ENOENT | EINVAL | EOTHER nat

definition SIGTRAP :: u32 where "SIGTRAP = 5"

text \<open>The macros of \<^verbatim>\<open>sys/wait.h\<close> on a wait status.\<close>

definition WIFSTOPPED :: "u32 \<Rightarrow> bool" where
  "WIFSTOPPED status = (status AND 0xff = 0x7f)"

definition WSTOPSIG :: "u32 \<Rightarrow> u32" where
  "WSTOPSIG status = drop_bit 8 (status AND 0xff00)"

definition WTERMSIG :: "u32 \<Rightarrow> u32" where
  "WTERMSIG status = status AND 0x7f"

definition WIFEXITED :: "u32 \<Rightarrow> bool" where
  "WIFEXITED status = (WTERMSIG status = 0)"

definition WIFSIGNALED :: "u32 \<Rightarrow> bool" where
  "WIFSIGNALED status = (WTERMSIG status \<noteq> 0 \<and> WTERMSIG status \<noteq> 0x7f)"

section \<open>The calls\<close>

record ('r, 'w) os =
  os_vm_readv :: "int \<Rightarrow> (u64 \<times> nat) list \<Rightarrow> 'w \<Rightarrow> u8 list option \<times> 'w"
  os_vm_writev :: "int \<Rightarrow> u64 \<Rightarrow> u8 list \<Rightarrow> 'w \<Rightarrow> nat option \<times> 'w"
  os_peekdata :: "int \<Rightarrow> u64 \<Rightarrow> 'w \<Rightarrow> u64 option \<times> 'w"
  os_pokedata :: "int \<Rightarrow> u64 \<Rightarrow> u64 \<Rightarrow> 'w \<Rightarrow> bool \<times> 'w"
  os_getregs :: "int \<Rightarrow> 'w \<Rightarrow> (errno + 'r) \<times> 'w"
  os_setregs :: "int \<Rightarrow> 'r \<Rightarrow> 'w \<Rightarrow> bool \<times> 'w"
  os_cont :: "int \<Rightarrow> int \<Rightarrow> 'w \<Rightarrow> errno option \<times> 'w"
  os_singlestep :: "int \<Rightarrow> int \<Rightarrow> 'w \<Rightarrow> errno option \<times> 'w"
  os_interrupt :: "int \<Rightarrow> 'w \<Rightarrow> errno option \<times> 'w"
  os_seize :: "int \<Rightarrow> 'w \<Rightarrow> errno option \<times> 'w"
  os_detach :: "int \<Rightarrow> 'w \<Rightarrow> 'w"
  os_waitpid :: "int \<Rightarrow> bool \<Rightarrow> 'w \<Rightarrow> (errno + (int \<times> u32)) \<times> 'w"
  os_kill0 :: "int \<Rightarrow> 'w \<Rightarrow> errno option \<times> 'w"
  os_proc_stat :: "int \<Rightarrow> 'w \<Rightarrow> (errno + string) \<times> 'w"
  os_proc_maps :: "int \<Rightarrow> 'w \<Rightarrow> (errno + string list) \<times> 'w"
  os_proc_task :: "int \<Rightarrow> 'w \<Rightarrow> string list option \<times> 'w"
  os_proc_exe :: "int \<Rightarrow> 'w \<Rightarrow> string option \<times> 'w"
  os_pread :: "string \<Rightarrow> nat \<Rightarrow> nat \<Rightarrow> 'w \<Rightarrow> (errno + u8 list) \<times> 'w"
  os_usleep :: "nat \<Rightarrow> 'w \<Rightarrow> 'w"

section \<open>Memory of the target\<close>

definition mem_put :: "(u64 \<Rightarrow> u8) \<Rightarrow> u64 \<Rightarrow> u8 list \<Rightarrow> u64 \<Rightarrow> u8" where
  "mem_put m a bs x = (if unat (x - a) < length bs then bs ! unat (x - a) else m x)"

text \<open>
  \<open>mem\<close> reads the target's memory off the world. A vector read returns a prefix of the bytes
  it was asked for and changes nothing; a vector write stores a prefix of its bytes, whose
  length it returns; the word calls read and write eight bytes or fail without effect.
\<close>

definition os_mem_ok :: "('r, 'w) os \<Rightarrow> int \<Rightarrow> ('w \<Rightarrow> u64 \<Rightarrow> u8) \<Rightarrow> bool" where
  "os_mem_ok os pid mem =
     ((\<forall>iov w r w'. os_vm_readv os pid iov w = (r, w') \<longrightarrow> mem w' = mem w \<and>
        (\<forall>bs. r = Some bs \<longrightarrow> bs = take (length bs) (concat (map (\<lambda>(a, n). fetch (mem w) a n) iov)))) \<and>
      (\<forall>a bs w r w'. os_vm_writev os pid a bs w = (r, w') \<longrightarrow>
        mem w' = mem_put (mem w) a (take (case r of Some k \<Rightarrow> k | None \<Rightarrow> 0) bs)) \<and>
      (\<forall>a w r w'. os_peekdata os pid a w = (r, w') \<longrightarrow> mem w' = mem w \<and>
        (\<forall>v. r = Some v \<longrightarrow> v = load64 (mem w) a)) \<and>
      (\<forall>a v w r w'. os_pokedata os pid a v w = (r, w') \<longrightarrow>
        mem w' = (if r then mem_put (mem w) a (le64 v) else mem w)))"

lemma mem_put_Nil [simp]: "mem_put m a [] = m"
  by (simp add: mem_put_def fun_eq_iff)

lemma unat_diff_of_nat: "i < 2 ^ 64 \<Longrightarrow> unat ((a + of_nat i) - a :: u64) = i"
  by (simp add: unat_of_nat)

lemma fetch_mem_put_same: "length bs \<le> 2 ^ 64 \<Longrightarrow> fetch (mem_put m a bs) a (length bs) = bs"
  by (rule nth_equalityI) (auto simp: mem_put_def unat_of_nat)

lemma mem_put_append:
  assumes "length xs + length ys \<le> 2 ^ 64"
  shows "mem_put (mem_put m a xs) (a + of_nat (length xs)) ys = mem_put m a (xs @ ys)"
proof
  fix x
  let ?d = "unat (x - a)"
  show "mem_put (mem_put m a xs) (a + of_nat (length xs)) ys x = mem_put m a (xs @ ys) x"
  proof (cases "length ys = 0")
    case True
    then show ?thesis by simp
  next
    case False
    then have l: "length xs < 2 ^ 64" using assms by linarith
    have e: "x - (a + of_nat (length xs)) = (x - a) - of_nat (length xs)" by simp
    have lu: "unat (of_nat (length xs) :: u64) = length xs" using l by (simp add: unat_of_nat)
    have u: "unat ((x - a) - of_nat (length xs)) =
        (if length xs \<le> ?d then ?d - length xs else ?d + 2 ^ 64 - length xs)"
      using unat_sub_if' [of "x - a" "of_nat (length xs)"] unfolding lu by simp
    show ?thesis
      using assms False by (auto simp: mem_put_def e u nth_append)
  qed
qed

end
