(* ===== verification/ZT_RemoteMem.thy ===== *)
theory ZT_RemoteMem
  imports ZT_OS
begin

text \<open>
  Reading and writing the target's memory (\<^verbatim>\<open>zt_read_remote_memory\<close>,
  \<^verbatim>\<open>zt_read_remote_iov\<close>, \<^verbatim>\<open>zt_write_remote_memory\<close> of \<^verbatim>\<open>src/zt_injector.c\<close>): one
  vector call, and word-wise \<^verbatim>\<open>ptrace\<close> requests when it did not move everything. A buffer
  that a failed call leaves undefined is not modelled: the result is \<open>None\<close>.
\<close>

section \<open>The interface of remote memory\<close>

text \<open>
  What the clients (remote execution, probe patching) rely on: a successful read returns the
  bytes at the address and no read changes memory; a successful write stores all bytes and
  nothing else; a failed write has stored a prefix.
\<close>

locale remote_memory =
  fixes rd :: "u64 \<Rightarrow> nat \<Rightarrow> 'w \<Rightarrow> u8 list option \<times> 'w"
    and wr :: "u64 \<Rightarrow> u8 list \<Rightarrow> 'w \<Rightarrow> bool \<times> 'w"
    and mem :: "'w \<Rightarrow> u64 \<Rightarrow> u8"
    and ok :: bool
  assumes rd_mem: "ok \<Longrightarrow> rd a n w = (r, w') \<Longrightarrow> mem w' = mem w"
    and rd_Some: "ok \<Longrightarrow> rd a n w = (Some bs, w') \<Longrightarrow> bs = fetch (mem w) a n"
    and wr_True: "ok \<Longrightarrow> length bs \<le> 2 ^ 64 \<Longrightarrow> wr a bs w = (True, w') \<Longrightarrow> mem w' = mem_put (mem w) a bs"
    and wr_False: "ok \<Longrightarrow> length bs \<le> 2 ^ 64 \<Longrightarrow> wr a bs w = (False, w') \<Longrightarrow>
      \<exists>k. mem w' = mem_put (mem w) a (take k bs)"
begin

text \<open>Writing back what was read undoes any writes to the same range in between.\<close>

lemma save_restore:
  assumes ok and "n \<le> 2 ^ 64" and "rd a n w = (Some old, w1)"
    and "mem w2 = mem_put (mem w1) a new" "length new \<le> n" and "wr a old w2 = (True, w3)"
  shows "mem w3 = mem w"
proof -
  have old: "old = fetch (mem w) a n" "mem w1 = mem w" using assms rd_Some rd_mem by metis+
  have "mem w3 = mem_put (mem w2) a old"
    using wr_True [OF assms(1) _ assms(6)] old(1) assms(2) by simp
  also have "\<dots> = mem w"
    using assms(2,5) by (auto simp: fun_eq_iff mem_put_def assms(4) old)
  finally show ?thesis .
qed

lemma write_then_read:
  assumes ok and "length bs \<le> 2 ^ 64" and "wr a bs w = (True, w1)" and "rd a (length bs) w1 = (Some cs, w2)"
  shows "cs = bs"
  using rd_Some [OF assms(1,4)] wr_True [OF assms(1-3)] fetch_mem_put_same [OF assms(2)] by simp

lemma wr_partial:
  assumes ok and "length bs \<le> 2 ^ 64" and "wr a bs w = (r, w')"
  obtains k where "mem w' = mem_put (mem w) a (take k bs)" "r \<Longrightarrow> length bs \<le> k"
proof (cases r)
  case True
  with wr_True [OF assms(1,2)] assms(3) that [of "length bs"] show thesis by simp
next
  case False
  then have "wr a bs w = (False, w')" using assms(3) by simp
  from wr_False [OF assms(1,2) this] obtain k where "mem w' = mem_put (mem w) a (take k bs)" by blast
  with that [of k] False show thesis by simp
qed

end

section \<open>Reading\<close>

text \<open>The loop over \<^verbatim>\<open>PTRACE_PEEKDATA\<close>, \<open>sz\<close> being the bytes left.\<close>

function zt_read_words :: "('r, 'w) os \<Rightarrow> int \<Rightarrow> u64 \<Rightarrow> nat \<Rightarrow> 'w \<Rightarrow> u8 list option \<times> 'w" where
  "zt_read_words os pid addr sz w =
     (if sz = 0 then (Some [], w)
      else case os_peekdata os pid addr w of
          (None, w1) \<Rightarrow> (None, w1)
        | (Some word, w1) \<Rightarrow>
            (case zt_read_words os pid (addr + of_nat (min sz 8)) (sz - min sz 8) w1 of
               (None, w2) \<Rightarrow> (None, w2)
             | (Some rest, w2) \<Rightarrow> (Some (take (min sz 8) (le64 word) @ rest), w2)))"
  by pat_completeness auto
termination
  by (relation "measure (\<lambda>(os, pid, addr, sz, w). sz)") auto

declare zt_read_words.simps [simp del]

definition zt_read_remote_memory :: "('r, 'w) os \<Rightarrow> int \<Rightarrow> u64 \<Rightarrow> nat \<Rightarrow> 'w \<Rightarrow> u8 list option \<times> 'w" where
  "zt_read_remote_memory os pid remote_addr sz w =
     (if sz = 0 then (None, w)
      else case os_vm_readv os pid [(remote_addr, sz)] w of
          (r, w1) \<Rightarrow> (case r of
              Some bs \<Rightarrow> if length bs = sz then (Some bs, w1) else zt_read_words os pid remote_addr sz w1
            | None \<Rightarrow> zt_read_words os pid remote_addr sz w1))"

text \<open>The fallback of a vector read: the pieces one after the other.\<close>

fun zt_read_each :: "('r, 'w) os \<Rightarrow> int \<Rightarrow> (u64 \<times> nat) list \<Rightarrow> 'w \<Rightarrow> u8 list option \<times> 'w" where
  "zt_read_each os pid [] w = (Some [], w)"
| "zt_read_each os pid ((a, n) # iov) w =
     (case zt_read_remote_memory os pid a n w of
        (None, w1) \<Rightarrow> (None, w1)
      | (Some bs, w1) \<Rightarrow>
          (case zt_read_each os pid iov w1 of (None, w2) \<Rightarrow> (None, w2) | (Some rest, w2) \<Rightarrow> (Some (bs @ rest), w2)))"

definition zt_read_remote_iov :: "('r, 'w) os \<Rightarrow> int \<Rightarrow> (u64 \<times> nat) list \<Rightarrow> nat \<Rightarrow> 'w \<Rightarrow> u8 list option \<times> 'w" where
  "zt_read_remote_iov os pid remote_iov expected_size w =
     (if remote_iov = [] then (None, w)
      else if expected_size = 0 then (Some [], w)
      else case os_vm_readv os pid remote_iov w of
          (r, w1) \<Rightarrow> (case r of
              Some bs \<Rightarrow> if length bs = expected_size then (Some bs, w1) else zt_read_each os pid remote_iov w1
            | None \<Rightarrow> zt_read_each os pid remote_iov w1))"

section \<open>Writing\<close>

function zt_write_words :: "('r, 'w) os \<Rightarrow> int \<Rightarrow> u64 \<Rightarrow> u8 list \<Rightarrow> 'w \<Rightarrow> bool \<times> 'w" where
  "zt_write_words os pid addr bs w =
     (if bs = [] then (True, w)
      else
        let n = min (length bs) 8;
            (temp, w1) = (if n \<noteq> 8 then
                (case zt_read_remote_memory os pid addr 8 w of
                   (None, w1) \<Rightarrow> (None, w1)
                 | (Some old, w1) \<Rightarrow> (Some (take n bs @ drop n old), w1))
              else (Some (take n bs), w))
        in case temp of
             None \<Rightarrow> (False, w1)
           | Some t \<Rightarrow>
               (case os_pokedata os pid addr (le_word t) w1 of
                  (False, w2) \<Rightarrow> (False, w2)
                | (True, w2) \<Rightarrow> zt_write_words os pid (addr + of_nat n) (drop n bs) w2))"
  by pat_completeness auto
termination
  by (relation "measure (\<lambda>(os, pid, addr, bs, w). length bs)") auto

declare zt_write_words.simps [simp del]

definition zt_write_remote_memory :: "('r, 'w) os \<Rightarrow> int \<Rightarrow> u64 \<Rightarrow> u8 list \<Rightarrow> 'w \<Rightarrow> bool \<times> 'w" where
  "zt_write_remote_memory os pid remote_addr buffer w =
     (if buffer = [] then (False, w)
      else case os_vm_writev os pid remote_addr buffer w of
          (r, w1) \<Rightarrow> if r = Some (length buffer) then (True, w1)
                     else zt_write_words os pid remote_addr buffer w1)"

section \<open>Correctness\<close>

lemma le_bytes_take: "n \<le> 8 \<Longrightarrow> take n (le64 (load64 m a)) = fetch m a n"
proof -
  assume n: "n \<le> 8"
  have "le64 (load64 m a) = fetch m a 8"
    by (rule nth_equalityI)
      (auto simp: load64_def nth_le_bytes intro!: bit_word_eqI simp: bit_ucast_iff bit_drop_bit_eq bit_le_word)
  with n show ?thesis by (simp add: fetch_def take_map)
qed

lemma os_mem_okD:
  assumes "os_mem_ok os pid mem"
  shows "os_vm_readv os pid iov w = (r, w') \<Longrightarrow> mem w' = mem w"
    and "os_vm_readv os pid iov w = (Some bs, w') \<Longrightarrow>
      bs = take (length bs) (concat (map (\<lambda>(a, n). fetch (mem w) a n) iov))"
    and "os_vm_writev os pid a cs w = (q, w') \<Longrightarrow> mem w' = mem_put (mem w) a (take (case q of Some k \<Rightarrow> k | None \<Rightarrow> 0) cs)"
    and "os_peekdata os pid a w = (p, w') \<Longrightarrow> mem w' = mem w"
    and "os_peekdata os pid a w = (Some v, w') \<Longrightarrow> v = load64 (mem w) a"
    and "os_pokedata os pid a v w = (b, w') \<Longrightarrow> mem w' = (if b then mem_put (mem w) a (le64 v) else mem w)"
proof -
  note c = assms [unfolded os_mem_ok_def]
  show "os_vm_readv os pid iov w = (r, w') \<Longrightarrow> mem w' = mem w"
    and "os_vm_readv os pid iov w = (Some bs, w') \<Longrightarrow>
      bs = take (length bs) (concat (map (\<lambda>(a, n). fetch (mem w) a n) iov))"
    using c [THEN conjunct1] by blast+
  show "os_vm_writev os pid a cs w = (q, w') \<Longrightarrow> mem w' = mem_put (mem w) a (take (case q of Some k \<Rightarrow> k | None \<Rightarrow> 0) cs)"
    using c [THEN conjunct2, THEN conjunct1] by simp
  show "os_peekdata os pid a w = (p, w') \<Longrightarrow> mem w' = mem w"
    and "os_peekdata os pid a w = (Some v, w') \<Longrightarrow> v = load64 (mem w) a"
    using c [THEN conjunct2, THEN conjunct2, THEN conjunct1] by blast+
  show "os_pokedata os pid a v w = (b, w') \<Longrightarrow> mem w' = (if b then mem_put (mem w) a (le64 v) else mem w)"
    using c [THEN conjunct2, THEN conjunct2, THEN conjunct2] by simp
qed

lemma zt_read_words_ok:
  assumes ok: "os_mem_ok os pid mem"
  shows "zt_read_words os pid a n w = (r, w') \<Longrightarrow> mem w' = mem w \<and> (\<forall>bs. r = Some bs \<longrightarrow> bs = fetch (mem w) a n)"
proof (induction n arbitrary: a w r w' rule: less_induct)
  case (less n)
  show ?case
  proof (cases "n = 0")
    case True
    then show ?thesis using less.prems by (auto simp: zt_read_words.simps fetch_def)
  next
    case False
    let ?k = "min n 8"
    obtain p w1 where p: "os_peekdata os pid a w = (p, w1)" by fastforce
    note m1 = os_mem_okD(4) [OF ok p]
    show ?thesis
    proof (cases p)
      case None
      with less.prems p m1 False show ?thesis by (simp add: zt_read_words.simps)
    next
      case (Some v)
      note v = os_mem_okD(5) [OF ok p [unfolded Some]]
      obtain q w2 where q: "zt_read_words os pid (a + of_nat ?k) (n - ?k) w1 = (q, w2)" by fastforce
      have IH: "mem w2 = mem w1 \<and> (\<forall>bs. q = Some bs \<longrightarrow> bs = fetch (mem w1) (a + of_nat ?k) (n - ?k))"
        by (rule less.IH [OF _ q]) (use False in simp)
      have "fetch (mem w) a ?k @ fetch (mem w) (a + of_nat ?k) (n - ?k) = fetch (mem w) a n"
        using fetch_add [of "mem w" a ?k "n - ?k"] by simp
      then show ?thesis
        using less.prems IH m1 False p q Some v le_bytes_take [of ?k "mem w" a]
        by (auto simp: zt_read_words.simps split: option.splits)
    qed
  qed
qed

lemma zt_read_remote_memory_ok:
  assumes ok: "os_mem_ok os pid mem" and r: "zt_read_remote_memory os pid a n w = (r, w')"
  shows "mem w' = mem w" and "r = Some bs \<Longrightarrow> bs = fetch (mem w) a n"
proof -
  obtain q w1 where q: "os_vm_readv os pid [(a, n)] w = (q, w1)" by fastforce
  have m1: "mem w1 = mem w" by (rule os_mem_okD(1) [OF ok q])
  have full: "cs = fetch (mem w) a n" if "q = Some cs" "length cs = n" for cs
    using os_mem_okD(2) [OF ok q [unfolded that(1)]] that(2) by simp
  show "mem w' = mem w" and "r = Some bs \<Longrightarrow> bs = fetch (mem w) a n"
    using r q m1 full zt_read_words_ok [OF ok, of a n w1]
    by (auto simp: zt_read_remote_memory_def split: if_splits option.splits)
qed

lemma zt_read_each_ok:
  assumes ok: "os_mem_ok os pid mem"
  shows "zt_read_each os pid iov w = (r, w') \<Longrightarrow> mem w' = mem w \<and>
    (\<forall>bs. r = Some bs \<longrightarrow> bs = concat (map (\<lambda>(a, n). fetch (mem w) a n) iov))"
proof (induction iov arbitrary: w r w')
  case Nil
  then show ?case by auto
next
  case (Cons x iov)
  obtain a n where x: "x = (a, n)" by fastforce
  obtain q w1 where q: "zt_read_remote_memory os pid a n w = (q, w1)" by fastforce
  note m1 = zt_read_remote_memory_ok [OF ok q]
  obtain q2 w2 where q2: "zt_read_each os pid iov w1 = (q2, w2)" by fastforce
  show ?case
    using Cons.prems Cons.IH [OF q2] m1 q q2 by (auto simp: x split: option.splits)
qed

lemma zt_read_remote_iov_ok:
  assumes ok: "os_mem_ok os pid mem" and r: "zt_read_remote_iov os pid iov e w = (r, w')"
    and e: "e = sum_list (map snd iov)"
  shows "mem w' = mem w" and "r = Some bs \<Longrightarrow> bs = concat (map (\<lambda>(a, n). fetch (mem w) a n) iov)"
proof -
  have len: "length (concat (map (\<lambda>(a, n). fetch (mem w) a n) iov)) = e"
    unfolding e by (induction iov) auto
  obtain q w1 where q: "os_vm_readv os pid iov w = (q, w1)" by fastforce
  have m1: "mem w1 = mem w" by (rule os_mem_okD(1) [OF ok q])
  have full: "cs = concat (map (\<lambda>(a, n). fetch (mem w) a n) iov)" if "q = Some cs" "length cs = e" for cs
    using os_mem_okD(2) [OF ok q [unfolded that(1)]] that(2) len by simp
  have z: "e = 0 \<Longrightarrow> concat (map (\<lambda>(a, n). fetch (mem w) a n) iov) = []" using len by simp
  show "mem w' = mem w" and "r = Some bs \<Longrightarrow> bs = concat (map (\<lambda>(a, n). fetch (mem w) a n) iov)"
    using r q m1 full z zt_read_each_ok [OF ok, of iov w1]
    by (auto simp: zt_read_remote_iov_def simp del: concat_eq_Nil_conv split: if_splits option.splits)
qed

lemma mem_put_keep_tail:
  assumes "length xs \<le> n" and "n \<le> 2 ^ 64"
  shows "mem_put m a (xs @ drop (length xs) (fetch m a n)) = mem_put m a xs"
  using assms by (auto simp: fun_eq_iff mem_put_def nth_append)

lemma le64_le_word: "length t = 8 \<Longrightarrow> le64 (le_word t :: u64) = t"
  by (rule nth_equalityI)
    (auto simp: nth_le_bytes intro!: bit_word_eqI simp: bit_ucast_iff bit_drop_bit_eq bit_le_word)

lemma zt_write_words_ok:
  assumes ok: "os_mem_ok os pid mem"
  shows "zt_write_words os pid a bs w = (r, w') \<Longrightarrow> length bs \<le> 2 ^ 64 \<Longrightarrow>
    \<exists>k. mem w' = mem_put (mem w) a (take k bs) \<and> (r \<longrightarrow> length bs \<le> k)"
proof (induction "length bs" arbitrary: a bs w r w' rule: less_induct)
  case less
  let ?n = "min (length bs) 8"
  show ?case
  proof (cases "bs = []")
    case True
    then show ?thesis using less.prems by (auto simp: zt_write_words.simps)
  next
    case False
    define tw where "tw = (if ?n \<noteq> 8 then
        (case zt_read_remote_memory os pid a 8 w of
           (None, w1) \<Rightarrow> (None, w1) | (Some old, w1) \<Rightarrow> (Some (take ?n bs @ drop ?n old), w1))
        else (Some (take ?n bs), w))"
    obtain t w1 where t: "tw = (t, w1)" by fastforce
    have t1: "mem w1 = mem w \<and> (\<forall>u. t = Some u \<longrightarrow> length u = 8 \<and> mem_put (mem w) a u = mem_put (mem w) a (take ?n bs))"
      using t zt_read_remote_memory_ok [OF ok, of a 8 w] mem_put_keep_tail [of "take ?n bs" 8 "mem w" a]
      by (auto simp: tw_def split: if_splits prod.splits option.splits)
    have unf: "zt_write_words os pid a bs w = (case t of None \<Rightarrow> (False, w1) | Some u \<Rightarrow>
        (case os_pokedata os pid a (le_word u) w1 of (False, w2) \<Rightarrow> (False, w2)
         | (True, w2) \<Rightarrow> zt_write_words os pid (a + of_nat ?n) (drop ?n bs) w2))"
      using False t unfolding zt_write_words.simps [of os pid a bs w] tw_def by (simp add: Let_def)
    show ?thesis
    proof (cases t)
      case None
      with less.prems(1) t1 unf show ?thesis by (intro exI [of _ 0]) auto
    next
      case (Some u)
      obtain b w2 where b: "os_pokedata os pid a (le_word u) w1 = (b, w2)" by fastforce
      note m2 = os_mem_okD(6) [OF ok b]
      show ?thesis
      proof (cases b)
        case False
        with less.prems(1) t1 unf Some b m2 show ?thesis by (intro exI [of _ 0]) auto
      next
        case True
        with unf Some b less.prems(1)
        have rest: "zt_write_words os pid (a + of_nat ?n) (drop ?n bs) w2 = (r, w')" by simp
        have "length (drop ?n bs) < length bs" "length (drop ?n bs) \<le> 2 ^ 64"
          using less.prems(2) \<open>bs \<noteq> []\<close> by simp_all
        from less.hyps [OF this(1) rest this(2)]
        obtain k where k: "mem w' = mem_put (mem w2) (a + of_nat ?n) (take k (drop ?n bs))" "r \<longrightarrow> length (drop ?n bs) \<le> k"
          by blast
        have "mem w2 = mem_put (mem w) a (take ?n bs)" using m2 True t1 Some by (simp add: le64_le_word)
        then have "mem w' = mem_put (mem w) a (take ?n bs @ take k (drop ?n bs))"
          using k(1) mem_put_append [of "take ?n bs" "take k (drop ?n bs)" "mem w" a] less.prems(2) by simp
        also have "take ?n bs @ take k (drop ?n bs) = take (?n + k) bs" by (simp add: take_add)
        finally show ?thesis using k(2) by (intro exI [of _ "?n + k"]) auto
      qed
    qed
  qed
qed

lemma mem_put_take_take:
  "mem_put (mem_put m a (take j bs)) a (take k bs) = mem_put m a (take (max j k) bs)"
  by (auto simp: fun_eq_iff mem_put_def)

lemma zt_write_remote_memory_ok:
  assumes ok: "os_mem_ok os pid mem" and len: "length bs \<le> 2 ^ 64"
    and r: "zt_write_remote_memory os pid a bs w = (r, w')"
  shows "\<exists>k. mem w' = mem_put (mem w) a (take k bs) \<and> (r \<longrightarrow> length bs \<le> k)"
proof (cases "bs = []")
  case True
  then show ?thesis using r by (auto simp: zt_write_remote_memory_def)
next
  case False
  obtain q w1 where q: "os_vm_writev os pid a bs w = (q, w1)" by fastforce
  let ?j = "case q of Some k \<Rightarrow> k | None \<Rightarrow> 0"
  have m1: "mem w1 = mem_put (mem w) a (take ?j bs)" by (rule os_mem_okD(3) [OF ok q])
  show ?thesis
  proof (cases "q = Some (length bs)")
    case True
    with r q False m1 show ?thesis by (intro exI [of _ "length bs"]) (auto simp: zt_write_remote_memory_def)
  next
    case no: False
    then have "zt_write_words os pid a bs w1 = (r, w')" using r q False by (simp add: zt_write_remote_memory_def)
    from zt_write_words_ok [OF ok this len] obtain k where
      "mem w' = mem_put (mem w1) a (take k bs)" "r \<longrightarrow> length bs \<le> k" by blast
    with m1 show ?thesis by (intro exI [of _ "max ?j k"]) (auto simp: mem_put_take_take)
  qed
qed

interpretation rm: remote_memory "zt_read_remote_memory os pid" "zt_write_remote_memory os pid" mem "os_mem_ok os pid mem"
  for os :: "('r, 'w) os" and pid :: int and mem :: "'w \<Rightarrow> u64 \<Rightarrow> u8"
proof
  show "os_mem_ok os pid mem \<Longrightarrow> zt_read_remote_memory os pid a n w = (r, w') \<Longrightarrow> mem w' = mem w" for a n w r w'
    by (rule zt_read_remote_memory_ok(1))
  show "os_mem_ok os pid mem \<Longrightarrow> zt_read_remote_memory os pid a n w = (Some bs, w') \<Longrightarrow> bs = fetch (mem w) a n" for a n w bs w'
    by (rule zt_read_remote_memory_ok(2)) auto
  show "os_mem_ok os pid mem \<Longrightarrow> length bs \<le> 2 ^ 64 \<Longrightarrow> zt_write_remote_memory os pid a bs w = (True, w') \<Longrightarrow>
      mem w' = mem_put (mem w) a bs" for bs a w w'
    using zt_write_remote_memory_ok [of os pid mem bs a w True w'] by auto
  show "os_mem_ok os pid mem \<Longrightarrow> length bs \<le> 2 ^ 64 \<Longrightarrow> zt_write_remote_memory os pid a bs w = (False, w') \<Longrightarrow>
      \<exists>k. mem w' = mem_put (mem w) a (take k bs)" for bs a w w'
    using zt_write_remote_memory_ok [of os pid mem bs a w False w'] by auto
qed

section \<open>What moving memory leaves alone\<close>

text \<open>\<open>f\<close> reads a part of the world that the calls that move memory do not change.\<close>

definition os_frame :: "('r, 'w) os \<Rightarrow> int \<Rightarrow> ('w \<Rightarrow> 'x) \<Rightarrow> bool" where
  "os_frame os pid f =
     ((\<forall>iov w. f (snd (os_vm_readv os pid iov w)) = f w) \<and> (\<forall>a bs w. f (snd (os_vm_writev os pid a bs w)) = f w) \<and>
      (\<forall>a w. f (snd (os_peekdata os pid a w)) = f w) \<and> (\<forall>a v w. f (snd (os_pokedata os pid a v w)) = f w))"

lemma os_frameD:
  assumes "os_frame os pid f"
  shows "os_vm_readv os pid iov w = (r, w') \<Longrightarrow> f w' = f w" "os_vm_writev os pid a bs w = (r2, w') \<Longrightarrow> f w' = f w"
    "os_peekdata os pid a w = (r3, w') \<Longrightarrow> f w' = f w" "os_pokedata os pid a v w = (r4, w') \<Longrightarrow> f w' = f w"
  using assms unfolding os_frame_def by (metis snd_conv)+

lemma zt_read_words_frame:
  "os_frame os pid f \<Longrightarrow> zt_read_words os pid a n w = (r, w') \<Longrightarrow> f w' = f w"
proof (induction os pid a n w arbitrary: r w' rule: zt_read_words.induct)
  case (1 os pid a n w)
  obtain p w1 where p: "os_peekdata os pid a w = (p, w1)" by fastforce
  show ?case
    using 1 p os_frameD(3) [OF "1.prems"(1) p] by (auto simp: zt_read_words.simps [of os pid a n w] split: if_splits option.splits prod.splits)
qed

lemma zt_read_remote_memory_frame:
  assumes "os_frame os pid f" and "zt_read_remote_memory os pid a n w = (r, w')"
  shows "f w' = f w"
proof -
  obtain q w1 where q: "os_vm_readv os pid [(a, n)] w = (q, w1)" by fastforce
  show ?thesis
    using assms(2) q os_frameD(1) [OF assms(1) q] zt_read_words_frame [OF assms(1), of a n w1]
    by (auto simp: zt_read_remote_memory_def split: if_splits option.splits)
qed

lemma zt_write_words_frame:
  "os_frame os pid f \<Longrightarrow> zt_write_words os pid a bs w = (r, w') \<Longrightarrow> f w' = f w"
proof (induction "length bs" arbitrary: a bs w r w' rule: less_induct)
  case less
  show ?case
  proof (cases "bs = []")
    case True
    then show ?thesis using less.prems by (simp add: zt_write_words.simps)
  next
    case False
    let ?n = "min (length bs) 8"
    define tw where "tw = (if ?n \<noteq> 8 then
        (case zt_read_remote_memory os pid a 8 w of
           (None, w1) \<Rightarrow> (None, w1) | (Some old, w1) \<Rightarrow> (Some (take ?n bs @ drop ?n old), w1)) else (Some (take ?n bs), w))"
    obtain t w1 where t: "tw = (t, w1)" by fastforce
    have f1: "f w1 = f w"
      using t zt_read_remote_memory_frame [OF less.prems(1), of a 8 w] unfolding tw_def
      by (auto split: if_splits option.splits prod.splits)
    have r: "(case t of None \<Rightarrow> (False, w1) | Some t \<Rightarrow> (case os_pokedata os pid a (le_word t) w1 of
        (False, w2) \<Rightarrow> (False, w2) | (True, w2) \<Rightarrow> zt_write_words os pid (a + of_nat ?n) (drop ?n bs) w2)) = (r, w')"
      using less.prems(2) False t unfolding zt_write_words.simps [of os pid a bs w] tw_def by (simp add: Let_def)
    show ?thesis
    proof (cases t)
      case None
      with r f1 show ?thesis by simp
    next
      case (Some v)
      obtain b w2 where b: "os_pokedata os pid a (le_word v) w1 = (b, w2)" by fastforce
      have "length (drop ?n bs) < length bs" using False by simp
      from less.hyps [OF this less.prems(1)] r b Some f1 os_frameD(4) [OF less.prems(1) b]
      show ?thesis by (cases b) auto
    qed
  qed
qed

lemma zt_write_remote_memory_frame:
  assumes "os_frame os pid f" and "zt_write_remote_memory os pid a bs w = (r, w')"
  shows "f w' = f w"
proof -
  obtain q w1 where q: "os_vm_writev os pid a bs w = (q, w1)" by fastforce
  show ?thesis
    using assms(2) q os_frameD(2) [OF assms(1) q] zt_write_words_frame [OF assms(1), of a bs w1]
    by (auto simp: zt_write_remote_memory_def split: if_splits)
qed

section \<open>A simulated kernel\<close>

text \<open>
  A concrete instance of the calls, on which the hypotheses about the kernel hold: the world
  is the memory, one register set, the results \<^verbatim>\<open>waitpid\<close> is going to deliver and the
  contents of \<^verbatim>\<open>/proc\<close>. With \<open>sm_vm\<close> unset the vector calls fail, so that the word-wise
  paths run; \<open>run\<close> is what continuing the target does.
\<close>

record 'r sim =
  sm_mem :: "u64 \<Rightarrow> u8"
  sm_regs :: 'r
  sm_vm :: bool
  sm_waits :: "(errno + (int \<times> u32)) list"
  sm_tasks :: "string list"
  sm_maps :: "string list"

definition sim_os :: "('r sim \<Rightarrow> 'r sim) \<Rightarrow> ('r, 'r sim) os" where
  "sim_os run = \<lparr>
     os_vm_readv = (\<lambda>pid iov w. if sm_vm w then (Some (concat (map (\<lambda>(a, n). fetch (sm_mem w) a n) iov)), w) else (None, w)),
     os_vm_writev = (\<lambda>pid a bs w. if sm_vm w then (Some (length bs), w\<lparr>sm_mem := mem_put (sm_mem w) a bs\<rparr>) else (None, w)),
     os_peekdata = (\<lambda>pid a w. (Some (load64 (sm_mem w) a), w)),
     os_pokedata = (\<lambda>pid a v w. (True, w\<lparr>sm_mem := mem_put (sm_mem w) a (le64 v)\<rparr>)),
     os_getregs = (\<lambda>pid w. (Inr (sm_regs w), w)),
     os_setregs = (\<lambda>pid r w. (True, w\<lparr>sm_regs := r\<rparr>)),
     os_cont = (\<lambda>pid sig w. (None, run w)),
     os_singlestep = (\<lambda>pid sig w. (None, run w)),
     os_interrupt = (\<lambda>pid w. (None, w)),
     os_seize = (\<lambda>pid w. (None, w)),
     os_detach = (\<lambda>pid w. w),
     os_waitpid = (\<lambda>pid nohang w. case sm_waits w of [] \<Rightarrow> (if nohang then Inr (0, 0) else Inl ECHILD, w)
       | x # xs \<Rightarrow> (x, w\<lparr>sm_waits := xs\<rparr>)),
     os_kill0 = (\<lambda>pid w. (None, w)),
     os_proc_stat = (\<lambda>pid w. (Inr ''1 (t) S'', w)),
     os_proc_maps = (\<lambda>pid w. (Inr (sm_maps w), w)),
     os_proc_task = (\<lambda>pid w. (Some (sm_tasks w), w)),
     os_proc_exe = (\<lambda>pid w. (Some ''/bin/t'', w)),
     os_pread = (\<lambda>path off n w. (Inl ENOENT, w)),
     os_usleep = (\<lambda>us w. w)\<rparr>"

lemma sim_os_mem_ok: "os_mem_ok (sim_os run) pid sm_mem"
  by (simp add: os_mem_ok_def sim_os_def)

lemma sim_os_frame: "(\<And>w m. f (w\<lparr>sm_mem := m\<rparr>) = f w) \<Longrightarrow> os_frame (sim_os run) pid f"
  by (simp add: os_frame_def sim_os_def)

section \<open>Properties\<close>

text \<open>
  C19. A read of the target's memory returns what is there: whether the vector call moves all
  bytes, some or none, a successful \<^verbatim>\<open>zt_read_remote_memory\<close> returns exactly the bytes at
  the requested addresses, a successful \<^verbatim>\<open>zt_read_remote_iov\<close> the concatenation of its
  pieces, and neither changes the target's memory, also when it fails.
\<close>

theorem remote_read_correct:
  assumes "os_mem_ok os pid mem"
  shows "(zt_read_remote_memory os pid a n w = (r, w') \<longrightarrow> mem w' = mem w \<and> (r \<noteq> None \<longrightarrow> r = Some (fetch (mem w) a n))) \<and>
    (zt_read_remote_iov os pid iov (sum_list (map snd iov)) w = (q, w2) \<longrightarrow>
      mem w2 = mem w \<and> (q \<noteq> None \<longrightarrow> q = Some (concat (map (\<lambda>(a, n). fetch (mem w) a n) iov))))"
  using zt_read_remote_memory_ok [OF assms] zt_read_remote_iov_ok [OF assms _ refl] by blast

definition ex_sim :: "unit sim" where
  "ex_sim = \<lparr>sm_mem = (\<lambda>x. ucast x), sm_regs = (), sm_vm = False, sm_waits = [], sm_tasks = [], sm_maps = []\<rparr>"

theorem remote_read_correct_witness:
  "fst (zt_read_remote_memory (sim_os (\<lambda>w. w)) 1 0x10 3 ex_sim) = Some [0x10, 0x11, 0x12]"
proof -
  obtain r w' where r: "zt_read_remote_memory (sim_os (\<lambda>w. w)) 1 0x10 3 ex_sim = (r, w')" by fastforce
  have "\<not> Option.is_none (fst (zt_read_remote_memory (sim_os (\<lambda>w. w)) 1 0x10 3 ex_sim))" by code_simp
  then have "r \<noteq> None" using r by (cases r) simp_all
  moreover have "fetch (sm_mem ex_sim) 0x10 3 = [0x10, 0x11, 0x12]" by code_simp
  ultimately show ?thesis
    using remote_read_correct [OF sim_os_mem_ok [of "\<lambda>w. w" 1], of "0x10" 3 ex_sim r w'] r by auto
qed

text \<open>
  C20. A write stores the buffer and nothing else: after a successful
  \<^verbatim>\<open>zt_write_remote_memory\<close> the target's memory is the old memory with exactly the bytes of
  the buffer replaced, also when the last word is only partly covered and the word-wise
  path rewrites it; after a failed one a prefix of the buffer may have been stored.
\<close>

theorem remote_write_correct:
  assumes "os_mem_ok os pid mem" and "length bs \<le> 2 ^ 64" and "zt_write_remote_memory os pid a bs w = (r, w')"
  shows "if r then mem w' = mem_put (mem w) a bs else \<exists>k. mem w' = mem_put (mem w) a (take k bs)"
  using rm.wr_True [OF assms(1,2)] rm.wr_False [OF assms(1,2)] assms(3) by auto

theorem remote_write_correct_witness:
  "sm_mem (snd (zt_write_remote_memory (sim_os (\<lambda>w. w)) 1 0x10 [1, 2, 3] ex_sim)) 0x13 = 0x13"
proof -
  obtain r w' where r: "zt_write_remote_memory (sim_os (\<lambda>w. w)) 1 0x10 [1, 2, 3] ex_sim = (r, w')" by fastforce
  have "fst (zt_write_remote_memory (sim_os (\<lambda>w. w)) 1 0x10 [1, 2, 3] ex_sim)" by code_simp
  then have r': "r" using r by simp
  have "mem_put (sm_mem ex_sim) 0x10 [1, 2, 3] 0x13 = 0x13" by (simp add: mem_put_def ex_sim_def)
  then show ?thesis
    using remote_write_correct [OF sim_os_mem_ok [of "\<lambda>w. w" 1] _ r] r r' by simp
qed

end
