(* ===== verification/ZT_RemoteExec.thy ===== *)
theory ZT_RemoteExec
  imports ZT_RemoteMem
begin

text \<open>
  Model of \<^verbatim>\<open>src/isa/common/zt_remote_exec.c\<close>: a stub is written over the code of a stopped
  thread, run until it traps, and code and registers are put back. The C functions for
  system calls and function calls pass their callbacks through untyped bridges; here the
  callbacks are closed over their arguments.

  A result \<open>None\<close> means that the function does not return (a wait that is interrupted
  forever); \<open>Some (None, w)\<close> is the return value -1, \<open>Some (Some v, w)\<close> is 0 with
  \<^verbatim>\<open>*ret_out = v\<close>.
\<close>

record zt_arch_remote_syscall_args_t =
  sa_syscall_no :: u64
  sa_arg1 :: u64
  sa_arg2 :: u64
  sa_arg3 :: u64
  sa_arg4 :: u64
  sa_arg5 :: u64
  sa_arg6 :: u64

record zt_arch_remote_call_args_t =
  ra_func_addr :: u64
  ra_arg1 :: u64
  ra_arg2 :: u64

record ('r, 'w) zt_arch_remote_exec_ops_t =
  ops_get_regs :: "int \<Rightarrow> 'w \<Rightarrow> (errno + 'r) \<times> 'w"
  ops_set_regs :: "int \<Rightarrow> 'r \<Rightarrow> 'w \<Rightarrow> bool \<times> 'w"
  ops_get_pc :: "'r \<Rightarrow> u64"
  ops_get_retval :: "'r \<Rightarrow> u64"

definition zt_arch_restore_regs_and_code ::
  "('r, 'w) os \<Rightarrow> ('r, 'w) zt_arch_remote_exec_ops_t \<Rightarrow> int \<Rightarrow> 'r \<Rightarrow> u64 \<Rightarrow> u8 list \<Rightarrow> 'w \<Rightarrow> bool \<times> 'w" where
  "zt_arch_restore_regs_and_code os ops pid saved_regs stub_pc saved_code w =
     (case ops_set_regs ops pid saved_regs w of
        (b1, w1) \<Rightarrow> (case zt_write_remote_memory os pid stub_pc saved_code w1 of
          (b2, w2) \<Rightarrow> (b1 \<and> b2, w2)))"

text \<open>\<^verbatim>\<open>waitpid\<close> for a single process returns that process or fails.\<close>

partial_function (option) zt_arch_wait_for_stub_stop :: "('r, 'w) os \<Rightarrow> int \<Rightarrow> 'w \<Rightarrow> (u32 option \<times> 'w) option" where
  "zt_arch_wait_for_stub_stop os pid w =
     (case os_waitpid os pid False w of
        (Inr (p, status), w1) \<Rightarrow> Some (if p = pid then Some status else None, w1)
      | (Inl e, w1) \<Rightarrow> if e = EINTR then zt_arch_wait_for_stub_stop os pid w1 else Some (None, w1))"

declare zt_arch_wait_for_stub_stop.simps [code]

definition restore_and_fail ::
  "('r, 'w) os \<Rightarrow> ('r, 'w) zt_arch_remote_exec_ops_t \<Rightarrow> int \<Rightarrow> 'r \<Rightarrow> u64 \<Rightarrow> u8 list \<Rightarrow> 'w \<Rightarrow> (u64 option \<times> 'w) option" where
  "restore_and_fail os ops pid saved_regs stub_pc saved_code w =
     Some (None, snd (zt_arch_restore_regs_and_code os ops pid saved_regs stub_pc saved_code w))"

text \<open>From the point where the stub is in place and the registers are set.\<close>

definition zt_arch_run_stub ::
  "('r, 'w) os \<Rightarrow> ('r, 'w) zt_arch_remote_exec_ops_t \<Rightarrow> int \<Rightarrow> 'r \<Rightarrow> u64 \<Rightarrow> u8 list \<Rightarrow> 'w \<Rightarrow> (u64 option \<times> 'w) option" where
  "zt_arch_run_stub os ops pid saved_regs stub_pc saved_code w =
     (case os_cont os pid 0 w of
        (Some e, w1) \<Rightarrow> restore_and_fail os ops pid saved_regs stub_pc saved_code w1
      | (None, w1) \<Rightarrow>
          do { (st, w2) \<leftarrow> zt_arch_wait_for_stub_stop os pid w1;
               case st of
                 None \<Rightarrow> restore_and_fail os ops pid saved_regs stub_pc saved_code w2
               | Some status \<Rightarrow>
                   if \<not> WIFSTOPPED status \<or> WSTOPSIG status \<noteq> SIGTRAP
                   then restore_and_fail os ops pid saved_regs stub_pc saved_code w2
                   else (case ops_get_regs ops pid w2 of
                       (Inl e, w3) \<Rightarrow> restore_and_fail os ops pid saved_regs stub_pc saved_code w3
                     | (Inr regs, w3) \<Rightarrow>
                         (case zt_arch_restore_regs_and_code os ops pid saved_regs stub_pc saved_code w3 of
                            (b, w4) \<Rightarrow> Some (if b then Some (ops_get_retval ops regs) else None, w4))) })"

definition zt_arch_execute_remote_stub ::
  "('r, 'w) os \<Rightarrow> ('r, 'w) zt_arch_remote_exec_ops_t \<Rightarrow> int \<Rightarrow> nat \<Rightarrow> (u64 \<Rightarrow> nat \<Rightarrow> 'w \<Rightarrow> u64 \<times> 'w) option \<Rightarrow>
   ('r \<Rightarrow> u64 \<Rightarrow> 'r) \<Rightarrow> (u8 list \<Rightarrow> u8 list option) \<Rightarrow> 'w \<Rightarrow> (u64 option \<times> 'w) option" where
  "zt_arch_execute_remote_stub os ops pid stub_size select_stub_pc prepare_regs build_stub w =
     (if pid \<le> 0 \<or> stub_size = 0 then Some (None, w)
      else case ops_get_regs ops pid w of
        (Inl e, w1) \<Rightarrow> Some (None, w1)
      | (Inr saved_regs, w1) \<Rightarrow>
          let current_pc = ops_get_pc ops saved_regs;
              (stub_pc, w2) = (case select_stub_pc of None \<Rightarrow> (current_pc, w1) | Some f \<Rightarrow> f current_pc stub_size w1)
          in if stub_pc = 0 then Some (None, w2)
             else case zt_read_remote_memory os pid stub_pc stub_size w2 of
               (None, w3) \<Rightarrow> Some (None, w3)
             | (Some saved_code, w3) \<Rightarrow>
                 (case build_stub saved_code of
                    None \<Rightarrow> Some (None, w3)
                  | Some stub_code \<Rightarrow>
                      (case zt_write_remote_memory os pid stub_pc stub_code w3 of
                         (False, w4) \<Rightarrow> Some (None, w4)
                       | (True, w4) \<Rightarrow>
                           (case ops_set_regs ops pid (prepare_regs saved_regs stub_pc) w4 of
                              (False, w5) \<Rightarrow> Some (None, snd (zt_write_remote_memory os pid stub_pc saved_code w5))
                            | (True, w5) \<Rightarrow> zt_arch_run_stub os ops pid saved_regs stub_pc saved_code w5))))"

definition zt_arch_execute_syscall6 ::
  "('r, 'w) os \<Rightarrow> ('r, 'w) zt_arch_remote_exec_ops_t \<Rightarrow> int \<Rightarrow> nat \<Rightarrow> (u64 \<Rightarrow> nat \<Rightarrow> 'w \<Rightarrow> u64 \<times> 'w) option \<Rightarrow>
   ('r \<Rightarrow> zt_arch_remote_syscall_args_t \<Rightarrow> u64 \<Rightarrow> 'r) \<Rightarrow> (nat \<Rightarrow> u8 list \<Rightarrow> u8 list option) \<Rightarrow>
   zt_arch_remote_syscall_args_t \<Rightarrow> 'w \<Rightarrow> (u64 option \<times> 'w) option" where
  "zt_arch_execute_syscall6 os ops pid stub_size select_stub_pc prepare_regs build_stub args w =
     zt_arch_execute_remote_stub os ops pid stub_size select_stub_pc
       (\<lambda>saved stub_pc. prepare_regs saved args stub_pc) (build_stub stub_size) w"

definition zt_arch_execute_call2 ::
  "('r, 'w) os \<Rightarrow> ('r, 'w) zt_arch_remote_exec_ops_t \<Rightarrow> int \<Rightarrow> nat \<Rightarrow> (u64 \<Rightarrow> nat \<Rightarrow> 'w \<Rightarrow> u64 \<times> 'w) option \<Rightarrow>
   ('r \<Rightarrow> zt_arch_remote_call_args_t \<Rightarrow> u64 \<Rightarrow> 'r) \<Rightarrow> (nat \<Rightarrow> u8 list \<Rightarrow> u64 \<Rightarrow> u8 list option) \<Rightarrow>
   zt_arch_remote_call_args_t \<Rightarrow> 'w \<Rightarrow> (u64 option \<times> 'w) option" where
  "zt_arch_execute_call2 os ops pid stub_size select_stub_pc prepare_regs build_stub args w =
     zt_arch_execute_remote_stub os ops pid stub_size select_stub_pc
       (\<lambda>saved stub_pc. prepare_regs saved args stub_pc)
       (\<lambda>saved_code. build_stub stub_size saved_code (ra_func_addr args)) w"

section \<open>What is relied on\<close>

text \<open>
  The register calls: reading returns the thread's registers, a successful write replaces
  them, and neither touches memory; moving memory leaves the registers. The target itself,
  when it is continued, may do anything.
\<close>

definition os_regs_ok :: "('r, 'w) os \<Rightarrow> ('r, 'w) zt_arch_remote_exec_ops_t \<Rightarrow> int \<Rightarrow> ('w \<Rightarrow> u64 \<Rightarrow> u8) \<Rightarrow> ('w \<Rightarrow> 'r) \<Rightarrow> bool" where
  "os_regs_ok os ops pid mem regs =
     ((\<forall>w r w'. ops_get_regs ops pid w = (r, w') \<longrightarrow> mem w' = mem w \<and> regs w' = regs w \<and> (\<forall>x. r = Inr x \<longrightarrow> x = regs w)) \<and>
      (\<forall>x w b w'. ops_set_regs ops pid x w = (b, w') \<longrightarrow> mem w' = mem w \<and> (b \<longrightarrow> regs w' = x)) \<and>
      os_frame os pid regs)"

text \<open>Writes of memory and registers of a stopped thread succeed.\<close>

definition os_reliable :: "('r, 'w) os \<Rightarrow> ('r, 'w) zt_arch_remote_exec_ops_t \<Rightarrow> int \<Rightarrow> bool" where
  "os_reliable os ops pid =
     ((\<forall>a bs w. bs \<noteq> [] \<longrightarrow> fst (zt_write_remote_memory os pid a bs w)) \<and> (\<forall>x w. fst (ops_set_regs ops pid x w)))"

lemma os_regs_okD:
  assumes "os_regs_ok os ops pid mem regs"
  shows "ops_get_regs ops pid w = (r, w') \<Longrightarrow> mem w' = mem w"
    and "ops_get_regs ops pid w = (r, w') \<Longrightarrow> regs w' = regs w"
    and "ops_get_regs ops pid w = (Inr x, w') \<Longrightarrow> x = regs w"
    and "ops_set_regs ops pid y w = (b, w') \<Longrightarrow> mem w' = mem w"
    and "ops_set_regs ops pid y w = (True, w') \<Longrightarrow> regs w' = y"
    and "zt_write_remote_memory os pid a bs w = (b, w') \<Longrightarrow> regs w' = regs w"
    and "zt_read_remote_memory os pid a n w = (q, w') \<Longrightarrow> regs w' = regs w"
proof -
  note c = assms [unfolded os_regs_ok_def]
  show "ops_get_regs ops pid w = (r, w') \<Longrightarrow> mem w' = mem w" "ops_get_regs ops pid w = (r, w') \<Longrightarrow> regs w' = regs w"
      "ops_get_regs ops pid w = (Inr x, w') \<Longrightarrow> x = regs w"
    using c [THEN conjunct1] by blast+
  show "ops_set_regs ops pid y w = (b, w') \<Longrightarrow> mem w' = mem w" "ops_set_regs ops pid y w = (True, w') \<Longrightarrow> regs w' = y"
    using c [THEN conjunct2, THEN conjunct1] by blast+
  note f = c [THEN conjunct2, THEN conjunct2]
  show "zt_write_remote_memory os pid a bs w = (b, w') \<Longrightarrow> regs w' = regs w"
    by (rule zt_write_remote_memory_frame [OF f])
  show "zt_read_remote_memory os pid a n w = (q, w') \<Longrightarrow> regs w' = regs w"
    by (rule zt_read_remote_memory_frame [OF f])
qed

lemma restore_effect:
  assumes ok: "os_mem_ok os pid mem" "os_regs_ok os ops pid mem regs" and len: "length code \<le> 2 ^ 64"
    and r: "zt_arch_restore_regs_and_code os ops pid saved pc code w = (b, w')" and b: "b \<or> (os_reliable os ops pid \<and> code \<noteq> [])"
  shows "regs w' = saved" and "fetch (mem w') pc (length code) = code"
proof -
  obtain b1 w1 where 1: "ops_set_regs ops pid saved w = (b1, w1)" by fastforce
  obtain b2 w2 where 2: "zt_write_remote_memory os pid pc code w1 = (b2, w2)" by fastforce
  have e: "b = (b1 \<and> b2)" "w' = w2" using r 1 2 by (simp_all add: zt_arch_restore_regs_and_code_def)
  have t: b1 b2
    using b e 1 2 unfolding os_reliable_def by (metis fst_conv)+
  show "regs w' = saved" using os_regs_okD(5,6) [OF ok(2)] 1 2 t e(2) by metis
  have "mem w2 = mem_put (mem w1) pc code" using rm.wr_True [OF ok(1) len] 2 t by simp
  then show "fetch (mem w') pc (length code) = code" using e(2) fetch_mem_put_same [OF len] by simp
qed

lemma run_stub_effect:
  assumes ok: "os_mem_ok os pid mem" "os_regs_ok os ops pid mem regs" and len: "length code \<le> 2 ^ 64" "code \<noteq> []"
    and r: "zt_arch_run_stub os ops pid saved pc code w = Some (r, w')" and good: "r \<noteq> None \<or> os_reliable os ops pid"
  shows "regs w' = saved \<and> fetch (mem w') pc (length code) = code"
proof -
  have f: "regs w' = saved \<and> fetch (mem w') pc (length code) = code"
    if h: "restore_and_fail os ops pid saved pc code u = Some (r, w')" for u
  proof -
    obtain b where "zt_arch_restore_regs_and_code os ops pid saved pc code u = (b, w')"
      using h by (cases "zt_arch_restore_regs_and_code os ops pid saved pc code u") (simp add: restore_and_fail_def)
    from restore_effect [OF ok len(1) this] good h len(2) show ?thesis by (auto simp: restore_and_fail_def)
  qed
  have g: "regs w' = saved \<and> fetch (mem w') pc (length code) = code"
    if h: "(case zt_arch_restore_regs_and_code os ops pid saved pc code u of (b, w4) \<Rightarrow> Some (if b then Some v else None, w4)) =
      Some (r, w')" for u v
  proof -
    obtain b where b: "zt_arch_restore_regs_and_code os ops pid saved pc code u = (b, w')" "r = (if b then Some v else None)"
      using h by (cases "zt_arch_restore_regs_and_code os ops pid saved pc code u") auto
    from restore_effect [OF ok len(1) b(1)] good b(2) len(2) show ?thesis by (cases b) auto
  qed
  obtain e w1 where c: "os_cont os pid 0 w = (e, w1)" by fastforce
  show ?thesis
  proof (cases e)
    case (Some x)
    then show ?thesis using r c f unfolding zt_arch_run_stub_def by simp
  next
    case None
    then obtain st w2 where w2: "zt_arch_wait_for_stub_stop os pid w1 = Some (st, w2)"
      using r c by (auto simp: zt_arch_run_stub_def bind_eq_Some_conv)
    obtain q w3 where q: "ops_get_regs ops pid w2 = (q, w3)" by fastforce
    show ?thesis
      using r c None w2 q f g unfolding zt_arch_run_stub_def
      by (cases st; cases q) (simp_all split: if_splits)
  qed
qed

text \<open>Where the stub goes: the program counter, or where the instruction set wants it.\<close>

definition chosen_stub_pc ::
  "('r, 'w) zt_arch_remote_exec_ops_t \<Rightarrow> int \<Rightarrow> nat \<Rightarrow> (u64 \<Rightarrow> nat \<Rightarrow> 'w \<Rightarrow> u64 \<times> 'w) option \<Rightarrow> 'r \<Rightarrow> 'w \<Rightarrow> u64" where
  "chosen_stub_pc ops pid n sel r w =
     (case sel of None \<Rightarrow> ops_get_pc ops r | Some f \<Rightarrow> fst (f (ops_get_pc ops r) n (snd (ops_get_regs ops pid w))))"

definition select_ok :: "(u64 \<Rightarrow> nat \<Rightarrow> 'w \<Rightarrow> u64 \<times> 'w) option \<Rightarrow> ('w \<Rightarrow> u64 \<Rightarrow> u8) \<Rightarrow> ('w \<Rightarrow> 'r) \<Rightarrow> bool" where
  "select_ok sel mem regs = (\<forall>f pc n w. sel = Some f \<longrightarrow> mem (snd (f pc n w)) = mem w \<and> regs (snd (f pc n w)) = regs w)"

lemma execute_stub_restores:
  assumes ok: "os_mem_ok os pid mem" "os_regs_ok os ops pid mem regs" "select_ok sel mem regs" and n: "n \<le> 2 ^ 64"
    and build: "\<And>c s. length c = n \<Longrightarrow> build_stub c = Some s \<Longrightarrow> length s = n"
    and r: "zt_arch_execute_remote_stub os ops pid n sel prepare build_stub w = Some (r, w')"
    and good: "r \<noteq> None \<or> os_reliable os ops pid"
  defines "pc \<equiv> chosen_stub_pc ops pid n sel (regs w) w"
  shows "regs w' = regs w \<and> fetch (mem w') pc n = fetch (mem w) pc n"
proof (cases "pid \<le> 0 \<or> n = 0")
  case True
  then show ?thesis using r by (auto simp: zt_arch_execute_remote_stub_def)
next
  case False
  obtain q w1 where q: "ops_get_regs ops pid w = (q, w1)" by fastforce
  note m1 = os_regs_okD(1,2) [OF ok(2) q]
  show ?thesis
  proof (cases q)
    case (Inl e)
    then show ?thesis using r q m1 False by (simp add: zt_arch_execute_remote_stub_def)
  next
    case (Inr saved)
    have saved: "saved = regs w" by (rule os_regs_okD(3) [OF ok(2) q [unfolded Inr]])
    obtain w2 where s: "(case sel of None \<Rightarrow> (ops_get_pc ops saved, w1) | Some f \<Rightarrow> f (ops_get_pc ops saved) n w1) = (pc, w2)"
      unfolding pc_def chosen_stub_pc_def saved [symmetric] q by (cases sel) (auto simp: prod_eq_iff)
    have m2: "mem w2 = mem w" "regs w2 = regs w"
      using s m1 ok(3) unfolding select_ok_def by (auto split: option.splits) (metis snd_conv)+
    obtain c w3 where c: "zt_read_remote_memory os pid pc n w2 = (c, w3)" by fastforce
    have m3: "mem w3 = mem w" "regs w3 = regs w"
      using rm.rd_mem [OF ok(1) c] os_regs_okD(7) [OF ok(2) c] m2 by simp_all
    have cs: "code = fetch (mem w) pc n" if "c = Some code" for code
      using rm.rd_Some [OF ok(1) c [unfolded that]] m2 by simp
    have rest: "regs w' = regs w \<and> fetch (mem w') pc n = fetch (mem w) pc n"
      if code: "c = Some code" and stub: "build_stub code = Some stub"
        and e: "(case zt_write_remote_memory os pid pc stub w3 of (False, w4) \<Rightarrow> Some (None, w4)
          | (True, w4) \<Rightarrow> (case ops_set_regs ops pid (prepare saved pc) w4 of
              (False, w5) \<Rightarrow> Some (None, snd (zt_write_remote_memory os pid pc code w5))
            | (True, w5) \<Rightarrow> zt_arch_run_stub os ops pid saved pc code w5)) = Some (r, w')" for code stub
    proof -
      have lc: "length code = n" by (simp add: cs [OF code])
      then have l: "length code = n" "length stub = n" "code \<noteq> []" "stub \<noteq> []" "length code \<le> 2 ^ 64"
        using build [OF lc stub] False n by force+
      obtain b4 w4 where 4: "zt_write_remote_memory os pid pc stub w3 = (b4, w4)" by fastforce
      obtain b5 w5 where 5: "ops_set_regs ops pid (prepare saved pc) w4 = (b5, w5)" by fastforce
      have "b4" "b5" using e 4 5 good l(4) unfolding os_reliable_def
        by (auto split: bool.splits) (metis fst_conv)+
      then have "zt_arch_run_stub os ops pid saved pc code w5 = Some (r, w')" using e 4 5 by simp
      from run_stub_effect [OF ok(1,2) l(5,3) this good] show ?thesis
        using l(1) cs [OF code] saved by simp
    qed
    show ?thesis
      using r q s c m2 m3 rest False Inr unfolding zt_arch_execute_remote_stub_def
      by (auto simp: Let_def split: if_splits option.splits)
  qed
qed

text \<open>The simulated kernel keeps these contracts.\<close>

lemma sim_os_regs_ok:
  assumes "ops_get_regs ops = os_getregs (sim_os run)" and "ops_set_regs ops = os_setregs (sim_os run)"
  shows "os_regs_ok (sim_os run) ops pid sm_mem sm_regs"
  using assms sim_os_frame [of sm_regs run pid] by (simp add: os_regs_ok_def sim_os_def)

end
