(* ===== verification/ZT_Arch.thy ===== *)
theory ZT_Arch
  imports ZT_RemoteExec ZT_Data
begin

text \<open>
  The architecture boundary of \<^verbatim>\<open>include/zt_arch.h\<close> and \<^verbatim>\<open>zt_build_trampoline\<close>: the
  operations the instruction-set backends provide to the injector and the runner, collected
  in a record because the two backends are alternatives of one build. The locale
  \<open>probe_arch\<close> states what the probe code relies on; both backends interpret it.
\<close>

record ('r, 'w) zt_arch =
  zt_arch_probe_patch_len :: nat
  zt_arch_calc_patch_span :: "u8 list \<Rightarrow> nat \<Rightarrow> nat option"
  zt_arch_install_jump :: "('r, 'w) os \<Rightarrow> int \<Rightarrow> u64 \<Rightarrow> u64 \<Rightarrow> 'w \<Rightarrow> bool \<times> 'w"
  zt_arch_get_pc :: "('r, 'w) os \<Rightarrow> int \<Rightarrow> 'w \<Rightarrow> (errno + u64) \<times> 'w"
  zt_arch_remote_syscall6 :: "('r, 'w) os \<Rightarrow> int \<Rightarrow> zt_arch_remote_syscall_args_t \<Rightarrow> 'w \<Rightarrow> (u64 option \<times> 'w) option"
  zt_arch_remote_call2 :: "('r, 'w) os \<Rightarrow> int \<Rightarrow> zt_arch_remote_call_args_t \<Rightarrow> 'w \<Rightarrow> (u64 option \<times> 'w) option"
  zt_arch_build_trampoline :: "zt_probe_info_t \<Rightarrow> u64 \<Rightarrow> u64 \<Rightarrow> (u8 list \<times> nat) option"
  zt_arch_SYS_mmap :: u64
  zt_arch_SYS_munmap :: u64

locale probe_arch =
  fixes A :: "('r, 'w) zt_arch"
    and patch :: "u64 \<Rightarrow> u8 list"
    and disasm_ok :: bool
  assumes patch_length: "length (patch t) = zt_arch_probe_patch_len A"
    and patch_nonempty: "patch t \<noteq> []"
    and patch_small: "zt_arch_probe_patch_len A \<le> ZT_PROBE_ORIG_CODE_MAX"
    and install_writes: "zt_arch_install_jump A os pid p t w =
      (if p = 0 \<or> t = 0 then (False, w) else zt_write_remote_memory os pid p (patch t) w)"
    and span_covers: "disasm_ok \<Longrightarrow> zt_arch_calc_patch_span A code m = Some n \<Longrightarrow> m \<le> n \<and> n \<le> length code"
begin

text \<open>Installing the jump changes the patch bytes and nothing else.\<close>

lemma install_effect:
  assumes "os_mem_ok os pid mem" and "zt_arch_install_jump A os pid p t w = (True, w')"
  shows "mem w' = mem_put (mem w) p (patch t)" and "p \<noteq> 0" and "t \<noteq> 0"
proof -
  have l: "length (patch t) \<le> 2 ^ 64"
    using patch_small patch_length [of t] by (simp add: ZT_PROBE_ORIG_CODE_MAX_def)
  show "p \<noteq> 0" "t \<noteq> 0" using assms(2) by (auto simp: install_writes split: if_splits)
  then show "mem w' = mem_put (mem w) p (patch t)"
    using rm.wr_True [OF assms(1) l] assms(2) by (simp add: install_writes)
qed

text \<open>Writing the saved bytes back undoes the jump: they cover it.\<close>

lemma install_restore:
  assumes os: "os_mem_ok os pid mem" and orig: "orig = fetch (mem w) p (length orig)"
    and len: "zt_arch_probe_patch_len A \<le> length orig" "length orig \<le> 2 ^ 64"
    and inst: "mem w1 = mem_put (mem w) p (patch t)"
    and undo: "zt_write_remote_memory os pid p orig w1 = (True, w2)"
  shows "mem w2 = mem w"
proof -
  have "mem w2 = mem_put (mem w1) p orig" using rm.wr_True [OF os len(2) undo] .
  moreover have "orig ! unat (x - p) = mem w x" if "unat (x - p) < length orig" for x
  proof -
    have "orig ! unat (x - p) = fetch (mem w) p (length orig) ! unat (x - p)" using orig by simp
    also have "\<dots> = mem w x" using that by simp
    finally show ?thesis .
  qed
  ultimately show ?thesis
    using len patch_length [of t] by (auto simp: fun_eq_iff mem_put_def inst)
qed

end

end
