(* ===== verification/ZT_ArchX86.thy ===== *)
theory ZT_ArchX86
  imports ZT_Arch ZT_TrampX86
begin

text \<open>
  Model of \<^verbatim>\<open>src/isa/x86_64/arch.c\<close>: the patch, the length of the code it replaces, and the
  stubs for remote system calls and calls. The names that both backends define carry the
  prefix \<open>x86_\<close>.
\<close>

definition ZT_X86_64_PATCH_LEN :: nat where "ZT_X86_64_PATCH_LEN = 14"
definition ZT_X86_64_REMOTE_SYSCALL_CODE_SIZE :: nat where "ZT_X86_64_REMOTE_SYSCALL_CODE_SIZE = 8"
definition ZT_X86_64_REMOTE_CALL_CODE_SIZE :: nat where "ZT_X86_64_REMOTE_CALL_CODE_SIZE = 16"

text \<open>\<^verbatim>\<open>struct user_regs_struct\<close> of the kernel.\<close>

record user_regs_struct =
  ur_r15 :: u64
  ur_r14 :: u64
  ur_r13 :: u64
  ur_r12 :: u64
  ur_rbp :: u64
  ur_rbx :: u64
  ur_r11 :: u64
  ur_r10 :: u64
  ur_r9 :: u64
  ur_r8 :: u64
  ur_rax :: u64
  ur_rcx :: u64
  ur_rdx :: u64
  ur_rsi :: u64
  ur_rdi :: u64
  ur_orig_rax :: u64
  ur_rip :: u64
  ur_cs :: u64
  ur_eflags :: u64
  ur_rsp :: u64
  ur_ss :: u64
  ur_fs_base :: u64
  ur_gs_base :: u64
  ur_ds :: u64
  ur_es :: u64
  ur_fs :: u64
  ur_gs :: u64

definition x86_get_regs :: "(user_regs_struct, 'w) os \<Rightarrow> int \<Rightarrow> 'w \<Rightarrow> (errno + user_regs_struct) \<times> 'w" where
  "x86_get_regs os pid w = os_getregs os pid w"

definition x86_set_regs :: "(user_regs_struct, 'w) os \<Rightarrow> int \<Rightarrow> user_regs_struct \<Rightarrow> 'w \<Rightarrow> bool \<times> 'w" where
  "x86_set_regs os pid regs w = os_setregs os pid regs w"

definition x86_get_pc :: "user_regs_struct \<Rightarrow> u64" where
  "x86_get_pc regs = ur_rip regs"

definition x86_get_retval :: "user_regs_struct \<Rightarrow> u64" where
  "x86_get_retval regs = ur_rax regs"

definition x86_prepare_syscall_regs ::
  "user_regs_struct \<Rightarrow> zt_arch_remote_syscall_args_t \<Rightarrow> u64 \<Rightarrow> user_regs_struct" where
  "x86_prepare_syscall_regs regs args stub_pc =
     regs\<lparr>ur_rax := sa_syscall_no args, ur_rdi := sa_arg1 args, ur_rsi := sa_arg2 args, ur_rdx := sa_arg3 args,
       ur_r10 := sa_arg4 args, ur_r8 := sa_arg5 args, ur_r9 := sa_arg6 args\<rparr>"

definition x86_prepare_call_regs ::
  "user_regs_struct \<Rightarrow> zt_arch_remote_call_args_t \<Rightarrow> u64 \<Rightarrow> user_regs_struct" where
  "x86_prepare_call_regs regs args stub_pc = regs\<lparr>ur_rdi := ra_arg1 args, ur_rsi := ra_arg2 args\<rparr>"

definition x86_build_syscall_stub :: "nat \<Rightarrow> u8 list \<Rightarrow> u8 list option" where
  "x86_build_syscall_stub stub_size saved_code =
     (if stub_size \<noteq> ZT_X86_64_REMOTE_SYSCALL_CODE_SIZE then None
      else Some (saved_code[0 := 0x0f, 1 := 0x05, 2 := 0xcc]))"

definition x86_build_call_stub :: "nat \<Rightarrow> u8 list \<Rightarrow> u64 \<Rightarrow> u8 list option" where
  "x86_build_call_stub stub_size saved_code func_addr =
     (if stub_size \<noteq> ZT_X86_64_REMOTE_CALL_CODE_SIZE then None
      else Some ((buf_put (saved_code[0 := 0x48, 1 := 0xB8]) 2 (le64 func_addr))[10 := 0xFF, 11 := 0xD0, 12 := 0xCC]))"

definition x86_kRemoteExecOps :: "(user_regs_struct, 'w) os \<Rightarrow> (user_regs_struct, 'w) zt_arch_remote_exec_ops_t" where
  "x86_kRemoteExecOps os = \<lparr>ops_get_regs = x86_get_regs os, ops_set_regs = x86_set_regs os,
     ops_get_pc = x86_get_pc, ops_get_retval = x86_get_retval\<rparr>"

definition x86_arch_get_pc :: "(user_regs_struct, 'w) os \<Rightarrow> int \<Rightarrow> 'w \<Rightarrow> (errno + u64) \<times> 'w" where
  "x86_arch_get_pc os pid w =
     (case x86_get_regs os pid w of (Inl e, w1) \<Rightarrow> (Inl e, w1) | (Inr regs, w1) \<Rightarrow> (Inr (x86_get_pc regs), w1))"

definition x86_arch_probe_patch_len :: nat where
  "x86_arch_probe_patch_len = ZT_X86_64_PATCH_LEN"

fun x86_patch_span_loop :: "nat \<Rightarrow> nat \<Rightarrow> x86_insn list \<Rightarrow> nat option" where
  "x86_patch_span_loop min_len total_len [] = None"
| "x86_patch_span_loop min_len total_len (i # is) =
     (let total_len = total_len + xi_size i in
      if total_len \<ge> min_len then Some total_len else x86_patch_span_loop min_len total_len is)"

definition x86_arch_calc_patch_span :: "x86_disasm \<Rightarrow> u8 list \<Rightarrow> nat \<Rightarrow> nat option" where
  "x86_arch_calc_patch_span disasm code min_len =
     (if length code < min_len then None
      else case disasm code 0 of
          None \<Rightarrow> None
        | Some insn \<Rightarrow> if insn = [] then None else x86_patch_span_loop min_len 0 insn)"

definition x86_patch :: "u64 \<Rightarrow> u8 list" where
  "x86_patch target_addr = [0xFF, 0x25] @ replicate 4 0 @ le64 target_addr"

definition x86_arch_install_jump :: "(user_regs_struct, 'w) os \<Rightarrow> int \<Rightarrow> u64 \<Rightarrow> u64 \<Rightarrow> 'w \<Rightarrow> bool \<times> 'w" where
  "x86_arch_install_jump os pid patch_addr target_addr w =
     (if patch_addr = 0 \<or> target_addr = 0 then (False, w)
      else zt_write_remote_memory os pid patch_addr (x86_patch target_addr) w)"

definition x86_arch_remote_syscall6 ::
  "(user_regs_struct, 'w) os \<Rightarrow> int \<Rightarrow> zt_arch_remote_syscall_args_t \<Rightarrow> 'w \<Rightarrow> (u64 option \<times> 'w) option" where
  "x86_arch_remote_syscall6 os pid args w =
     zt_arch_execute_syscall6 os (x86_kRemoteExecOps os) pid ZT_X86_64_REMOTE_SYSCALL_CODE_SIZE None
       x86_prepare_syscall_regs x86_build_syscall_stub args w"

definition x86_arch_remote_call2 ::
  "(user_regs_struct, 'w) os \<Rightarrow> int \<Rightarrow> zt_arch_remote_call_args_t \<Rightarrow> 'w \<Rightarrow> (u64 option \<times> 'w) option" where
  "x86_arch_remote_call2 os pid args w =
     zt_arch_execute_call2 os (x86_kRemoteExecOps os) pid ZT_X86_64_REMOTE_CALL_CODE_SIZE None
       x86_prepare_call_regs x86_build_call_stub args w"

definition x86_arch :: "x86_disasm \<Rightarrow> (user_regs_struct, 'w) zt_arch" where
  "x86_arch disasm = \<lparr>zt_arch_probe_patch_len = x86_arch_probe_patch_len,
     zt_arch_calc_patch_span = x86_arch_calc_patch_span disasm,
     zt_arch_install_jump = x86_arch_install_jump, zt_arch_get_pc = x86_arch_get_pc,
     zt_arch_remote_syscall6 = x86_arch_remote_syscall6, zt_arch_remote_call2 = x86_arch_remote_call2,
     zt_arch_build_trampoline =
       (\<lambda>probe stub addr. x86_build_trampoline disasm probe stub addr ZT_TRAMPOLINE_MAX_SIZE),
     zt_arch_SYS_mmap = 9, zt_arch_SYS_munmap = 11\<rparr>"

section \<open>The backend keeps the contract\<close>

text \<open>The disassembler consumes no more bytes than it is given.\<close>

definition x86_disasm_ok :: "x86_disasm \<Rightarrow> bool" where
  "x86_disasm_ok disasm = (\<forall>code a is. disasm code a = Some is \<longrightarrow> sum_list (map xi_size is) \<le> length code)"

text \<open>The span is the shortest prefix of whole instructions that covers the patch.\<close>

lemma x86_patch_span_loop_Some:
  "x86_patch_span_loop m t is = Some n \<Longrightarrow>
     \<exists>k \<le> length is. n = t + sum_list (map xi_size (take k is)) \<and> m \<le> n \<and>
       (\<forall>j < k. 0 < j \<longrightarrow> t + sum_list (map xi_size (take j is)) < m)"
proof (induction "is" arbitrary: t)
  case (Cons i "is")
  show ?case
  proof (cases "t + xi_size i \<ge> m")
    case True
    with Cons.prems show ?thesis by (intro exI [of _ 1]) (auto simp: Let_def)
  next
    case False
    with Cons.prems have "x86_patch_span_loop m (t + xi_size i) is = Some n" by (simp add: Let_def)
    from Cons.IH [OF this] obtain k where k: "k \<le> length is" "n = t + xi_size i + sum_list (map xi_size (take k is))" "m \<le> n"
      "\<forall>j < k. 0 < j \<longrightarrow> t + xi_size i + sum_list (map xi_size (take j is)) < m" by blast
    have "t + sum_list (map xi_size (take j (i # is))) < m" if "j < Suc k" "0 < j" for j
      using that k(4) False by (cases j; cases "j - 1") (auto simp: add.assoc)
    with k show ?thesis by (intro exI [of _ "Suc k"]) auto
  qed
qed simp

lemma sum_list_take_le: "sum_list (map f (take k xs)) \<le> sum_list (map f xs :: nat list)"
  by (metis append_take_drop_id map_append sum_list_append le_add1)

interpretation x86: probe_arch "x86_arch disasm" x86_patch "x86_disasm_ok disasm"
  for disasm :: x86_disasm
proof
  show "length (x86_patch t) = zt_arch_probe_patch_len (x86_arch disasm)" for t
    by (simp add: x86_patch_def x86_arch_def x86_arch_probe_patch_len_def ZT_X86_64_PATCH_LEN_def)
  show "x86_patch t \<noteq> []" for t by (simp add: x86_patch_def)
  show "zt_arch_probe_patch_len (x86_arch disasm) \<le> ZT_PROBE_ORIG_CODE_MAX"
    by (simp add: x86_arch_def x86_arch_probe_patch_len_def ZT_X86_64_PATCH_LEN_def ZT_PROBE_ORIG_CODE_MAX_def)
  show "zt_arch_install_jump (x86_arch disasm) os pid p t w =
      (if p = 0 \<or> t = 0 then (False, w) else zt_write_remote_memory os pid p (x86_patch t) w)" for os pid p t w
    by (simp add: x86_arch_def x86_arch_install_jump_def)
  show "m \<le> n \<and> n \<le> length code"
    if d: "x86_disasm_ok disasm" and s: "zt_arch_calc_patch_span (x86_arch disasm) code m = Some n" for code m n
  proof -
    obtain "is" where i: "disasm code 0 = Some is" "x86_patch_span_loop m 0 is = Some n"
      using s by (auto simp: x86_arch_def x86_arch_calc_patch_span_def split: if_splits option.splits)
    from x86_patch_span_loop_Some [OF i(2)] obtain k where "n = sum_list (map xi_size (take k is))" "m \<le> n" by auto
    moreover have "sum_list (map xi_size is) \<le> length code" using d i(1) by (simp add: x86_disasm_ok_def)
    ultimately show ?thesis using sum_list_take_le [of xi_size k "is"] by simp
  qed
qed

end
