(* ===== verification/ZT_ArchA64.thy ===== *)
theory ZT_ArchA64
  imports ZT_Arch ZT_TrampA64
begin

text \<open>
  Model of \<^verbatim>\<open>src/isa/aarch64/arch.c\<close>: the patch, the length of the code it replaces, and the
  stubs for remote system calls and calls. The names that both backends define carry the
  prefix \<open>a64_\<close>.
\<close>

definition ZT_AARCH64_PATCH_LEN :: nat where "ZT_AARCH64_PATCH_LEN = 16"
definition ZT_AARCH64_REMOTE_SYSCALL_CODE_SIZE :: nat where "ZT_AARCH64_REMOTE_SYSCALL_CODE_SIZE = 8"
definition ZT_AARCH64_REMOTE_CALL_CODE_SIZE :: nat where "ZT_AARCH64_REMOTE_CALL_CODE_SIZE = 24"

text \<open>\<^verbatim>\<open>struct user_pt_regs\<close> of the kernel; \<open>pt_regs\<close> has 31 elements.\<close>

record user_pt_regs =
  pt_regs :: "u64 list"
  pt_sp :: u64
  pt_pc :: u64
  pt_pstate :: u64

definition zt_store_u32 :: "u8 list \<Rightarrow> nat \<Rightarrow> u32 \<Rightarrow> u8 list" where
  "zt_store_u32 buf offset v = buf_put buf offset (le32 v)"

definition zt_remote_stub_pc :: "(user_pt_regs, 'w) os \<Rightarrow> int \<Rightarrow> u64 \<Rightarrow> nat \<Rightarrow> 'w \<Rightarrow> u64 \<times> 'w" where
  "zt_remote_stub_pc os pid current_pc stub_size w =
     (if current_pc = 0 then (0, w)
      else case zt_read_remote_memory os pid current_pc 4 w of
          (None, w1) \<Rightarrow> (current_pc, w1)
        | (Some bs, w1) \<Rightarrow>
            if (le_word bs :: u32) = 0xD4000001
            then (case zt_read_remote_memory os pid (current_pc + 4) stub_size w1 of
                    (r, w2) \<Rightarrow> (if r \<noteq> None then current_pc + 4 else current_pc, w2))
            else (current_pc, w1))"

definition a64_get_regs :: "(user_pt_regs, 'w) os \<Rightarrow> int \<Rightarrow> 'w \<Rightarrow> (errno + user_pt_regs) \<times> 'w" where
  "a64_get_regs os pid w = os_getregs os pid w"

definition a64_set_regs :: "(user_pt_regs, 'w) os \<Rightarrow> int \<Rightarrow> user_pt_regs \<Rightarrow> 'w \<Rightarrow> bool \<times> 'w" where
  "a64_set_regs os pid regs w = os_setregs os pid regs w"

definition a64_get_pc :: "user_pt_regs \<Rightarrow> u64" where
  "a64_get_pc regs = pt_pc regs"

definition a64_get_retval :: "user_pt_regs \<Rightarrow> u64" where
  "a64_get_retval regs = pt_regs regs ! 0"

definition a64_prepare_syscall_regs ::
  "user_pt_regs \<Rightarrow> zt_arch_remote_syscall_args_t \<Rightarrow> u64 \<Rightarrow> user_pt_regs" where
  "a64_prepare_syscall_regs regs args stub_pc =
     regs\<lparr>pt_pc := stub_pc, pt_regs := (pt_regs regs)[0 := sa_arg1 args, 1 := sa_arg2 args, 2 := sa_arg3 args,
       3 := sa_arg4 args, 4 := sa_arg5 args, 5 := sa_arg6 args, 8 := sa_syscall_no args]\<rparr>"

definition a64_prepare_call_regs ::
  "user_pt_regs \<Rightarrow> zt_arch_remote_call_args_t \<Rightarrow> u64 \<Rightarrow> user_pt_regs" where
  "a64_prepare_call_regs regs args stub_pc =
     regs\<lparr>pt_pc := stub_pc, pt_regs := (pt_regs regs)[0 := ra_arg1 args, 1 := ra_arg2 args]\<rparr>"

text \<open>
  The stub buffer is uninitialized; the system call stub writes every byte of it, so that the
  value it starts with here does not matter. The saved code is not used.
\<close>

definition a64_build_syscall_stub :: "nat \<Rightarrow> u8 list \<Rightarrow> u8 list option" where
  "a64_build_syscall_stub stub_size saved_code =
     (if stub_size \<noteq> ZT_AARCH64_REMOTE_SYSCALL_CODE_SIZE then None
      else Some (zt_store_u32 (zt_store_u32 (replicate stub_size 0) 0 0xD4000001) 4 0xD4200000))"

definition a64_build_call_stub :: "nat \<Rightarrow> u8 list \<Rightarrow> u64 \<Rightarrow> u8 list option" where
  "a64_build_call_stub stub_size saved_code func_addr =
     (if stub_size \<noteq> ZT_AARCH64_REMOTE_CALL_CODE_SIZE then None
      else let stub_code = replicate stub_size 0;
               stub_code = zt_store_u32 stub_code 0 0x58000090;
               stub_code = zt_store_u32 stub_code 4 0xD63F0200;
               stub_code = zt_store_u32 stub_code 8 0xD4200000;
               stub_code = zt_store_u32 stub_code 12 0xD503201F
           in Some (buf_put stub_code 16 (le64 func_addr)))"

definition a64_kRemoteExecOps :: "(user_pt_regs, 'w) os \<Rightarrow> (user_pt_regs, 'w) zt_arch_remote_exec_ops_t" where
  "a64_kRemoteExecOps os = \<lparr>ops_get_regs = a64_get_regs os, ops_set_regs = a64_set_regs os,
     ops_get_pc = a64_get_pc, ops_get_retval = a64_get_retval\<rparr>"

definition a64_arch_get_pc :: "(user_pt_regs, 'w) os \<Rightarrow> int \<Rightarrow> 'w \<Rightarrow> (errno + u64) \<times> 'w" where
  "a64_arch_get_pc os pid w =
     (case a64_get_regs os pid w of (Inl e, w1) \<Rightarrow> (Inl e, w1) | (Inr regs, w1) \<Rightarrow> (Inr (a64_get_pc regs), w1))"

definition a64_arch_probe_patch_len :: nat where
  "a64_arch_probe_patch_len = ZT_AARCH64_PATCH_LEN"

text \<open>Clearing the low bits with the complement of \<^verbatim>\<open>ZT_AARCH64_INSN_SIZE - 1\<close> rounds down.\<close>

definition a64_arch_calc_patch_span :: "u8 list \<Rightarrow> nat \<Rightarrow> nat option" where
  "a64_arch_calc_patch_span code min_len =
     (if length code < min_len then None
      else let span = (min_len + (ZT_AARCH64_INSN_SIZE - 1)) div ZT_AARCH64_INSN_SIZE * ZT_AARCH64_INSN_SIZE
           in if span > length code then None else Some span)"

definition a64_patch :: "u64 \<Rightarrow> u8 list" where
  "a64_patch target_addr =
     (let patch = replicate ZT_AARCH64_PATCH_LEN 0;
          patch = zt_store_u32 patch 0 0x58000050;
          patch = zt_store_u32 patch 4 0xD61F0200
      in buf_put patch 8 (le64 target_addr))"

definition a64_arch_install_jump :: "(user_pt_regs, 'w) os \<Rightarrow> int \<Rightarrow> u64 \<Rightarrow> u64 \<Rightarrow> 'w \<Rightarrow> bool \<times> 'w" where
  "a64_arch_install_jump os pid patch_addr target_addr w =
     (if patch_addr = 0 \<or> target_addr = 0 then (False, w)
      else zt_write_remote_memory os pid patch_addr (a64_patch target_addr) w)"

definition a64_arch_remote_syscall6 ::
  "(user_pt_regs, 'w) os \<Rightarrow> int \<Rightarrow> zt_arch_remote_syscall_args_t \<Rightarrow> 'w \<Rightarrow> (u64 option \<times> 'w) option" where
  "a64_arch_remote_syscall6 os pid args w =
     zt_arch_execute_syscall6 os (a64_kRemoteExecOps os) pid ZT_AARCH64_REMOTE_SYSCALL_CODE_SIZE
       (Some (zt_remote_stub_pc os pid)) a64_prepare_syscall_regs a64_build_syscall_stub args w"

definition a64_arch_remote_call2 ::
  "(user_pt_regs, 'w) os \<Rightarrow> int \<Rightarrow> zt_arch_remote_call_args_t \<Rightarrow> 'w \<Rightarrow> (u64 option \<times> 'w) option" where
  "a64_arch_remote_call2 os pid args w =
     zt_arch_execute_call2 os (a64_kRemoteExecOps os) pid ZT_AARCH64_REMOTE_CALL_CODE_SIZE
       (Some (zt_remote_stub_pc os pid)) a64_prepare_call_regs a64_build_call_stub args w"

text \<open>The builder fills its buffer before it emits, so the buffer's first contents do not matter.\<close>

definition a64_arch :: "a64_disasm \<Rightarrow> (user_pt_regs, 'w) zt_arch" where
  "a64_arch disasm = \<lparr>zt_arch_probe_patch_len = a64_arch_probe_patch_len,
     zt_arch_calc_patch_span = a64_arch_calc_patch_span,
     zt_arch_install_jump = a64_arch_install_jump, zt_arch_get_pc = a64_arch_get_pc,
     zt_arch_remote_syscall6 = a64_arch_remote_syscall6, zt_arch_remote_call2 = a64_arch_remote_call2,
     zt_arch_build_trampoline =
       (\<lambda>probe stub addr. a64_build_trampoline disasm probe stub addr (replicate ZT_TRAMPOLINE_MAX_SIZE 0)),
     zt_arch_SYS_mmap = 222, zt_arch_SYS_munmap = 215\<rparr>"

section \<open>The backend keeps the contract\<close>

lemma a64_patch_bytes: "a64_patch t = le32 0x58000050 @ le32 0xD61F0200 @ le64 t"
  by (simp add: a64_patch_def zt_store_u32_def buf_put_def ZT_AARCH64_PATCH_LEN_def Let_def)

lemma a64_span_Some:
  assumes "a64_arch_calc_patch_span code m = Some n"
  shows "n = (m + 3) div 4 * 4" and "n \<le> length code"
  using assms by (auto simp: a64_arch_calc_patch_span_def ZT_AARCH64_INSN_SIZE_def Let_def split: if_splits)

interpretation a64: probe_arch "a64_arch disasm" a64_patch True
  for disasm :: a64_disasm
proof
  show "length (a64_patch t) = zt_arch_probe_patch_len (a64_arch disasm)" for t
    by (simp add: a64_patch_bytes a64_arch_def a64_arch_probe_patch_len_def ZT_AARCH64_PATCH_LEN_def)
  show "a64_patch t \<noteq> []" for t by (simp add: a64_patch_bytes)
  show "zt_arch_probe_patch_len (a64_arch disasm) \<le> ZT_PROBE_ORIG_CODE_MAX"
    by (simp add: a64_arch_def a64_arch_probe_patch_len_def ZT_AARCH64_PATCH_LEN_def ZT_PROBE_ORIG_CODE_MAX_def)
  show "zt_arch_install_jump (a64_arch disasm) os pid p t w =
      (if p = 0 \<or> t = 0 then (False, w) else zt_write_remote_memory os pid p (a64_patch t) w)" for os pid p t w
    by (simp add: a64_arch_def a64_arch_install_jump_def)
  show "m \<le> n \<and> n \<le> length code"
    if "zt_arch_calc_patch_span (a64_arch disasm) code m = Some n" for code m n
    using a64_span_Some [of code m n] that by (simp add: a64_arch_def)
qed

end
