(* ===== verification/ZT_ArchProps.thy ===== *)
theory ZT_ArchProps
  imports ZT_ArchX86 ZT_ArchA64 ZT_X86Machine ZT_TrampA64Props
begin

text \<open>
  Properties of the two backends: remote execution puts code and registers back, the installed
  jump reaches the trampoline, the patched span consists of whole instructions.
\<close>

section \<open>Remote execution\<close>

lemma x86_stub_lengths:
  assumes "length c = n"
  shows "x86_build_syscall_stub n c = Some s \<Longrightarrow> length s = n"
    and "x86_build_call_stub n c f = Some s \<Longrightarrow> length s = n"
  using assms
  by (auto simp: x86_build_syscall_stub_def x86_build_call_stub_def buf_put_def
      ZT_X86_64_REMOTE_SYSCALL_CODE_SIZE_def ZT_X86_64_REMOTE_CALL_CODE_SIZE_def split: if_splits)

lemma a64_stub_lengths:
  assumes "length c = n"
  shows "a64_build_syscall_stub n c = Some s \<Longrightarrow> length s = n"
    and "a64_build_call_stub n c f = Some s \<Longrightarrow> length s = n"
  using assms
  by (auto simp: a64_build_syscall_stub_def a64_build_call_stub_def zt_store_u32_def buf_put_def Let_def
      ZT_AARCH64_REMOTE_SYSCALL_CODE_SIZE_def ZT_AARCH64_REMOTE_CALL_CODE_SIZE_def split: if_splits)

lemma a64_select_ok:
  assumes "os_mem_ok os pid mem" and "os_frame os pid regs"
  shows "select_ok (Some (zt_remote_stub_pc os pid)) mem regs"
proof -
  have m: "mem w' = mem w \<and> regs w' = regs w" if h: "zt_read_remote_memory os pid a n w = (r, w')" for a n w r w'
    using rm.rd_mem [OF assms(1) h] zt_read_remote_memory_frame [OF assms(2) h] by simp
  show ?thesis
    unfolding select_ok_def zt_remote_stub_pc_def
    by (auto dest!: m split: prod.splits option.splits)
qed

text \<open>
  C21. A remote system call or call on x86-64 leaves the stopped thread as it was: when it
  succeeds, or when it fails while writes to the thread still work, the registers are the
  saved ones and the code under the stub, at the program counter, is the original code,
  whatever the target did meanwhile and whatever it stopped with.
\<close>

theorem x86_remote_exec_restores:
  assumes "os_mem_ok os pid mem" and "os_regs_ok os (x86_kRemoteExecOps os) pid mem regs"
    and "r \<noteq> None \<or> os_reliable os (x86_kRemoteExecOps os) pid"
  shows "(x86_arch_remote_syscall6 os pid sargs w = Some (r, w') \<longrightarrow> regs w' = regs w \<and>
      fetch (mem w') (ur_rip (regs w)) 8 = fetch (mem w) (ur_rip (regs w)) 8) \<and>
    (x86_arch_remote_call2 os pid cargs w = Some (r, w') \<longrightarrow> regs w' = regs w \<and>
      fetch (mem w') (ur_rip (regs w)) 16 = fetch (mem w) (ur_rip (regs w)) 16)"
    (is "(_ \<longrightarrow> ?thesis1) \<and> (_ \<longrightarrow> ?thesis2)")
proof -
  have pc: "chosen_stub_pc (x86_kRemoteExecOps os) pid n None (regs w) w = ur_rip (regs w)" for n w
    by (simp add: chosen_stub_pc_def x86_kRemoteExecOps_def x86_get_pc_def)
  have sel: "select_ok None mem regs" by (simp add: select_ok_def)
  note e = execute_stub_restores [OF assms(1,2) sel _ _ _ assms(3), unfolded pc]
  have "x86_arch_remote_syscall6 os pid sargs w = Some (r, w') \<Longrightarrow> ?thesis1"
    unfolding x86_arch_remote_syscall6_def zt_arch_execute_syscall6_def ZT_X86_64_REMOTE_SYSCALL_CODE_SIZE_def
    by (rule e) (auto dest: x86_stub_lengths)
  moreover have "x86_arch_remote_call2 os pid cargs w = Some (r, w') \<Longrightarrow> ?thesis2"
    unfolding x86_arch_remote_call2_def zt_arch_execute_call2_def ZT_X86_64_REMOTE_CALL_CODE_SIZE_def
    by (rule e) (auto dest: x86_stub_lengths)
  ultimately show ?thesis by blast
qed

definition ex_x86_regs :: user_regs_struct where
  "ex_x86_regs = \<lparr>ur_r15 = 0, ur_r14 = 0, ur_r13 = 0, ur_r12 = 0, ur_rbp = 0, ur_rbx = 0, ur_r11 = 0, ur_r10 = 0,
     ur_r9 = 0, ur_r8 = 0, ur_rax = 1, ur_rcx = 0, ur_rdx = 0, ur_rsi = 0, ur_rdi = 0, ur_orig_rax = 0,
     ur_rip = 0x4000, ur_cs = 0, ur_eflags = 0, ur_rsp = 0x9000, ur_ss = 0, ur_fs_base = 0, ur_gs_base = 0,
     ur_ds = 0, ur_es = 0, ur_fs = 0, ur_gs = 0\<rparr>"

text \<open>A target whose system call returns 5 and that then traps (status \<^verbatim>\<open>0x057f\<close>).\<close>

definition ex_x86_run :: "user_regs_struct sim \<Rightarrow> user_regs_struct sim" where
  "ex_x86_run w = w\<lparr>sm_regs := (sm_regs w)\<lparr>ur_rax := 5, ur_rip := 0x4003\<rparr>\<rparr>"

definition ex_x86_sim :: "user_regs_struct sim" where
  "ex_x86_sim = \<lparr>sm_mem = (\<lambda>x. ucast x), sm_regs = ex_x86_regs, sm_vm = True, sm_waits = [Inr (1, 0x057f)],
     sm_tasks = [], sm_maps = []\<rparr>"

definition ex_sargs :: zt_arch_remote_syscall_args_t where
  "ex_sargs = \<lparr>sa_syscall_no = 39, sa_arg1 = 0, sa_arg2 = 0, sa_arg3 = 0, sa_arg4 = 0, sa_arg5 = 0, sa_arg6 = 0\<rparr>"

lemma ex_x86_syscall:
  "map_option fst (x86_arch_remote_syscall6 (sim_os ex_x86_run) 1 ex_sargs ex_x86_sim) = Some (Some 5)"
  by code_simp

theorem x86_remote_exec_restores_witness:
  "\<exists>w. x86_arch_remote_syscall6 (sim_os ex_x86_run) 1 ex_sargs ex_x86_sim = Some (Some 5, w) \<and>
     sm_regs w = ex_x86_regs \<and> fetch (sm_mem w) 0x4000 8 = [0, 1, 2, 3, 4, 5, 6, 7]"
proof -
  obtain w where w: "x86_arch_remote_syscall6 (sim_os ex_x86_run) 1 ex_sargs ex_x86_sim = Some (Some 5, w)"
    using ex_x86_syscall by auto
  have ok: "os_regs_ok (sim_os ex_x86_run) (x86_kRemoteExecOps (sim_os ex_x86_run)) 1 sm_mem sm_regs"
    by (rule sim_os_regs_ok) (simp_all add: x86_kRemoteExecOps_def fun_eq_iff x86_get_regs_def x86_set_regs_def)
  have "fetch (sm_mem ex_x86_sim) 0x4000 8 = [0, 1, 2, 3, 4, 5, 6, 7]" by code_simp
  then show ?thesis
    using x86_remote_exec_restores [OF sim_os_mem_ok ok, of "Some 5" ex_sargs ex_x86_sim w] w
    by (simp add: ex_x86_sim_def ex_x86_regs_def)
qed


definition ex_a64_regs :: user_pt_regs where
  "ex_a64_regs = \<lparr>pt_regs = replicate 31 7, pt_sp = 0x9000, pt_pc = 0x4000, pt_pstate = 0\<rparr>"

text \<open>A thread that sleeps in a system call: its program counter is at \<^verbatim>\<open>svc #0\<close>.\<close>

definition ex_a64_sim :: "user_pt_regs sim" where
  "ex_a64_sim = \<lparr>sm_mem = mem_put (\<lambda>x. ucast x) 0x4000 [1, 0, 0, 0xD4], sm_regs = ex_a64_regs, sm_vm = True,
     sm_waits = [Inl EINTR, Inr (1, 0x057f)], sm_tasks = [], sm_maps = []\<rparr>"

definition ex_a64_run :: "user_pt_regs sim \<Rightarrow> user_pt_regs sim" where
  "ex_a64_run w = w\<lparr>sm_regs := (sm_regs w)\<lparr>pt_regs := (pt_regs (sm_regs w))[0 := 5]\<rparr>\<rparr>"

lemma ex_a64_syscall:
  "map_option fst (a64_arch_remote_syscall6 (sim_os ex_a64_run) 1 ex_sargs ex_a64_sim) = Some (Some 5)"
  by code_simp


section \<open>The patch\<close>

lemma fld_ldr_const:
  "fld 23 9 0x58000050 = 0xB0" "fld 10 22 0x58000050 = 0x160000" "fld 24 8 0x58000050 = 0x58" "fld 25 6 0x58000050 = 0x2C"
  "fld 21 11 0x58000050 = 0x2C0" "fld 0 5 0x58000050 = 16" "off19 0x58000050 = 8"
  by code_simp+

lemma code_at_mem_put: "length bs \<le> 2 ^ 64 \<Longrightarrow> code_at (mem_put m a bs) a bs"
  by (simp add: code_at_def fetch_mem_put_same)

lemma a64_patch_runs:
  assumes "code_at (a_mem s) (a_pc s) (a64_patch t)"
  shows "a64_run 2 s = Some ((setx s 16 t)\<lparr>a_pc := t\<rparr>)"
proof -
  let ?s1 = "(setx s 16 t)\<lparr>a_pc := a_pc s + 4\<rparr>"
  have c: "code_at (a_mem s) (a_pc s) (le32 0x58000050)" "code_at (a_mem s) (a_pc s + 4) (le32 0xD61F0200)"
    "code_at (a_mem s) (a_pc s + 8) (le64 t)"
    using assms by (simp_all add: a64_patch_bytes code_at_append add.commute [of 8])
  have "a64_step s = Some ?s1"
    using code_at_load32 [OF c(1)] code_at_load64 [OF c(3)] by (simp add: a64_step_def Let_def fld_ldr_const)
  moreover have "a64_step ?s1 = Some ((setx s 16 t)\<lparr>a_pc := t\<rparr>)"
    using a64_step_br [of ?s1] c(2) by (simp add: getx_def setx_def)
  ultimately show ?thesis by (simp add: numeral_2_eq_2)
qed

lemma x86_patch_runs:
  assumes "code_at (x_mem s) (x_rip s) (x86_patch t)"
  shows "x86_run 1 s = Some (s\<lparr>x_rip := t\<rparr>)"
proof -
  have z: "replicate 4 0 = le32 0" by code_simp
  have c: "code_at (x_mem s) (x_rip s) ([0xFF, 0x25] @ le32 0)" "code_at (x_mem s) (x_rip s + 6) (le64 t)"
    using assms unfolding x86_patch_def z by (simp_all add: code_at_append code_at_Cons add.commute [of 2] add.commute [of 6])
  show ?thesis using step_jmp_mem [OF c(1)] code_at_load64 [OF c(2)] by simp
qed

text \<open>
  C23. The installed jump reaches the trampoline: when \<^verbatim>\<open>zt_arch_install_jump\<close> succeeds, a
  processor that executes at the patched address from the target's memory arrives at the
  trampoline. On x86-64 this takes one instruction and changes nothing else; on AArch64 it
  takes two and changes only x16.
\<close>

theorem installed_jump_reaches_trampoline:
  assumes "os_mem_ok xos pid xmem" and "x86_arch_install_jump xos pid p t xw = (True, xw')"
    and "x_mem xs = xmem xw'" and "x_rip xs = p"
    and "os_mem_ok aos pid amem" and "a64_arch_install_jump aos pid p t aw = (True, aw')"
    and "a_mem as = amem aw'" and "a_pc as = p"
  shows "x86_run 1 xs = Some (xs\<lparr>x_rip := t\<rparr>) \<and> a64_run 2 as = Some ((setx as 16 t)\<lparr>a_pc := t\<rparr>)"
proof
  have x: "zt_arch_install_jump (x86_arch (\<lambda>_ _. None)) xos pid p t xw = (True, xw')"
    using assms(2) by (simp add: x86_arch_def)
  have "code_at (x_mem xs) (x_rip xs) (x86_patch t)"
    using x86.install_effect(1) [OF assms(1) x] assms(3,4) by (simp add: code_at_mem_put x86_patch_def)
  then show "x86_run 1 xs = Some (xs\<lparr>x_rip := t\<rparr>)" by (rule x86_patch_runs)
  have a: "zt_arch_install_jump (a64_arch (\<lambda>_ _. None)) aos pid p t aw = (True, aw')"
    using assms(6) by (simp add: a64_arch_def)
  have "code_at (a_mem as) (a_pc as) (a64_patch t)"
    using a64.install_effect(1) [OF assms(5) a] assms(7,8) by (simp add: code_at_mem_put a64_patch_bytes)
  then show "a64_run 2 as = Some ((setx as 16 t)\<lparr>a_pc := t\<rparr>)" by (rule a64_patch_runs)
qed

theorem installed_jump_reaches_trampoline_witness:
  "\<exists>xs as. x_rip xs = 0x4000 \<and> x86_run 1 xs = Some (xs\<lparr>x_rip := 0x7000\<rparr>) \<and>
     a_pc as = 0x4000 \<and> map_option a_pc (a64_run 2 as) = Some 0x7000"
proof -
  obtain b xw' where x: "x86_arch_install_jump (sim_os ex_x86_run) 1 0x4000 0x7000 ex_x86_sim = (b, xw')" by fastforce
  have "fst (x86_arch_install_jump (sim_os ex_x86_run) 1 0x4000 0x7000 ex_x86_sim)" by code_simp
  with x have x: "x86_arch_install_jump (sim_os ex_x86_run) 1 0x4000 0x7000 ex_x86_sim = (True, xw')" by simp
  obtain c aw' where a: "a64_arch_install_jump (sim_os ex_a64_run) 1 0x4000 0x7000 ex_a64_sim = (c, aw')" by fastforce
  have "fst (a64_arch_install_jump (sim_os ex_a64_run) 1 0x4000 0x7000 ex_a64_sim)" by code_simp
  with a have a: "a64_arch_install_jump (sim_os ex_a64_run) 1 0x4000 0x7000 ex_a64_sim = (True, aw')" by simp
  define xs where "xs = \<lparr>x_rip = 0x4000, x_rsp = 0, x_r11 = 0,
    x_flags = \<lparr>fCF = False, fZF = False, fSF = False, fOF = False, fPF = False\<rparr>, x_mem = sm_mem xw'\<rparr>"
  define as where "as = \<lparr>a_pc = 0x4000, a_x = (\<lambda>_. 0), a_n = False, a_z = False, a_c = False, a_v = False,
    a_mem = sm_mem aw'\<rparr>"
  have "x86_run 1 xs = Some (xs\<lparr>x_rip := 0x7000\<rparr>) \<and> a64_run 2 as = Some ((setx as 16 0x7000)\<lparr>a_pc := 0x7000\<rparr>)"
    by (rule installed_jump_reaches_trampoline [OF sim_os_mem_ok x _ _ sim_os_mem_ok a]) (simp_all add: xs_def as_def)
  moreover have "x_rip xs = 0x4000" "a_pc as = 0x4000" by (simp_all add: xs_def as_def)
  ultimately show ?thesis by (intro exI [of _ xs] exI [of _ as]) (simp del: One_nat_def x86_run.simps)
qed

text \<open>
  C24. The bytes saved and replaced are whole instructions and no more than needed: the span
  \<^verbatim>\<open>zt_arch_calc_patch_span\<close> returns on x86-64 is the length of a prefix of the decoded
  instructions, covers the patch, lies inside the code that was read, and dropping the last
  instruction would not cover the patch; on AArch64 it is the patch length rounded up to
  the next multiple of four.
\<close>

theorem patch_span_minimal:
  assumes "x86_disasm_ok disasm" and "x86_arch_calc_patch_span disasm code m = Some n" and "disasm code 0 = Some is"
    and "0 < m" and "a64_arch_calc_patch_span acode am = Some an"
  shows "(\<exists>k. 0 < k \<and> k \<le> length is \<and> n = sum_list (map xi_size (take k is)) \<and> m \<le> n \<and> n \<le> length code \<and>
      sum_list (map xi_size (take (k - 1) is)) < m) \<and>
    am \<le> an \<and> an < am + 4 \<and> 4 dvd an \<and> an \<le> length acode"
proof
  have l: "x86_patch_span_loop m 0 is = Some n"
    using assms(2,3) by (auto simp: x86_arch_calc_patch_span_def split: if_splits)
  from x86_patch_span_loop_Some [OF l] obtain k where k: "k \<le> length is" "n = sum_list (map xi_size (take k is))" "m \<le> n"
    "\<forall>j < k. 0 < j \<longrightarrow> sum_list (map xi_size (take j is)) < m" by auto
  have "0 < k" using k(2,3) assms(4) by (cases k) auto
  moreover have "sum_list (map xi_size (take (k - 1) is)) < m" using k(4) assms(4) \<open>0 < k\<close> by (cases "k = 1") auto
  moreover have "n \<le> length code"
    using x86.span_covers [OF assms(1), of code m n] assms(2) by (simp add: x86_arch_def)
  ultimately show "\<exists>k. 0 < k \<and> k \<le> length is \<and> n = sum_list (map xi_size (take k is)) \<and> m \<le> n \<and> n \<le> length code \<and>
      sum_list (map xi_size (take (k - 1) is)) < m" using k by blast
  show "am \<le> an \<and> an < am + 4 \<and> 4 dvd an \<and> an \<le> length acode"
    using a64_span_Some [OF assms(5)] by (simp add: dvd_def) presburger
qed

text \<open>Three instructions of 5, 7 and 4 bytes: the patch of 14 bytes needs all of them.\<close>

definition ex_span_insn :: "nat \<Rightarrow> x86_insn" where
  "ex_span_insn n = \<lparr>xi_id = X86_INS_OTHER, xi_address = 0, xi_size = n, xi_bytes = [], xi_operands = [],
     xi_disp = 0, xi_disp_offset = 0, xi_disp_size = 0\<rparr>"

definition ex_span_disasm :: x86_disasm where
  "ex_span_disasm code a = (if 16 \<le> length code then Some (map ex_span_insn [5, 7, 4]) else None)"

theorem patch_span_minimal_witness:
  "x86_arch_calc_patch_span ex_span_disasm (replicate 32 0) 14 = Some 16 \<and>
   (\<exists>k. 0 < k \<and> k \<le> 3 \<and> 16 = sum_list (map xi_size (take k (map ex_span_insn [5, 7, 4]))))"
proof -
  have d: "x86_disasm_ok ex_span_disasm"
    by (auto simp: x86_disasm_ok_def ex_span_disasm_def ex_span_insn_def split: if_splits)
  have s: "x86_arch_calc_patch_span ex_span_disasm (replicate 32 0) 14 = Some 16" by code_simp
  have a: "a64_arch_calc_patch_span (replicate 32 0) 16 = Some 16" by code_simp
  have i: "ex_span_disasm (replicate 32 0) 0 = Some (map ex_span_insn [5, 7, 4])" by (simp add: ex_span_disasm_def)
  from patch_span_minimal [OF d s i _ a] s show ?thesis by auto
qed

end
