(* ===== verification/ZT_Threads.thy ===== *)
theory ZT_Threads
  imports ZT_Arch
begin

text \<open>
  Thread control of \<^verbatim>\<open>src/zt_injector.c\<close>: the table of traced threads, stopping and
  resuming all of them, polling for events, and moving stopped threads out of the code that
  is about to be patched. A \<^verbatim>\<open>zt_thread_info_t *\<close> is an index into the table.

  Functions that wait return \<open>None\<close> when they do not return; otherwise the success of the
  call, the session and the world.
\<close>

section \<open>The thread table\<close>

definition ZT_PATCH_REGION_MAX_SINGLE_STEPS :: nat where "ZT_PATCH_REGION_MAX_SINGLE_STEPS = 8"
definition PTRACE_EVENT_STOP :: u32 where "PTRACE_EVENT_STOP = 128"

type_synonym session = zt_injector_session_t

abbreviation live_threads :: "session \<Rightarrow> zt_thread_info_t list" where
  "live_threads se \<equiv> take (se_thread_count se) (se_threads se)"

definition upd_thread :: "nat \<Rightarrow> (zt_thread_info_t \<Rightarrow> zt_thread_info_t) \<Rightarrow> session \<Rightarrow> session" where
  "upd_thread i f se = se\<lparr>se_threads := (se_threads se)[i := f (se_threads se ! i)]\<rparr>"

definition zt_session_find_thread :: "session \<Rightarrow> int \<Rightarrow> nat option" where
  "zt_session_find_thread se tid =
     (if tid \<le> 0 then None else find_index (\<lambda>t. th_tid t = tid) (live_threads se))"

definition zt_thread_clear :: "zt_thread_info_t \<Rightarrow> zt_thread_info_t" where
  "zt_thread_clear thread = zero_thread"

definition zt_thread_mark_running :: "zt_thread_info_t \<Rightarrow> zt_thread_info_t" where
  "zt_thread_mark_running thread = thread\<lparr>th_stopped := False, th_resume_signal := 0\<rparr>"

definition zt_session_add_thread :: "session \<Rightarrow> int \<Rightarrow> bool \<times> session" where
  "zt_session_add_thread se tid =
     (if tid \<le> 0 then (False, se)
      else if zt_session_find_thread se tid \<noteq> None then (True, se)
      else if se_thread_count se \<ge> ZT_THREADS_CAPACITY then (False, se)
      else (True, (upd_thread (se_thread_count se) (\<lambda>t. zt_thread_mark_running (t\<lparr>th_tid := tid\<rparr>)) se)
                    \<lparr>se_thread_count := se_thread_count se + 1\<rparr>))"

definition zt_session_mark_target_exited :: "session \<Rightarrow> session" where
  "zt_session_mark_target_exited se = se\<lparr>se_target_exited := True, se_threads_stopped := False\<rparr>"

text \<open>The compaction loop, over the read indices left; \<open>wi\<close> is the write index.\<close>

fun zt_compact_loop :: "nat list \<Rightarrow> nat \<Rightarrow> zt_thread_info_t list \<Rightarrow> nat \<times> zt_thread_info_t list" where
  "zt_compact_loop [] wi ts = (wi, ts)"
| "zt_compact_loop (ri # ris) wi ts =
     (if th_tid (ts ! ri) \<le> 0 then zt_compact_loop ris wi ts
      else zt_compact_loop ris (wi + 1) (if wi \<noteq> ri then ts[wi := ts ! ri] else ts))"

definition zt_compact_threads :: "session \<Rightarrow> session" where
  "zt_compact_threads se =
     (case zt_compact_loop [0..<se_thread_count se] 0 (se_threads se) of
        (n, ts) \<Rightarrow> se\<lparr>se_threads := ts, se_thread_count := n\<rparr>)"

definition zt_session_has_unstopped_thread :: "session \<Rightarrow> bool" where
  "zt_session_has_unstopped_thread se =
     list_ex (\<lambda>t. th_tid t > 0 \<and> \<not> th_stopped t) (live_threads se)"

section \<open>Wait statuses\<close>

definition zt_wait_status_is_thread_exit :: "u32 \<Rightarrow> bool" where
  "zt_wait_status_is_thread_exit status = (WIFEXITED status \<or> WIFSIGNALED status)"

definition zt_session_note_thread_exit :: "session \<Rightarrow> int \<Rightarrow> bool \<Rightarrow> bool \<times> session" where
  "zt_session_note_thread_exit se tid target_exited =
     (if tid = se_pid se then (True, zt_session_mark_target_exited se) else (target_exited, se))"

definition zt_resume_signal_from_status :: "u32 \<Rightarrow> int" where
  "zt_resume_signal_from_status status =
     (if \<not> WIFSTOPPED status then 0
      else let stop_sig = WSTOPSIG status; event = drop_bit 16 status in
        if event = PTRACE_EVENT_STOP \<or> stop_sig = SIGTRAP \<or> stop_sig = SIGTRAP OR 0x80 then 0
        else uint stop_sig)"

definition zt_thread_mark_stopped :: "u32 \<Rightarrow> zt_thread_info_t \<Rightarrow> zt_thread_info_t" where
  "zt_thread_mark_stopped status thread =
     thread\<lparr>th_stopped := True, th_resume_signal := zt_resume_signal_from_status status\<rparr>"

section \<open>Processes\<close>

text \<open>What \<^verbatim>\<open>fgets\<close> stores of a file's contents, with room for \<open>n\<close> characters.\<close>

definition fgets_first :: "nat \<Rightarrow> string \<Rightarrow> string" where
  "fgets_first n s = take (n - 1) (takeWhile (\<lambda>c. c \<noteq> CHR 0x0A) s @ take 1 (dropWhile (\<lambda>c. c \<noteq> CHR 0x0A) s))"

text \<open>The text behind the last occurrence of a character (\<^verbatim>\<open>strrchr(s, c) + 1\<close>).\<close>

definition after_last :: "char \<Rightarrow> string \<Rightarrow> string option" where
  "after_last c s = (if c \<in> set s then Some (rev (takeWhile (\<lambda>x. x \<noteq> c) (rev s))) else None)"

definition zt_process_is_exited :: "('r, 'w) os \<Rightarrow> int \<Rightarrow> 'w \<Rightarrow> bool \<times> 'w" where
  "zt_process_is_exited os pid w =
     (if pid \<le> 0 then (True, w)
      else case os_kill0 os pid w of
          (Some e, w1) \<Rightarrow> (e = ESRCH, w1)
        | (None, w1) \<Rightarrow>
            (case os_proc_stat os pid w1 of
               (Inl e, w2) \<Rightarrow> (e = ENOENT \<or> e = ESRCH, w2)
             | (Inr contents, w2) \<Rightarrow>
                 (case after_last (CHR '')'') (fgets_first 512 contents) of
                    Some (c1 # state # rest) \<Rightarrow>
                      (c1 = CHR '' '' \<and> (state = CHR ''Z'' \<or> state = CHR ''X'' \<or> state = CHR ''x''), w2)
                  | _ \<Rightarrow> (False, w2))))"

definition zt_session_report_if_target_exited ::
  "('r, 'w) os \<Rightarrow> session \<Rightarrow> bool \<Rightarrow> 'w \<Rightarrow> bool \<times> session \<times> 'w" where
  "zt_session_report_if_target_exited os se target_exited w =
     (if se_target_exited se \<or> se_thread_count se = 0 then (True, zt_session_mark_target_exited se, w)
      else case zt_process_is_exited os (se_pid se) w of
          (b, w1) \<Rightarrow> if b then (True, zt_session_mark_target_exited se, w1) else (target_exited, se, w1))"

section \<open>Seizing threads\<close>

definition zt_injector_seize_thread :: "('r, 'w) os \<Rightarrow> session \<Rightarrow> int \<Rightarrow> 'w \<Rightarrow> bool \<times> session \<times> 'w" where
  "zt_injector_seize_thread os se tid w =
     (if zt_session_find_thread se tid \<noteq> None then (True, se, w)
      else case os_seize os tid w of
          (Some e, w1) \<Rightarrow> (e = ESRCH, se, w1)
        | (None, w1) \<Rightarrow> (case zt_session_add_thread se tid of (b, se1) \<Rightarrow> (b, se1, w1)))"

text \<open>A directory name that is a thread id, converted to \<^verbatim>\<open>pid_t\<close>.\<close>

definition task_name_tid :: "string \<Rightarrow> int option" where
  "task_name_tid name =
     (case strtol10 name of
        (tid, endptr, overflow) \<Rightarrow>
          if overflow \<or> name = endptr \<or> endptr \<noteq> [] \<or> tid \<le> 0 then None
          else Some (sint (word_of_int tid :: u32)))"

fun zt_seize_tasks :: "('r, 'w) os \<Rightarrow> string list \<Rightarrow> session \<Rightarrow> 'w \<Rightarrow> bool \<times> session \<times> 'w" where
  "zt_seize_tasks os [] se w = (True, se, w)"
| "zt_seize_tasks os (name # names) se w =
     (case task_name_tid name of
        None \<Rightarrow> zt_seize_tasks os names se w
      | Some tid \<Rightarrow>
          (case zt_injector_seize_thread os se tid w of
             (b, se1, w1) \<Rightarrow> if b then zt_seize_tasks os names se1 w1 else (False, se1, w1)))"

definition zt_injector_refresh_threads :: "('r, 'w) os \<Rightarrow> session \<Rightarrow> 'w \<Rightarrow> bool \<times> session \<times> 'w" where
  "zt_injector_refresh_threads os se w =
     (if se_pid se \<le> 0 then (False, se, w)
      else case os_proc_task os (se_pid se) w of
          (None, w1) \<Rightarrow> (False, se, w1)
        | (Some names, w1) \<Rightarrow> zt_seize_tasks os names se w1)"

section \<open>Stopping and resuming\<close>

partial_function (option) zt_wait_for_thread_stop ::
  "('r, 'w) os \<Rightarrow> zt_thread_info_t \<Rightarrow> 'w \<Rightarrow> (bool \<times> zt_thread_info_t \<times> 'w) option" where
  "zt_wait_for_thread_stop os thread w =
     (if th_tid thread \<le> 0 then Some (False, thread, w)
      else case os_waitpid os (th_tid thread) False w of
          (Inr (p, status), w1) \<Rightarrow>
            if WIFSTOPPED status then Some (True, zt_thread_mark_stopped status thread, w1)
            else if zt_wait_status_is_thread_exit status then Some (True, zt_thread_clear thread, w1)
            else Some (False, thread, w1)
        | (Inl e, w1) \<Rightarrow>
            if e = EINTR then zt_wait_for_thread_stop os thread w1
            else if e = ECHILD \<or> e = ESRCH then Some (True, zt_thread_clear thread, w1)
            else Some (False, thread, w1))"

declare zt_wait_for_thread_stop.simps [code]

fun zt_interrupt_each :: "('r, 'w) os \<Rightarrow> nat list \<Rightarrow> session \<Rightarrow> 'w \<Rightarrow> bool \<times> session \<times> 'w" where
  "zt_interrupt_each os [] se w = (True, se, w)"
| "zt_interrupt_each os (i # is) se w =
     (let thread = se_threads se ! i in
      if th_tid thread \<le> 0 \<or> th_stopped thread then zt_interrupt_each os is se w
      else case os_interrupt os (th_tid thread) w of
          (None, w1) \<Rightarrow> zt_interrupt_each os is se w1
        | (Some e, w1) \<Rightarrow>
            if e = ESRCH then zt_interrupt_each os is (upd_thread i zt_thread_clear se) w1
            else (False, se, w1))"

fun zt_wait_each :: "('r, 'w) os \<Rightarrow> nat list \<Rightarrow> session \<Rightarrow> 'w \<Rightarrow> (bool \<times> session \<times> 'w) option" where
  "zt_wait_each os [] se w = Some (True, se, w)"
| "zt_wait_each os (i # is) se w =
     (let thread = se_threads se ! i in
      if th_tid thread \<le> 0 \<or> th_stopped thread then zt_wait_each os is se w
      else do {
        (b, t, w1) \<leftarrow> zt_wait_for_thread_stop os thread w;
        let se1 = upd_thread i (\<lambda>_. t) se;
        if b then zt_wait_each os is se1 w1 else Some (False, se1, w1) })"

fun zt_interrupt_passes :: "('r, 'w) os \<Rightarrow> nat \<Rightarrow> session \<Rightarrow> 'w \<Rightarrow> (bool \<times> session \<times> 'w) option" where
  "zt_interrupt_passes os 0 se w = Some (False, se, w)"
| "zt_interrupt_passes os (Suc n) se w =
     (case zt_interrupt_each os [0..<se_thread_count se] se w of
        (False, se1, w1) \<Rightarrow> Some (False, se1, w1)
      | (True, se1, w1) \<Rightarrow> do {
          (b, se2, w2) \<leftarrow> zt_wait_each os [0..<se_thread_count se1] se1 w1;
          if \<not> b then Some (False, se2, w2)
          else case zt_injector_refresh_threads os (zt_compact_threads se2) w2 of
              (False, se3, w3) \<Rightarrow> Some (False, se3, w3)
            | (True, se3, w3) \<Rightarrow>
                if \<not> zt_session_has_unstopped_thread se3
                then Some (True, se3\<lparr>se_threads_stopped := True\<rparr>, w3)
                else zt_interrupt_passes os n se3 w3 })"

definition zt_injector_interrupt_all :: "('r, 'w) os \<Rightarrow> session \<Rightarrow> 'w \<Rightarrow> (bool \<times> session \<times> 'w) option" where
  "zt_injector_interrupt_all os se w =
     (if se_pid se \<le> 0 then Some (False, se, w)
      else case zt_injector_refresh_threads os se w of
          (False, se1, w1) \<Rightarrow> Some (False, se1, w1)
        | (True, se1, w1) \<Rightarrow> zt_interrupt_passes os 16 se1 w1)"

fun zt_continue_each :: "('r, 'w) os \<Rightarrow> nat list \<Rightarrow> session \<Rightarrow> 'w \<Rightarrow> bool \<times> session \<times> 'w" where
  "zt_continue_each os [] se w = (True, se, w)"
| "zt_continue_each os (i # is) se w =
     (let thread = se_threads se ! i in
      if th_tid thread \<le> 0 \<or> \<not> th_stopped thread then zt_continue_each os is se w
      else case os_cont os (th_tid thread) (th_resume_signal thread) w of
          (None, w1) \<Rightarrow> zt_continue_each os is (upd_thread i zt_thread_mark_running se) w1
        | (Some e, w1) \<Rightarrow>
            if e = ESRCH then zt_continue_each os is (upd_thread i zt_thread_clear se) w1
            else (False, se, w1))"

definition zt_injector_continue_all :: "('r, 'w) os \<Rightarrow> session \<Rightarrow> 'w \<Rightarrow> bool \<times> session \<times> 'w" where
  "zt_injector_continue_all os se w =
     (if se_pid se \<le> 0 then (False, se, w)
      else case zt_continue_each os [0..<se_thread_count se] se w of
          (False, se1, w1) \<Rightarrow> (False, se1, w1)
        | (True, se1, w1) \<Rightarrow> (True, (zt_compact_threads se1)\<lparr>se_threads_stopped := False\<rparr>, w1))"

section \<open>Polling\<close>

text \<open>The loop of \<^verbatim>\<open>zt_injector_poll_events\<close>; it ends when the kernel reports no more events.\<close>

partial_function (option) zt_poll_loop ::
  "('r, 'w) os \<Rightarrow> bool \<Rightarrow> session \<Rightarrow> 'w \<Rightarrow> (bool \<times> bool \<times> session \<times> 'w) option" where
  "zt_poll_loop os target_exited se w =
     (case os_waitpid os (-1) True w of
        (Inl e, w1) \<Rightarrow>
          if e = EINTR then zt_poll_loop os target_exited se w1
          else if e = ECHILD then Some (True, zt_session_report_if_target_exited os se target_exited w1)
          else Some (False, target_exited, se, w1)
      | (Inr (tid, status), w1) \<Rightarrow>
          if tid = 0 then Some (True, zt_session_report_if_target_exited os se target_exited w1)
          else case zt_session_find_thread se tid of
              None \<Rightarrow>
                if zt_wait_status_is_thread_exit status
                then (case zt_session_note_thread_exit se tid target_exited of (x, se1) \<Rightarrow> zt_poll_loop os x se1 w1)
                else zt_poll_loop os target_exited se w1
            | Some i \<Rightarrow>
                if zt_wait_status_is_thread_exit status
                then (case zt_session_note_thread_exit se tid target_exited of
                        (x, se1) \<Rightarrow>
                          let se2 = zt_compact_threads (upd_thread i zt_thread_clear se1) in
                          if se_thread_count se2 = 0
                          then zt_poll_loop os True (zt_session_mark_target_exited se2) w1
                          else zt_poll_loop os x se2 w1)
                else if WIFSTOPPED status
                then let se1 = upd_thread i (zt_thread_mark_stopped status) se in
                     (case os_cont os tid (th_resume_signal (se_threads se1 ! i)) w1 of
                        (None, w2) \<Rightarrow> zt_poll_loop os target_exited (upd_thread i zt_thread_mark_running se1) w2
                      | (Some e, w2) \<Rightarrow>
                          if e = ESRCH
                          then zt_poll_loop os target_exited (zt_compact_threads (upd_thread i zt_thread_clear se1)) w2
                          else Some (False, target_exited, se1, w2))
                else zt_poll_loop os target_exited se w1)"

declare zt_poll_loop.simps [code]

definition zt_injector_poll_events ::
  "('r, 'w) os \<Rightarrow> session \<Rightarrow> 'w \<Rightarrow> (bool \<times> bool \<times> session \<times> 'w) option" where
  "zt_injector_poll_events os se w =
     (if se_pid se \<le> 0 then Some (False, False, se, w)
      else if se_target_exited se then Some (True, True, zt_session_mark_target_exited se, w)
      else case zt_injector_refresh_threads os se w of
          (False, se1, w1) \<Rightarrow>
            (case zt_process_is_exited os (se_pid se1) w1 of
               (b, w2) \<Rightarrow> if b then Some (True, True, zt_session_mark_target_exited se1, w2)
                          else Some (False, False, se1, w2))
        | (True, se1, w1) \<Rightarrow> zt_poll_loop os False se1 w1)"

section \<open>Clearing the patch regions\<close>

definition zt_pc_is_inside_patch_region :: "session \<Rightarrow> u64 \<Rightarrow> bool" where
  "zt_pc_is_inside_patch_region se pc =
     (if pc = 0 then False
      else list_ex (\<lambda>probe. \<not> (pi_probe_id probe = 0 \<or> pi_orig_len probe = 0) \<and>
        (let start = tgt_remote_addr (pi_target probe); end_addr = start + of_nat (pi_orig_len probe)
         in pc \<ge> start \<and> pc < end_addr)) (se_probes se))"

definition zt_single_step_thread ::
  "('r, 'w) os \<Rightarrow> session \<Rightarrow> nat \<Rightarrow> 'w \<Rightarrow> (bool \<times> session \<times> 'w) option" where
  "zt_single_step_thread os se i w =
     (let thread = se_threads se ! i in
      if th_tid thread \<le> 0 \<or> \<not> th_stopped thread then Some (False, se, w)
      else case os_singlestep os (th_tid thread) (th_resume_signal thread) w of
          (Some e, w1) \<Rightarrow>
            if e = ESRCH then Some (True, upd_thread i zt_thread_clear se, w1) else Some (False, se, w1)
        | (None, w1) \<Rightarrow> do {
            (b, t, w2) \<leftarrow> zt_wait_for_thread_stop os (zt_thread_mark_running thread) w1;
            Some (b, upd_thread i (\<lambda>_. t) se, w2) })"

fun zt_step_out :: "('r, 'w) zt_arch \<Rightarrow> ('r, 'w) os \<Rightarrow> nat \<Rightarrow> nat \<Rightarrow> session \<Rightarrow> 'w \<Rightarrow> (bool \<times> session \<times> 'w) option" where
  "zt_step_out A os i 0 se w = Some (True, se, w)"
| "zt_step_out A os i (Suc n) se w =
     (case zt_arch_get_pc A os (th_tid (se_threads se ! i)) w of
        (Inl e, w1) \<Rightarrow>
          if e = ESRCH then Some (True, upd_thread i zt_thread_clear se, w1) else Some (False, se, w1)
      | (Inr pc, w1) \<Rightarrow>
          if \<not> zt_pc_is_inside_patch_region se pc then Some (True, se, w1)
          else do {
            (b, se1, w2) \<leftarrow> zt_single_step_thread os se i w1;
            if b then zt_step_out A os i n se1 w2 else Some (False, se1, w2) })"

fun zt_clear_each :: "('r, 'w) zt_arch \<Rightarrow> ('r, 'w) os \<Rightarrow> nat list \<Rightarrow> session \<Rightarrow> 'w \<Rightarrow> (bool \<times> session \<times> 'w) option" where
  "zt_clear_each A os [] se w = Some (True, se, w)"
| "zt_clear_each A os (i # is) se w =
     (if th_tid (se_threads se ! i) \<le> 0 \<or> \<not> th_stopped (se_threads se ! i) then zt_clear_each A os is se w
      else do {
        (b, se1, w1) \<leftarrow> zt_step_out A os i ZT_PATCH_REGION_MAX_SINGLE_STEPS se w;
        if \<not> b then Some (False, se1, w1)
        else if th_tid (se_threads se1 ! i) > 0 \<and> th_stopped (se_threads se1 ! i)
        then (case zt_arch_get_pc A os (th_tid (se_threads se1 ! i)) w1 of
                (Inl e, w2) \<Rightarrow> Some (False, se1, w2)
              | (Inr pc, w2) \<Rightarrow>
                  if zt_pc_is_inside_patch_region se1 pc then Some (False, se1, w2)
                  else zt_clear_each A os is se1 w2)
        else zt_clear_each A os is se1 w1 })"

definition zt_ensure_patch_regions_are_safe ::
  "('r, 'w) zt_arch \<Rightarrow> ('r, 'w) os \<Rightarrow> session \<Rightarrow> 'w \<Rightarrow> (bool \<times> session \<times> 'w) option" where
  "zt_ensure_patch_regions_are_safe A os se w =
     (if \<not> se_threads_stopped se then Some (False, se, w)
      else do {
        (b, se1, w1) \<leftarrow> zt_clear_each A os [0..<se_thread_count se] se w;
        if b then Some (True, zt_compact_threads se1, w1) else Some (False, se1, w1) })"

end
