(* ===== verification/ZT_ThreadsProps.thy ===== *)
theory ZT_ThreadsProps
  imports ZT_Threads
begin

text \<open>
  Properties of thread control: the thread table stays well formed, stopping everything stops
  everything, code is only patched while no thread is inside it, and the loops end.
\<close>

section \<open>The table\<close>

abbreviation pos_thread :: "zt_thread_info_t \<Rightarrow> bool" where
  "pos_thread t \<equiv> 0 < th_tid t"

definition threads_ok :: "session \<Rightarrow> bool" where
  "threads_ok se \<longleftrightarrow> length (se_threads se) = ZT_THREADS_CAPACITY \<and> se_thread_count se \<le> ZT_THREADS_CAPACITY \<and>
     distinct (map th_tid (filter pos_thread (live_threads se)))"

text \<open>What of the session does not belong to the table.\<close>

definition se_rest :: "session \<Rightarrow> session" where
  "se_rest se = se\<lparr>se_threads := [], se_thread_count := 0\<rparr>"

abbreviation probe_part :: "session \<Rightarrow> zt_probe_info_t list \<times> u64 \<times> int" where
  "probe_part se \<equiv> (se_probes se, se_next_probe_id se, se_probe_count se)"

lemma distinct_filter_nth:
  "distinct (map f (filter P xs)) \<longleftrightarrow>
     (\<forall>i < length xs. \<forall>j < length xs. P (xs ! i) \<and> P (xs ! j) \<and> f (xs ! i) = f (xs ! j) \<longrightarrow> i = j)"
proof (induction xs)
  case (Cons x xs)
  have hd: "f x \<notin> f ` {y \<in> set xs. P y} \<longleftrightarrow> (\<forall>j < length xs. P (xs ! j) \<longrightarrow> f x \<noteq> f (xs ! j))"
    unfolding set_conv_nth by blast
  have all: "(\<forall>i < Suc n. \<forall>j < Suc n. R i j \<longrightarrow> i = j) \<longleftrightarrow>
      (\<forall>j < n. \<not> R 0 (Suc j)) \<and> (\<forall>i < n. \<not> R (Suc i) 0) \<and> (\<forall>i < n. \<forall>j < n. R (Suc i) (Suc j) \<longrightarrow> i = j)"
    for R :: "nat \<Rightarrow> nat \<Rightarrow> bool" and n
    by (auto simp: All_less_Suc2)
  have sym: "(\<forall>j < n. \<not> (P x \<and> P (xs ! j) \<and> f x = f (xs ! j))) \<and> (\<forall>i < n. \<not> (P (xs ! i) \<and> P x \<and> f (xs ! i) = f x)) \<and> C \<longleftrightarrow>
      (P x \<longrightarrow> (\<forall>j < n. P (xs ! j) \<longrightarrow> f x \<noteq> f (xs ! j))) \<and> C" for n C
    by metis
  have "distinct (map f (filter P (x # xs))) \<longleftrightarrow>
      (P x \<longrightarrow> (\<forall>j < length xs. P (xs ! j) \<longrightarrow> f x \<noteq> f (xs ! j))) \<and> distinct (map f (filter P xs))"
    using hd by simp
  then show ?case
    unfolding length_Cons all nth_Cons_0 nth_Cons_Suc sym Cons.IH .
qed simp

lemma threads_ok_nth:
  assumes "threads_ok se" and "i < se_thread_count se" and "j < se_thread_count se"
    and "th_tid (se_threads se ! i) = th_tid (se_threads se ! j)" and "0 < th_tid (se_threads se ! i)"
  shows "i = j"
  using assms unfolding threads_ok_def distinct_filter_nth by auto

lemma upd_thread_simps [simp]:
  "se_next_probe_id (upd_thread i f se) = se_next_probe_id se" "se_probe_count (upd_thread i f se) = se_probe_count se"
  "se_thread_count (upd_thread i f se) = se_thread_count se" "length (se_threads (upd_thread i f se)) = length (se_threads se)"
  "se_rest (upd_thread i f se) = se_rest se" "se_pid (upd_thread i f se) = se_pid se"
  "se_probes (upd_thread i f se) = se_probes se" "se_threads_stopped (upd_thread i f se) = se_threads_stopped se"
  by (simp_all add: upd_thread_def se_rest_def)

lemma se_restD:
  "se_rest se' = se_rest se \<Longrightarrow> se_pid se' = se_pid se \<and> se_probes se' = se_probes se \<and>
     se_threads_stopped se' = se_threads_stopped se \<and> se_target_exited se' = se_target_exited se \<and> probe_part se' = probe_part se"
  by (cases se; cases se') (simp add: se_rest_def)

lemma nth_upd_thread:
  "j < length (se_threads se) \<Longrightarrow>
     se_threads (upd_thread i f se) ! j = (if i = j then f (se_threads se ! i) else se_threads se ! j)"
  by (simp add: upd_thread_def nth_list_update)

text \<open>Entries keep their thread or lose it.\<close>

lemma threads_ok_upd:
  assumes ok: "threads_ok se" and f: "th_tid (f (se_threads se ! i)) = th_tid (se_threads se ! i) \<or> th_tid (f (se_threads se ! i)) \<le> 0"
  shows "threads_ok (upd_thread i f se)"
proof (cases "i < length (se_threads se)")
  case False
  then have "upd_thread i f se = se" by (simp add: upd_thread_def list_update_beyond)
  with ok show ?thesis by simp
next
  case True
  have "a = b" if "a < se_thread_count se" "b < se_thread_count se"
    and p: "0 < th_tid (se_threads (upd_thread i f se) ! a)" "0 < th_tid (se_threads (upd_thread i f se) ! b)"
    and e: "th_tid (se_threads (upd_thread i f se) ! a) = th_tid (se_threads (upd_thread i f se) ! b)" for a b
  proof -
    have l: "a < length (se_threads se)" "b < length (se_threads se)" using ok that by (simp_all add: threads_ok_def)
    have g: "th_tid (se_threads (upd_thread i f se) ! c) = th_tid (se_threads se ! c)"
      if "c \<in> {a, b}" for c
      using p f l that by (auto simp: nth_upd_thread)
    then show ?thesis using threads_ok_nth [OF ok that(1,2)] p e by simp
  qed
  then show ?thesis
    using ok unfolding threads_ok_def distinct_filter_nth by simp
qed

lemma live_upd_iff:
  assumes "threads_ok se"
  shows "(\<forall>t \<in> set (live_threads se). Q t) \<longleftrightarrow> (\<forall>i < se_thread_count se. Q (se_threads se ! i))"
  using assms by (force simp: threads_ok_def in_set_conv_nth)

section \<open>Compaction\<close>

lemma compact_loop:
  assumes "zt_compact_loop [r..<n] wi ts = (n', ts')" and "wi \<le> r" and "r \<le> n" and "n \<le> length ts"
  shows "length ts' = length ts \<and> n' \<le> n \<and> take n' ts' = take wi ts @ filter pos_thread (drop r (take n ts))"
  using assms
proof (induction "n - r" arbitrary: r wi ts)
  case 0
  then show ?case by auto
next
  case (Suc k)
  then have r: "r < n" by simp
  then have l: "[r..<n] = r # [Suc r..<n]" by (simp add: upt_conv_Cons)
  have d: "drop r (take n ts) = ts ! r # drop (Suc r) (take n ts)"
    using r Suc.prems(4) by (metis Cons_nth_drop_Suc length_take min.absorb2 nth_take)
  show ?case
  proof (cases "th_tid (ts ! r) \<le> 0")
    case True
    with Suc.prems l have "zt_compact_loop [Suc r..<n] wi ts = (n', ts')" by simp
    from Suc.hyps(1) [OF _ this] Suc.hyps(2) Suc.prems r have "length ts' = length ts \<and> n' \<le> n \<and>
      take n' ts' = take wi ts @ filter pos_thread (drop (Suc r) (take n ts))" by simp
    then show ?thesis using True by (simp add: d)
  next
    case False
    let ?ts = "if wi \<noteq> r then ts[wi := ts ! r] else ts"
    have "zt_compact_loop [Suc r..<n] (Suc wi) ?ts = (n', ts')" using False Suc.prems l by simp
    from Suc.hyps(1) [OF _ this] Suc.hyps(2) Suc.prems r have IH: "length ts' = length ts \<and> n' \<le> n \<and>
      take n' ts' = take (Suc wi) ?ts @ filter pos_thread (drop (Suc r) (take n ?ts))" by simp
    have "take (Suc wi) ?ts = take wi ts @ [ts ! r]"
      using Suc.prems r by (auto simp: take_Suc_conv_app_nth)
    moreover have "drop (Suc r) (take n ?ts) = drop (Suc r) (take n ts)"
      using Suc.prems(2) by (auto simp: take_update_swap drop_update_swap)
    ultimately show ?thesis using IH False by (simp add: d)
  qed
qed

lemma compact_live:
  assumes "threads_ok se"
  shows "live_threads (zt_compact_threads se) = filter pos_thread (live_threads se)"
    and "threads_ok (zt_compact_threads se)" and "se_rest (zt_compact_threads se) = se_rest se"
proof -
  obtain n ts where c: "zt_compact_loop [0..<se_thread_count se] 0 (se_threads se) = (n, ts)" by fastforce
  have l: "se_thread_count se \<le> length (se_threads se)" using assms by (simp add: threads_ok_def)
  note e = compact_loop [OF c _ _ l, simplified]
  show live: "live_threads (zt_compact_threads se) = filter pos_thread (live_threads se)"
    using e by (simp add: zt_compact_threads_def c)
  show "se_rest (zt_compact_threads se) = se_rest se" by (simp add: zt_compact_threads_def c se_rest_def)
  have "length (se_threads (zt_compact_threads se)) = length (se_threads se)"
    "se_thread_count (zt_compact_threads se) \<le> se_thread_count se" using e by (simp_all add: zt_compact_threads_def c)
  with assms live show "threads_ok (zt_compact_threads se)" by (simp add: threads_ok_def)
qed

section \<open>Adding threads\<close>

lemma find_thread_Some:
  assumes "threads_ok se" and "zt_session_find_thread se tid = Some i"
  shows "i < se_thread_count se" and "th_tid (se_threads se ! i) = tid" and "0 < tid"
  using assms find_index_SomeD [of "\<lambda>t. th_tid t = tid" "live_threads se" i]
  by (auto simp: zt_session_find_thread_def threads_ok_def split: if_splits)

lemma find_thread_None:
  "zt_session_find_thread se tid = None \<longleftrightarrow> tid \<le> 0 \<or> (\<forall>t \<in> set (live_threads se). th_tid t \<noteq> tid)"
  by (auto simp: zt_session_find_thread_def find_index_None_iff)

lemma add_thread:
  assumes ok: "threads_ok se" and a: "zt_session_add_thread se tid = (b, se')"
  shows "threads_ok se'" and "se_rest se' = se_rest se"
    and "b \<Longrightarrow> 0 < tid \<and> tid \<in> th_tid ` set (live_threads se')"
    and "set (live_threads se) \<subseteq> set (live_threads se')"
    and "t \<in> set (live_threads se') \<Longrightarrow> t \<in> set (live_threads se) \<or> th_tid t = tid \<and> 0 < tid"
proof -
  let ?n = "se_thread_count se"
  define new where "new = zt_thread_mark_running ((se_threads se ! ?n)\<lparr>th_tid := tid\<rparr>)"
  have tn: "th_tid new = tid" by (simp add: new_def zt_thread_mark_running_def)
  consider (no) "\<not> b" "se' = se" | (old) "se' = se" "0 < tid" "tid \<in> th_tid ` set (live_threads se)"
    | (new) "0 < tid" "\<forall>t \<in> set (live_threads se). th_tid t \<noteq> tid" "live_threads se' = live_threads se @ [new]"
      "se_thread_count se' = Suc ?n" "?n < ZT_THREADS_CAPACITY" "length (se_threads se') = length (se_threads se)"
      "se_rest se' = se_rest se"
  proof (cases "0 < tid \<and> (\<forall>t \<in> set (live_threads se). th_tid t \<noteq> tid) \<and> ?n < ZT_THREADS_CAPACITY")
    case True
    then have f: "zt_session_find_thread se tid = None" by (simp add: find_thread_None)
    have "?n < length (se_threads se)" using ok True by (simp add: threads_ok_def)
    moreover have "se' = se\<lparr>se_threads := (se_threads se)[?n := new], se_thread_count := Suc ?n\<rparr>"
      using a True f by (auto simp: zt_session_add_thread_def upd_thread_def new_def)
    ultimately show thesis
      using True that(3) by (auto simp: take_Suc_conv_app_nth se_rest_def)
  next
    case False
    show thesis
    proof (cases "0 < tid \<and> zt_session_find_thread se tid \<noteq> None")
      case True
      then show thesis using a that(2) by (auto simp: zt_session_add_thread_def find_thread_None image_iff)
    next
      case no: False
      then have "\<not> b \<and> se' = se" using a False by (auto simp: zt_session_add_thread_def find_thread_None split: if_splits)
      then show thesis using that(1) by blast
    qed
  qed
  note cases = this
  show "se_rest se' = se_rest se" using cases by cases simp_all
  show "b \<Longrightarrow> 0 < tid \<and> tid \<in> th_tid ` set (live_threads se')" using cases by cases (simp_all add: tn)
  show "set (live_threads se) \<subseteq> set (live_threads se')" using cases by cases auto
  show "t \<in> set (live_threads se') \<Longrightarrow> t \<in> set (live_threads se) \<or> th_tid t = tid \<and> 0 < tid"
    using cases by cases (auto simp: tn)
  show "threads_ok se'"
    using cases
  proof cases
    case new
    then show ?thesis using ok by (auto simp: threads_ok_def tn)
  qed (use ok in simp_all)
qed


section \<open>Seizing\<close>

text \<open>
  Every listed task ends up in the table unless it is gone: the thread was known, it was
  seized and added, or the kernel answered that it does not exist.
\<close>

definition task_covered :: "('r, 'w) os \<Rightarrow> session \<Rightarrow> int \<Rightarrow> bool" where
  "task_covered os se tid \<longleftrightarrow> tid \<in> th_tid ` set (live_threads se) \<or> (\<exists>w w'. os_seize os tid w = (Some ESRCH, w'))"

text \<open>What the functions that grow the table keep.\<close>

definition grows :: "session \<Rightarrow> session \<Rightarrow> bool" where
  "grows se se' \<longleftrightarrow> threads_ok se' \<and> se_rest se' = se_rest se \<and> set (live_threads se) \<subseteq> set (live_threads se') \<and>
     (\<forall>t \<in> set (live_threads se'). t \<in> set (live_threads se) \<or> 0 < th_tid t)"

lemma grows_refl: "threads_ok se \<Longrightarrow> grows se se"
  by (simp add: grows_def)

lemma grows_trans: "grows a b \<Longrightarrow> grows b c \<Longrightarrow> grows a c"
  unfolding grows_def by (metis subset_iff)

lemma seize_thread:
  assumes ok: "threads_ok se" and s: "zt_injector_seize_thread os se tid w = (b, se', w')"
  shows "grows se se'" and "b \<Longrightarrow> task_covered os se' tid"
proof -
  obtain e w1 where e: "os_seize os tid w = (e, w1)" by fastforce
  obtain b2 se2 where a: "zt_session_add_thread se tid = (b2, se2)" by fastforce
  note add = add_thread [OF ok a]
  have grows_add: "grows se se2" using add(1,2,4,5) unfolding grows_def by blast
  show "grows se se'"
    using s e a grows_add grows_refl [OF ok]
    by (cases e) (auto simp: zt_injector_seize_thread_def split: if_splits)
  show "b \<Longrightarrow> task_covered os se' tid"
    using s e a add find_thread_None [of se tid]
    by (cases e) (auto simp: zt_injector_seize_thread_def task_covered_def image_iff split: if_splits)
qed

lemma task_covered_grows: "task_covered os se tid \<Longrightarrow> grows se se' \<Longrightarrow> task_covered os se' tid"
  by (auto simp: task_covered_def grows_def)

lemma seize_tasks:
  "threads_ok se \<Longrightarrow> zt_seize_tasks os names se w = (b, se', w') \<Longrightarrow>
   grows se se' \<and> (b \<longrightarrow> (\<forall>name \<in> set names. \<forall>tid. task_name_tid name = Some tid \<longrightarrow> task_covered os se' tid))"
proof (induction names arbitrary: se w)
  case Nil
  then show ?case by (simp add: grows_refl)
next
  case (Cons name names)
  show ?case
  proof (cases "task_name_tid name")
    case None
    then have "zt_seize_tasks os names se w = (b, se', w')" using Cons.prems(2) by simp
    from Cons.IH [OF Cons.prems(1) this] None show ?thesis by auto
  next
    case (Some tid)
    obtain b1 se1 w1 where s: "zt_injector_seize_thread os se tid w = (b1, se1, w1)" by (metis prod_cases3)
    note h = seize_thread [OF Cons.prems(1) s]
    have ok1: "threads_ok se1" using h(1) by (simp add: grows_def)
    show ?thesis
    proof (cases b1)
      case True
      then have r: "zt_seize_tasks os names se1 w1 = (b, se', w')" using Cons.prems(2) Some s by simp
      note IH = Cons.IH [OF ok1 r]
      have "grows se se'" using grows_trans [OF h(1)] IH by blast
      moreover have "task_covered os se' tid" using task_covered_grows [OF h(2) [OF True]] IH by blast
      ultimately show ?thesis using IH Some by auto
    next
      case False
      then have "b = False" "se' = se1" using Cons.prems(2) Some s by simp_all
      then show ?thesis using h(1) by simp
    qed
  qed
qed

lemma refresh:
  assumes ok: "threads_ok se" and r: "zt_injector_refresh_threads os se w = (b, se', w')"
  shows "grows se se'"
    and "b \<Longrightarrow> \<exists>w1 names. os_proc_task os (se_pid se) w = (Some names, w1) \<and>
      (\<forall>name \<in> set names. \<forall>tid. task_name_tid name = Some tid \<longrightarrow> task_covered os se' tid)"
proof -
  obtain l w1 where l: "os_proc_task os (se_pid se) w = (l, w1)" by fastforce
  show "grows se se'"
    using r l seize_tasks [OF ok, of os _ w1] grows_refl [OF ok]
    by (auto simp: zt_injector_refresh_threads_def split: if_splits option.splits)
  show "b \<Longrightarrow> \<exists>w1 names. os_proc_task os (se_pid se) w = (Some names, w1) \<and>
      (\<forall>name \<in> set names. \<forall>tid. task_name_tid name = Some tid \<longrightarrow> task_covered os se' tid)"
    using r l seize_tasks [OF ok, of os _ w1]
    by (auto simp: zt_injector_refresh_threads_def split: if_splits option.splits)
qed

section \<open>Waiting and stopping\<close>

lemmas thread_marks = zt_thread_clear_def zero_thread_def zt_thread_mark_stopped_def zt_thread_mark_running_def

text \<open>A successful wait leaves the thread stopped or removes it.\<close>

lemma wait_stop:
  assumes "zt_wait_for_thread_stop os t w = Some (b, t', w')"
  shows "th_tid t' = th_tid t \<or> th_tid t' = 0" and "b \<Longrightarrow> th_stopped t' \<or> th_tid t' = 0"
proof -
  let ?P = "\<lambda>t r. case r of (b, t', w') \<Rightarrow> (th_tid t' = th_tid t \<or> th_tid t' = 0) \<and> (b \<longrightarrow> th_stopped t' \<or> th_tid t' = 0)"
  have "?P t (b, t', w')"
    by (rule zt_wait_for_thread_stop.raw_induct [where P = "\<lambda>os t w. ?P t", OF _ assms])
      (auto simp: thread_marks split: if_splits prod.splits sum.splits, blast+)
  then show "th_tid t' = th_tid t \<or> th_tid t' = 0" and "b \<Longrightarrow> th_stopped t' \<or> th_tid t' = 0" by auto
qed


definition done_thread :: "zt_thread_info_t \<Rightarrow> bool" where
  "done_thread t \<longleftrightarrow> th_stopped t \<or> th_tid t \<le> 0"

text \<open>The frame of the loops that update entries in place.\<close>

definition in_place :: "session \<Rightarrow> session \<Rightarrow> bool" where
  "in_place se se' \<longleftrightarrow> threads_ok se' \<and> se_rest se' = se_rest se \<and> se_thread_count se' = se_thread_count se"

lemma in_place_refl: "threads_ok se \<Longrightarrow> in_place se se"
  by (simp add: in_place_def)

lemma in_place_trans: "in_place a b \<Longrightarrow> in_place b c \<Longrightarrow> in_place a c"
  by (simp add: in_place_def)

lemma in_place_upd:
  "threads_ok se \<Longrightarrow> th_tid (f (se_threads se ! i)) = th_tid (se_threads se ! i) \<or> th_tid (f (se_threads se ! i)) \<le> 0 \<Longrightarrow>
   in_place se (upd_thread i f se)"
  by (simp add: in_place_def threads_ok_upd)

lemma in_place_clear: "threads_ok se \<Longrightarrow> in_place se (upd_thread i zt_thread_clear se)"
  by (rule in_place_upd) (simp_all add: thread_marks)

lemma in_place_running: "threads_ok se \<Longrightarrow> in_place se (upd_thread i zt_thread_mark_running se)"
  by (rule in_place_upd) (simp_all add: thread_marks)

lemma interrupt_each:
  "threads_ok se \<Longrightarrow> zt_interrupt_each os is se w = (b, se', w') \<Longrightarrow> in_place se se'"
proof (induction "is" arbitrary: se w)
  case Nil
  then show ?case by (simp add: in_place_refl)
next
  case (Cons i "is")
  note c = in_place_clear [OF Cons.prems(1), of i]
  have ok: "threads_ok (upd_thread i zt_thread_clear se)" using c by (simp add: in_place_def)
  show ?case
    using Cons.prems Cons.IH [OF Cons.prems(1)] in_place_trans [OF c Cons.IH [OF ok]] in_place_refl [OF Cons.prems(1)]
    by (auto simp: Let_def split: if_splits option.splits prod.splits)
qed

lemma continue_each:
  "threads_ok se \<Longrightarrow> zt_continue_each os is se w = (b, se', w') \<Longrightarrow> in_place se se'"
proof (induction "is" arbitrary: se w)
  case Nil
  then show ?case by (simp add: in_place_refl)
next
  case (Cons i "is")
  note c = in_place_clear [OF Cons.prems(1), of i] in_place_running [OF Cons.prems(1), of i]
  have ok: "threads_ok (upd_thread i zt_thread_clear se)" "threads_ok (upd_thread i zt_thread_mark_running se)"
    using c by (simp_all add: in_place_def)
  show ?case
    using Cons.prems Cons.IH [OF Cons.prems(1)] in_place_trans [OF c(1) Cons.IH [OF ok(1)]]
      in_place_trans [OF c(2) Cons.IH [OF ok(2)]] in_place_refl [OF Cons.prems(1)]
    by (auto simp: Let_def split: if_splits option.splits prod.splits)
qed

lemma wait_each:
  "threads_ok se \<Longrightarrow> \<forall>i \<in> set is. i < se_thread_count se \<Longrightarrow> zt_wait_each os is se w = Some (b, se', w') \<Longrightarrow>
   in_place se se' \<and> (b \<longrightarrow> (\<forall>j < se_thread_count se. done_thread (se_threads se ! j) \<or> j \<in> set is \<longrightarrow> done_thread (se_threads se' ! j)))"
proof (induction "is" arbitrary: se w)
  case Nil
  then show ?case by (simp add: in_place_refl)
next
  case (Cons i "is")
  let ?t = "se_threads se ! i"
  show ?case
  proof (cases "th_tid ?t \<le> 0 \<or> th_stopped ?t")
    case True
    then have "zt_wait_each os is se w = Some (b, se', w')" using Cons.prems(3) by simp
    from Cons.IH [OF Cons.prems(1) _ this] Cons.prems(2) True show ?thesis by (auto simp: done_thread_def)
  next
    case False
    then obtain b1 t1 w1 where t1: "zt_wait_for_thread_stop os ?t w = Some (b1, t1, w1)"
      and r: "(if b1 then zt_wait_each os is (upd_thread i (\<lambda>_. t1) se) w1 else Some (False, upd_thread i (\<lambda>_. t1) se, w1)) =
        Some (b, se', w')"
      using Cons.prems(3) by (auto simp: Let_def bind_eq_Some_conv)
    note w = wait_stop [OF t1]
    have p: "in_place se (upd_thread i (\<lambda>_. t1) se)" by (rule in_place_upd [OF Cons.prems(1)]) (use w in auto)
    show ?thesis
    proof (cases b1)
      case False
      then show ?thesis using r p by auto
    next
      case True
      then have "zt_wait_each os is (upd_thread i (\<lambda>_. t1) se) w1 = Some (b, se', w')" using r by simp
      from Cons.IH [OF _ _ this] p Cons.prems(2)
      have IH: "in_place (upd_thread i (\<lambda>_. t1) se) se'"
        "b \<longrightarrow> (\<forall>j < se_thread_count se. done_thread (se_threads (upd_thread i (\<lambda>_. t1) se) ! j) \<or> j \<in> set is \<longrightarrow>
          done_thread (se_threads se' ! j))" by (simp_all add: in_place_def)
      have "done_thread (se_threads (upd_thread i (\<lambda>_. t1) se) ! j)"
        if "j < se_thread_count se" "done_thread (se_threads se ! j) \<or> j = i" for j
        using that w(2) True Cons.prems(1) by (auto simp: nth_upd_thread threads_ok_def done_thread_def)
      then show ?thesis using IH in_place_trans [OF p] by auto
    qed
  qed
qed


text \<open>All threads of the table are stopped, and all tasks the last listing named are covered.\<close>

definition all_stopped :: "('r, 'w) os \<Rightarrow> session \<Rightarrow> bool" where
  "all_stopped os se \<longleftrightarrow> (\<forall>t \<in> set (live_threads se). 0 < th_tid t \<and> th_stopped t) \<and>
     (\<exists>w w1 names. os_proc_task os (se_pid se) w = (Some names, w1) \<and>
       (\<forall>name \<in> set names. \<forall>tid. task_name_tid name = Some tid \<longrightarrow> task_covered os se tid))"

lemma interrupt_passes:
  "threads_ok se \<Longrightarrow> zt_interrupt_passes os n se w = Some (b, se', w') \<Longrightarrow>
   threads_ok se' \<and> se_pid se' = se_pid se \<and> probe_part se' = probe_part se \<and>
   (b \<longrightarrow> all_stopped os se' \<and> se_threads_stopped se')"
proof (induction n arbitrary: se w)
  case 0
  then show ?case by simp
next
  case (Suc n)
  obtain b1 se1 w1 where 1: "zt_interrupt_each os [0..<se_thread_count se] se w = (b1, se1, w1)" by (metis prod_cases3)
  note i1 = interrupt_each [OF Suc.prems(1) 1]
  have ok1: "threads_ok se1" "se_pid se1 = se_pid se \<and> probe_part se1 = probe_part se"
    using i1 se_restD [of se1 se] by (simp_all add: in_place_def)
  show ?case
  proof (cases b1)
    case False
    then have "b = False" "se' = se1" using Suc.prems(2) 1 by simp_all
    then show ?thesis using ok1 by simp
  next
    case True
    then obtain b2 se2 w2 where 2: "zt_wait_each os [0..<se_thread_count se1] se1 w1 = Some (b2, se2, w2)"
      using Suc.prems(2) 1 by (auto simp: bind_eq_Some_conv)
    note i2 = wait_each [OF ok1(1) _ 2, simplified]
    have ok2: "threads_ok se2" "se_pid se2 = se_pid se \<and> probe_part se2 = probe_part se"
      using i2 ok1 se_restD [of se2 se1] by (simp_all add: in_place_def)
    obtain b3 se3 w3 where 3: "zt_injector_refresh_threads os (zt_compact_threads se2) w2 = (b3, se3, w3)" by (metis prod_cases3)
    note c = compact_live [OF ok2(1)]
    have g: "grows (zt_compact_threads se2) se3" by (rule refresh(1) [OF c(2) 3])
    have ok3: "threads_ok se3" "se_pid se3 = se_pid se \<and> probe_part se3 = probe_part se"
      using g ok2(2) se_restD [of se3 "zt_compact_threads se2"] se_restD [OF c(3)] by (simp_all add: grows_def)
    show ?thesis
    proof (cases "b2 \<and> b3 \<and> \<not> zt_session_has_unstopped_thread se3")
      case fin: True
      then have e: "b = True" "se' = se3\<lparr>se_threads_stopped := True\<rparr>" using Suc.prems(2) 1 2 3 True by simp_all
      have pos: "0 < th_tid t" if "t \<in> set (live_threads se3)" for t
        using g that c(1) unfolding grows_def by auto
      have "th_stopped t" if "t \<in> set (live_threads se3)" for t
        using fin pos [OF that] that by (auto simp: zt_session_has_unstopped_thread_def list_ex_iff)
      moreover obtain w4 names where "os_proc_task os (se_pid se) w2 = (Some names, w4)"
        "\<forall>name \<in> set names. \<forall>tid. task_name_tid name = Some tid \<longrightarrow> task_covered os se3 tid"
        using refresh(2) [OF c(2) 3] fin se_restD [OF c(3)] ok2(2) by auto
      ultimately have "all_stopped os se3" using pos ok3(2) unfolding all_stopped_def by auto
      then show ?thesis
        using e ok3 by (auto simp: all_stopped_def threads_ok_def task_covered_def)
    next
      case again: False
      have "b = False \<and> (se' = se2 \<or> se' = se3) \<or> zt_interrupt_passes os n se3 w3 = Some (b, se', w')"
        using Suc.prems(2) 1 2 3 True again by (auto split: if_splits bool.splits)
      then show ?thesis using Suc.IH [OF ok3(1)] ok2 ok3 by auto
    qed
  qed
qed

lemma interrupt_all:
  assumes ok: "threads_ok se" and r: "zt_injector_interrupt_all os se w = Some (b, se', w')"
  shows "threads_ok se' \<and> se_pid se' = se_pid se \<and> probe_part se' = probe_part se \<and>
    (b \<longrightarrow> all_stopped os se' \<and> se_threads_stopped se')"
proof -
  obtain b1 se1 w1 where 1: "zt_injector_refresh_threads os se w = (b1, se1, w1)" by (metis prod_cases3)
  have g: "threads_ok se1" "se_pid se1 = se_pid se" "probe_part se1 = probe_part se"
    using refresh(1) [OF ok 1] se_restD [of se1 se] by (simp_all add: grows_def)
  show ?thesis
    using r 1 g ok interrupt_passes [OF g(1), of os 16 w1 b se' w']
    by (auto simp: zt_injector_interrupt_all_def split: if_splits bool.splits)
qed

lemma continue_all:
  assumes ok: "threads_ok se" and r: "zt_injector_continue_all os se w = (b, se', w')"
  shows "threads_ok se' \<and> se_pid se' = se_pid se \<and> probe_part se' = probe_part se"
proof -
  obtain b1 se1 w1 where 1: "zt_continue_each os [0..<se_thread_count se] se w = (b1, se1, w1)" by (metis prod_cases3)
  have i: "threads_ok se1" "se_rest se1 = se_rest se" using continue_each [OF ok 1] by (simp_all add: in_place_def)
  note c = compact_live [OF i(1)]
  show ?thesis
    using r 1 ok i c(2) se_restD [OF i(2)] se_restD [OF c(3)]
    by (auto simp: zt_injector_continue_all_def threads_ok_def split: if_splits bool.splits)
qed

section \<open>Polling\<close>

lemma mark_exited [simp]:
  "threads_ok (zt_session_mark_target_exited se) = threads_ok se"
  "se_pid (zt_session_mark_target_exited se) = se_pid se" "se_probes (zt_session_mark_target_exited se) = se_probes se"
  "se_next_probe_id (zt_session_mark_target_exited se) = se_next_probe_id se"
  "se_probe_count (zt_session_mark_target_exited se) = se_probe_count se"
  "se_threads (zt_session_mark_target_exited se) = se_threads se"
  "se_thread_count (zt_session_mark_target_exited se) = se_thread_count se"
  by (simp_all add: zt_session_mark_target_exited_def threads_ok_def)

definition poll_keeps :: "session \<Rightarrow> session \<Rightarrow> bool" where
  "poll_keeps se se' \<longleftrightarrow> (threads_ok se \<longrightarrow> threads_ok se' \<and> se_pid se' = se_pid se \<and> probe_part se' = probe_part se)"

lemma poll_keeps_trans: "poll_keeps a b \<Longrightarrow> poll_keeps b c \<Longrightarrow> poll_keeps a c"
  by (auto simp: poll_keeps_def)

lemma poll_keeps_steps:
  "poll_keeps se se" "poll_keeps se (zt_session_mark_target_exited se)"
  "zt_session_note_thread_exit se tid x = (y, se1) \<Longrightarrow> poll_keeps se se1"
  "zt_session_report_if_target_exited os se x w = (y, se1, w1) \<Longrightarrow> poll_keeps se se1"
  "poll_keeps se (zt_compact_threads se)" "poll_keeps se (upd_thread i zt_thread_clear se)"
  "poll_keeps se (upd_thread i (zt_thread_mark_stopped st) se)" "poll_keeps se (upd_thread i zt_thread_mark_running se)"
proof -
  show "poll_keeps se (zt_compact_threads se)"
    using compact_live(2,3) [of se] se_restD [of "zt_compact_threads se" se] by (auto simp: poll_keeps_def)
  show "poll_keeps se (upd_thread i zt_thread_clear se)" "poll_keeps se (upd_thread i (zt_thread_mark_stopped st) se)"
    "poll_keeps se (upd_thread i zt_thread_mark_running se)"
    by (simp_all add: poll_keeps_def threads_ok_upd thread_marks)
qed (auto simp: poll_keeps_def zt_session_note_thread_exit_def zt_session_report_if_target_exited_def
    split: if_splits prod.splits)

lemma poll_loop_keeps:
  fixes os :: "('r, 'w) os"
  assumes "zt_poll_loop os x se w = Some (b, y, se', w')"
  shows "poll_keeps se se'"
proof -
  let ?P = "\<lambda>se r. case r of (b, y, se', w') \<Rightarrow> poll_keeps se se'"
  have "?P se (b, y, se', w')"
  proof (rule zt_poll_loop.raw_induct [where P = "\<lambda>os x se w. ?P se", OF _ assms])
    fix f :: "('r, 'w) os \<Rightarrow> bool \<Rightarrow> session \<Rightarrow> 'w \<Rightarrow> (bool \<times> bool \<times> session \<times> 'w) option" and os x se w y
    assume IH: "\<And>os x se w y. f os x se w = Some y \<Longrightarrow> ?P se y"
    note t = poll_keeps_trans
    have f: "?P se y" if "f os x' s1 w1 = Some y" "poll_keeps se s1" for x' s1 w1
      using IH [OF that(1)] t [OF that(2)] by (cases y) auto
    have gone: "poll_keeps se (zt_compact_threads (upd_thread i zt_thread_clear s1))" if "poll_keeps se s1" for i s1
      using t [OF that t [OF poll_keeps_steps(6) poll_keeps_steps(5)]] .
    obtain r w1 where r: "os_waitpid os (-1) True w = (r, w1)" by fastforce
    obtain x2 s2 where n: "zt_session_note_thread_exit se (fst (projr r)) x = (x2, s2)" by fastforce
    note n2 = poll_keeps_steps(3) [OF n]
    let ?s1 = "\<lambda>i. upd_thread i (zt_thread_mark_stopped (snd (projr r))) se"
    note k = f [OF _ poll_keeps_steps(1)] f [OF _ n2] f [OF _ gone [OF n2]] f [OF _ t [OF gone [OF n2] poll_keeps_steps(2)]]
      f [OF _ t [OF poll_keeps_steps(7) poll_keeps_steps(8)]] f [OF _ gone [OF poll_keeps_steps(7)]]
    assume e: "(case os_waitpid os (-1) True w of
        (Inl e, w1) \<Rightarrow>
          if e = EINTR then f os x se w1
          else if e = ECHILD then Some (True, zt_session_report_if_target_exited os se x w1)
          else Some (False, x, se, w1)
      | (Inr (tid, status), w1) \<Rightarrow>
          if tid = 0 then Some (True, zt_session_report_if_target_exited os se x w1)
          else case zt_session_find_thread se tid of
              None \<Rightarrow>
                if zt_wait_status_is_thread_exit status
                then (case zt_session_note_thread_exit se tid x of (x, se1) \<Rightarrow> f os x se1 w1)
                else f os x se w1
            | Some i \<Rightarrow>
                if zt_wait_status_is_thread_exit status
                then (case zt_session_note_thread_exit se tid x of
                        (x, se1) \<Rightarrow>
                          let se2 = zt_compact_threads (upd_thread i zt_thread_clear se1) in
                          if se_thread_count se2 = 0
                          then f os True (zt_session_mark_target_exited se2) w1
                          else f os x se2 w1)
                else if WIFSTOPPED status
                then let se1 = upd_thread i (zt_thread_mark_stopped status) se in
                     (case os_cont os tid (th_resume_signal (se_threads se1 ! i)) w1 of
                        (None, w2) \<Rightarrow> f os x (upd_thread i zt_thread_mark_running se1) w2
                      | (Some e, w2) \<Rightarrow>
                          if e = ESRCH
                          then f os x (zt_compact_threads (upd_thread i zt_thread_clear se1)) w2
                          else Some (False, x, se1, w2))
                else f os x se w1) = Some y"
    show "?P se y"
    proof (cases r)
      case (Inl a)
      then show ?thesis using e r k(1) poll_keeps_steps(1) by (auto split: if_splits prod.splits dest: poll_keeps_steps(4))
    next
      case (Inr p)
      obtain tid st where p: "p = (tid, st)" by fastforce
      have nn: "zt_session_note_thread_exit se tid x = (x2, s2)" using n Inr p by simp
      show ?thesis
      proof (cases "tid = 0 \<or> zt_session_find_thread se tid = None")
        case True
        then show ?thesis using e r Inr p k(1,2) nn by (auto split: if_splits prod.splits dest: poll_keeps_steps(4))
      next
        case False
        then obtain i where i: "zt_session_find_thread se tid = Some i" "tid \<noteq> 0" by auto
        obtain c w2 where c: "os_cont os tid (th_resume_signal (se_threads (?s1 i) ! i)) w1 = (c, w2)" by fastforce
        show ?thesis
          using e r Inr p i nn c k poll_keeps_steps(7) [of se i st]
          by (cases c) (auto simp: Let_def split: if_splits)
      qed
    qed
  qed
  then show ?thesis by simp
qed


lemma poll_events:
  assumes ok: "threads_ok se" and r: "zt_injector_poll_events os se w = Some (b, y, se', w')"
  shows "threads_ok se' \<and> se_pid se' = se_pid se \<and> probe_part se' = probe_part se"
proof -
  obtain b1 se1 w1 where 1: "zt_injector_refresh_threads os se w = (b1, se1, w1)" by (metis prod_cases3)
  have g: "threads_ok se1" "se_pid se1 = se_pid se" "probe_part se1 = probe_part se"
    using refresh(1) [OF ok 1] se_restD [of se1 se] by (simp_all add: grows_def)
  show ?thesis
    using r 1 ok g poll_loop_keeps [of os False se1 w1 b y se' w']
    by (auto simp: zt_injector_poll_events_def poll_keeps_def split: if_splits bool.splits prod.splits)
qed

section \<open>Patch regions\<close>

text \<open>
  The program counters of the threads in \<open>S\<close>, all stopped: reading a program counter returns
  it and moves nothing; stepping one thread and waiting for it moves only that thread.
\<close>

definition pcs_ok :: "('r, 'w) zt_arch \<Rightarrow> ('r, 'w) os \<Rightarrow> ('w \<Rightarrow> int \<Rightarrow> u64) \<Rightarrow> int set \<Rightarrow> bool" where
  "pcs_ok A os pcof S \<longleftrightarrow>
     (\<forall>tid w r w'. zt_arch_get_pc A os tid w = (r, w') \<longrightarrow> pcof w' = pcof w \<and> (\<forall>pc. r = Inr pc \<longrightarrow> pc = pcof w tid)) \<and>
     (\<forall>tid sig w e w'. os_singlestep os tid sig w = (e, w') \<longrightarrow> (\<forall>u \<in> S. u \<noteq> tid \<longrightarrow> pcof w' u = pcof w u)) \<and>
     (\<forall>tid w r w'. 0 < tid \<longrightarrow> os_waitpid os tid False w = (r, w') \<longrightarrow> (\<forall>u \<in> S. u \<noteq> tid \<longrightarrow> pcof w' u = pcof w u))"

lemma pcs_okD:
  assumes "pcs_ok A os pcof S"
  shows "zt_arch_get_pc A os tid w = (r, w') \<Longrightarrow> pcof w' = pcof w"
    and "zt_arch_get_pc A os tid w = (Inr pc, w') \<Longrightarrow> pc = pcof w tid"
    and "os_singlestep os tid sig w = (e, w') \<Longrightarrow> u \<in> S \<Longrightarrow> u \<noteq> tid \<Longrightarrow> pcof w' u = pcof w u"
    and "0 < tid \<Longrightarrow> os_waitpid os tid False w = (q, w') \<Longrightarrow> u \<in> S \<Longrightarrow> u \<noteq> tid \<Longrightarrow> pcof w' u = pcof w u"
  using assms unfolding pcs_ok_def by blast+

lemma wait_stop_pcs:
  fixes os :: "('r, 'w) os"
  assumes ok: "pcs_ok A os pcof S" and r: "zt_wait_for_thread_stop os t w = Some (b, t', w')"
    and u: "u \<in> S" "u \<noteq> th_tid t"
  shows "pcof w' u = pcof w u"
proof -
  let ?P = "\<lambda>o2 t w r. case r of (b, t', w') \<Rightarrow> o2 = os \<longrightarrow> u \<noteq> th_tid t \<longrightarrow> pcof w' u = pcof w u"
  have "?P os t w (b, t', w')"
  proof (rule zt_wait_for_thread_stop.raw_induct [where P = ?P, OF _ r])
    fix f :: "('r, 'w) os \<Rightarrow> zt_thread_info_t \<Rightarrow> 'w \<Rightarrow> (bool \<times> zt_thread_info_t \<times> 'w) option" and o2 t w y
    assume IH: "\<And>o2 t w y. f o2 t w = Some y \<Longrightarrow> ?P o2 t w y"
      and e: "(if th_tid t \<le> 0 then Some (False, t, w)
        else case os_waitpid o2 (th_tid t) False w of
          (Inr (p, status), w1) \<Rightarrow>
            if WIFSTOPPED status then Some (True, zt_thread_mark_stopped status t, w1)
            else if zt_wait_status_is_thread_exit status then Some (True, zt_thread_clear t, w1)
            else Some (False, t, w1)
        | (Inl e, w1) \<Rightarrow>
            if e = EINTR then f o2 t w1
            else if e = ECHILD \<or> e = ESRCH then Some (True, zt_thread_clear t, w1)
            else Some (False, t, w1)) = Some y"
    obtain q w1 where q: "os_waitpid o2 (th_tid t) False w = (q, w1)" by fastforce
    have m: "pcof w1 u = pcof w u" if "o2 = os" "u \<noteq> th_tid t" "0 < th_tid t"
      using pcs_okD(4) [OF ok that(3) q [unfolded that(1)] u(1) that(2)] .
    show "?P o2 t w y"
      using e q m IH [of o2 t w1 y] by (auto split: if_splits sum.splits prod.splits)
  qed
  then show ?thesis using u by simp
qed

text \<open>
  Stepping the thread of one entry: the entry keeps its thread or loses it, and stays stopped
  when the step succeeds; the other entries are unchanged.
\<close>

definition upd_one :: "nat \<Rightarrow> bool \<Rightarrow> session \<Rightarrow> session \<Rightarrow> bool" where
  "upd_one i b se se' \<longleftrightarrow>
     (\<exists>t. se' = upd_thread i (\<lambda>_. t) se \<and> (th_tid t = th_tid (se_threads se ! i) \<or> th_tid t = 0) \<and>
       (b \<and> done_thread (se_threads se ! i) \<longrightarrow> done_thread t))"

lemma upd_thread_same: "upd_thread i (\<lambda>_. se_threads se ! i) se = se"
  by (simp add: upd_thread_def)

lemma upd_one_refl: "upd_one i b se se"
  unfolding upd_one_def using upd_thread_same [of i se, symmetric] by blast

lemma upd_thread_twice: "upd_thread i (\<lambda>_. u) (upd_thread i (\<lambda>_. t) se) = upd_thread i (\<lambda>_. u) se"
  by (simp add: upd_thread_def)

lemma upd_one_trans:
  assumes l: "i < length (se_threads se)" and 1: "upd_one i True se se1" and 2: "upd_one i b se1 se2"
  shows "upd_one i b se se2"
proof -
  obtain t1 where t1: "se1 = upd_thread i (\<lambda>_. t1) se" "th_tid t1 = th_tid (se_threads se ! i) \<or> th_tid t1 = 0"
    "done_thread (se_threads se ! i) \<longrightarrow> done_thread t1" using 1 unfolding upd_one_def by auto
  have n: "se_threads se1 ! i = t1" using t1(1) l by (simp add: nth_upd_thread)
  obtain t2 where "se2 = upd_thread i (\<lambda>_. t2) se1" "th_tid t2 = th_tid t1 \<or> th_tid t2 = 0"
    "b \<and> done_thread t1 \<longrightarrow> done_thread t2" using 2 n unfolding upd_one_def by auto
  with t1 show ?thesis unfolding upd_one_def by (intro exI [of _ t2]) (auto simp: upd_thread_twice)
qed

lemma upd_one_clear: "upd_one i b se (upd_thread i zt_thread_clear se)"
  unfolding upd_one_def by (intro exI [of _ zero_thread]) (simp add: upd_thread_def thread_marks done_thread_def)

lemma single_step:
  assumes l: "i < length (se_threads se)" and r: "zt_single_step_thread os se i w = Some (b, se', w')"
  shows "upd_one i b se se'"
proof -
  let ?t = "se_threads se ! i"
  obtain e w1 where e: "os_singlestep os (th_tid ?t) (th_resume_signal ?t) w = (e, w1)" by fastforce
  have w: "upd_one i b2 se (upd_thread i (\<lambda>_. t2) se)"
    if "zt_wait_for_thread_stop os (zt_thread_mark_running ?t) w1 = Some (b2, t2, w2)" for b2 t2 w2
    using wait_stop [OF that] unfolding upd_one_def by (intro exI [of _ t2]) (auto simp: thread_marks done_thread_def)
  show ?thesis
    using r e w upd_one_refl upd_one_clear
    by (cases e) (auto simp: zt_single_step_thread_def Let_def bind_eq_Some_conv split: if_splits)
qed

lemma step_out:
  "i < length (se_threads se) \<Longrightarrow> zt_step_out A os i n se w = Some (b, se', w') \<Longrightarrow> upd_one i b se se'"
proof (induction n arbitrary: se w)
  case 0
  then show ?case by (simp add: upd_one_refl)
next
  case (Suc n)
  obtain q w1 where q: "zt_arch_get_pc A os (th_tid (se_threads se ! i)) w = (q, w1)" by fastforce
  have st: "upd_one i b se se'" if 2: "zt_single_step_thread os se i w1 = Some (b2, se2, w2)"
    and 3: "(if b2 then zt_step_out A os i n se2 w2 else Some (False, se2, w2)) = Some (b, se', w')" for b2 se2 w2
  proof -
    note 1 = single_step [OF Suc.prems(1) 2]
    have l: "i < length (se_threads se2)" using 1 Suc.prems(1) by (auto simp: upd_one_def)
    show ?thesis using 1 3 upd_one_trans [OF Suc.prems(1) _ Suc.IH [OF l]] by (cases b2) auto
  qed
  show ?case
    using Suc.prems q st upd_one_refl upd_one_clear
    by (cases q) (auto simp: bind_eq_Some_conv split: if_splits)
qed

lemma upd_one_in_place: "threads_ok se \<Longrightarrow> upd_one i b se se' \<Longrightarrow> in_place se se'"
  unfolding upd_one_def by (auto intro!: in_place_upd)

lemma upd_one_nth:
  assumes "threads_ok se" and "upd_one i b se se'" and "i < se_thread_count se"
  shows "j \<noteq> i \<Longrightarrow> j < se_thread_count se \<Longrightarrow> se_threads se' ! j = se_threads se ! j"
    and "th_tid (se_threads se' ! i) = th_tid (se_threads se ! i) \<or> th_tid (se_threads se' ! i) = 0"
    and "b \<Longrightarrow> j < se_thread_count se \<Longrightarrow> done_thread (se_threads se ! j) \<Longrightarrow> done_thread (se_threads se' ! j)"
  using assms by (auto simp: upd_one_def nth_upd_thread threads_ok_def)

text \<open>The loop over the threads, whatever its outcome.\<close>

lemma clear_each_in_place:
  "threads_ok se \<Longrightarrow> \<forall>i \<in> set is. i < se_thread_count se \<Longrightarrow> zt_clear_each A os is se w = Some (b, se', w') \<Longrightarrow> in_place se se'"
proof (induction "is" arbitrary: se w)
  case Nil
  then show ?case by (simp add: in_place_refl)
next
  case (Cons i "is")
  have l: "i < length (se_threads se)" using Cons.prems(1,2) by (simp add: threads_ok_def)
  show ?case
  proof (cases "th_tid (se_threads se ! i) \<le> 0 \<or> \<not> th_stopped (se_threads se ! i)")
    case True
    then show ?thesis using Cons by simp
  next
    case False
    then obtain b1 se1 w1 where 1: "zt_step_out A os i ZT_PATCH_REGION_MAX_SINGLE_STEPS se w = Some (b1, se1, w1)"
      using Cons.prems(3) by (auto simp: bind_eq_Some_conv)
    note p = upd_one_in_place [OF Cons.prems(1) step_out [OF l 1]]
    have IH: "in_place se se'" if "zt_clear_each A os is se1 w2 = Some (b, se', w')" for w2
      using in_place_trans [OF p Cons.IH [OF _ _ that]] p Cons.prems(2) by (simp add: in_place_def)
    show ?thesis
      using Cons.prems(3) False 1 p IH by (auto split: if_splits prod.splits sum.splits)
  qed
qed

lemma ensure_safe_ok:
  assumes ok: "threads_ok se" and r: "zt_ensure_patch_regions_are_safe A os se w = Some (b, se', w')"
  shows "threads_ok se' \<and> se_rest se' = se_rest se"
proof -
  have "threads_ok se1 \<and> se_rest se1 = se_rest se" if "zt_clear_each A os [0..<se_thread_count se] se w = Some (b1, se1, w1)" for b1 se1 w1
    using clear_each_in_place [OF ok _ that] by (simp add: in_place_def)
  then show ?thesis
    using r ok compact_live(2,3) by (auto simp: zt_ensure_patch_regions_are_safe_def bind_eq_Some_conv split: if_splits)
qed


text \<open>Program counters of the other threads while one is stepped.\<close>

lemma step_out_pcs:
  "pcs_ok A os pcof S \<Longrightarrow> i < length (se_threads se) \<Longrightarrow> zt_step_out A os i n se w = Some (b, se', w') \<Longrightarrow>
   u \<in> S \<Longrightarrow> 0 < u \<Longrightarrow> u \<noteq> th_tid (se_threads se ! i) \<Longrightarrow> pcof w' u = pcof w u"
proof (induction n arbitrary: se w)
  case 0
  then show ?case by simp
next
  case (Suc n)
  let ?t = "se_threads se ! i"
  obtain q w1 where q: "zt_arch_get_pc A os (th_tid ?t) w = (q, w1)" by fastforce
  note q1 = pcs_okD(1) [OF Suc.prems(1) q]
  have st: "pcof w' u = pcof w1 u" if 2: "zt_single_step_thread os se i w1 = Some (b2, se2, w2)"
    and 3: "(if b2 then zt_step_out A os i n se2 w2 else Some (False, se2, w2)) = Some (b, se', w')" for b2 se2 w2
  proof -
    have l: "i < length (se_threads se2)" "u \<noteq> th_tid (se_threads se2 ! i)"
      using single_step [OF Suc.prems(2) 2] Suc.prems(2,5,6) by (auto simp: upd_one_def nth_upd_thread)
    obtain e w3 where e: "os_singlestep os (th_tid ?t) (th_resume_signal ?t) w1 = (e, w3)" by fastforce
    have "pcof w2 u = pcof w1 u"
      using 2 e pcs_okD(3) [OF Suc.prems(1) e Suc.prems(4,6)]
        wait_stop_pcs [OF Suc.prems(1) _ Suc.prems(4), of "zt_thread_mark_running ?t" w3] Suc.prems(6)
      by (cases e) (auto simp: zt_single_step_thread_def Let_def bind_eq_Some_conv thread_marks split: if_splits)
    then show ?thesis using 3 Suc.IH [OF Suc.prems(1) l(1) _ Suc.prems(4,5) l(2)] by (cases b2) auto
  qed
  show ?case
    using Suc.prems(3) q q1 st by (cases q) (auto simp: bind_eq_Some_conv split: if_splits)
qed

lemma inside_cong: "se_probes a = se_probes b \<Longrightarrow> zt_pc_is_inside_patch_region a pc = zt_pc_is_inside_patch_region b pc"
  by (simp add: zt_pc_is_inside_patch_region_def)

definition clear_at :: "('w \<Rightarrow> int \<Rightarrow> u64) \<Rightarrow> session \<Rightarrow> 'w \<Rightarrow> nat \<Rightarrow> bool" where
  "clear_at pcof se w j \<longleftrightarrow> (0 < th_tid (se_threads se ! j) \<and> th_stopped (se_threads se ! j) \<longrightarrow>
     \<not> zt_pc_is_inside_patch_region se (pcof w (th_tid (se_threads se ! j))))"

text \<open>What one round of the loop over the threads leaves for the rest of it.\<close>

lemma clear_head:
  assumes pcs: "pcs_ok A os pcof S" and ok: "threads_ok se" and i: "i < se_thread_count se"
    and r: "zt_clear_each A os (i # is) se w = Some (True, se', w')"
  obtains se1 w1 where "zt_clear_each A os is se1 w1 = Some (True, se', w')" "upd_one i True se se1" "clear_at pcof se1 w1 i"
    "\<forall>u \<in> S. 0 < u \<longrightarrow> u \<noteq> th_tid (se_threads se ! i) \<longrightarrow> pcof w1 u = pcof w u"
proof (cases "th_tid (se_threads se ! i) \<le> 0 \<or> \<not> th_stopped (se_threads se ! i)")
  case True
  then show thesis using that [of se w] r upd_one_refl by (auto simp: clear_at_def)
next
  case False
  have l: "i < length (se_threads se)" using ok i by (simp add: threads_ok_def)
  obtain b1 se1 w1 where 1: "zt_step_out A os i ZT_PATCH_REGION_MAX_SINGLE_STEPS se w = Some (b1, se1, w1)"
    using False r by (auto simp: bind_eq_Some_conv)
  have b1: "b1" using False r 1 by (auto split: if_splits)
  note u = step_out [OF l 1]
  note p = step_out_pcs [OF pcs l 1]
  let ?t = "se_threads se1 ! i"
  obtain q w2 where q: "zt_arch_get_pc A os (th_tid ?t) w1 = (q, w2)" by fastforce
  note q1 = pcs_okD(1) [OF pcs q]
  show thesis
  proof (cases "0 < th_tid ?t \<and> th_stopped ?t")
    case True
    then obtain pc where "q = Inr pc" "\<not> zt_pc_is_inside_patch_region se1 pc"
      and c: "zt_clear_each A os is se1 w2 = Some (True, se', w')"
      using False r 1 b1 q by (auto split: if_splits sum.splits)
    moreover have "pc = pcof w2 (th_tid ?t)" if "q = Inr pc" for pc using pcs_okD(2) [OF pcs q [unfolded that]] q1 by simp
    ultimately have "clear_at pcof se1 w2 i" by (simp add: clear_at_def)
    then show thesis using that [OF c] u b1 p q1 by simp
  next
    case no: False
    then have c: "zt_clear_each A os is se1 w1 = Some (True, se', w')" using False r 1 b1 by (auto split: if_splits)
    then show thesis using that [OF c] u b1 p no by (auto simp: clear_at_def)
  qed
qed

lemma clear_each:
  assumes pcs: "pcs_ok A os pcof S"
  shows "threads_ok se \<Longrightarrow> distinct is \<Longrightarrow> \<forall>i \<in> set is. i < se_thread_count se \<Longrightarrow>
    \<forall>j < se_thread_count se. 0 < th_tid (se_threads se ! j) \<longrightarrow> th_tid (se_threads se ! j) \<in> S \<Longrightarrow>
    zt_clear_each A os is se w = Some (True, se', w') \<Longrightarrow>
    (\<forall>j < se_thread_count se. j \<notin> set is \<longrightarrow> se_threads se' ! j = se_threads se ! j \<and>
      (0 < th_tid (se_threads se ! j) \<longrightarrow> pcof w' (th_tid (se_threads se ! j)) = pcof w (th_tid (se_threads se ! j)))) \<and>
    (\<forall>j \<in> set is. clear_at pcof se' w' j) \<and>
    (\<forall>j < se_thread_count se. done_thread (se_threads se ! j) \<longrightarrow> done_thread (se_threads se' ! j))"
proof (induction "is" arbitrary: se w)
  case Nil
  then show ?case by simp
next
  case (Cons i "is")
  have i: "i < se_thread_count se" using Cons.prems(3) by simp
  obtain se1 w1 where h: "zt_clear_each A os is se1 w1 = Some (True, se', w')" "upd_one i True se se1" "clear_at pcof se1 w1 i"
    "\<forall>u \<in> S. 0 < u \<longrightarrow> u \<noteq> th_tid (se_threads se ! i) \<longrightarrow> pcof w1 u = pcof w u"
    using clear_head [OF pcs Cons.prems(1) i Cons.prems(5)] by blast
  note nth = upd_one_nth [OF Cons.prems(1) h(2) i]
  have p: "threads_ok se1" "se_thread_count se1 = se_thread_count se" "se_rest se1 = se_rest se"
    using upd_one_in_place [OF Cons.prems(1) h(2)] by (simp_all add: in_place_def)
  have S1: "\<forall>j < se_thread_count se1. 0 < th_tid (se_threads se1 ! j) \<longrightarrow> th_tid (se_threads se1 ! j) \<in> S"
    using Cons.prems(4) nth(1,2) p(2) i by (metis less_irrefl)
  have d: "i \<notin> set is" "distinct is" "\<forall>k \<in> set is. k < se_thread_count se1" using Cons.prems(2,3) p(2) by auto
  note IH = Cons.IH [OF p(1) d(2,3) S1 h(1)]
  have probes: "se_probes se' = se_probes se1"
    using clear_each_in_place [OF p(1) d(3) h(1)] se_restD [of se' se1] by (simp add: in_place_def)
  have same: "se_threads se' ! i = se_threads se1 ! i"
    "0 < th_tid (se_threads se1 ! i) \<longrightarrow> pcof w' (th_tid (se_threads se1 ! i)) = pcof w1 (th_tid (se_threads se1 ! i))"
    using IH [THEN conjunct1, rule_format, of i] d(1) i p(2) by simp_all
  have "clear_at pcof se' w' i"
    using h(3) same inside_cong [OF probes] by (auto simp: clear_at_def)
  moreover have "se_threads se' ! j = se_threads se ! j \<and>
      (0 < th_tid (se_threads se ! j) \<longrightarrow> pcof w' (th_tid (se_threads se ! j)) = pcof w (th_tid (se_threads se ! j)))"
    if j: "j < se_thread_count se" "j \<notin> set (i # is)" for j
  proof -
    have e: "se_threads se1 ! j = se_threads se ! j" using nth(1) j by auto
    have "th_tid (se_threads se ! j) \<noteq> th_tid (se_threads se ! i)" if "0 < th_tid (se_threads se ! j)"
      using threads_ok_nth [OF Cons.prems(1) j(1) i _ that] j(2) by auto
    then show ?thesis
      using IH [THEN conjunct1, rule_format, of j] j p(2) e h(4) Cons.prems(4) by auto
  qed
  moreover have "done_thread (se_threads se' ! j)" if "j < se_thread_count se" "done_thread (se_threads se ! j)" for j
    using IH nth(3) [OF _ that] that p(2) by simp
  ultimately show ?case using IH by auto
qed

section \<open>Properties\<close>


text \<open>Two tasks that stop; the second wait is interrupted once.\<close>

definition ex_thr_sim :: "unit sim" where
  "ex_thr_sim = \<lparr>sm_mem = (\<lambda>_. 0), sm_regs = (), sm_vm = True,
     sm_waits = [Inr (7, 0x80057f), Inl EINTR, Inr (8, 0x80057f)], sm_tasks = [''.'', ''..'', ''7'', ''8''], sm_maps = []\<rparr>"

definition ex_thr_session :: session where
  "ex_thr_session = zero_session\<lparr>se_pid := 7\<rparr>"

lemma threads_ok_ex: "threads_ok ex_thr_session"
  by (simp add: threads_ok_def ex_thr_session_def zero_session_def)

lemma ex_interrupt_all:
  "map_option fst (zt_injector_interrupt_all (sim_os (\<lambda>w. w)) ex_thr_session ex_thr_sim) = Some True"
  by code_simp


text \<open>
  C26. Code is patched only while no thread is inside it: when
  \<^verbatim>\<open>zt_ensure_patch_regions_are_safe\<close> succeeds on a table of stopped threads, every thread
  that is left in the table is stopped with a program counter outside the bytes of every
  probe, although moving one thread out takes place after others were checked.
\<close>

theorem patch_regions_clear:
  assumes "threads_ok se" and "\<forall>t \<in> set (live_threads se). th_stopped t"
    and "pcs_ok A os pcof (th_tid ` set (live_threads se))"
    and "zt_ensure_patch_regions_are_safe A os se w = Some (True, se', w')"
  shows "\<forall>t \<in> set (live_threads se'). 0 < th_tid t \<and> th_stopped t \<and>
    \<not> zt_pc_is_inside_patch_region se' (pcof w' (th_tid t))"
proof
  fix t
  assume t: "t \<in> set (live_threads se')"
  obtain se1 where c: "zt_clear_each A os [0..<se_thread_count se] se w = Some (True, se1, w')" "se' = zt_compact_threads se1"
    using assms(4) by (auto simp: zt_ensure_patch_regions_are_safe_def bind_eq_Some_conv split: if_splits)
  have ok1: "threads_ok se1" "se_thread_count se1 = se_thread_count se"
    using clear_each_in_place [OF assms(1) _ c(1)] by (simp_all add: in_place_def)
  have t1: "t \<in> set (live_threads se1)" "0 < th_tid t" using t compact_live(1) [OF ok1(1)] c(2) by auto
  then obtain j where j: "j < se_thread_count se" "t = se_threads se1 ! j"
    using ok1 by (auto simp: in_set_conv_nth threads_ok_def)
  have live: "se_threads se ! k \<in> set (live_threads se)" if "k < se_thread_count se" for k
    using that assms(1) by (force simp: threads_ok_def in_set_conv_nth)
  note cl = clear_each [OF assms(3,1) _ _ _ c(1), simplified]
  have "clear_at pcof se1 w' j" "done_thread (se_threads se1 ! j)"
    using cl j(1) live assms(2) by (simp_all add: done_thread_def)
  moreover have "se_probes se' = se_probes se1" using se_restD [OF compact_live(3) [OF ok1(1)]] c(2) by simp
  ultimately show "0 < th_tid t \<and> th_stopped t \<and> \<not> zt_pc_is_inside_patch_region se' (pcof w' (th_tid t))"
    using t1(2) j(2) inside_cong [of se' se1] by (auto simp: clear_at_def done_thread_def)
qed

text \<open>
  A processor that the simulated kernel steps: the program counter is the register, and one
  step leads out of the probed function.
\<close>

definition ex_pc_arch :: "(u64, u64 sim) zt_arch" where
  "ex_pc_arch = \<lparr>zt_arch_probe_patch_len = 14, zt_arch_calc_patch_span = (\<lambda>_ _. None),
     zt_arch_install_jump = (\<lambda>_ _ _ _ w. (False, w)), zt_arch_get_pc = (\<lambda>os tid w. (Inr (sm_regs w), w)),
     zt_arch_remote_syscall6 = (\<lambda>_ _ _ _. None), zt_arch_remote_call2 = (\<lambda>_ _ _ _. None),
     zt_arch_build_trampoline = (\<lambda>_ _ _. None), zt_arch_SYS_mmap = 9, zt_arch_SYS_munmap = 11\<rparr>"

definition ex_pc_step :: "u64 sim \<Rightarrow> u64 sim" where
  "ex_pc_step w = w\<lparr>sm_regs := sm_regs w + 9, sm_waits := [Inr (7, 0x057f)]\<rparr>"

definition ex_pc_os :: "(u64, u64 sim) os" where
  "ex_pc_os = (sim_os (\<lambda>w. w))\<lparr>os_singlestep := \<lambda>tid sig w. if tid = 7 then (None, ex_pc_step w) else (Some ESRCH, w)\<rparr>"

definition ex_pc_sim :: "u64 sim" where
  "ex_pc_sim = \<lparr>sm_mem = (\<lambda>_. 0), sm_regs = 0x4005, sm_vm = True, sm_waits = [], sm_tasks = [], sm_maps = []\<rparr>"

definition ex_pc_session :: session where
  "ex_pc_session = zero_session\<lparr>se_pid := 7, se_threads_stopped := True, se_thread_count := 1,
     se_threads := \<lparr>th_tid = 7, th_stopped = True, th_resume_signal = 0\<rparr> # replicate 255 zero_thread,
     se_probes := zero_probe\<lparr>pi_probe_id := 1, pi_orig_len := 14,
       pi_target := zero_target\<lparr>tgt_remote_addr := 0x4000\<rparr>\<rparr> # replicate 31 zero_probe\<rparr>"

lemma ex_pc_ensure:
  "map_option fst (zt_ensure_patch_regions_are_safe ex_pc_arch ex_pc_os ex_pc_session ex_pc_sim) = Some True"
  by code_simp

theorem patch_regions_clear_witness:
  "zt_pc_is_inside_patch_region ex_pc_session (sm_regs ex_pc_sim) \<and>
   (\<exists>se w. zt_ensure_patch_regions_are_safe ex_pc_arch ex_pc_os ex_pc_session ex_pc_sim = Some (True, se, w) \<and>
     (\<forall>t \<in> set (live_threads se). \<not> zt_pc_is_inside_patch_region se (sm_regs w)))"
proof -
  obtain se w where r: "zt_ensure_patch_regions_are_safe ex_pc_arch ex_pc_os ex_pc_session ex_pc_sim = Some (True, se, w)"
    using ex_pc_ensure by auto
  have ok: "threads_ok ex_pc_session" by (simp add: threads_ok_def ex_pc_session_def ZT_THREADS_CAPACITY_def)
  have st: "\<forall>t \<in> set (live_threads ex_pc_session). th_stopped t" by (simp add: ex_pc_session_def)
  have pcs: "pcs_ok ex_pc_arch ex_pc_os (\<lambda>w tid. sm_regs w) (th_tid ` set (live_threads ex_pc_session))"
    by (auto simp: pcs_ok_def ex_pc_arch_def ex_pc_os_def sim_os_def ex_pc_session_def split: if_splits list.splits)
  have "zt_pc_is_inside_patch_region ex_pc_session (sm_regs ex_pc_sim)" by code_simp
  with patch_regions_clear [OF ok st pcs r] r show ?thesis by blast
qed


text \<open>
  C27. The thread table stays well formed: it never holds a thread twice, its count never
  exceeds its capacity, and the process and the probe table are never touched, for every
  operation of thread control and every outcome of it, starting from the empty table of a
  new session.
\<close>

theorem thread_table_invariant:
  "threads_ok zero_session \<and>
   (threads_ok se \<longrightarrow>
     (\<forall>b se' w'. zt_injector_refresh_threads os se w = (b, se', w') \<or> zt_injector_continue_all os se w = (b, se', w') \<or>
        zt_injector_interrupt_all os se w = Some (b, se', w') \<or> zt_injector_poll_events os se w = Some (b, x, se', w') \<or>
        zt_ensure_patch_regions_are_safe A os se w = Some (b, se', w') \<longrightarrow>
      threads_ok se' \<and> se_pid se' = se_pid se \<and> se_probes se' = se_probes se))"
proof (intro conjI impI allI)
  show "threads_ok zero_session" by (simp add: threads_ok_def zero_session_def)
next
  fix b se' w'
  assume ok: "threads_ok se" and "zt_injector_refresh_threads os se w = (b, se', w') \<or> zt_injector_continue_all os se w = (b, se', w') \<or>
    zt_injector_interrupt_all os se w = Some (b, se', w') \<or> zt_injector_poll_events os se w = Some (b, x, se', w') \<or>
    zt_ensure_patch_regions_are_safe A os se w = Some (b, se', w')"
  then have "threads_ok se' \<and> se_pid se' = se_pid se \<and> se_probes se' = se_probes se"
    using refresh(1) [OF ok, of os w b se' w'] continue_all [OF ok, of os w b se' w'] interrupt_all [OF ok, of os w b se' w']
      poll_events [OF ok, of os w b x se' w'] ensure_safe_ok [OF ok, of A os w b se' w'] se_restD [of se' se]
    unfolding grows_def prod.inject by blast
  then show "threads_ok se'" "se_pid se' = se_pid se" "se_probes se' = se_probes se" by simp_all
qed

theorem thread_table_invariant_witness:
  "\<exists>se w. zt_injector_interrupt_all (sim_os (\<lambda>w. w)) ex_thr_session ex_thr_sim = Some (True, se, w) \<and> threads_ok se"
proof -
  obtain se w where r: "zt_injector_interrupt_all (sim_os (\<lambda>w. w)) ex_thr_session ex_thr_sim = Some (True, se, w)"
    using ex_interrupt_all by auto
  with thread_table_invariant [of ex_thr_session "sim_os (\<lambda>w. w)" ex_thr_sim] threads_ok_ex show ?thesis by blast
qed

section \<open>The loops end\<close>

text \<open>
  \<open>pending\<close> bounds the interruptions of a blocking wait and the events the target is still
  going to report: an interrupted wait and a delivered event use it up.
\<close>

definition events_finite :: "('r, 'w) os \<Rightarrow> ('w \<Rightarrow> nat) \<Rightarrow> bool" where
  "events_finite os pending \<longleftrightarrow>
     (\<forall>tid w w'. os_waitpid os tid False w = (Inl EINTR, w') \<longrightarrow> pending w' < pending w) \<and>
     (\<forall>w r w'. os_waitpid os (-1) True w = (r, w') \<longrightarrow>
        (\<exists>st. r = Inr (0, st)) \<or> (\<exists>e. r = Inl e \<and> e \<noteq> EINTR) \<or> pending w' < pending w) \<and>
     (\<forall>tid sig w e w'. os_cont os tid sig w = (e, w') \<longrightarrow> pending w' \<le> pending w)"

definition returns :: "'a option \<Rightarrow> bool" where
  "returns m \<longleftrightarrow> m \<noteq> None"

lemma returns_Some [simp]: "returns (Some x)"
  by (simp add: returns_def)

lemma returns_bind: "returns m \<Longrightarrow> (\<And>x. returns (f x)) \<Longrightarrow> returns (Option.bind m f)"
  by (cases m) (simp_all add: returns_def)

lemma wait_returns:
  assumes "events_finite os pending"
  shows "returns (zt_wait_for_thread_stop os t w)"
proof (induction "pending w" arbitrary: w rule: less_induct)
  case less
  obtain r w1 where r: "os_waitpid os (th_tid t) False w = (r, w1)" by fastforce
  have "r = Inl EINTR \<Longrightarrow> pending w1 < pending w" using assms r unfolding events_finite_def by blast
  then show ?case
    using r less by (subst zt_wait_for_thread_stop.simps) (auto split: sum.splits)
qed

lemma wait_each_returns: "events_finite os pending \<Longrightarrow> returns (zt_wait_each os is se w)"
proof (induction "is" arbitrary: se w)
  case (Cons i "is")
  show ?case
    using wait_returns [OF Cons.prems, of "se_threads se ! i" w] Cons.IH [OF Cons.prems]
    by (auto simp: Let_def intro!: returns_bind)
qed simp

lemma passes_return: "events_finite os pending \<Longrightarrow> returns (zt_interrupt_passes os n se w)"
proof (induction n arbitrary: se w)
  case (Suc n)
  show ?case
    using wait_each_returns [OF Suc.prems] Suc.IH [OF Suc.prems]
    by (auto intro!: returns_bind split: prod.splits bool.splits)
qed simp

lemma single_step_returns: "events_finite os pending \<Longrightarrow> returns (zt_single_step_thread os se i w)"
  using wait_returns [of os pending "zt_thread_mark_running (se_threads se ! i)"]
  by (auto simp: zt_single_step_thread_def Let_def intro!: returns_bind split: option.splits prod.splits)

lemma step_out_returns: "events_finite os pending \<Longrightarrow> returns (zt_step_out A os i n se w)"
proof (induction n arbitrary: se w)
  case (Suc n)
  show ?case
    using single_step_returns [OF Suc.prems] Suc.IH [OF Suc.prems]
    by (auto intro!: returns_bind split: prod.splits sum.splits)
qed simp

lemma clear_each_returns: "events_finite os pending \<Longrightarrow> returns (zt_clear_each A os is se w)"
proof (induction "is" arbitrary: se w)
  case (Cons i "is")
  show ?case
    using step_out_returns [OF Cons.prems] Cons.IH [OF Cons.prems]
    by (auto intro!: returns_bind split: prod.splits sum.splits)
qed simp

lemma poll_loop_returns:
  assumes "events_finite os pending"
  shows "returns (zt_poll_loop os x se w)"
proof (induction "pending w" arbitrary: w x se rule: less_induct)
  case less
  obtain r w1 where r: "os_waitpid os (-1) True w = (r, w1)" by fastforce
  have c: "pending w2 < pending w" if "os_cont os tid sig w1 = (e, w2)" "pending w1 < pending w" for tid sig e w2
    using assms that unfolding events_finite_def by (meson le_less_trans)
  show ?case
  proof (cases "pending w1 < pending w")
    case True
    then have l: "returns (zt_poll_loop os x se w1)" for x se using less by blast
    have l2: "returns (zt_poll_loop os x se w2)" if "os_cont os tid sig w1 = (e, w2)" for tid sig e w2 x se
      using less c [OF that True] by blast
    show ?thesis
      unfolding zt_poll_loop.simps [of os x se w] r using l l2
      by (auto simp: Let_def split: sum.splits prod.splits option.splits)
  next
    case False
    then have "(\<exists>st. r = Inr (0, st)) \<or> (\<exists>e. r = Inl e \<and> e \<noteq> EINTR)"
      using assms r unfolding events_finite_def by blast
    then show ?thesis unfolding zt_poll_loop.simps [of os x se w] r by auto
  qed
qed

text \<open>
  Thread control ends: when waits are interrupted only finitely often, stopping all
  threads and clearing the patch regions return, since they make a bounded number of passes
  and steps; polling returns when the target reports finitely many events.
\<close>

theorem thread_control_returns:
  assumes "events_finite os pending"
  shows "(\<exists>r. zt_injector_interrupt_all os se w = Some r) \<and> (\<exists>r. zt_ensure_patch_regions_are_safe A os se w = Some r) \<and>
    (\<exists>r. zt_injector_poll_events os se w = Some r)"
proof (intro conjI)
  show "\<exists>r. zt_injector_interrupt_all os se w = Some r"
    using passes_return [OF assms] unfolding zt_injector_interrupt_all_def not_None_eq [symmetric] returns_def [symmetric]
    by (auto split: prod.splits bool.splits)
  show "\<exists>r. zt_ensure_patch_regions_are_safe A os se w = Some r"
    using clear_each_returns [OF assms] unfolding zt_ensure_patch_regions_are_safe_def not_None_eq [symmetric] returns_def [symmetric]
    by (auto intro!: returns_bind)
  show "\<exists>r. zt_injector_poll_events os se w = Some r"
    using poll_loop_returns [OF assms] unfolding zt_injector_poll_events_def not_None_eq [symmetric] returns_def [symmetric]
    by (auto split: prod.splits bool.splits)
qed

theorem thread_control_returns_witness:
  "\<exists>r. zt_injector_poll_events (sim_os (\<lambda>w. w)) ex_thr_session ex_thr_sim = Some r"
proof -
  have "events_finite (sim_os (\<lambda>w :: unit sim. w)) (\<lambda>w. length (sm_waits w))"
    by (auto simp: events_finite_def sim_os_def split: list.splits)
  from thread_control_returns [OF this] show ?thesis by blast
qed

end
