(* ===== verification/ZT_Symbols.thy ===== *)
theory ZT_Symbols
  imports ZT_Threads
begin

text \<open>
  Symbol resolution of \<^verbatim>\<open>src/zt_injector.c\<close>: ELF headers and symbol tables, the mappings
  listed in \<^verbatim>\<open>/proc/pid/maps\<close>, and the search of a symbol in the executable and then in
  the mapped files. Structures of \<^verbatim>\<open>elf.h\<close> are byte strings with accessors at the offsets
  of the fields; reading a file is one call that opens the file and reads (\<open>os_pread\<close>).
  Allocation of the temporary buffers succeeds.
\<close>

section \<open>Scanning lines\<close>

text \<open>The conversions of \<^verbatim>\<open>sscanf\<close> that the sources use; a starred conversion assigns nothing.\<close>

datatype scan_dir =
    ScHex
  | ScSkipHexDigits
  | ScLit char
  | ScSpace
  | ScSkipStr "nat option"
  | ScStr

datatype scan_val = SvNum u64 | SvStr string

definition is_hex_digit :: "char \<Rightarrow> bool" where
  "is_hex_digit c = (digit_val c < 16)"

definition scan_hex :: "string \<Rightarrow> (u64 \<times> string) option" where
  "scan_hex s =
     (let (neg, s1) = strip_sign (dropWhile isspace s);
          s2 = (if starts_with s1 ''0x'' \<or> starts_with s1 ''0X'' then drop 2 s1 else s1);
          ds = takeWhile is_hex_digit s2;
          v = digits_val 16 ds
      in if ds = [] then None
         else Some (if 2 ^ 64 \<le> v then - 1 else if neg then - of_int v else of_int v, dropWhile is_hex_digit s2))"

definition scan_word :: "string \<Rightarrow> (string \<times> string) option" where
  "scan_word s =
     (let s1 = dropWhile isspace s; t = takeWhile (\<lambda>c. \<not> isspace c) s1
      in if t = [] then None else Some (t, dropWhile (\<lambda>c. \<not> isspace c) s1))"

text \<open>The values assigned before the first conversion that fails.\<close>

fun sscanf :: "scan_dir list \<Rightarrow> string \<Rightarrow> scan_val list" where
  "sscanf [] s = []"
| "sscanf (ScHex # ds) s = (case scan_hex s of None \<Rightarrow> [] | Some (v, r) \<Rightarrow> SvNum v # sscanf ds r)"
| "sscanf (ScSkipHexDigits # ds) s =
     (if takeWhile is_hex_digit s = [] then [] else sscanf ds (dropWhile is_hex_digit s))"
| "sscanf (ScLit c # ds) s = (case s of [] \<Rightarrow> [] | x # r \<Rightarrow> if x = c then sscanf ds r else [])"
| "sscanf (ScSpace # ds) s = sscanf ds (dropWhile isspace s)"
| "sscanf (ScSkipStr w # ds) s =
     (case scan_word s of
        None \<Rightarrow> []
      | Some (t, r) \<Rightarrow> sscanf ds (case w of None \<Rightarrow> r | Some n \<Rightarrow> drop n t @ r))"
| "sscanf (ScStr # ds) s = (case scan_word s of None \<Rightarrow> [] | Some (t, r) \<Rightarrow> SvStr t # sscanf ds r)"

section \<open>Mappings\<close>

definition maps_range_format :: "scan_dir list" where
  "maps_range_format = [ScHex, ScLit (CHR ''-''), ScHex]"

definition zt_remote_addr_is_mapped :: "('r, 'w) os \<Rightarrow> int \<Rightarrow> u64 \<Rightarrow> 'w \<Rightarrow> bool \<times> 'w" where
  "zt_remote_addr_is_mapped os pid addr w =
     (if pid \<le> 0 \<or> addr = 0 then (False, w)
      else case os_proc_maps os pid w of
          (Inl e, w1) \<Rightarrow> (False, w1)
        | (Inr lines, w1) \<Rightarrow>
            (list_ex (\<lambda>line. case sscanf maps_range_format line of
                [SvNum start, SvNum end_addr] \<Rightarrow> addr \<ge> start \<and> addr < end_addr
              | _ \<Rightarrow> False) lines, w1))"

definition maps_base_format :: "scan_dir list" where
  "maps_base_format = [ScHex, ScLit (CHR ''-''), ScSkipHexDigits, ScSpace, ScSkipStr (Some 7), ScSpace, ScHex,
     ScSpace, ScSkipStr None, ScSpace, ScSkipStr None, ScSpace, ScStr]"

fun zt_read_image_base_loop :: "string \<Rightarrow> string list \<Rightarrow> u64 option" where
  "zt_read_image_base_loop image_path [] = None"
| "zt_read_image_base_loop image_path (line # lines) =
     (case sscanf maps_base_format line of
        [SvNum start, SvNum offset, SvStr path] \<Rightarrow>
          if offset = 0 \<and> path = image_path then Some start else zt_read_image_base_loop image_path lines
      | _ \<Rightarrow> zt_read_image_base_loop image_path lines)"

definition zt_read_image_base :: "('r, 'w) os \<Rightarrow> int \<Rightarrow> string \<Rightarrow> 'w \<Rightarrow> (errno + u64) \<times> 'w" where
  "zt_read_image_base os pid image_path w =
     (case os_proc_maps os pid w of
        (Inl e, w1) \<Rightarrow> (Inl e, w1)
      | (Inr lines, w1) \<Rightarrow>
          (case zt_read_image_base_loop image_path lines of None \<Rightarrow> Inl ENOENT | Some base \<Rightarrow> Inr base, w1))"

section \<open>ELF files\<close>

definition field :: "u8 list \<Rightarrow> nat \<Rightarrow> nat \<Rightarrow> nat" where
  "field bs off n = unat (le_word (buf_get bs off n) :: u64)"

definition e_type :: "u8 list \<Rightarrow> nat" where "e_type h = field h 16 2"
definition e_shoff :: "u8 list \<Rightarrow> nat" where "e_shoff h = field h 40 8"
definition e_shentsize :: "u8 list \<Rightarrow> nat" where "e_shentsize h = field h 58 2"
definition e_shnum :: "u8 list \<Rightarrow> nat" where "e_shnum h = field h 60 2"

definition sh_type :: "u8 list \<Rightarrow> nat" where "sh_type s = field s 4 4"
definition sh_offset :: "u8 list \<Rightarrow> nat" where "sh_offset s = field s 24 8"
definition sh_size :: "u8 list \<Rightarrow> nat" where "sh_size s = field s 32 8"
definition sh_link :: "u8 list \<Rightarrow> nat" where "sh_link s = field s 40 4"
definition sh_entsize :: "u8 list \<Rightarrow> nat" where "sh_entsize s = field s 56 8"

definition st_name :: "u8 list \<Rightarrow> nat" where "st_name s = field s 0 4"
definition st_info :: "u8 list \<Rightarrow> nat" where "st_info s = field s 4 1"
definition st_shndx :: "u8 list \<Rightarrow> nat" where "st_shndx s = field s 6 2"
definition st_value :: "u8 list \<Rightarrow> u64" where "st_value s = le_word (buf_get s 8 8)"

definition zt_read_elf_header :: "('r, 'w) os \<Rightarrow> string \<Rightarrow> 'w \<Rightarrow> (errno + u8 list) \<times> 'w" where
  "zt_read_elf_header os exe_path w =
     (case os_pread os exe_path 0 64 w of
        (Inl e, w1) \<Rightarrow> (Inl e, w1)
      | (Inr header, w1) \<Rightarrow>
          (if length header \<noteq> 64 then Inl EINVAL
           else if take 4 header \<noteq> [0x7f, 0x45, 0x4c, 0x46] then Inl EINVAL
           else if header ! 4 \<noteq> 2 \<or> header ! 5 \<noteq> 1 \<or> header ! 6 \<noteq> 1 then Inl EINVAL
           else Inr header, w1))"

definition ET_EXEC :: nat where "ET_EXEC = 2"
definition ET_DYN :: nat where "ET_DYN = 3"

definition zt_check_is_pie :: "('r, 'w) os \<Rightarrow> string \<Rightarrow> 'w \<Rightarrow> (errno + bool) \<times> 'w" where
  "zt_check_is_pie os exe_path w =
     (case zt_read_elf_header os exe_path w of
        (Inl e, w1) \<Rightarrow> (Inl e, w1)
      | (Inr header, w1) \<Rightarrow>
          (if e_type header = ET_DYN then Inr True else if e_type header = ET_EXEC then Inr False else Inl EINVAL, w1))"

text \<open>The string that starts at an offset of a string table.\<close>

definition str_at :: "u8 list \<Rightarrow> nat \<Rightarrow> string" where
  "str_at strings off = map (\<lambda>b. char_of (unat b)) (takeWhile (\<lambda>b. b \<noteq> 0) (drop off strings))"

text \<open>The tests on one symbol: its value when it is a defined function of the given name.\<close>

definition symbol_match :: "u8 list \<Rightarrow> nat \<Rightarrow> string \<Rightarrow> u8 list \<Rightarrow> u64 option" where
  "symbol_match strings strtab_size symbol_name entry =
     (if st_name entry \<ge> strtab_size then None
      else if str_at strings (st_name entry) \<noteq> symbol_name then None
      else if st_shndx entry = 0 \<or> st_value entry = 0 then None
      else if st_info entry mod 16 \<noteq> 2 \<and> st_info entry mod 16 \<noteq> 10 \<and> st_info entry mod 16 \<noteq> 0 then None
      else Some (st_value entry))"

fun zt_find_in_symbols :: "u8 list \<Rightarrow> u8 list \<Rightarrow> nat \<Rightarrow> string \<Rightarrow> nat list \<Rightarrow> u64 option" where
  "zt_find_in_symbols symbols strings strtab_size symbol_name [] = None"
| "zt_find_in_symbols symbols strings strtab_size symbol_name (j # js) =
     (case symbol_match strings strtab_size symbol_name (buf_get symbols (24 * j) 24) of
        Some v \<Rightarrow> Some v
      | None \<Rightarrow> zt_find_in_symbols symbols strings strtab_size symbol_name js)"

fun zt_find_in_sections ::
  "('r, 'w) os \<Rightarrow> string \<Rightarrow> u8 list \<Rightarrow> nat \<Rightarrow> string \<Rightarrow> nat list \<Rightarrow> 'w \<Rightarrow> u64 option \<times> 'w" where
  "zt_find_in_sections os elf_path shdrs shnum symbol_name [] w = (None, w)"
| "zt_find_in_sections os elf_path shdrs shnum symbol_name (i # is) w =
     (let symtab = buf_get shdrs (64 * i) 64 in
      if sh_type symtab \<noteq> 2 \<and> sh_type symtab \<noteq> 11 then zt_find_in_sections os elf_path shdrs shnum symbol_name is w
      else if sh_link symtab \<ge> shnum \<or> sh_entsize symtab = 0
      then zt_find_in_sections os elf_path shdrs shnum symbol_name is w
      else let strtab = buf_get shdrs (64 * sh_link symtab) 64 in
        (case os_pread os elf_path (sh_offset symtab) (sh_size symtab) w of
           (Inl e, w1) \<Rightarrow> zt_find_in_sections os elf_path shdrs shnum symbol_name is w1
         | (Inr symbols, w1) \<Rightarrow>
             if length symbols \<noteq> sh_size symtab then zt_find_in_sections os elf_path shdrs shnum symbol_name is w1
             else (case os_pread os elf_path (sh_offset strtab) (sh_size strtab) w1 of
                (Inl e, w2) \<Rightarrow> zt_find_in_sections os elf_path shdrs shnum symbol_name is w2
              | (Inr strings, w2) \<Rightarrow>
                  if length strings \<noteq> sh_size strtab then zt_find_in_sections os elf_path shdrs shnum symbol_name is w2
                  else (case zt_find_in_symbols symbols strings (sh_size strtab) symbol_name
                               [0..<sh_size symtab div sh_entsize symtab] of
                     Some v \<Rightarrow> (Some v, w2)
                   | None \<Rightarrow> zt_find_in_sections os elf_path shdrs shnum symbol_name is w2))))"

definition zt_find_symbol_addr :: "('r, 'w) os \<Rightarrow> string \<Rightarrow> string \<Rightarrow> 'w \<Rightarrow> u64 option \<times> 'w" where
  "zt_find_symbol_addr os elf_path symbol_name w =
     (case zt_read_elf_header os elf_path w of
        (Inl e, w1) \<Rightarrow> (None, w1)
      | (Inr ehdr, w1) \<Rightarrow>
          (case os_pread os elf_path (e_shoff ehdr) (e_shentsize ehdr * e_shnum ehdr) w1 of
             (Inl e, w2) \<Rightarrow> (None, w2)
           | (Inr shdrs, w2) \<Rightarrow>
               if length shdrs \<noteq> e_shentsize ehdr * e_shnum ehdr then (None, w2)
               else zt_find_in_sections os elf_path shdrs (e_shnum ehdr) symbol_name [0..<e_shnum ehdr] w2))"

section \<open>Resolution\<close>

definition zt_find_remote_symbol_addr :: "('r, 'w) os \<Rightarrow> int \<Rightarrow> string \<Rightarrow> string \<Rightarrow> 'w \<Rightarrow> u64 option \<times> 'w" where
  "zt_find_remote_symbol_addr os pid module_path symbol_name w =
     (case zt_find_symbol_addr os module_path symbol_name w of
        (None, w1) \<Rightarrow> (None, w1)
      | (Some symbol_value, w1) \<Rightarrow>
          (case zt_check_is_pie os module_path w1 of
             (Inl e, w2) \<Rightarrow> (None, w2)
           | (Inr is_dyn, w2) \<Rightarrow>
               if is_dyn
               then (case zt_read_image_base os pid module_path w2 of
                       (Inl e, w3) \<Rightarrow> (None, w3)
                     | (Inr module_base, w3) \<Rightarrow> (Some (module_base + symbol_value), w3))
               else (Some symbol_value, w2)))"

definition maps_path_format :: "scan_dir list" where
  "maps_path_format = [ScSkipHexDigits, ScLit (CHR ''-''), ScSkipHexDigits, ScSpace, ScSkipStr (Some 7), ScSpace,
     ScSkipHexDigits, ScSpace, ScSkipStr None, ScSpace, ScSkipStr None, ScSpace, ScStr]"

fun zt_resolve_in_maps ::
  "('r, 'w) os \<Rightarrow> int \<Rightarrow> string \<Rightarrow> string list \<Rightarrow> 'w \<Rightarrow> (string \<times> u64) option \<times> 'w" where
  "zt_resolve_in_maps os pid symbol_name [] w = (None, w)"
| "zt_resolve_in_maps os pid symbol_name (line # lines) w =
     (case sscanf maps_path_format line of
        [SvStr path] \<Rightarrow>
          if hd path \<noteq> CHR ''/'' then zt_resolve_in_maps os pid symbol_name lines w
          else (case zt_find_remote_symbol_addr os pid path symbol_name w of
                  (None, w1) \<Rightarrow> zt_resolve_in_maps os pid symbol_name lines w1
                | (Some remote_addr, w1) \<Rightarrow> (Some (path, remote_addr), w1))
      | _ \<Rightarrow> zt_resolve_in_maps os pid symbol_name lines w)"

text \<open>\<^verbatim>\<open>strncpy(dst, src, sizeof(dst) - 1)\<close> into a zeroed buffer truncates.\<close>

definition zt_resolve_symbol_target ::
  "('r, 'w) os \<Rightarrow> session \<Rightarrow> string \<Rightarrow> 'w \<Rightarrow> zt_symbol_target_t option \<times> 'w" where
  "zt_resolve_symbol_target os se symbol_name w =
     (let target = zero_target\<lparr>tgt_symbol := take (ZT_PROBE_SYMBOL_MAX - 1) symbol_name\<rparr> in
      case zt_find_symbol_addr os (se_exe_path se) symbol_name w of
        (Some remote_addr, w1) \<Rightarrow>
          (Some (target\<lparr>tgt_module_path := take (ZT_PROBE_MODULE_MAX - 1) (se_exe_path se),
             tgt_remote_addr := if se_is_pie se then remote_addr + se_image_base se else remote_addr\<rparr>), w1)
      | (None, w1) \<Rightarrow>
          (case os_proc_maps os (se_pid se) w1 of
             (Inl e, w2) \<Rightarrow> (None, w2)
           | (Inr lines, w2) \<Rightarrow>
               (case zt_resolve_in_maps os (se_pid se) symbol_name lines w2 of
                  (None, w3) \<Rightarrow> (None, w3)
                | (Some (path, remote_addr), w3) \<Rightarrow>
                    (Some (target\<lparr>tgt_module_path := take (ZT_PROBE_MODULE_MAX - 1) path,
                       tgt_remote_addr := remote_addr\<rparr>), w3))))"

end
