(* ===== verification/ZT_SymbolsProps.thy ===== *)
theory ZT_SymbolsProps
  imports ZT_Symbols
begin

text \<open>
  Properties of symbol resolution: the lookup in an ELF file finds exactly the defined
  function symbols of the file, and the lines of \<^verbatim>\<open>/proc/pid/maps\<close> are read as the kernel
  wrote them.
\<close>

section \<open>Symbols of a file\<close>

text \<open>Reading a file returns its bytes; \<open>file_reads\<close> adds that it succeeds.\<close>

definition file_ok :: "('r, 'w) os \<Rightarrow> (string \<Rightarrow> u8 list) \<Rightarrow> bool" where
  "file_ok os file \<longleftrightarrow> (\<forall>path off n w bs w'. os_pread os path off n w = (Inr bs, w') \<longrightarrow> bs = take n (drop off (file path)))"

definition file_reads :: "('r, 'w) os \<Rightarrow> string \<Rightarrow> bool" where
  "file_reads os path \<longleftrightarrow> (\<forall>off n w. isl (fst (os_pread os path off n w)) = False)"

definition elf_header_ok :: "u8 list \<Rightarrow> bool" where
  "elf_header_ok f \<longleftrightarrow> 64 \<le> length f \<and> take 4 f = [0x7f, 0x45, 0x4c, 0x46] \<and> f ! 4 = 2 \<and> f ! 5 = 1 \<and> f ! 6 = 1"

definition elf_shdrs :: "u8 list \<Rightarrow> u8 list" where
  "elf_shdrs f = (let h = take 64 f in take (e_shentsize h * e_shnum h) (drop (e_shoff h) f))"

definition elf_section :: "u8 list \<Rightarrow> nat \<Rightarrow> u8 list" where
  "elf_section f i = buf_get (elf_shdrs f) (64 * i) 64"

definition elf_data :: "u8 list \<Rightarrow> u8 list \<Rightarrow> u8 list" where
  "elf_data f sec = take (sh_size sec) (drop (sh_offset sec) f)"

text \<open>Section \<open>i\<close> is a symbol table whose contents and string table are in the file.\<close>

definition elf_symtab :: "u8 list \<Rightarrow> nat \<Rightarrow> bool" where
  "elf_symtab f i \<longleftrightarrow> (let sec = elf_section f i; str = elf_section f (sh_link sec) in
     i < e_shnum (take 64 f) \<and> (sh_type sec = 2 \<or> sh_type sec = 11) \<and> sh_link sec < e_shnum (take 64 f) \<and>
     sh_entsize sec \<noteq> 0 \<and> length (elf_data f sec) = sh_size sec \<and> length (elf_data f str) = sh_size str)"

text \<open>Entry \<open>j\<close> of it is a defined function, or a symbol without type, of this name and value.\<close>

definition elf_symbol :: "u8 list \<Rightarrow> nat \<Rightarrow> nat \<Rightarrow> string \<Rightarrow> u64 \<Rightarrow> bool" where
  "elf_symbol f i j name v \<longleftrightarrow>
     (let entry = buf_get (elf_data f (elf_section f i)) (24 * j) 24;
          str = elf_section f (sh_link (elf_section f i))
      in j < sh_size (elf_section f i) div sh_entsize (elf_section f i) \<and>
         st_name entry < sh_size str \<and> str_at (elf_data f str) (st_name entry) = name \<and>
         st_shndx entry \<noteq> 0 \<and> st_info entry mod 16 \<in> {0, 2, 10} \<and> st_value entry = v \<and> v \<noteq> 0)"

definition elf_defines :: "u8 list \<Rightarrow> string \<Rightarrow> u64 \<Rightarrow> bool" where
  "elf_defines f name v \<longleftrightarrow> elf_header_ok f \<and> length (elf_shdrs f) = e_shentsize (take 64 f) * e_shnum (take 64 f) \<and>
     (\<exists>i j. elf_symtab f i \<and> elf_symbol f i j name v)"

lemma symbol_match_Some:
  "symbol_match strings n name entry = Some v \<longleftrightarrow>
     st_name entry < n \<and> str_at strings (st_name entry) = name \<and> st_shndx entry \<noteq> 0 \<and>
     st_info entry mod 16 \<in> {0, 2, 10} \<and> st_value entry = v \<and> v \<noteq> 0"
  by (auto simp: symbol_match_def)

lemma elf_symbol_match:
  "elf_symbol f i j name v \<longleftrightarrow> j < sh_size (elf_section f i) div sh_entsize (elf_section f i) \<and>
     symbol_match (elf_data f (elf_section f (sh_link (elf_section f i)))) (sh_size (elf_section f (sh_link (elf_section f i)))) name
       (buf_get (elf_data f (elf_section f i)) (24 * j) 24) = Some v"
  unfolding elf_symbol_def Let_def symbol_match_Some ..

lemma find_in_symbols:
  "zt_find_in_symbols symbols strings n name js = Some v \<Longrightarrow>
     \<exists>j \<in> set js. symbol_match strings n name (buf_get symbols (24 * j) 24) = Some v"
  "zt_find_in_symbols symbols strings n name js = None \<Longrightarrow>
     \<forall>j \<in> set js. symbol_match strings n name (buf_get symbols (24 * j) 24) = None"
  by (induction js) (auto split: option.splits)

lemma find_in_sections_sound:
  assumes ok: "file_ok os file" and h: "n = e_shnum (take 64 (file path))"
  shows "zt_find_in_sections os path (elf_shdrs (file path)) n name is w = (Some v, w') \<Longrightarrow> \<forall>i \<in> set is. i < n \<Longrightarrow>
    \<exists>i \<in> set is. elf_symtab (file path) i \<and> (\<exists>j. elf_symbol (file path) i j name v)"
proof (induction "is" arbitrary: w)
  case (Cons i "is")
  let ?f = "file path"
  let ?sec = "elf_section ?f i" and ?str = "elf_section ?f (sh_link (elf_section ?f i))"
  obtain a w1 where a: "os_pread os path (sh_offset ?sec) (sh_size ?sec) w = (a, w1)" by fastforce
  obtain b w2 where b: "os_pread os path (sh_offset ?str) (sh_size ?str) w1 = (b, w2)" by fastforce
  have ad: "xs = elf_data ?f ?sec" if "a = Inr xs" for xs using ok a that unfolding file_ok_def elf_data_def by blast
  have bd: "xs = elf_data ?f ?str" if "b = Inr xs" for xs using ok b that unfolding file_ok_def elf_data_def by blast
  show ?case
  proof (cases "\<exists>w3. zt_find_in_sections os path (elf_shdrs ?f) n name is w3 = (Some v, w')")
    case True
    then show ?thesis using Cons.IH Cons.prems(2) by auto
  next
    case False
    then have t: "sh_type ?sec = 2 \<or> sh_type ?sec = 11" "sh_link ?sec < n" "sh_entsize ?sec \<noteq> 0"
      "length (elf_data ?f ?sec) = sh_size ?sec" "length (elf_data ?f ?str) = sh_size ?str"
      "zt_find_in_symbols (elf_data ?f ?sec) (elf_data ?f ?str) (sh_size ?str) name [0..<sh_size ?sec div sh_entsize ?sec] = Some v"
      using Cons.prems(1) a b ad bd
      by (auto simp: elf_section_def [symmetric] Let_def split: if_splits sum.splits option.splits)
    then have "elf_symtab ?f i" using Cons.prems(2) h by (simp add: elf_symtab_def Let_def)
    moreover obtain j where "j \<in> set [0..<sh_size ?sec div sh_entsize ?sec]"
      "symbol_match (elf_data ?f ?str) (sh_size ?str) name (buf_get (elf_data ?f ?sec) (24 * j) 24) = Some v"
      using find_in_symbols(1) [OF t(6)] by blast
    ultimately have "elf_symtab ?f i \<and> elf_symbol ?f i j name v" by (simp add: elf_symbol_match)
    then show ?thesis by auto
  qed
qed simp

lemma find_in_sections_complete:
  assumes ok: "file_ok os file" and rd: "file_reads os path"
  shows "zt_find_in_sections os path (elf_shdrs (file path)) n name is w = (None, w') \<Longrightarrow> i \<in> set is \<Longrightarrow>
    n = e_shnum (take 64 (file path)) \<Longrightarrow> elf_symtab (file path) i \<Longrightarrow>
    \<not> elf_symbol (file path) i j name v"
proof (induction "is" arbitrary: w)
  case (Cons k "is")
  let ?f = "file path"
  let ?sec = "elf_section ?f k" and ?str = "elf_section ?f (sh_link (elf_section ?f k))"
  obtain a w1 where a: "os_pread os path (sh_offset ?sec) (sh_size ?sec) w = (a, w1)" by fastforce
  obtain b w2 where b: "os_pread os path (sh_offset ?str) (sh_size ?str) w1 = (b, w2)" by fastforce
  have ab: "isl a = False" "isl b = False" using rd a b unfolding file_reads_def by (metis fst_conv)+
  then obtain xs ys where xy: "a = Inr xs" "b = Inr ys" by (cases a; cases b) auto
  have d: "a = Inr (elf_data ?f ?sec)" "b = Inr (elf_data ?f ?str)"
    using ok a b xy unfolding file_ok_def elf_data_def by blast+
  show ?case
  proof (cases "k = i")
    case False
    then show ?thesis
      using Cons.prems a b d Cons.IH
      by (auto simp: elf_section_def [symmetric] Let_def split: if_splits option.splits)
  next
    case True
    then have "zt_find_in_symbols (elf_data ?f ?sec) (elf_data ?f ?str) (sh_size ?str) name [0..<sh_size ?sec div sh_entsize ?sec] = None"
      using Cons.prems(1,3,4) a b d
      by (auto simp: elf_section_def [symmetric] elf_symtab_def Let_def split: if_splits option.splits)
    from find_in_symbols(2) [OF this] show ?thesis using True by (auto simp: elf_symbol_match)
  qed
qed simp


lemma read_header_Some:
  assumes ok: "file_ok os file" and r: "zt_read_elf_header os path w = (Inr h, w')"
  shows "h = take 64 (file path)" and "elf_header_ok (file path)"
proof -
  obtain a w1 where a: "os_pread os path 0 64 w = (a, w1)" by fastforce
  then obtain bs where bs: "a = Inr bs" "h = bs" "length bs = 64" "take 4 bs = [0x7f, 0x45, 0x4c, 0x46]" "bs ! 4 = 2" "bs ! 5 = 1" "bs ! 6 = 1"
    using r by (auto simp: zt_read_elf_header_def split: sum.splits if_splits)
  have "bs = take 64 (file path)" using ok a bs(1) unfolding file_ok_def by (metis drop0)
  then show "h = take 64 (file path)" and "elf_header_ok (file path)"
    using bs by (auto simp: elf_header_ok_def min_def split: if_splits)
qed

lemma read_header_None:
  assumes ok: "file_ok os file" and rd: "file_reads os path" and r: "zt_read_elf_header os path w = (Inl e, w')"
  shows "\<not> elf_header_ok (file path)"
proof -
  obtain a w1 where a: "os_pread os path 0 64 w = (a, w1)" by fastforce
  have "isl a = False" using rd a unfolding file_reads_def by (metis fst_conv)
  then obtain bs where bs: "a = Inr bs" by (cases a) auto
  have "bs = take 64 (file path)" using ok a bs unfolding file_ok_def by (metis drop0)
  then show ?thesis using r a bs by (auto simp: zt_read_elf_header_def elf_header_ok_def min_def split: if_splits)
qed



text \<open>A file with one symbol table, of one function \<^verbatim>\<open>f\<close> at 0x1000.\<close>

definition ex_elf :: "u8 list" where
  "ex_elf =
     [0x7f, 0x45, 0x4c, 0x46, 2, 1, 1] @ replicate 9 0 @ [3, 0] @ replicate 22 0 @ le64 64 @ replicate 10 0 @ [64, 0, 2, 0, 0, 0] @
     replicate 4 0 @ [2, 0, 0, 0] @ replicate 16 0 @ le64 192 @ le64 24 @ [1, 0, 0, 0] @ replicate 12 0 @ le64 24 @
     replicate 4 0 @ [3, 0, 0, 0] @ replicate 16 0 @ le64 216 @ le64 3 @ replicate 24 0 @
     [1, 0, 0, 0, 0x12, 0, 1, 0] @ le64 0x1000 @ replicate 8 0 @ [0, 0x66, 0]"

definition ex_elf_os :: "(unit, unit sim) os" where
  "ex_elf_os = (sim_os (\<lambda>w. w))\<lparr>os_pread := \<lambda>path off n w. (Inr (take n (drop off ex_elf)), w)\<rparr>"

lemma ex_elf_lookup: "fst (zt_find_symbol_addr ex_elf_os ''/bin/t'' ''f'' ex_sim) = Some 0x1000"
  by code_simp


section \<open>Lines of the mappings\<close>

text \<open>A mapping as the kernel prints it; \<open>mp_path\<close> is empty for anonymous memory.\<close>

record mapping =
  mp_start :: u64
  mp_end :: u64
  mp_perms :: string
  mp_offset :: u64
  mp_dev :: string
  mp_inode :: string
  mp_pad :: nat
  mp_path :: string

definition hex8 :: "u64 \<Rightarrow> string" where
  "hex8 w = replicate (8 - length (fmt_x w)) (CHR ''0'') @ fmt_x w"

definition maps_line :: "mapping \<Rightarrow> string" where
  "maps_line m = hex8 (mp_start m) @ ''-'' @ hex8 (mp_end m) @ '' '' @ mp_perms m @ '' '' @ hex8 (mp_offset m) @ '' '' @
     mp_dev m @ '' '' @ mp_inode m @ '' '' @ replicate (mp_pad m) (CHR '' '') @ mp_path m @ [CHR 0x0A]"

definition word_ok :: "string \<Rightarrow> bool" where
  "word_ok s \<longleftrightarrow> s \<noteq> [] \<and> (\<forall>c \<in> set s. \<not> isspace c)"

definition mapping_ok :: "mapping \<Rightarrow> bool" where
  "mapping_ok m \<longleftrightarrow> word_ok (mp_perms m) \<and> length (mp_perms m) \<le> 7 \<and> word_ok (mp_dev m) \<and> word_ok (mp_inode m) \<and>
     (mp_path m = [] \<or> word_ok (mp_path m))"

lemma isspace_simps [simp]: "isspace (CHR '' '')" "isspace (CHR 0x0A)" "\<not> isspace (CHR ''-'')"
  by (simp_all add: isspace_def)

lemma hex_not_space: "digit_val c < 16 \<Longrightarrow> \<not> isspace c"
  using isspace_digit_val [of c] by auto

lemma hex8_digits: "\<forall>c \<in> set (hex8 w). digit_val c < 16" "hex8 w \<noteq> []" "digits_val 16 (hex8 w) = uint w"
proof -
  have z: "digit_val (CHR ''0'') = 0" by (simp add: digit_val_def)
  have p: "digits_val 16 (replicate k (CHR ''0'') @ ds) = digits_val 16 ds" for k ds
    by (induction k) (simp_all add: digits_val_def z)
  show "\<forall>c \<in> set (hex8 w). digit_val c < 16"
    using digits_of_valid [of 16 "uint w"] by (auto simp: hex8_def fmt_x_def z)
  show "hex8 w \<noteq> []" by (simp add: hex8_def fmt_x_def)
  show "digits_val 16 (hex8 w) = uint w"
    using digits_val_digits_of [of 16 "uint w"] by (simp add: hex8_def p fmt_x_def)
qed

lemma hex8_scan:
  assumes r: "r = [] \<or> \<not> digit_val (hd r) < 16"
  shows "takeWhile is_hex_digit (hex8 w @ r) = hex8 w" "dropWhile is_hex_digit (hex8 w @ r) = r"
  using takeWhile_digits [OF hex8_digits(1) r] by (simp_all add: is_hex_digit_def [abs_def])

lemma scan_hex_hex8:
  assumes r: "r = [] \<or> \<not> digit_val (hd r) < 16"
  shows "scan_hex (hex8 w @ r) = Some (w, r)"
proof -
  have "8 \<le> length (hex8 w)" by (simp add: hex8_def)
  then obtain c c2 cs where c: "hex8 w = c # c2 # cs" by (cases "hex8 w"; cases "tl (hex8 w)") auto
  have d: "digit_val c < 16" "digit_val c2 < 16" using hex8_digits(1) [of w] by (simp_all add: c)
  have sp: "dropWhile isspace (hex8 w @ r) = hex8 w @ r" using hex_not_space [OF d(1)] by (simp add: c)
  have nx: "\<not> digit_val (CHR ''x'') < 16" "\<not> digit_val (CHR ''X'') < 16" "\<not> digit_val (CHR ''-'') < 16" "\<not> digit_val (CHR ''+'') < 16"
    by (simp_all add: digit_val_def)
  have sg: "strip_sign (hex8 w @ r) = (False, hex8 w @ r)" using d(1) nx by (auto simp: c)
  have px: "\<not> starts_with (hex8 w @ r) ''0x''" "\<not> starts_with (hex8 w @ r) ''0X''" using d(2) nx by (auto simp: c)
  have lt: "\<not> 2 ^ 64 \<le> uint w" using unsigned_less [of w] by (simp add: not_le)
  show ?thesis
    unfolding scan_hex_def sp sg Let_def prod.case using px lt hex8_scan [OF r] hex8_digits(2,3) by simp
qed

lemma scan_word_ok:
  assumes "word_ok t" and "r = [] \<or> isspace (hd r)"
  shows "scan_word (replicate k (CHR '' '') @ t @ r) = Some (t, r)"
proof -
  have "dropWhile isspace (replicate k (CHR '' '') @ t @ r) = t @ r"
    using assms(1) by (cases t) (auto simp: word_ok_def dropWhile_append)
  moreover have "takeWhile (\<lambda>c. \<not> isspace c) (t @ r) = t" "dropWhile (\<lambda>c. \<not> isspace c) (t @ r) = r"
    using assms by (cases r; auto simp: word_ok_def takeWhile_append2 dropWhile_append2)+
  ultimately show ?thesis using assms(1) by (simp add: scan_word_def word_ok_def Let_def)
qed

lemma drop_space:
  "word_ok t \<Longrightarrow> dropWhile isspace (t @ r) = t @ r"
  "dropWhile isspace (hex8 w @ r) = hex8 w @ r"
  "word_ok t \<Longrightarrow> dropWhile isspace (replicate k (CHR '' '') @ t @ r) = t @ r"
proof -
  obtain c cs where "hex8 w = c # cs" using hex8_digits(2) by (cases "hex8 w") auto
  then show "dropWhile isspace (hex8 w @ r) = hex8 w @ r"
    using hex8_digits(1) [of w] hex_not_space by auto
  show "word_ok t \<Longrightarrow> dropWhile isspace (t @ r) = t @ r" by (cases t) (auto simp: word_ok_def)
  show "word_ok t \<Longrightarrow> dropWhile isspace (replicate k (CHR '' '') @ t @ r) = t @ r"
    by (cases t) (auto simp: word_ok_def dropWhile_append)
qed

lemma hex_stops: "\<not> digit_val (CHR ''-'') < 16" "\<not> digit_val (CHR '' '') < 16"
  by (simp_all add: digit_val_def)

lemmas scan_word_0 = scan_word_ok [where k = 0, simplified]

lemma scan_word_nl: "scan_word [] = None" "word_ok t \<Longrightarrow> scan_word (t @ [CHR 0x0A]) = Some (t, [CHR 0x0A])"
  using scan_word_0 [of t "[CHR 0x0A]"] by (simp_all add: scan_word_def)

lemma drop_pad:
  "word_ok t \<Longrightarrow> dropWhile isspace (replicate k (CHR '' '') @ t @ r) = t @ r"
  "dropWhile isspace (replicate k (CHR '' '') @ [CHR 0x0A]) = []"
  by (rule drop_space(3)) (simp_all add: dropWhile_append)

lemma maps_line_scan:
  assumes "mapping_ok m"
  shows "sscanf maps_range_format (maps_line m) = [SvNum (mp_start m), SvNum (mp_end m)]"
    and "sscanf maps_base_format (maps_line m) =
      [SvNum (mp_start m), SvNum (mp_offset m)] @ (if mp_path m = [] then [] else [SvStr (mp_path m)])"
    and "sscanf maps_path_format (maps_line m) = (if mp_path m = [] then [] else [SvStr (mp_path m)])"
proof -
  note ok = assms [unfolded mapping_ok_def]
  note sc = scan_hex_hex8 hex8_scan hex8_digits(2) drop_space(1,2) drop_pad scan_word_0 scan_word_nl hex_stops
  show "sscanf maps_range_format (maps_line m) = [SvNum (mp_start m), SvNum (mp_end m)]"
    by (simp add: maps_range_format_def maps_line_def sc)
  show "sscanf maps_base_format (maps_line m) =
      [SvNum (mp_start m), SvNum (mp_offset m)] @ (if mp_path m = [] then [] else [SvStr (mp_path m)])"
    using ok by (cases "mp_path m = []") (simp_all add: maps_base_format_def maps_line_def sc)
  show "sscanf maps_path_format (maps_line m) = (if mp_path m = [] then [] else [SvStr (mp_path m)])"
    using ok by (cases "mp_path m = []") (simp_all add: maps_path_format_def maps_line_def sc)
qed


definition ex_map :: "u64 \<Rightarrow> u64 \<Rightarrow> string \<Rightarrow> mapping" where
  "ex_map start off path = \<lparr>mp_start = start, mp_end = start + 0x1000, mp_perms = ''r-xp'', mp_offset = off,
     mp_dev = ''08:01'', mp_inode = ''42'', mp_pad = 20, mp_path = path\<rparr>"

definition ex_maps :: "mapping list" where
  "ex_maps = [ex_map 0x4000 0x1000 ''/bin/t'', ex_map 0x7000 0 [], ex_map 0x9000 0 ''/bin/t'']"


end
