(* ===== verification/ZT_Pool.thy ===== *)
theory ZT_Pool
  imports ZT_Arch
begin

text \<open>
  Remote mappings (\<^verbatim>\<open>zt_remote_mmap\<close>, \<^verbatim>\<open>zt_remote_munmap\<close>, \<^verbatim>\<open>zt_remote_call2\<close> of
  \<^verbatim>\<open>src/zt_injector.c\<close>) and the trampoline pool of \<^verbatim>\<open>src/zt_trampoline_pool.c\<close>: one mapping
  of 32 slots of 512 bytes, one slot per probe. A result \<open>None\<close> means that the remote
  execution does not return.
\<close>

section \<open>Remote mappings\<close>

definition zt_remote_syscall_return_is_error :: "u64 \<Rightarrow> bool" where
  "zt_remote_syscall_return_is_error ret = (sint ret < 0 \<and> sint ret \<ge> - 4095)"

definition zt_remote_mmap ::
  "('r, 'w) zt_arch \<Rightarrow> ('r, 'w) os \<Rightarrow> int \<Rightarrow> nat \<Rightarrow> u64 \<Rightarrow> u64 \<Rightarrow> 'w \<Rightarrow> (u64 option \<times> 'w) option" where
  "zt_remote_mmap A os pid sz prot flags w =
     (if sz = 0 then Some (None, w)
      else do {
        (r, w1) \<leftarrow> zt_arch_remote_syscall6 A os pid
          \<lparr>sa_syscall_no = zt_arch_SYS_mmap A, sa_arg1 = 0, sa_arg2 = of_nat sz, sa_arg3 = prot, sa_arg4 = flags,
           sa_arg5 = - 1, sa_arg6 = 0\<rparr> w;
        Some (case r of None \<Rightarrow> None | Some ret \<Rightarrow> if zt_remote_syscall_return_is_error ret then None else Some ret, w1) })"

definition zt_remote_munmap ::
  "('r, 'w) zt_arch \<Rightarrow> ('r, 'w) os \<Rightarrow> int \<Rightarrow> u64 \<Rightarrow> nat \<Rightarrow> 'w \<Rightarrow> (bool \<times> 'w) option" where
  "zt_remote_munmap A os pid remote_addr sz w =
     (if remote_addr = 0 \<or> sz = 0 then Some (False, w)
      else do {
        (r, w1) \<leftarrow> zt_arch_remote_syscall6 A os pid
          \<lparr>sa_syscall_no = zt_arch_SYS_munmap A, sa_arg1 = remote_addr, sa_arg2 = of_nat sz, sa_arg3 = 0, sa_arg4 = 0,
           sa_arg5 = 0, sa_arg6 = 0\<rparr> w;
        Some (case r of None \<Rightarrow> False | Some ret \<Rightarrow> \<not> zt_remote_syscall_return_is_error ret, w1) })"

definition zt_remote_call2 ::
  "('r, 'w) zt_arch \<Rightarrow> ('r, 'w) os \<Rightarrow> int \<Rightarrow> u64 \<Rightarrow> u64 \<Rightarrow> u64 \<Rightarrow> 'w \<Rightarrow> (u64 option \<times> 'w) option" where
  "zt_remote_call2 A os pid func_addr arg1 arg2 w =
     zt_arch_remote_call2 A os pid \<lparr>ra_func_addr = func_addr, ra_arg1 = arg1, ra_arg2 = arg2\<rparr> w"

section \<open>The pool\<close>

record zt_trampoline_pool_t =
  tp_remote_addr :: u64
  tp_remote_size :: nat
  tp_slot_used :: "bool list"

definition zero_pool :: zt_trampoline_pool_t where
  "zero_pool = \<lparr>tp_remote_addr = 0, tp_remote_size = 0, tp_slot_used = replicate ZT_TRAMPOLINE_POOL_SLOTS False\<rparr>"

definition zt_trampoline_pool_slot_valid :: "int \<Rightarrow> bool" where
  "zt_trampoline_pool_slot_valid slot = (0 \<le> slot \<and> slot < int ZT_TRAMPOLINE_POOL_SLOTS)"

definition zt_trampoline_pool_all_free :: "zt_trampoline_pool_t \<Rightarrow> bool" where
  "zt_trampoline_pool_all_free pool = list_all Not (tp_slot_used pool)"

definition zt_trampoline_pool_slot_addr :: "zt_trampoline_pool_t \<Rightarrow> int \<Rightarrow> u64" where
  "zt_trampoline_pool_slot_addr pool slot =
     (if tp_remote_addr pool = 0 \<or> \<not> zt_trampoline_pool_slot_valid slot then 0
      else tp_remote_addr pool + of_int slot * of_nat ZT_TRAMPOLINE_POOL_SLOT_SIZE)"

definition zt_trampoline_pool_slot_belongs_to_probe :: "zt_trampoline_pool_t \<Rightarrow> zt_probe_info_t \<Rightarrow> int \<Rightarrow> bool" where
  "zt_trampoline_pool_slot_belongs_to_probe pool probe slot =
     (if \<not> zt_trampoline_pool_slot_valid slot then False
      else let addr = zt_trampoline_pool_slot_addr pool slot in addr \<noteq> 0 \<and> pi_trampoline_addr probe = addr)"

definition zt_trampoline_pool_assign_slot ::
  "zt_trampoline_pool_t \<Rightarrow> zt_probe_info_t \<Rightarrow> int \<Rightarrow> u64 option \<times> zt_trampoline_pool_t \<times> zt_probe_info_t" where
  "zt_trampoline_pool_assign_slot pool probe slot =
     (if \<not> zt_trampoline_pool_slot_valid slot then (None, pool, probe)
      else let addr = zt_trampoline_pool_slot_addr pool slot in
        if addr = 0 then (None, pool, probe)
        else (Some addr, pool\<lparr>tp_slot_used := (tp_slot_used pool)[nat slot := True]\<rparr>,
              probe\<lparr>pi_trampoline_slot := slot, pi_trampoline_addr := addr\<rparr>))"

definition zt_trampoline_pool_clear_probe_slot :: "zt_probe_info_t \<Rightarrow> zt_probe_info_t" where
  "zt_trampoline_pool_clear_probe_slot probe = probe\<lparr>pi_trampoline_slot := - 1, pi_trampoline_addr := 0\<rparr>"

text \<open>\<^verbatim>\<open>PROT_READ | PROT_WRITE | PROT_EXEC\<close> is 7, \<^verbatim>\<open>MAP_PRIVATE | MAP_ANONYMOUS\<close> is 0x22.\<close>

definition zt_trampoline_pool_ensure ::
  "('r, 'w) zt_arch \<Rightarrow> ('r, 'w) os \<Rightarrow> int \<Rightarrow> zt_trampoline_pool_t \<Rightarrow> 'w \<Rightarrow> (bool \<times> zt_trampoline_pool_t \<times> 'w) option" where
  "zt_trampoline_pool_ensure A os pid pool w =
     (if tp_remote_addr pool \<noteq> 0 then Some (True, pool, w)
      else do {
        (r, w1) \<leftarrow> zt_remote_mmap A os pid ZT_TRAMPOLINE_POOL_SIZE 7 0x22 w;
        Some (case r of
            None \<Rightarrow> (False, pool, w1)
          | Some addr \<Rightarrow>
              (True, pool\<lparr>tp_remote_addr := addr, tp_remote_size := ZT_TRAMPOLINE_POOL_SIZE,
                 tp_slot_used := replicate ZT_TRAMPOLINE_POOL_SLOTS False\<rparr>, w1)) })"

definition zt_trampoline_pool_reset :: "zt_trampoline_pool_t \<Rightarrow> zt_trampoline_pool_t" where
  "zt_trampoline_pool_reset pool = zero_pool"

definition zt_trampoline_pool_alloc ::
  "('r, 'w) zt_arch \<Rightarrow> ('r, 'w) os \<Rightarrow> int \<Rightarrow> zt_trampoline_pool_t \<Rightarrow> zt_probe_info_t \<Rightarrow> 'w \<Rightarrow>
   ((u64 option \<times> zt_trampoline_pool_t \<times> zt_probe_info_t) \<times> 'w) option" where
  "zt_trampoline_pool_alloc A os pid pool probe w =
     (let slot = pi_trampoline_slot probe in
      if zt_trampoline_pool_slot_valid slot \<and> tp_remote_addr pool \<noteq> 0
      then if tp_slot_used pool ! nat slot \<and> \<not> zt_trampoline_pool_slot_belongs_to_probe pool probe slot
           then Some ((None, pool, probe), w)
           else Some (zt_trampoline_pool_assign_slot pool probe slot, w)
      else do {
        (ok, pool1, w1) \<leftarrow> zt_trampoline_pool_ensure A os pid pool w;
        Some (if \<not> ok then (None, pool1, probe)
              else case find_index Not (tp_slot_used pool1) of
                  None \<Rightarrow> (None, pool1, probe)
                | Some free \<Rightarrow> zt_trampoline_pool_assign_slot pool1 probe (int free), w1) })"

definition zt_trampoline_pool_release ::
  "('r, 'w) zt_arch \<Rightarrow> ('r, 'w) os \<Rightarrow> int \<Rightarrow> zt_trampoline_pool_t \<Rightarrow> zt_probe_info_t \<Rightarrow> 'w \<Rightarrow>
   ((zt_trampoline_pool_t \<times> zt_probe_info_t) \<times> 'w) option" where
  "zt_trampoline_pool_release A os pid pool probe w =
     (let slot = pi_trampoline_slot probe in
      if \<not> zt_trampoline_pool_slot_valid slot then Some ((pool, probe), w)
      else if tp_remote_addr pool \<noteq> 0 \<and> tp_slot_used pool ! nat slot \<and>
        \<not> zt_trampoline_pool_slot_belongs_to_probe pool probe slot
      then Some ((pool, probe), w)
      else let pool1 = pool\<lparr>tp_slot_used := (tp_slot_used pool)[nat slot := False]\<rparr>;
               probe1 = zt_trampoline_pool_clear_probe_slot probe
        in if tp_remote_addr pool1 \<noteq> 0 \<and> zt_trampoline_pool_all_free pool1
           then do {
             (b, w1) \<leftarrow> zt_remote_munmap A os pid (tp_remote_addr pool1) (tp_remote_size pool1) w;
             Some ((if b then zt_trampoline_pool_reset pool1 else pool1, probe1), w1) }
           else Some ((pool1, probe1), w))"

section \<open>Ownership\<close>

text \<open>
  A registered probe (its id is not 0) holds a slot when its slot number is valid. Every
  held slot is marked, carries the slot's address, and is held by one probe; every marked
  slot is held.
\<close>

definition holds_slot :: "zt_probe_info_t \<Rightarrow> bool" where
  "holds_slot p \<longleftrightarrow> pi_probe_id p \<noteq> 0 \<and> zt_trampoline_pool_slot_valid (pi_trampoline_slot p)"

definition pool_inv :: "zt_trampoline_pool_t \<Rightarrow> zt_probe_info_t list \<Rightarrow> bool" where
  "pool_inv pool probes \<longleftrightarrow>
     length (tp_slot_used pool) = ZT_TRAMPOLINE_POOL_SLOTS \<and>
     (tp_remote_addr pool \<noteq> 0 \<longrightarrow> tp_remote_size pool = ZT_TRAMPOLINE_POOL_SIZE) \<and>
     (\<forall>i < length probes. holds_slot (probes ! i) \<longrightarrow>
        tp_remote_addr pool \<noteq> 0 \<and> tp_slot_used pool ! nat (pi_trampoline_slot (probes ! i)) \<and>
        pi_trampoline_addr (probes ! i) = zt_trampoline_pool_slot_addr pool (pi_trampoline_slot (probes ! i)) \<and>
        pi_trampoline_addr (probes ! i) \<noteq> 0) \<and>
     (\<forall>i < length probes. \<forall>j < length probes. holds_slot (probes ! i) \<and> holds_slot (probes ! j) \<and>
        pi_trampoline_slot (probes ! i) = pi_trampoline_slot (probes ! j) \<longrightarrow> i = j) \<and>
     (\<forall>s < ZT_TRAMPOLINE_POOL_SLOTS. tp_slot_used pool ! s \<longrightarrow>
        (\<exists>i < length probes. holds_slot (probes ! i) \<and> pi_trampoline_slot (probes ! i) = int s))"

lemma pool_invD:
  assumes "pool_inv pool probes"
  shows "length (tp_slot_used pool) = ZT_TRAMPOLINE_POOL_SLOTS"
    and "tp_remote_addr pool \<noteq> 0 \<Longrightarrow> tp_remote_size pool = ZT_TRAMPOLINE_POOL_SIZE"
    and "i < length probes \<Longrightarrow> holds_slot (probes ! i) \<Longrightarrow> tp_remote_addr pool \<noteq> 0"
    and "i < length probes \<Longrightarrow> holds_slot (probes ! i) \<Longrightarrow> tp_slot_used pool ! nat (pi_trampoline_slot (probes ! i))"
    and "i < length probes \<Longrightarrow> holds_slot (probes ! i) \<Longrightarrow>
      pi_trampoline_addr (probes ! i) = zt_trampoline_pool_slot_addr pool (pi_trampoline_slot (probes ! i))"
    and "i < length probes \<Longrightarrow> j < length probes \<Longrightarrow> holds_slot (probes ! i) \<Longrightarrow> holds_slot (probes ! j) \<Longrightarrow>
      pi_trampoline_slot (probes ! i) = pi_trampoline_slot (probes ! j) \<Longrightarrow> i = j"
    and "s < ZT_TRAMPOLINE_POOL_SLOTS \<Longrightarrow> tp_slot_used pool ! s \<Longrightarrow>
      \<exists>i < length probes. holds_slot (probes ! i) \<and> pi_trampoline_slot (probes ! i) = int s"
    and "i < length probes \<Longrightarrow> holds_slot (probes ! i) \<Longrightarrow> pi_trampoline_addr (probes ! i) \<noteq> 0"
  using assms unfolding pool_inv_def by blast+

lemma unat_slot_offset:
  assumes "0 \<le> x" "x < 32" "i < 512"
  shows "unat (of_nat (nat x * 512 + i) :: u64) = nat x * 512 + i" and "nat x * 512 + i < 16384"
proof -
  have n: "nat x \<le> 31" using assms by linarith
  then show b: "nat x * 512 + i < 16384" using assms(3) by linarith
  show "unat (of_nat (nat x * 512 + i) :: u64) = nat x * 512 + i"
    by (subst unat_of_nat, rule mod_less, use b in simp)
qed

text \<open>Different slots share no byte, and every byte of a slot lies in the mapping.\<close>

lemma slot_addr_inject:
  assumes a: "tp_remote_addr pool \<noteq> 0" and s: "zt_trampoline_pool_slot_valid s" "zt_trampoline_pool_slot_valid t"
    and k: "k < ZT_TRAMPOLINE_POOL_SLOT_SIZE" "l < ZT_TRAMPOLINE_POOL_SLOT_SIZE"
    and e: "zt_trampoline_pool_slot_addr pool s + of_nat k = zt_trampoline_pool_slot_addr pool t + of_nat l"
  shows "s = t \<and> k = l"
proof -
  have n: "0 \<le> s" "s < 32" "0 \<le> t" "t < 32" "k < 512" "l < 512"
    using s k by (simp_all add: zt_trampoline_pool_slot_valid_def zt_limits)
  note u = unat_slot_offset(1)
  have w: "of_int x * of_nat 512 + of_nat i = (of_nat (nat x * 512 + i) :: u64)" if "0 \<le> x" for x :: int and i
    using that by (simp flip: of_nat_nat)
  have "of_int s * of_nat 512 + of_nat k = (of_int t * of_nat 512 + of_nat l :: u64)"
    using e a s by (simp add: zt_trampoline_pool_slot_addr_def zt_limits)
  then have "of_nat (nat s * 512 + k) = (of_nat (nat t * 512 + l) :: u64)" using n w by metis
  then have eq: "nat s * 512 + k = nat t * 512 + l" using u n by metis
  have "(nat s * 512 + k) div 512 = nat s" "(nat t * 512 + l) div 512 = nat t" using n by simp_all
  with eq have st: "nat s = nat t" by simp
  with eq have "k = l" by simp
  with st n show ?thesis by auto
qed

lemma slot_addr_inside:
  assumes "tp_remote_addr pool \<noteq> 0" and "zt_trampoline_pool_slot_valid s" and "k < ZT_TRAMPOLINE_POOL_SLOT_SIZE"
  shows "unat (zt_trampoline_pool_slot_addr pool s + of_nat k - tp_remote_addr pool) < ZT_TRAMPOLINE_POOL_SIZE"
proof -
  have n: "0 \<le> s" "s < 32" "k < 512" using assms(2,3) by (simp_all add: zt_trampoline_pool_slot_valid_def zt_limits)
  have e: "zt_trampoline_pool_slot_addr pool s + of_nat k - tp_remote_addr pool = of_nat (nat s * 512 + k)"
    using assms n by (simp add: zt_trampoline_pool_slot_addr_def zt_limits flip: of_nat_nat)
  show ?thesis unfolding e using unat_slot_offset [OF n] by (simp add: zt_limits del: of_nat_add of_nat_mult)
qed

end
