(* ===== verification/ZT_PoolProps.thy ===== *)
theory ZT_PoolProps
  imports ZT_Pool
begin

text \<open>
  Properties of the trampoline pool: probes never share a slot, marked slots are exactly the
  held ones, and a probe finds a free slot whenever the pool can be mapped.
\<close>

section \<open>Assigning and releasing a slot\<close>

lemma slot_addr_cong [simp]:
  "zt_trampoline_pool_slot_addr (pool\<lparr>tp_slot_used := u\<rparr>) s = zt_trampoline_pool_slot_addr pool s"
  by (simp add: zt_trampoline_pool_slot_addr_def)

lemma nat_slot: "zt_trampoline_pool_slot_valid s \<Longrightarrow> nat s < ZT_TRAMPOLINE_POOL_SLOTS \<and> int (nat s) = s"
  by (auto simp: zt_trampoline_pool_slot_valid_def)

text \<open>The probe at \<open>i\<close> takes a slot that no other probe holds, its own or a free one.\<close>

lemma assign_inv:
  assumes inv: "pool_inv pool probes" and i: "i < length probes" "pi_probe_id (probes ! i) \<noteq> 0"
    and own: "holds_slot (probes ! i) \<longrightarrow> pi_trampoline_slot (probes ! i) = s"
    and free: "\<forall>j < length probes. j \<noteq> i \<longrightarrow> holds_slot (probes ! j) \<longrightarrow> pi_trampoline_slot (probes ! j) \<noteq> s"
    and a: "zt_trampoline_pool_assign_slot pool (probes ! i) s = (r, pool', probe')"
  shows "pool_inv pool' (probes[i := probe'])"
    and "r = Some addr \<Longrightarrow> holds_slot probe' \<and> addr = zt_trampoline_pool_slot_addr pool' (pi_trampoline_slot probe') \<and> tp_remote_addr pool' \<noteq> 0"
proof -
  note d = pool_invD [OF inv]
  have both: "pool_inv pool' (probes[i := probe']) \<and> (\<forall>addr. r = Some addr \<longrightarrow>
      holds_slot probe' \<and> addr = zt_trampoline_pool_slot_addr pool' (pi_trampoline_slot probe') \<and> tp_remote_addr pool' \<noteq> 0)"
  proof (cases "zt_trampoline_pool_slot_valid s \<and> zt_trampoline_pool_slot_addr pool s \<noteq> 0")
    case False
    then have "r = None" "pool' = pool" "probe' = probes ! i"
      using a by (auto simp: zt_trampoline_pool_assign_slot_def Let_def split: if_splits)
    then show ?thesis using inv by simp
  next
    case True
    then have p: "pool' = pool\<lparr>tp_slot_used := (tp_slot_used pool)[nat s := True]\<rparr>"
      "probe' = (probes ! i)\<lparr>pi_trampoline_slot := s, pi_trampoline_addr := zt_trampoline_pool_slot_addr pool s\<rparr>"
      "r = Some (zt_trampoline_pool_slot_addr pool s)"
      using a by (auto simp: zt_trampoline_pool_assign_slot_def Let_def)
    have h: "holds_slot probe'" using True i(2) by (simp add: p holds_slot_def)
    have ra: "tp_remote_addr pool \<noteq> 0" using True by (auto simp: zt_trampoline_pool_slot_addr_def)
    note ns = nat_slot [OF True [THEN conjunct1]]
    let ?ps = "probes[i := probe']"
    have old: "?ps ! j = probes ! j" if "j \<noteq> i" for j using that by simp
    have new: "?ps ! i = probe'" using i(1) by simp
    have used: "tp_slot_used pool' ! nat (pi_trampoline_slot (?ps ! j))" "pi_trampoline_addr (?ps ! j) = zt_trampoline_pool_slot_addr pool' (pi_trampoline_slot (?ps ! j))"
      "pi_trampoline_addr (?ps ! j) \<noteq> 0"
      if "j < length probes" "holds_slot (?ps ! j)" for j
      using that d(1) d(4,5,8) [of j] ns True by (cases "j = i"; simp add: new old p nth_list_update)+
    have uniq: "j = k" if "j < length probes" "k < length probes" "holds_slot (?ps ! j)" "holds_slot (?ps ! k)"
      "pi_trampoline_slot (?ps ! j) = pi_trampoline_slot (?ps ! k)" for j k
      using that free d(6) [of j k] by (cases "j = i"; cases "k = i") (auto simp: new old p)
    have marked: "\<exists>j < length probes. holds_slot (?ps ! j) \<and> pi_trampoline_slot (?ps ! j) = int t"
      if t: "t < ZT_TRAMPOLINE_POOL_SLOTS" "tp_slot_used pool' ! t" for t
    proof (cases "t = nat s")
      case True
      then show ?thesis using i(1) h new ns by (intro exI [of _ i]) (simp add: p)
    next
      case False
      then have "tp_slot_used pool ! t" using t by (simp add: p nth_list_update)
      then obtain j where j: "j < length probes" "holds_slot (probes ! j)" "pi_trampoline_slot (probes ! j) = int t" using d(7) t(1) by blast
      have "j \<noteq> i" using j own False by auto
      then show ?thesis using j old by auto
    qed
    have "pool_inv pool' ?ps"
      unfolding pool_inv_def length_list_update
      using d(1,2) ra used uniq marked by (auto simp: p(1))
    then show ?thesis using h ra p by simp
  qed
  then show "pool_inv pool' (probes[i := probe'])" by blast
  show "r = Some addr \<Longrightarrow> holds_slot probe' \<and> addr = zt_trampoline_pool_slot_addr pool' (pi_trampoline_slot probe') \<and> tp_remote_addr pool' \<noteq> 0"
    using both by blast
qed

lemma ensure_inv:
  assumes inv: "pool_inv pool probes" and r: "zt_trampoline_pool_ensure A os pid pool w = Some (b, pool', w')"
  shows "pool_inv pool' probes" and "tp_remote_addr pool \<noteq> 0 \<Longrightarrow> pool' = pool"
proof -
  note d = pool_invD [OF inv]
  have "pool_inv pool' probes \<and> (tp_remote_addr pool \<noteq> 0 \<longrightarrow> pool' = pool)"
  proof (cases "tp_remote_addr pool = 0")
    case False
    then show ?thesis using inv r by (simp add: zt_trampoline_pool_ensure_def)
  next
    case True
    then have none: "\<not> holds_slot (probes ! i)" if "i < length probes" for i using d(3) that by blast
    have "pool' = pool \<or> (\<exists>addr. pool' = pool\<lparr>tp_remote_addr := addr, tp_remote_size := ZT_TRAMPOLINE_POOL_SIZE,
        tp_slot_used := replicate ZT_TRAMPOLINE_POOL_SLOTS False\<rparr>)"
      using r True by (auto simp: zt_trampoline_pool_ensure_def bind_eq_Some_conv split: option.splits)
    then show ?thesis using inv True none unfolding pool_inv_def by auto
  qed
  then show "pool_inv pool' probes" and "tp_remote_addr pool \<noteq> 0 \<Longrightarrow> pool' = pool" by blast+
qed

lemma alloc_inv:
  assumes inv: "pool_inv pool probes" and i: "i < length probes" "pi_probe_id (probes ! i) \<noteq> 0"
    and r: "zt_trampoline_pool_alloc A os pid pool (probes ! i) w = Some ((r, pool', probe'), w')"
  shows "pool_inv pool' (probes[i := probe'])"
    and "r = Some addr \<Longrightarrow> holds_slot probe' \<and> addr = zt_trampoline_pool_slot_addr pool' (pi_trampoline_slot probe') \<and> tp_remote_addr pool' \<noteq> 0"
proof -
  let ?p = "probes ! i"
  note d = pool_invD [OF inv]
  have both: "pool_inv pool' (probes[i := probe']) \<and> (\<forall>addr. r = Some addr \<longrightarrow>
      holds_slot probe' \<and> addr = zt_trampoline_pool_slot_addr pool' (pi_trampoline_slot probe') \<and> tp_remote_addr pool' \<noteq> 0)"
  proof (cases "zt_trampoline_pool_slot_valid (pi_trampoline_slot ?p) \<and> tp_remote_addr pool \<noteq> 0")
    case True
    then have h: "holds_slot ?p" using i(2) by (simp add: holds_slot_def)
    have free: "\<forall>j < length probes. j \<noteq> i \<longrightarrow> holds_slot (probes ! j) \<longrightarrow> pi_trampoline_slot (probes ! j) \<noteq> pi_trampoline_slot ?p"
      using d(6) [of _ i] i(1) h by blast
    have "r = None \<and> pool' = pool \<and> probe' = ?p \<or>
        zt_trampoline_pool_assign_slot pool ?p (pi_trampoline_slot ?p) = (r, pool', probe')"
      using r True by (auto simp: zt_trampoline_pool_alloc_def Let_def split: if_splits)
    then show ?thesis using assign_inv [OF inv i _ free] inv by (metis list_update_id option.distinct(1))
  next
    case False
    then have nh: "\<not> holds_slot ?p" using d(3) [OF i(1)] by (auto simp: holds_slot_def)
    obtain ok pool1 w1 where e: "zt_trampoline_pool_ensure A os pid pool w = Some (ok, pool1, w1)"
      using r False by (auto simp: zt_trampoline_pool_alloc_def Let_def bind_eq_Some_conv split: if_splits)
    note inv1 = ensure_inv(1) [OF inv e]
    have "r = None \<and> pool' = pool1 \<and> probe' = ?p \<or>
        (\<exists>s. find_index Not (tp_slot_used pool1) = Some s \<and> zt_trampoline_pool_assign_slot pool1 ?p (int s) = (r, pool', probe'))"
      using r False e by (auto simp: zt_trampoline_pool_alloc_def Let_def split: if_splits option.splits)
    then show ?thesis
    proof (elim disjE exE conjE)
      assume "r = None" "pool' = pool1" "probe' = ?p"
      then show ?thesis using inv1 by simp
    next
      fix s
      assume s: "find_index Not (tp_slot_used pool1) = Some s" and a: "zt_trampoline_pool_assign_slot pool1 ?p (int s) = (r, pool', probe')"
      have "\<not> tp_slot_used pool1 ! s" using find_index_SomeD [OF s] by simp
      then have "\<forall>j < length probes. j \<noteq> i \<longrightarrow> holds_slot (probes ! j) \<longrightarrow> pi_trampoline_slot (probes ! j) \<noteq> int s"
        using pool_invD(4) [OF inv1] by (metis nat_int)
      from assign_inv [OF inv1 i _ this a] nh show ?thesis by blast
    qed
  qed
  then show "pool_inv pool' (probes[i := probe'])" by blast
  show "r = Some addr \<Longrightarrow> holds_slot probe' \<and> addr = zt_trampoline_pool_slot_addr pool' (pi_trampoline_slot probe') \<and> tp_remote_addr pool' \<noteq> 0"
    using both by blast
qed

text \<open>A slot given back: its probe forgets it and its mark is cleared.\<close>

lemma cleared_probe_free [simp]: "\<not> holds_slot (zt_trampoline_pool_clear_probe_slot p)"
  by (simp add: holds_slot_def zt_trampoline_pool_clear_probe_slot_def zt_trampoline_pool_slot_valid_def)

lemma unmark_inv:
  assumes inv: "pool_inv pool probes" and i: "i < length probes" and h: "holds_slot (probes ! i)"
  shows "pool_inv (pool\<lparr>tp_slot_used := (tp_slot_used pool)[nat (pi_trampoline_slot (probes ! i)) := False]\<rparr>)
    (probes[i := zt_trampoline_pool_clear_probe_slot (probes ! i)])"
proof -
  let ?p = "probes ! i"
  note d = pool_invD [OF inv]
  let ?s = "nat (pi_trampoline_slot ?p)"
  let ?pool1 = "pool\<lparr>tp_slot_used := (tp_slot_used pool)[?s := False]\<rparr>"
  let ?q = "zt_trampoline_pool_clear_probe_slot ?p"
  let ?ps = "probes[i := ?q]"
  have other: "j \<noteq> i \<and> ?ps ! j = probes ! j \<and> holds_slot (probes ! j) \<and> nat (pi_trampoline_slot (probes ! j)) \<noteq> ?s"
    if "j < length probes" "holds_slot (?ps ! j)" for j
  proof -
    have ji: "j \<noteq> i" using that by auto
    then have hj: "holds_slot (probes ! j)" using that by simp
    have "pi_trampoline_slot (probes ! j) \<noteq> pi_trampoline_slot ?p" using d(6) [OF that(1) i hj h] ji by blast
    then show ?thesis using ji hj h by (auto simp: holds_slot_def zt_trampoline_pool_slot_valid_def)
  qed
  have marked: "\<exists>j < length probes. holds_slot (?ps ! j) \<and> pi_trampoline_slot (?ps ! j) = int t"
    if t: "t < ZT_TRAMPOLINE_POOL_SLOTS" "tp_slot_used ?pool1 ! t" for t
  proof -
    have nt: "t \<noteq> ?s" "tp_slot_used pool ! t" using t d(1) by (cases "t = ?s"; auto)+
    then obtain j where j: "j < length probes" "holds_slot (probes ! j)" "pi_trampoline_slot (probes ! j) = int t" using d(7) t(1) by blast
    then have "j \<noteq> i" using nt by auto
    then show ?thesis using j by auto
  qed
  have used: "tp_remote_addr pool \<noteq> 0" "tp_slot_used ?pool1 ! nat (pi_trampoline_slot (?ps ! j))"
    "pi_trampoline_addr (?ps ! j) = zt_trampoline_pool_slot_addr ?pool1 (pi_trampoline_slot (?ps ! j))" "pi_trampoline_addr (?ps ! j) \<noteq> 0"
    if "j < length probes" "holds_slot (?ps ! j)" for j
    using other [OF that] d(3,4,5,8) [OF that(1)] by auto
  have uniq: "j = k" if "j < length probes" "k < length probes" "holds_slot (?ps ! j)" "holds_slot (?ps ! k)"
    "pi_trampoline_slot (?ps ! j) = pi_trampoline_slot (?ps ! k)" for j k
    using other [OF that(1,3)] other [OF that(2,4)] d(6) [OF that(1,2)] that(5) by simp
  show "pool_inv ?pool1 ?ps"
    unfolding pool_inv_def length_list_update using d(1,2) used uniq marked by auto
qed

lemma all_free_inv:
  assumes "pool_inv pool probes" and "zt_trampoline_pool_all_free pool"
  shows "pool_inv zero_pool probes"
proof -
  have "\<not> holds_slot (probes ! j)" if "j < length probes" for j
    using pool_invD(1,4) [OF assms(1)] that assms(2) nat_slot
    by (auto simp: zt_trampoline_pool_all_free_def list_all_length holds_slot_def)
  then show ?thesis by (auto simp: pool_inv_def zero_pool_def)
qed

lemma release_inv:
  assumes inv: "pool_inv pool probes" and i: "i < length probes" "pi_probe_id (probes ! i) \<noteq> 0"
    and r: "zt_trampoline_pool_release A os pid pool (probes ! i) w = Some ((pool', probe'), w')"
  shows "pool_inv pool' (probes[i := probe'])" and "\<not> holds_slot probe'"
proof -
  let ?p = "probes ! i"
  note d = pool_invD [OF inv]
  have "pool_inv pool' (probes[i := probe']) \<and> \<not> holds_slot probe'"
  proof (cases "zt_trampoline_pool_slot_valid (pi_trampoline_slot ?p)")
    case False
    then show ?thesis using inv r by (auto simp: zt_trampoline_pool_release_def Let_def holds_slot_def)
  next
    case True
    then have h: "holds_slot ?p" using i(2) by (simp add: holds_slot_def)
    let ?s = "nat (pi_trampoline_slot ?p)"
    let ?pool1 = "pool\<lparr>tp_slot_used := (tp_slot_used pool)[?s := False]\<rparr>"
    let ?q = "zt_trampoline_pool_clear_probe_slot ?p"
    have "zt_trampoline_pool_slot_belongs_to_probe pool ?p (pi_trampoline_slot ?p)"
      using True d(5,8) [OF i(1) h] by (simp add: zt_trampoline_pool_slot_belongs_to_probe_def Let_def)
    then have c: "probe' = ?q" "pool' = ?pool1 \<or> pool' = zero_pool \<and> zt_trampoline_pool_all_free ?pool1"
      using r True by (auto simp: zt_trampoline_pool_release_def zt_trampoline_pool_reset_def Let_def bind_eq_Some_conv split: if_splits)
    show ?thesis using c unmark_inv [OF inv i(1) h] all_free_inv by auto
  qed
  then show "pool_inv pool' (probes[i := probe'])" and "\<not> holds_slot probe'" by blast+
qed


section \<open>Properties\<close>

text \<open>
  C31. Trampolines never overlap: allocating and releasing slots keeps the ownership
  invariant, whatever the remote calls answer; an allocated address is a slot of the mapped
  pool; any two different probes that hold slots have no trampoline byte in common, and
  every trampoline byte lies inside the mapping.
\<close>

theorem trampoline_slots_disjoint:
  assumes inv: "pool_inv pool probes" and i: "i < length probes" "pi_probe_id (probes ! i) \<noteq> 0"
  shows "(zt_trampoline_pool_alloc A os pid pool (probes ! i) w = Some ((r, pool', probe'), w') \<longrightarrow>
      pool_inv pool' (probes[i := probe']) \<and> (r \<noteq> None \<longrightarrow> holds_slot probe' \<and> r = Some (pi_trampoline_addr probe'))) \<and>
    (zt_trampoline_pool_release A os pid pool (probes ! i) w = Some ((pool', probe'), w') \<longrightarrow>
      pool_inv pool' (probes[i := probe']) \<and> \<not> holds_slot probe') \<and>
    (\<forall>j < length probes. \<forall>k < ZT_TRAMPOLINE_MAX_SIZE. holds_slot (probes ! j) \<longrightarrow>
      unat (pi_trampoline_addr (probes ! j) + of_nat k - tp_remote_addr pool) < ZT_TRAMPOLINE_POOL_SIZE \<and>
      (\<forall>l < ZT_TRAMPOLINE_MAX_SIZE. holds_slot (probes ! i) \<and> i \<noteq> j \<longrightarrow>
        pi_trampoline_addr (probes ! i) + of_nat l \<noteq> pi_trampoline_addr (probes ! j) + of_nat k))"
proof (intro conjI impI allI)
  assume a: "zt_trampoline_pool_alloc A os pid pool (probes ! i) w = Some ((r, pool', probe'), w')"
  note al = alloc_inv [OF inv i a]
  show inv': "pool_inv pool' (probes[i := probe'])" by (rule al(1))
  assume "r \<noteq> None"
  then obtain addr where r: "r = Some addr" by auto
  then show h: "holds_slot probe'" using al(2) by blast
  show "r = Some (pi_trampoline_addr probe')" using al(2) [OF r] r pool_invD(5) [OF inv', of i] i(1) h by simp
next
  assume a: "zt_trampoline_pool_release A os pid pool (probes ! i) w = Some ((pool', probe'), w')"
  show "pool_inv pool' (probes[i := probe'])" "\<not> holds_slot probe'" using release_inv [OF inv i a] by blast+
next
  fix j k
  assume j: "j < length probes" "k < ZT_TRAMPOLINE_MAX_SIZE" "holds_slot (probes ! j)"
  have k: "k < ZT_TRAMPOLINE_POOL_SLOT_SIZE" using j(2) by (simp add: ZT_TRAMPOLINE_POOL_SLOT_SIZE_def)
  note d = pool_invD [OF inv]
  have vj: "zt_trampoline_pool_slot_valid (pi_trampoline_slot (probes ! j))" using j(3) by (simp add: holds_slot_def)
  show "unat (pi_trampoline_addr (probes ! j) + of_nat k - tp_remote_addr pool) < ZT_TRAMPOLINE_POOL_SIZE"
    using slot_addr_inside [OF d(3) [OF j(1,3)] vj k] d(5) [OF j(1,3)] by simp
  fix l
  assume l: "l < ZT_TRAMPOLINE_MAX_SIZE" and h: "holds_slot (probes ! i) \<and> i \<noteq> j"
  have ll: "l < ZT_TRAMPOLINE_POOL_SLOT_SIZE" using l by (simp add: ZT_TRAMPOLINE_POOL_SLOT_SIZE_def)
  have vi: "zt_trampoline_pool_slot_valid (pi_trampoline_slot (probes ! i))" using h by (simp add: holds_slot_def)
  show "pi_trampoline_addr (probes ! i) + of_nat l \<noteq> pi_trampoline_addr (probes ! j) + of_nat k"
    using slot_addr_inject [OF d(3) [OF j(1,3)] vi vj ll k] d(5) [OF j(1,3)] d(5) [OF i(1)] d(6) [OF i(1) j(1)] h j(3) by auto
qed

text \<open>A kernel whose remote system calls return 0x70000000, and a session with one probe.\<close>

definition ex_pool_arch :: "(unit, unit sim) zt_arch" where
  "ex_pool_arch = \<lparr>zt_arch_probe_patch_len = 14, zt_arch_calc_patch_span = (\<lambda>_ _. None),
     zt_arch_install_jump = (\<lambda>_ _ _ _ w. (False, w)), zt_arch_get_pc = (\<lambda>os tid w. (Inr 0, w)),
     zt_arch_remote_syscall6 = (\<lambda>os pid args w. Some (Some 0x70000000, w)), zt_arch_remote_call2 = (\<lambda>_ _ _ _. None),
     zt_arch_build_trampoline = (\<lambda>_ _ _. None), zt_arch_SYS_mmap = 9, zt_arch_SYS_munmap = 11\<rparr>"

definition ex_pool_probes :: "zt_probe_info_t list" where
  "ex_pool_probes = [zero_probe\<lparr>pi_probe_id := 1, pi_trampoline_slot := - 1\<rparr>, zero_probe\<lparr>pi_probe_id := 2, pi_trampoline_slot := - 1\<rparr>]"

lemma ex_pool_inv: "pool_inv zero_pool ex_pool_probes"
  by (auto simp: pool_inv_def zero_pool_def ex_pool_probes_def holds_slot_def zt_trampoline_pool_slot_valid_def less_Suc_eq)

definition ex_pool_mapped :: zt_trampoline_pool_t where
  "ex_pool_mapped = zero_pool\<lparr>tp_remote_addr := 0x70000000, tp_remote_size := ZT_TRAMPOLINE_POOL_SIZE,
     tp_slot_used := replicate ZT_TRAMPOLINE_POOL_SLOTS False\<rparr>"

lemma ex_pool_ensure:
  "zt_trampoline_pool_ensure ex_pool_arch (sim_os (\<lambda>w. w)) 1 zero_pool ex_sim = Some (True, ex_pool_mapped, ex_sim)"
  by (simp add: zt_trampoline_pool_ensure_def zt_remote_mmap_def ex_pool_arch_def zero_pool_def zt_limits
      zt_remote_syscall_return_is_error_def ex_pool_mapped_def)

lemma ex_pool_alloc:
  "\<exists>pool probe. zt_trampoline_pool_alloc ex_pool_arch (sim_os (\<lambda>w. w)) 1 zero_pool (ex_pool_probes ! 1) ex_sim =
     Some ((Some 0x70000000, pool, probe), ex_sim)"
proof -
  have "find_index Not (tp_slot_used ex_pool_mapped) = Some 0" by code_simp
  then show ?thesis
    using ex_pool_ensure
    by (simp add: zt_trampoline_pool_alloc_def ex_pool_probes_def zt_trampoline_pool_slot_valid_def
        zt_trampoline_pool_assign_slot_def zt_trampoline_pool_slot_addr_def ex_pool_mapped_def zt_limits Let_def)
qed

theorem trampoline_slots_disjoint_witness:
  "\<exists>pool probe w. zt_trampoline_pool_alloc ex_pool_arch (sim_os (\<lambda>w. w)) 1 zero_pool (ex_pool_probes ! 1) ex_sim =
     Some ((Some 0x70000000, pool, probe), w) \<and> pool_inv pool (ex_pool_probes[1 := probe]) \<and> holds_slot probe"
proof -
  obtain pool probe where a: "zt_trampoline_pool_alloc ex_pool_arch (sim_os (\<lambda>w. w)) 1 zero_pool (ex_pool_probes ! 1) ex_sim =
     Some ((Some 0x70000000, pool, probe), ex_sim)" using ex_pool_alloc by blast
  have i: "1 < length ex_pool_probes" "pi_probe_id (ex_pool_probes ! 1) \<noteq> 0" by (simp_all add: ex_pool_probes_def)
  from trampoline_slots_disjoint [OF ex_pool_inv i, THEN conjunct1, rule_format, OF a] a show ?thesis by blast
qed

text \<open>
  C32. The pool does not run out: with at most 32 registered probes, allocating a slot for a
  registered probe fails only when the mapping cannot be created, or when the kernel maps it
  so that the slot begins at address 0. No slot is lost to probes that were removed.
\<close>

theorem pool_alloc_succeeds:
  assumes inv: "pool_inv pool probes" and n: "length probes = ZT_PROBES_CAPACITY"
    and i: "i < length probes" "pi_probe_id (probes ! i) \<noteq> 0"
    and ens: "zt_trampoline_pool_ensure A os pid pool w = Some (True, pool1, w1)"
    and mapped: "\<forall>s. zt_trampoline_pool_slot_valid s \<longrightarrow> zt_trampoline_pool_slot_addr pool1 s \<noteq> 0"
  shows "\<exists>addr pool' probe'. zt_trampoline_pool_alloc A os pid pool (probes ! i) w = Some ((Some addr, pool', probe'), w1)"
proof (cases "zt_trampoline_pool_slot_valid (pi_trampoline_slot (probes ! i)) \<and> tp_remote_addr pool \<noteq> 0")
  case True
  then have h: "holds_slot (probes ! i)" using i(2) by (simp add: holds_slot_def)
  have e: "pool1 = pool" "w1 = w" using ens True by (simp_all add: zt_trampoline_pool_ensure_def)
  have "zt_trampoline_pool_slot_belongs_to_probe pool (probes ! i) (pi_trampoline_slot (probes ! i))"
    using True pool_invD(5,8) [OF inv i(1) h] by (simp add: zt_trampoline_pool_slot_belongs_to_probe_def Let_def)
  then show ?thesis using True mapped e by (auto simp: zt_trampoline_pool_alloc_def zt_trampoline_pool_assign_slot_def Let_def)
next
  case False
  then have nh: "\<not> holds_slot (probes ! i)" using pool_invD(3) [OF inv i(1)] by (auto simp: holds_slot_def)
  note inv1 = ensure_inv(1) [OF inv ens]
  note d = pool_invD [OF inv1]
  have "\<exists>s < ZT_TRAMPOLINE_POOL_SLOTS. \<not> tp_slot_used pool1 ! s"
  proof (rule ccontr)
    assume "\<not> ?thesis"
    then have all: "\<forall>s < ZT_TRAMPOLINE_POOL_SLOTS. \<exists>j < length probes. holds_slot (probes ! j) \<and> pi_trampoline_slot (probes ! j) = int s"
      using d(7) by blast
    let ?J = "{j. j < length probes \<and> holds_slot (probes ! j)}"
    let ?slot = "\<lambda>j. nat (pi_trampoline_slot (probes ! j))"
    have "{0..<ZT_TRAMPOLINE_POOL_SLOTS} \<subseteq> ?slot ` ?J"
    proof
      fix s
      assume "s \<in> {0..<ZT_TRAMPOLINE_POOL_SLOTS}"
      then obtain j where "j \<in> ?J" "pi_trampoline_slot (probes ! j) = int s" using all by auto
      then show "s \<in> ?slot ` ?J" by (intro image_eqI [of _ _ j]) simp_all
    qed
    then have "card {0..<ZT_TRAMPOLINE_POOL_SLOTS} \<le> card (?slot ` ?J)" by (rule card_mono [rotated]) simp
    also have "\<dots> \<le> card ?J" by (rule card_image_le) simp
    finally have "ZT_TRAMPOLINE_POOL_SLOTS \<le> card ?J" by simp
    moreover have "?J \<subset> {0..<length probes}"
    proof (rule psubsetI)
      show "?J \<subseteq> {0..<length probes}" by auto
      have "i \<notin> ?J" "i \<in> {0..<length probes}" using i(1) nh by simp_all
      then show "?J \<noteq> {0..<length probes}" by blast
    qed
    then have "card ?J < length probes" using psubset_card_mono [of "{0..<length probes}" ?J] by simp
    ultimately show False using n by (simp add: ZT_TRAMPOLINE_POOL_SLOTS_def)
  qed
  then have "find_index Not (tp_slot_used pool1) \<noteq> None" using d(1) by (auto simp: find_index_None_iff all_set_conv_all_nth)
  then obtain s where s: "find_index Not (tp_slot_used pool1) = Some s" by auto
  have v: "zt_trampoline_pool_slot_valid (int s)"
    using find_index_SomeD(1) [OF s] d(1) by (simp add: zt_trampoline_pool_slot_valid_def)
  show ?thesis
    using False ens s v mapped by (auto simp: zt_trampoline_pool_alloc_def zt_trampoline_pool_assign_slot_def Let_def)
qed

definition ex_pool_full :: "zt_probe_info_t list" where
  "ex_pool_full = map (\<lambda>i. zero_probe\<lparr>pi_probe_id := of_nat (Suc i), pi_trampoline_slot := - 1\<rparr>) [0..<32]"

theorem pool_alloc_succeeds_witness:
  "\<exists>addr pool probe w. zt_trampoline_pool_alloc ex_pool_arch (sim_os (\<lambda>w. w)) 1 zero_pool (ex_pool_full ! 31) ex_sim =
     Some ((Some addr, pool, probe), w)"
proof -
  have inv: "pool_inv zero_pool ex_pool_full"
    by (auto simp: pool_inv_def zero_pool_def ex_pool_full_def holds_slot_def zt_trampoline_pool_slot_valid_def)
  have n: "length ex_pool_full = ZT_PROBES_CAPACITY" "31 < length ex_pool_full" "pi_probe_id (ex_pool_full ! 31) \<noteq> 0"
    by (simp_all add: ex_pool_full_def ZT_PROBES_CAPACITY_def)
  have "zt_trampoline_pool_slot_addr ex_pool_mapped s \<noteq> 0" if "zt_trampoline_pool_slot_valid s" for s
  proof
    assume z: "zt_trampoline_pool_slot_addr ex_pool_mapped s = 0"
    have "unat (zt_trampoline_pool_slot_addr ex_pool_mapped s + of_nat 0 - tp_remote_addr ex_pool_mapped) < ZT_TRAMPOLINE_POOL_SIZE"
      by (rule slot_addr_inside [OF _ that]) (simp_all add: zt_limits ex_pool_mapped_def)
    then show False unfolding z by (simp add: zt_limits ex_pool_mapped_def)
  qed
  then have m: "\<forall>s. zt_trampoline_pool_slot_valid s \<longrightarrow> zt_trampoline_pool_slot_addr ex_pool_mapped s \<noteq> 0" by blast
  from pool_alloc_succeeds [OF inv n ex_pool_ensure m] show ?thesis by blast
qed

end
