(* ===== verification/ZT_Probes.thy ===== *)
theory ZT_Probes
  imports ZT_Symbols
begin

text \<open>
  The probe table of \<^verbatim>\<open>src/zt_injector.c\<close> (registering, preparing, installing and
  uninstalling probes) and the begin and end of a session. A \<^verbatim>\<open>zt_probe_info_t *\<close> is an
  index into the table.
\<close>

section \<open>The table\<close>

definition zt_probe_state_name :: "zt_probe_state_t \<Rightarrow> string" where
  "zt_probe_state_name st = (case st of
       ZT_PROBE_EMPTY \<Rightarrow> ''empty'' | ZT_PROBE_RESOLVED \<Rightarrow> ''resolved'' | ZT_PROBE_PREPARED \<Rightarrow> ''prepared''
     | ZT_PROBE_INSTALLED \<Rightarrow> ''installed'' | ZT_PROBE_DISABLED \<Rightarrow> ''disabled'')"

definition upd_probe :: "nat \<Rightarrow> (zt_probe_info_t \<Rightarrow> zt_probe_info_t) \<Rightarrow> session \<Rightarrow> session" where
  "upd_probe i f se = se\<lparr>se_probes := (se_probes se)[i := f (se_probes se ! i)]\<rparr>"

definition zt_probe_find_by_symbol :: "session \<Rightarrow> string \<Rightarrow> nat option" where
  "zt_probe_find_by_symbol se symbol_name =
     find_index (\<lambda>p. pi_probe_id p \<noteq> 0 \<and> tgt_symbol (pi_target p) = symbol_name) (se_probes se)"

definition zt_probe_find_by_id :: "session \<Rightarrow> u64 \<Rightarrow> nat option" where
  "zt_probe_find_by_id se probe_id =
     (if probe_id = 0 then None else find_index (\<lambda>p. pi_probe_id p = probe_id) (se_probes se))"

definition zt_probe_alloc :: "session \<Rightarrow> zt_symbol_target_t \<Rightarrow> nat option \<times> session" where
  "zt_probe_alloc se target =
     (if tgt_symbol target = [] then (None, se)
      else case zt_probe_find_by_symbol se (tgt_symbol target) of
          Some i \<Rightarrow> (Some i, se)
        | None \<Rightarrow>
            (case find_index (\<lambda>p. pi_probe_id p = 0) (se_probes se) of
               None \<Rightarrow> (None, se)
             | Some i \<Rightarrow>
                 let probe_id = (if se_next_probe_id se = 0 then se_next_probe_id se + 1 else se_next_probe_id se);
                     next_id = probe_id + 1
                 in (Some i, (upd_probe i (\<lambda>_. zero_probe\<lparr>pi_probe_id := probe_id, pi_target := target,
                       pi_trampoline_slot := - 1, pi_call_action_slot := - 1, pi_state := ZT_PROBE_RESOLVED\<rparr>) se)
                     \<lparr>se_next_probe_id := next_id, se_probe_count := se_probe_count se + 1\<rparr>)))"

definition zt_register_probe :: "('r, 'w) os \<Rightarrow> session \<Rightarrow> string \<Rightarrow> 'w \<Rightarrow> nat option \<times> session \<times> 'w" where
  "zt_register_probe os se symbol_name w =
     (case zt_probe_find_by_symbol se symbol_name of
        Some i \<Rightarrow> (Some i, se, w)
      | None \<Rightarrow>
          (case zt_resolve_symbol_target os se symbol_name w of
             (None, w1) \<Rightarrow> (None, se, w1)
           | (Some target, w1) \<Rightarrow> (case zt_probe_alloc se target of (r, se1) \<Rightarrow> (r, se1, w1))))"

definition zt_unregister_probe :: "session \<Rightarrow> u64 \<Rightarrow> bool \<times> session" where
  "zt_unregister_probe se probe_id =
     (case zt_probe_find_by_id se probe_id of
        None \<Rightarrow> (False, se)
      | Some i \<Rightarrow>
          let se1 = upd_probe i (\<lambda>_. zero_probe) se in
          (True, if se_probe_count se1 > 0 then se1\<lparr>se_probe_count := se_probe_count se1 - 1\<rparr> else se1))"

section \<open>Patching\<close>

definition zt_enable_probe :: "('r, 'w) zt_arch \<Rightarrow> ('r, 'w) os \<Rightarrow> session \<Rightarrow> u64 \<Rightarrow> 'w \<Rightarrow> bool \<times> session \<times> 'w" where
  "zt_enable_probe A os se probe_id w =
     (case zt_probe_find_by_id se probe_id of
        None \<Rightarrow> (False, se, w)
      | Some i \<Rightarrow>
          let probe = se_probes se ! i in
          if pi_state probe = ZT_PROBE_PREPARED \<or> pi_state probe = ZT_PROBE_INSTALLED then (True, se, w)
          else case zt_read_remote_memory os (se_pid se) (tgt_remote_addr (pi_target probe)) ZT_PROBE_ORIG_CODE_MAX w of
              (None, w1) \<Rightarrow> (False, se, w1)
            | (Some code, w1) \<Rightarrow>
                (case zt_arch_calc_patch_span A code (zt_arch_probe_patch_len A) of
                   None \<Rightarrow> (False, se, w1)
                 | Some patch_len \<Rightarrow>
                     if patch_len > ZT_PROBE_ORIG_CODE_MAX then (False, se, w1)
                     else (True, upd_probe i (\<lambda>p. p\<lparr>pi_orig_code := buf_put (pi_orig_code p) 0 (take patch_len code),
                             pi_orig_len := patch_len, pi_state := ZT_PROBE_PREPARED\<rparr>) se, w1)))"

definition zt_install_probe_patch ::
  "('r, 'w) zt_arch \<Rightarrow> ('r, 'w) os \<Rightarrow> session \<Rightarrow> u64 \<Rightarrow> u64 \<Rightarrow> 'w \<Rightarrow> (bool \<times> session \<times> 'w) option" where
  "zt_install_probe_patch A os se probe_id trampoline_addr w =
     (if trampoline_addr = 0 then Some (False, se, w)
      else case zt_probe_find_by_id se probe_id of
          None \<Rightarrow> Some (False, se, w)
        | Some i \<Rightarrow>
            if pi_state (se_probes se ! i) \<noteq> ZT_PROBE_PREPARED \<or> pi_orig_len (se_probes se ! i) < zt_arch_probe_patch_len A
            then Some (False, se, w)
            else do {
              (b, se1, w1) \<leftarrow> zt_ensure_patch_regions_are_safe A os se w;
              if \<not> b then Some (False, se1, w1)
              else case zt_arch_install_jump A os (se_pid se1) (tgt_remote_addr (pi_target (se_probes se1 ! i))) trampoline_addr w1 of
                  (False, w2) \<Rightarrow> Some (False, se1, w2)
                | (True, w2) \<Rightarrow>
                    Some (True, upd_probe i (\<lambda>p. p\<lparr>pi_trampoline_addr := trampoline_addr, pi_state := ZT_PROBE_INSTALLED\<rparr>) se1, w2) })"

definition zt_uninstall_probe_patch ::
  "('r, 'w) zt_arch \<Rightarrow> ('r, 'w) os \<Rightarrow> session \<Rightarrow> u64 \<Rightarrow> 'w \<Rightarrow> (bool \<times> session \<times> 'w) option" where
  "zt_uninstall_probe_patch A os se probe_id w =
     (case zt_probe_find_by_id se probe_id of
        None \<Rightarrow> Some (False, se, w)
      | Some i \<Rightarrow>
          if pi_orig_len (se_probes se ! i) = 0 then Some (False, se, w)
          else do {
            (b, se1, w1) \<leftarrow> zt_ensure_patch_regions_are_safe A os se w;
            if \<not> b then Some (False, se1, w1)
            else let probe = se_probes se1 ! i in
              case zt_write_remote_memory os (se_pid se1) (tgt_remote_addr (pi_target probe))
                     (take (pi_orig_len probe) (pi_orig_code probe)) w1 of
                (False, w2) \<Rightarrow> Some (False, se1, w2)
              | (True, w2) \<Rightarrow> Some (True, upd_probe i (\<lambda>p. p\<lparr>pi_state := ZT_PROBE_DISABLED\<rparr>) se1, w2) })"

section \<open>Sessions\<close>

fun zt_detach_each :: "('r, 'w) os \<Rightarrow> zt_thread_info_t list \<Rightarrow> 'w \<Rightarrow> 'w" where
  "zt_detach_each os [] w = w"
| "zt_detach_each os (t # ts) w = zt_detach_each os ts (if th_tid t > 0 then os_detach os (th_tid t) w else w)"

definition zt_injector_detach :: "('r, 'w) os \<Rightarrow> session \<Rightarrow> 'w \<Rightarrow> (session \<times> 'w) option" where
  "zt_injector_detach os se w = do {
     (se1, w1) \<leftarrow> (if se_pid se > 0 \<and> \<not> se_threads_stopped se
       then do { (b, se1, w1) \<leftarrow> zt_injector_interrupt_all os se w; Some (se1, w1) }
       else Some (se, w));
     Some (zero_session, zt_detach_each os (live_threads se1) w1) }"

text \<open>
  \<^verbatim>\<open>readlink\<close> returns -1 when it fails; the code keeps the result in a \<^verbatim>\<open>size_t\<close>, misses the
  failure and writes outside the path buffer. That branch has no defined behaviour and is
  \<open>None\<close> here.
\<close>

definition zt_injector_attach :: "('r, 'w) os \<Rightarrow> int \<Rightarrow> 'w \<Rightarrow> (bool \<times> session \<times> 'w) option" where
  "zt_injector_attach os pid w =
     (let se = zero_session\<lparr>se_pid := pid, se_next_probe_id := 1\<rparr>;
          fail = (\<lambda>se w. do { (se', w') \<leftarrow> zt_injector_detach os se w; Some (False, se', w') })
      in case zt_injector_refresh_threads os se w of
           (False, se1, w1) \<Rightarrow> fail se1 w1
         | (True, se1, w1) \<Rightarrow> do {
             (b, se2, w2) \<leftarrow> zt_injector_interrupt_all os se1 w1;
             if \<not> b then fail se2 w2
             else case os_proc_exe os pid w2 of
                 (None, w3) \<Rightarrow> None
               | (Some path, w3) \<Rightarrow>
                   if path = [] then fail se2 w3
                   else let se3 = se2\<lparr>se_exe_path := take 511 path\<rparr> in
                     case zt_check_is_pie os (se_exe_path se3) w3 of
                       (Inl e, w4) \<Rightarrow> fail se3 w4
                     | (Inr pie, w4) \<Rightarrow>
                         let se4 = se3\<lparr>se_is_pie := pie\<rparr> in
                         (case zt_read_image_base os pid (se_exe_path se4) w4 of
                            (Inl e, w5) \<Rightarrow> fail se4 w5
                          | (Inr base, w5) \<Rightarrow> Some (True, se4\<lparr>se_image_base := base\<rparr>, w5)) })"

end
