(* ===== verification/ZT_ProbesProps.thy ===== *)
theory ZT_ProbesProps
  imports ZT_Probes ZT_ThreadsProps ZT_ArchX86 ZT_ArchA64
begin

text \<open>
  Properties of the probe table: ids and symbols identify probes, and installing and
  uninstalling a probe puts the original code back.
\<close>

section \<open>The table\<close>

abbreviation registered :: "session \<Rightarrow> nat \<Rightarrow> bool" where
  "registered se i \<equiv> i < ZT_PROBES_CAPACITY \<and> pi_probe_id (se_probes se ! i) \<noteq> 0"

text \<open>Ids are unique and below the next id, symbols are unique, and the count is right.\<close>

definition probes_ok :: "session \<Rightarrow> bool" where
  "probes_ok se \<longleftrightarrow> length (se_probes se) = ZT_PROBES_CAPACITY \<and>
     (\<forall>i j. registered se i \<and> registered se j \<and> pi_probe_id (se_probes se ! i) = pi_probe_id (se_probes se ! j) \<longrightarrow> i = j) \<and>
     (\<forall>i j. registered se i \<and> registered se j \<and>
        tgt_symbol (pi_target (se_probes se ! i)) = tgt_symbol (pi_target (se_probes se ! j)) \<longrightarrow> i = j) \<and>
     (\<forall>i. registered se i \<longrightarrow> pi_probe_id (se_probes se ! i) < se_next_probe_id se) \<and>
     se_probe_count se = int (card {i. registered se i})"

lemma finite_registered: "finite {i. registered se i}"
  by (rule finite_subset [of _ "{0..<ZT_PROBES_CAPACITY}"]) auto

lemma upd_probe_simps [simp]:
  "length (se_probes (upd_probe i f se)) = length (se_probes se)" "se_next_probe_id (upd_probe i f se) = se_next_probe_id se"
  "se_probe_count (upd_probe i f se) = se_probe_count se" "se_pid (upd_probe i f se) = se_pid se"
  "se_threads (upd_probe i f se) = se_threads se" "se_thread_count (upd_probe i f se) = se_thread_count se"
  by (simp_all add: upd_probe_def)

lemma nth_upd_probe:
  "j < length (se_probes se) \<Longrightarrow>
     se_probes (upd_probe i f se) ! j = (if i = j then f (se_probes se ! i) else se_probes se ! j)"
  by (simp add: upd_probe_def nth_list_update)

text \<open>Updates that keep the id and the target of a probe.\<close>

lemma probes_ok_upd:
  assumes "probes_ok se" and "\<And>p. pi_probe_id (f p) = pi_probe_id p" "\<And>p. pi_target (f p) = pi_target p"
  shows "probes_ok (upd_probe i f se)"
proof -
  have l: "length (se_probes se) = ZT_PROBES_CAPACITY" using assms(1) by (simp add: probes_ok_def)
  have "pi_probe_id (se_probes (upd_probe i f se) ! j) = pi_probe_id (se_probes se ! j)"
    "pi_target (se_probes (upd_probe i f se) ! j) = pi_target (se_probes se ! j)" if "j < ZT_PROBES_CAPACITY" for j
    using that l assms(2,3) by (simp_all add: nth_upd_probe)
  then have "registered (upd_probe i f se) j = registered se j"
    "registered se j \<Longrightarrow> pi_probe_id (se_probes (upd_probe i f se) ! j) = pi_probe_id (se_probes se ! j)"
    "registered se j \<Longrightarrow> pi_target (se_probes (upd_probe i f se) ! j) = pi_target (se_probes se ! j)" for j by auto
  then show ?thesis using assms(1) unfolding probes_ok_def by auto
qed

lemma find_by_id_Some:
  assumes "zt_probe_find_by_id se pid = Some i" and "length (se_probes se) = ZT_PROBES_CAPACITY"
  shows "registered se i" and "pi_probe_id (se_probes se ! i) = pid" and "pid \<noteq> 0"
  using assms find_index_SomeD [of "\<lambda>p. pi_probe_id p = pid" "se_probes se" i]
  by (auto simp: zt_probe_find_by_id_def split: if_splits)

lemma find_by_symbol_Some:
  assumes "zt_probe_find_by_symbol se name = Some i" and "length (se_probes se) = ZT_PROBES_CAPACITY"
  shows "registered se i" and "tgt_symbol (pi_target (se_probes se ! i)) = name"
  using assms find_index_SomeD [of "\<lambda>p. pi_probe_id p \<noteq> 0 \<and> tgt_symbol (pi_target p) = name" "se_probes se" i]
  by (simp_all add: zt_probe_find_by_symbol_def)

lemma find_by_symbol_None:
  assumes "zt_probe_find_by_symbol se name = None" and "length (se_probes se) = ZT_PROBES_CAPACITY" and "registered se i"
  shows "tgt_symbol (pi_target (se_probes se ! i)) \<noteq> name"
  using assms by (auto simp: zt_probe_find_by_symbol_def find_index_None_iff all_set_conv_all_nth)

lemma probe_alloc:
  assumes ok: "probes_ok se" and n: "0 < se_next_probe_id se" "unat (se_next_probe_id se) < 2 ^ 64 - 1"
    and r: "zt_probe_alloc se target = (r, se')"
  shows "probes_ok se'" and "r = Some i \<Longrightarrow> registered se' i \<and> tgt_symbol (pi_target (se_probes se' ! i)) = tgt_symbol target"
proof -
  have l: "length (se_probes se) = ZT_PROBES_CAPACITY" using ok by (simp add: probes_ok_def)
  have "probes_ok se' \<and> (\<forall>i. r = Some i \<longrightarrow> registered se' i \<and> tgt_symbol (pi_target (se_probes se' ! i)) = tgt_symbol target)"
  proof (cases "tgt_symbol target \<noteq> [] \<and> zt_probe_find_by_symbol se (tgt_symbol target) = None \<and>
      find_index (\<lambda>p. pi_probe_id p = 0) (se_probes se) \<noteq> None")
    case False
    then have "se' = se \<and> (r = None \<or> (\<exists>i. r = Some i \<and> zt_probe_find_by_symbol se (tgt_symbol target) = Some i))"
      using r by (auto simp: zt_probe_alloc_def split: if_splits option.splits)
    then show ?thesis using ok find_by_symbol_Some [OF _ l] by auto
  next
    case True
    then obtain k where k: "find_index (\<lambda>p. pi_probe_id p = 0) (se_probes se) = Some k" by auto
    note kk = find_index_SomeD [OF k]
    let ?id = "se_next_probe_id se"
    let ?new = "zero_probe\<lparr>pi_probe_id := ?id, pi_target := target, pi_trampoline_slot := - 1,
      pi_call_action_slot := - 1, pi_state := ZT_PROBE_RESOLVED\<rparr>"
    have id0: "?id \<noteq> 0" using n(1) by auto
    have e: "r = Some k" "se' = (upd_probe k (\<lambda>_. ?new) se)\<lparr>se_next_probe_id := ?id + 1, se_probe_count := se_probe_count se + 1\<rparr>"
      using r True k id0 by (auto simp: zt_probe_alloc_def Let_def)
    have nth: "se_probes se' ! j = (if j = k then ?new else se_probes se ! j)" if "j < ZT_PROBES_CAPACITY" for j
      using that l by (simp add: e nth_upd_probe)
    have reg: "registered se' j \<longleftrightarrow> j = k \<or> registered se j" for j using nth kk l id0 by (auto split: if_splits)
    have nk: "\<not> registered se k" using kk by simp
    have sym: "tgt_symbol (pi_target (se_probes se ! j)) \<noteq> tgt_symbol target" if "registered se j" for j
      using find_by_symbol_None [OF _ l that] True by blast
    have lt: "pi_probe_id (se_probes se ! j) < ?id" if "registered se j" for j using ok that unfolding probes_ok_def by blast
    have up: "?id < ?id + 1" using n(2) by (simp add: word_less_nat_alt unat_word_ariths)
    have "card {j. registered se' j} = Suc (card {j. registered se j})"
    proof -
      have "{j. registered se' j} = insert k {j. registered se j}" using reg by auto
      then show ?thesis using nk finite_registered [of se] by simp
    qed
    then have c: "se_probe_count se' = int (card {j. registered se' j})" using ok by (simp add: e probes_ok_def)
    have "probes_ok se'"
      unfolding probes_ok_def
    proof (intro conjI allI impI; (elim conjE)?)
      show "length (se_probes se') = ZT_PROBES_CAPACITY" using l by (simp add: e)
      show "se_probe_count se' = int (card {i. registered se' i})" by (rule c)
    next
      fix i j
      assume ij: "i < ZT_PROBES_CAPACITY" "pi_probe_id (se_probes se' ! i) \<noteq> 0" "j < ZT_PROBES_CAPACITY" "pi_probe_id (se_probes se' ! j) \<noteq> 0"
      { assume "pi_probe_id (se_probes se' ! i) = pi_probe_id (se_probes se' ! j)"
        then show "i = j" using ij nth lt ok unfolding probes_ok_def by (cases "i = k"; cases "j = k") (auto split: if_splits) }
      { assume "tgt_symbol (pi_target (se_probes se' ! i)) = tgt_symbol (pi_target (se_probes se' ! j))"
        then show "i = j" using ij nth sym ok unfolding probes_ok_def by (cases "i = k"; cases "j = k") (auto split: if_splits) }
    next
      fix i
      assume i: "i < ZT_PROBES_CAPACITY" "pi_probe_id (se_probes se' ! i) \<noteq> 0"
      show "pi_probe_id (se_probes se' ! i) < se_next_probe_id se'"
        using i nth lt [of i] up by (auto simp: e(2) split: if_splits)
    qed
    then show ?thesis using reg nth e(1) kk l id0 by auto
  qed
  then show "probes_ok se'" and "r = Some i \<Longrightarrow> registered se' i \<and> tgt_symbol (pi_target (se_probes se' ! i)) = tgt_symbol target"
    by blast+
qed

lemma unregister:
  assumes ok: "probes_ok se" and r: "zt_unregister_probe se pid = (b, se')"
  shows "probes_ok se'" and "b \<Longrightarrow> zt_probe_find_by_id se' pid = None"
proof -
  have l: "length (se_probes se) = ZT_PROBES_CAPACITY" using ok by (simp add: probes_ok_def)
  have "probes_ok se' \<and> (b \<longrightarrow> zt_probe_find_by_id se' pid = None)"
  proof (cases "zt_probe_find_by_id se pid")
    case None
    then show ?thesis using ok r by (simp add: zt_unregister_probe_def)
  next
    case (Some k)
    note k = find_by_id_Some [OF Some l]
    have cnt: "0 < se_probe_count se"
      using ok k(1) finite_registered [of se] card_gt_0_iff [of "{i. registered se i}"] unfolding probes_ok_def by auto
    then have e: "se' = (upd_probe k (\<lambda>_. zero_probe) se)\<lparr>se_probe_count := se_probe_count se - 1\<rparr>"
      using r Some by (simp add: zt_unregister_probe_def Let_def)
    have nth: "se_probes se' ! j = (if j = k then zero_probe else se_probes se ! j)" if "j < ZT_PROBES_CAPACITY" for j
      using that l by (simp add: e nth_upd_probe)
    have reg: "registered se' j \<longleftrightarrow> j \<noteq> k \<and> registered se j" for j using nth by (auto simp: zero_probe_def split: if_splits)
    have "{j. registered se' j} = {j. registered se j} - {k}" using reg by auto
    then have "card {j. registered se' j} = card {j. registered se j} - 1" using k(1) finite_registered [of se] by simp
    then have c: "se_probe_count se' = int (card {j. registered se' j})" using ok cnt by (simp add: e probes_ok_def)
    have same: "se_probes se' ! j = se_probes se ! j" if "registered se' j" for j using reg nth that by auto
    have "probes_ok se'"
      unfolding probes_ok_def
    proof (intro conjI allI impI)
      show "length (se_probes se') = ZT_PROBES_CAPACITY" using l by (simp add: e)
      show "se_probe_count se' = int (card {i. registered se' i})" by (rule c)
    next
      fix i
      assume i: "registered se' i"
      then show "pi_probe_id (se_probes se' ! i) < se_next_probe_id se'"
        using same [OF i] reg ok unfolding probes_ok_def by (simp add: e(1))
    next
      fix i j
      assume "registered se' i \<and> registered se' j \<and> pi_probe_id (se_probes se' ! i) = pi_probe_id (se_probes se' ! j)"
      then show "i = j" using same reg ok unfolding probes_ok_def by metis
    next
      fix i j
      assume "registered se' i \<and> registered se' j \<and>
        tgt_symbol (pi_target (se_probes se' ! i)) = tgt_symbol (pi_target (se_probes se' ! j))"
      then show "i = j" using same reg ok unfolding probes_ok_def by metis
    qed
    moreover have "zt_probe_find_by_id se' pid = None"
    proof (cases "zt_probe_find_by_id se' pid")
      case (Some j)
      have l': "length (se_probes se') = ZT_PROBES_CAPACITY" using l by (simp add: e)
      note j = find_by_id_Some [OF Some l']
      have "j \<noteq> k" "registered se j" using j(1) reg by blast+
      moreover have "pi_probe_id (se_probes se ! j) = pi_probe_id (se_probes se ! k)" using j(2) k(2) same [OF j(1)] by simp
      ultimately have False using ok k(1) unfolding probes_ok_def by blast
      then show ?thesis ..
    qed
    ultimately show ?thesis by blast
  qed
  then show "probes_ok se'" and "b \<Longrightarrow> zt_probe_find_by_id se' pid = None" by blast+
qed

section \<open>Patching keeps the table\<close>

text \<open>Thread control does not touch the fields of the table.\<close>

lemma probes_ok_rest: "se_rest se' = se_rest se \<Longrightarrow> probes_ok se' = probes_ok se"
  by (cases se; cases se') (simp add: se_rest_def probes_ok_def)

lemma enable_ok:
  assumes "probes_ok se" and "zt_enable_probe A os se pid w = (b, se', w')"
  shows "probes_ok se'"
  using assms
  by (auto simp: zt_enable_probe_def Let_def intro!: probes_ok_upd split: option.splits if_splits prod.splits)

lemma install_ok:
  assumes t: "threads_ok se" and ok: "probes_ok se" and r: "zt_install_probe_patch A os se pid t w = Some (b, se', w')"
  shows "probes_ok se'"
proof -
  have e: "probes_ok se1" if "zt_ensure_patch_regions_are_safe A os se w = Some (b1, se1, w1)" for b1 se1 w1
    using ensure_safe_ok [OF t that] ok probes_ok_rest by blast
  show ?thesis
    using r ok e
    by (auto simp: zt_install_probe_patch_def bind_eq_Some_conv intro!: probes_ok_upd split: option.splits if_splits prod.splits bool.splits)
qed

lemma uninstall_ok:
  assumes t: "threads_ok se" and ok: "probes_ok se" and r: "zt_uninstall_probe_patch A os se pid w = Some (b, se', w')"
  shows "probes_ok se'"
proof -
  have e: "probes_ok se1" if "zt_ensure_patch_regions_are_safe A os se w = Some (b1, se1, w1)" for b1 se1 w1
    using ensure_safe_ok [OF t that] ok probes_ok_rest by blast
  show ?thesis
    using r ok e
    by (auto simp: zt_uninstall_probe_patch_def Let_def bind_eq_Some_conv intro!: probes_ok_upd
        split: option.splits if_splits prod.splits bool.splits)
qed


section \<open>Installing and uninstalling\<close>

text \<open>Stepping threads out of the patch regions leaves a part \<open>f\<close> of the world alone.\<close>

definition steps_keep :: "('r, 'w) zt_arch \<Rightarrow> ('r, 'w) os \<Rightarrow> ('w \<Rightarrow> 'x) \<Rightarrow> bool" where
  "steps_keep A os f \<longleftrightarrow> (\<forall>tid w. f (snd (zt_arch_get_pc A os tid w)) = f w) \<and>
     (\<forall>tid sig w. f (snd (os_singlestep os tid sig w)) = f w) \<and> (\<forall>tid nohang w. f (snd (os_waitpid os tid nohang w)) = f w)"

lemma steps_keepD:
  assumes "steps_keep A os f"
  shows "zt_arch_get_pc A os tid w = (r, w') \<Longrightarrow> f w' = f w" "os_singlestep os tid sig w = (e, w') \<Longrightarrow> f w' = f w"
    "os_waitpid os tid nohang w = (q, w') \<Longrightarrow> f w' = f w"
  using assms unfolding steps_keep_def by (metis snd_conv)+

lemma wait_keeps:
  fixes os :: "('r, 'w) os"
  assumes k: "steps_keep A os f" and r: "zt_wait_for_thread_stop os t w = Some (b, t', w')"
  shows "f w' = f w"
proof -
  let ?P = "\<lambda>o2 t w r. case r of (b, t', w') \<Rightarrow> o2 = os \<longrightarrow> f w' = f w"
  have "?P os t w (b, t', w')"
  proof (rule zt_wait_for_thread_stop.raw_induct [where P = ?P, OF _ r])
    fix g :: "('r, 'w) os \<Rightarrow> zt_thread_info_t \<Rightarrow> 'w \<Rightarrow> (bool \<times> zt_thread_info_t \<times> 'w) option" and o2 t w y
    assume IH: "\<And>o2 t w y. g o2 t w = Some y \<Longrightarrow> ?P o2 t w y"
      and e: "(if th_tid t \<le> 0 then Some (False, t, w)
        else case os_waitpid o2 (th_tid t) False w of
          (Inr (p, status), w1) \<Rightarrow>
            if WIFSTOPPED status then Some (True, zt_thread_mark_stopped status t, w1)
            else if zt_wait_status_is_thread_exit status then Some (True, zt_thread_clear t, w1)
            else Some (False, t, w1)
        | (Inl e, w1) \<Rightarrow>
            if e = EINTR then g o2 t w1
            else if e = ECHILD \<or> e = ESRCH then Some (True, zt_thread_clear t, w1)
            else Some (False, t, w1)) = Some y"
    obtain q w1 where q: "os_waitpid o2 (th_tid t) False w = (q, w1)" by fastforce
    have m: "f w1 = f w" if "o2 = os" using steps_keepD(3) [OF k q [unfolded that]] .
    show "?P o2 t w y"
      using e q m IH [of o2 t w1 y] by (auto split: if_splits sum.splits prod.splits)
  qed
  then show ?thesis by simp
qed

lemma single_step_keeps:
  assumes k: "steps_keep A os f" and r: "zt_single_step_thread os se i w = Some (b, se', w')"
  shows "f w' = f w"
  using r wait_keeps [OF k] steps_keepD(2) [OF k]
  by (fastforce simp: zt_single_step_thread_def Let_def bind_eq_Some_conv split: if_splits prod.splits option.splits)

lemma step_out_keeps:
  assumes k: "steps_keep A os f"
  shows "zt_step_out A os i n se w = Some (b, se', w') \<Longrightarrow> f w' = f w"
proof (induction n arbitrary: se w)
  case (Suc n)
  obtain q w1 where q: "zt_arch_get_pc A os (th_tid (se_threads se ! i)) w = (q, w1)" by fastforce
  have st: "f w' = f w1" if 2: "zt_single_step_thread os se i w1 = Some (b2, se2, w2)"
    and 3: "(if b2 then zt_step_out A os i n se2 w2 else Some (False, se2, w2)) = Some (b, se', w')" for b2 se2 w2
    using single_step_keeps [OF k 2] 3 Suc.IH by (cases b2) auto
  show ?case
    using Suc.prems q steps_keepD(1) [OF k q] st by (cases q) (auto simp: bind_eq_Some_conv split: if_splits)
qed simp

lemma clear_each_keeps:
  assumes k: "steps_keep A os f"
  shows "zt_clear_each A os is se w = Some (b, se', w') \<Longrightarrow> f w' = f w"
proof (induction "is" arbitrary: se w)
  case (Cons i "is")
  show ?case
  proof (cases "th_tid (se_threads se ! i) \<le> 0 \<or> \<not> th_stopped (se_threads se ! i)")
    case True
    then show ?thesis using Cons by simp
  next
    case False
    then obtain b1 se1 w1 where 1: "zt_step_out A os i ZT_PATCH_REGION_MAX_SINGLE_STEPS se w = Some (b1, se1, w1)"
      using Cons.prems by (auto simp: bind_eq_Some_conv)
    obtain q w2 where q: "zt_arch_get_pc A os (th_tid (se_threads se1 ! i)) w1 = (q, w2)" by fastforce
    show ?thesis
      using Cons.prems False 1 q step_out_keeps [OF k 1] steps_keepD(1) [OF k q] Cons.IH [of se1 w1] Cons.IH [of se1 w2]
      by (auto split: if_splits sum.splits)
  qed
qed simp

lemma ensure_keeps:
  assumes "steps_keep A os f" and "zt_ensure_patch_regions_are_safe A os se w = Some (b, se', w')"
  shows "f w' = f w"
  using assms(2) clear_each_keeps [OF assms(1)]
  by (fastforce simp: zt_ensure_patch_regions_are_safe_def bind_eq_Some_conv split: if_splits)

lemma fetch_mem_put:
  assumes "length bs \<le> n" and "n \<le> 2 ^ 64"
  shows "fetch (mem_put m a bs) a n = bs @ drop (length bs) (fetch m a n)"
  using assms by (intro nth_equalityI) (auto simp: mem_put_def unat_of_nat nth_append)


lemma find_index_map: "find_index (\<lambda>p. f p = x) ps = find_index (\<lambda>y. y = x) (map f ps)"
  by (induction ps) simp_all

lemma find_by_id_cong:
  "map pi_probe_id (se_probes se') = map pi_probe_id (se_probes se) \<Longrightarrow> zt_probe_find_by_id se' x = zt_probe_find_by_id se x"
  by (simp add: zt_probe_find_by_id_def find_index_map [of pi_probe_id])

lemma map_id_upd_probe:
  assumes "\<And>p. pi_probe_id (f p) = pi_probe_id p"
  shows "map pi_probe_id (se_probes (upd_probe i f se)) = map pi_probe_id (se_probes se)"
  by (rule nth_equalityI) (simp_all add: nth_upd_probe assms)

context probe_arch
begin

lemma enable_effect:
  assumes ok: disasm_ok and mem: "os_mem_ok os (se_pid se) mem" and l: "length (se_probes se) = ZT_PROBES_CAPACITY"
    and i: "zt_probe_find_by_id se x = Some i" and st: "pi_state (se_probes se ! i) \<noteq> ZT_PROBE_PREPARED" "pi_state (se_probes se ! i) \<noteq> ZT_PROBE_INSTALLED"
    and en: "zt_enable_probe A os se x w = (True, se1, w1)"
  defines "a \<equiv> tgt_remote_addr (pi_target (se_probes se ! i))"
  obtains n where "zt_arch_probe_patch_len A \<le> n" "n \<le> ZT_PROBE_ORIG_CODE_MAX" "mem w1 = mem w"
    "se_pid se1 = se_pid se" "zt_probe_find_by_id se1 x = Some i" "se_rest se1 = (se_rest se)\<lparr>se_probes := se_probes se1\<rparr>"
    "pi_state (se_probes se1 ! i) = ZT_PROBE_PREPARED" "pi_orig_len (se_probes se1 ! i) = n"
    "take n (pi_orig_code (se_probes se1 ! i)) = fetch (mem w) a n" "pi_target (se_probes se1 ! i) = pi_target (se_probes se ! i)"
    "se_threads se1 = se_threads se" "se_thread_count se1 = se_thread_count se" "length (se_probes se1) = length (se_probes se)"
proof -
  have ii: "i < length (se_probes se)" using find_by_id_Some(1) [OF i l] l by simp
  obtain c w2 where c: "zt_read_remote_memory os (se_pid se) a ZT_PROBE_ORIG_CODE_MAX w = (c, w2)" by fastforce
  obtain code n where code: "c = Some code" "w2 = w1" and n: "zt_arch_calc_patch_span A code (zt_arch_probe_patch_len A) = Some n"
    "n \<le> ZT_PROBE_ORIG_CODE_MAX"
    and se1: "se1 = upd_probe i (\<lambda>p. p\<lparr>pi_orig_code := buf_put (pi_orig_code p) 0 (take n code), pi_orig_len := n, pi_state := ZT_PROBE_PREPARED\<rparr>) se"
    using en i st c unfolding a_def [symmetric] zt_enable_probe_def Let_def
    by (auto simp: a_def [symmetric] split: option.splits if_splits)
  have m: "mem w1 = mem w" using rm.rd_mem [OF mem c] code by simp
  have cf: "code = fetch (mem w) a ZT_PROBE_ORIG_CODE_MAX" using rm.rd_Some [OF mem c [unfolded code(1)]] .
  have tk: "take n code = fetch (mem w) a n" using n(2) by (simp add: cf take_fetch)
  show thesis
  proof (rule that [of n])
    show "zt_arch_probe_patch_len A \<le> n" using span_covers [OF ok n(1)] by simp
    show "zt_probe_find_by_id se1 x = Some i" using find_by_id_cong [OF map_id_upd_probe] i by (simp add: se1)
    show "take n (pi_orig_code (se_probes se1 ! i)) = fetch (mem w) a n"
      using ii tk by (simp add: se1 nth_upd_probe buf_put_def)
    show "se_rest se1 = (se_rest se)\<lparr>se_probes := se_probes se1\<rparr>" by (simp add: se1 upd_probe_def se_rest_def)
  qed (use n m ii in \<open>simp_all add: se1 nth_upd_probe\<close>)
qed

lemma install_patch_effect:
  assumes mem: "os_mem_ok os (se_pid se) mem" and keep: "steps_keep A os (\<lambda>w. fetch (mem w) a ZT_PROBE_ORIG_CODE_MAX)"
    and t: "threads_ok se" and l: "length (se_probes se) = ZT_PROBES_CAPACITY" and i: "zt_probe_find_by_id se x = Some i"
    and a: "a = tgt_remote_addr (pi_target (se_probes se ! i))"
    and ins: "zt_install_probe_patch A os se x t w = Some (True, se2, w2)"
  shows "fetch (mem w2) a ZT_PROBE_ORIG_CODE_MAX = patch t @ drop (zt_arch_probe_patch_len A) (fetch (mem w) a ZT_PROBE_ORIG_CODE_MAX)"
    and "se_probes se2 = (se_probes se)[i := (se_probes se ! i)\<lparr>pi_trampoline_addr := t, pi_state := ZT_PROBE_INSTALLED\<rparr>]"
    and "se_pid se2 = se_pid se" and "threads_ok se2"
proof -
  obtain se1 w1 where 1: "zt_ensure_patch_regions_are_safe A os se w = Some (True, se1, w1)"
    and 2: "zt_arch_install_jump A os (se_pid se1) (tgt_remote_addr (pi_target (se_probes se1 ! i))) t w1 = (True, w2)"
    and 3: "se2 = upd_probe i (\<lambda>p. p\<lparr>pi_trampoline_addr := t, pi_state := ZT_PROBE_INSTALLED\<rparr>) se1"
    using ins i by (auto simp: zt_install_probe_patch_def bind_eq_Some_conv split: if_splits prod.splits bool.splits)
  have e: "threads_ok se1" "se_pid se1 = se_pid se" "se_probes se1 = se_probes se"
    using ensure_safe_ok [OF t 1] se_restD [of se1 se] by simp_all
  have "mem w2 = mem_put (mem w1) a (patch t)"
    using install_effect(1) [OF mem, of a t w1 w2] 2 e a by simp
  moreover have "length (patch t) \<le> ZT_PROBE_ORIG_CODE_MAX" using patch_length patch_small by metis
  moreover have "fetch (mem w1) a ZT_PROBE_ORIG_CODE_MAX = fetch (mem w) a ZT_PROBE_ORIG_CODE_MAX" by (rule ensure_keeps [OF keep 1])
  ultimately show "fetch (mem w2) a ZT_PROBE_ORIG_CODE_MAX = patch t @ drop (zt_arch_probe_patch_len A) (fetch (mem w) a ZT_PROBE_ORIG_CODE_MAX)"
    using fetch_mem_put [of "patch t" ZT_PROBE_ORIG_CODE_MAX "mem w1" a] patch_length [of t] by (simp add: ZT_PROBE_ORIG_CODE_MAX_def)
  show "se_probes se2 = (se_probes se)[i := (se_probes se ! i)\<lparr>pi_trampoline_addr := t, pi_state := ZT_PROBE_INSTALLED\<rparr>]"
    "se_pid se2 = se_pid se" using e by (simp_all add: 3 upd_probe_def)
  show "threads_ok se2" using e(1) by (simp add: 3 threads_ok_def)
qed

lemma uninstall_effect:
  assumes mem: "os_mem_ok os (se_pid se) mem" and keep: "steps_keep A os (\<lambda>w. fetch (mem w) a ZT_PROBE_ORIG_CODE_MAX)"
    and t: "threads_ok se" and l: "length (se_probes se) = ZT_PROBES_CAPACITY" and i: "zt_probe_find_by_id se x = Some i"
    and a: "a = tgt_remote_addr (pi_target (se_probes se ! i))"
    and o: "take (pi_orig_len (se_probes se ! i)) (pi_orig_code (se_probes se ! i)) = code"
      "length code = pi_orig_len (se_probes se ! i)" "length code \<le> ZT_PROBE_ORIG_CODE_MAX"
    and un: "zt_uninstall_probe_patch A os se x w = Some (True, se2, w2)"
  shows "fetch (mem w2) a ZT_PROBE_ORIG_CODE_MAX = code @ drop (length code) (fetch (mem w) a ZT_PROBE_ORIG_CODE_MAX)"
    and "pi_state (se_probes se2 ! i) = ZT_PROBE_DISABLED"
proof -
  obtain se1 w1 where 1: "zt_ensure_patch_regions_are_safe A os se w = Some (True, se1, w1)"
    and 2: "zt_write_remote_memory os (se_pid se1) (tgt_remote_addr (pi_target (se_probes se1 ! i)))
      (take (pi_orig_len (se_probes se1 ! i)) (pi_orig_code (se_probes se1 ! i))) w1 = (True, w2)"
    and 3: "se2 = upd_probe i (\<lambda>p. p\<lparr>pi_state := ZT_PROBE_DISABLED\<rparr>) se1"
    using un i by (auto simp: zt_uninstall_probe_patch_def Let_def bind_eq_Some_conv split: if_splits prod.splits bool.splits)
  have e: "se_pid se1 = se_pid se" "se_probes se1 = se_probes se"
    using ensure_safe_ok [OF t 1] se_restD [of se1 se] by simp_all
  have len: "length code \<le> 2 ^ 64" using o(3) by (simp add: ZT_PROBE_ORIG_CODE_MAX_def)
  have "mem w2 = mem_put (mem w1) a code"
    using rm.wr_True [OF mem len, of a w1 w2] 2 e a o(1) by simp
  moreover have "fetch (mem w1) a ZT_PROBE_ORIG_CODE_MAX = fetch (mem w) a ZT_PROBE_ORIG_CODE_MAX" by (rule ensure_keeps [OF keep 1])
  ultimately show "fetch (mem w2) a ZT_PROBE_ORIG_CODE_MAX = code @ drop (length code) (fetch (mem w) a ZT_PROBE_ORIG_CODE_MAX)"
    using fetch_mem_put [of code ZT_PROBE_ORIG_CODE_MAX "mem w1" a] o(3) by (simp add: ZT_PROBE_ORIG_CODE_MAX_def)
  have "i < length (se_probes se)" using find_by_id_Some(1) [OF i l] l by simp
  then show "pi_state (se_probes se2 ! i) = ZT_PROBE_DISABLED" using e by (simp add: 3 nth_upd_probe)
qed

lemma install_uninstall:
  assumes ok: disasm_ok and mem: "os_mem_ok os (se_pid se) mem"
    and t: "threads_ok se" and l: "length (se_probes se) = ZT_PROBES_CAPACITY" and i: "zt_probe_find_by_id se x = Some i"
    and a: "a = tgt_remote_addr (pi_target (se_probes se ! i))"
    and keep: "steps_keep A os (\<lambda>w. fetch (mem w) a ZT_PROBE_ORIG_CODE_MAX)"
    and st: "pi_state (se_probes se ! i) \<noteq> ZT_PROBE_PREPARED" "pi_state (se_probes se ! i) \<noteq> ZT_PROBE_INSTALLED"
    and en: "zt_enable_probe A os se x w = (True, se1, w1)"
    and ins: "zt_install_probe_patch A os se1 x t w1 = Some (True, se2, w2)"
    and run: "se_probes se3 = se_probes se2" "se_pid se3 = se_pid se2" "threads_ok se3"
      "fetch (mem w3) a ZT_PROBE_ORIG_CODE_MAX = fetch (mem w2) a ZT_PROBE_ORIG_CODE_MAX"
    and un: "zt_uninstall_probe_patch A os se3 x w3 = Some (True, se4, w4)"
  shows "fetch (mem w2) a ZT_PROBE_ORIG_CODE_MAX = patch t @ drop (zt_arch_probe_patch_len A) (fetch (mem w) a ZT_PROBE_ORIG_CODE_MAX)"
    and "pi_state (se_probes se2 ! i) = ZT_PROBE_INSTALLED"
    and "fetch (mem w4) a ZT_PROBE_ORIG_CODE_MAX = fetch (mem w) a ZT_PROBE_ORIG_CODE_MAX"
    and "pi_state (se_probes se4 ! i) = ZT_PROBE_DISABLED"
proof -
  have ii: "i < length (se_probes se)" using find_by_id_Some(1) [OF i l] l by simp
  obtain n where n: "zt_arch_probe_patch_len A \<le> n" "n \<le> ZT_PROBE_ORIG_CODE_MAX" "mem w1 = mem w"
    "se_pid se1 = se_pid se" "zt_probe_find_by_id se1 x = Some i" "pi_orig_len (se_probes se1 ! i) = n"
    "take n (pi_orig_code (se_probes se1 ! i)) = fetch (mem w) a n" "pi_target (se_probes se1 ! i) = pi_target (se_probes se ! i)"
    "se_threads se1 = se_threads se" "se_thread_count se1 = se_thread_count se" "length (se_probes se1) = length (se_probes se)"
    using enable_effect [OF ok mem l i st en] unfolding a [symmetric] by metis
  have t1: "threads_ok se1" using t n(9,10) by (simp add: threads_ok_def)
  have a1: "a = tgt_remote_addr (pi_target (se_probes se1 ! i))" using a n(8) by simp
  have m1: "os_mem_ok os (se_pid se1) mem" and l1: "length (se_probes se1) = ZT_PROBES_CAPACITY" using mem l n(4,11) by simp_all
  note I = install_patch_effect [OF m1 keep t1 l1 n(5) a1 ins]
  show X: "fetch (mem w2) a ZT_PROBE_ORIG_CODE_MAX = patch t @ drop (zt_arch_probe_patch_len A) (fetch (mem w) a ZT_PROBE_ORIG_CODE_MAX)"
    using I(1) n(3) by simp
  show "pi_state (se_probes se2 ! i) = ZT_PROBE_INSTALLED" using I(2) ii n(11) by simp
  have p3: "se_probes se3 ! i = (se_probes se1 ! i)\<lparr>pi_trampoline_addr := t, pi_state := ZT_PROBE_INSTALLED\<rparr>"
    using I(2) run(1) ii n(11) by simp
  have f3: "zt_probe_find_by_id se3 x = Some i"
  proof -
    have "map pi_probe_id (se_probes se3) = (map pi_probe_id (se_probes se1))[i := map pi_probe_id (se_probes se1) ! i]"
      using I(2) run(1) ii n(11) by (simp add: map_update)
    then show ?thesis using find_by_id_cong [of se3 se1 x] n(5) by (simp only: list_update_id)
  qed
  have m3: "os_mem_ok os (se_pid se3) mem" and l3: "length (se_probes se3) = ZT_PROBES_CAPACITY"
    using m1 run(1,2) I(2,3) l1 by simp_all
  have a3: "a = tgt_remote_addr (pi_target (se_probes se3 ! i))" using a1 p3 by simp
  have o3: "take (pi_orig_len (se_probes se3 ! i)) (pi_orig_code (se_probes se3 ! i)) = fetch (mem w) a n"
    "length (fetch (mem w) a n) = pi_orig_len (se_probes se3 ! i)" "length (fetch (mem w) a n) \<le> ZT_PROBE_ORIG_CODE_MAX"
    using p3 n(2,6,7) by simp_all
  note U = uninstall_effect [OF m3 keep run(3) l3 f3 a3 o3 un]
  let ?F = "fetch (mem w) a ZT_PROBE_ORIG_CODE_MAX"
  have "drop n (patch t @ drop (zt_arch_probe_patch_len A) ?F) = drop n ?F"
    using n(1) patch_length [of t] by simp
  then show "fetch (mem w4) a ZT_PROBE_ORIG_CODE_MAX = ?F"
    using U(1) run(4) X take_fetch [OF n(2), of "mem w" a] append_take_drop_id [of n ?F] by simp
  show "pi_state (se_probes se4 ! i) = ZT_PROBE_DISABLED" by (rule U(2))
qed

end

section \<open>Registering\<close>

lemma resolve_symbol:
  "zt_resolve_symbol_target os se name w = (Some target, w') \<Longrightarrow> tgt_symbol target = take (ZT_PROBE_SYMBOL_MAX - 1) name"
  by (auto simp: zt_resolve_symbol_target_def Let_def split: option.splits sum.splits prod.splits)

lemma register:
  assumes ok: "probes_ok se" and n: "0 < se_next_probe_id se" "unat (se_next_probe_id se) < 2 ^ 64 - 1"
    and r: "zt_register_probe os se name w = (r, se', w')"
  shows "probes_ok se'"
    and "r = Some i \<Longrightarrow> registered se' i \<and>
      (tgt_symbol (pi_target (se_probes se' ! i)) = name \<or>
       tgt_symbol (pi_target (se_probes se' ! i)) = take (ZT_PROBE_SYMBOL_MAX - 1) name)"
proof -
  have l: "length (se_probes se) = ZT_PROBES_CAPACITY" using ok by (simp add: probes_ok_def)
  have "probes_ok se' \<and> (\<forall>i. r = Some i \<longrightarrow> registered se' i \<and>
      (tgt_symbol (pi_target (se_probes se' ! i)) = name \<or>
       tgt_symbol (pi_target (se_probes se' ! i)) = take (ZT_PROBE_SYMBOL_MAX - 1) name))"
  proof (cases "zt_probe_find_by_symbol se name")
    case (Some k)
    then have "r = Some k" "se' = se" using r by (simp_all add: zt_register_probe_def)
    then show ?thesis using ok find_by_symbol_Some [OF Some l] by simp
  next
    case None
    obtain t w1 where t: "zt_resolve_symbol_target os se name w = (t, w1)" by fastforce
    show ?thesis
    proof (cases t)
      case None
      then show ?thesis using r ok t \<open>zt_probe_find_by_symbol se name = None\<close> by (simp add: zt_register_probe_def)
    next
      case (Some target)
      then have "zt_probe_alloc se target = (r, se')"
        using r t None by (auto simp: zt_register_probe_def split: prod.splits)
      from probe_alloc [OF ok n this] show ?thesis using resolve_symbol [of os se name w target w1] t Some by auto
    qed
  qed
  then show "probes_ok se'"
    and "r = Some i \<Longrightarrow> registered se' i \<and>
      (tgt_symbol (pi_target (se_probes se' ! i)) = name \<or>
       tgt_symbol (pi_target (se_probes se' ! i)) = take (ZT_PROBE_SYMBOL_MAX - 1) name)" by blast+
qed

lemma find_by_symbol_registered:
  assumes ok: "probes_ok se" and i: "registered se i"
  shows "zt_probe_find_by_symbol se (tgt_symbol (pi_target (se_probes se ! i))) = Some i"
proof -
  have l: "length (se_probes se) = ZT_PROBES_CAPACITY" using ok by (simp add: probes_ok_def)
  show ?thesis
  proof (cases "zt_probe_find_by_symbol se (tgt_symbol (pi_target (se_probes se ! i)))")
    case None
    then show ?thesis using find_by_symbol_None [OF None l i] by simp
  next
    case (Some j)
    from find_by_symbol_Some [OF Some l] have "j = i" using ok i unfolding probes_ok_def by blast
    then show ?thesis using Some by simp
  qed
qed

lemma find_by_symbol_long:
  assumes "\<forall>p \<in> set (se_probes se). length (tgt_symbol (pi_target p)) < n" and "n \<le> length name"
  shows "zt_probe_find_by_symbol se name = None"
  using assms by (auto simp: zt_probe_find_by_symbol_def find_index_None_iff)

lemma alloc_fits:
  assumes "\<forall>p \<in> set (se_probes se). length (tgt_symbol (pi_target p)) < n" and "length (tgt_symbol target) < n"
    and "zt_probe_alloc se target = (r, se')"
  shows "\<forall>p \<in> set (se_probes se'). length (tgt_symbol (pi_target p)) < n"
  using assms
  by (auto simp: zt_probe_alloc_def Let_def upd_probe_def split: if_splits option.splits dest!: subsetD [OF set_update_subset_insert])

lemma register_long:
  assumes ok: "probes_ok se" and n: "0 < se_next_probe_id se" "unat (se_next_probe_id se) < 2 ^ 64 - 1"
    and fit: "\<forall>p \<in> set (se_probes se). length (tgt_symbol (pi_target p)) < ZT_PROBE_SYMBOL_MAX"
    and long: "ZT_PROBE_SYMBOL_MAX \<le> length f" and r: "zt_register_probe os se f w = (Some i, se1, w1)"
  shows "tgt_symbol (pi_target (se_probes se1 ! i)) = take (ZT_PROBE_SYMBOL_MAX - 1) f"
    and "\<forall>p \<in> set (se_probes se1). length (tgt_symbol (pi_target p)) < ZT_PROBE_SYMBOL_MAX"
proof -
  obtain t where t: "zt_resolve_symbol_target os se f w = (Some t, w1)" and a: "zt_probe_alloc se t = (Some i, se1)"
    using r find_by_symbol_long [OF fit long] by (auto simp: zt_register_probe_def split: option.splits prod.splits)
  have s: "tgt_symbol t = take (ZT_PROBE_SYMBOL_MAX - 1) f" by (rule resolve_symbol [OF t])
  then show "tgt_symbol (pi_target (se_probes se1 ! i)) = take (ZT_PROBE_SYMBOL_MAX - 1) f"
    using probe_alloc(2) [OF ok n a refl] by simp
  show "\<forall>p \<in> set (se_probes se1). length (tgt_symbol (pi_target p)) < ZT_PROBE_SYMBOL_MAX"
    by (rule alloc_fits [OF fit _ a]) (simp add: s ZT_PROBE_SYMBOL_MAX_def)
qed

section \<open>Properties\<close>

text \<open>
  C33. The probe table stays well formed: every probe has an id of its own below the next id,
  no two probes carry the same symbol, and the count is the number of probes, for registering,
  unregistering, preparing, installing and uninstalling a probe and every outcome of them,
  starting from the table of a new session. A registered probe is found, and an unregistered
  one is not found again.
\<close>

theorem probe_table_invariant:
  "probes_ok (zero_session\<lparr>se_pid := pid, se_next_probe_id := 1\<rparr>) \<and>
   (probes_ok se \<and> threads_ok se \<and> 0 < se_next_probe_id se \<and> unat (se_next_probe_id se) < 2 ^ 64 - 1 \<longrightarrow>
     (\<forall>r se' w'. zt_register_probe os se name w = (r, se', w') \<longrightarrow> probes_ok se' \<and>
        (\<forall>i. r = Some i \<longrightarrow> zt_probe_find_by_symbol se' (tgt_symbol (pi_target (se_probes se' ! i))) = Some i)) \<and>
     (\<forall>b se'. zt_unregister_probe se x = (b, se') \<longrightarrow> probes_ok se' \<and> (b \<longrightarrow> zt_probe_find_by_id se' x = None)) \<and>
     (\<forall>b se' w'. zt_enable_probe A os se x w = (b, se', w') \<or>
        zt_install_probe_patch A os se x t w = Some (b, se', w') \<or>
        zt_uninstall_probe_patch A os se x w = Some (b, se', w') \<longrightarrow> probes_ok se'))"
proof (intro conjI impI allI; (elim conjE)?)
  show "probes_ok (zero_session\<lparr>se_pid := pid, se_next_probe_id := 1\<rparr>)"
    by (simp add: probes_ok_def zero_session_def zero_probe_def cong: conj_cong)
next
  fix r se' w'
  assume n: "probes_ok se" "0 < se_next_probe_id se" "unat (se_next_probe_id se) < 2 ^ 64 - 1"
    and r: "zt_register_probe os se name w = (r, se', w')"
  show "probes_ok se'" by (rule register(1) [OF n r])
  { fix i
    assume "r = Some i"
    then show "zt_probe_find_by_symbol se' (tgt_symbol (pi_target (se_probes se' ! i))) = Some i"
      using find_by_symbol_registered register(1,2) [OF n r] by blast }
next
  fix b se'
  assume "probes_ok se" and "zt_unregister_probe se x = (b, se')"
  note u = unregister [OF this]
  show "probes_ok se'" by (rule u(1))
  show "zt_probe_find_by_id se' x = None" if b using u(2) that .
next
  fix b se' w'
  assume "probes_ok se" "threads_ok se" and "zt_enable_probe A os se x w = (b, se', w') \<or>
    zt_install_probe_patch A os se x t w = Some (b, se', w') \<or> zt_uninstall_probe_patch A os se x w = Some (b, se', w')"
  then show "probes_ok se'"
    using enable_ok [of se A os x w b se' w'] install_ok [of se A os x t w b se' w'] uninstall_ok [of se A os x w b se' w'] by blast
qed

text \<open>
  C34. Installing a probe and taking it out again leaves the program's code as it was, also
  when the program runs in between, as long as it does not write to the code itself: after
  \<^verbatim>\<open>zt_install_probe_patch\<close> the function starts with the jump and is otherwise unchanged,
  and after \<^verbatim>\<open>zt_uninstall_probe_patch\<close> all its bytes are the original ones and the
  probe is disabled.
\<close>

theorem probe_install_roundtrip:
  fixes disasm :: x86_disasm
  assumes "x86_disasm_ok disasm" and "os_mem_ok os (se_pid se) mem"
    and "threads_ok se" and "length (se_probes se) = ZT_PROBES_CAPACITY" and "zt_probe_find_by_id se x = Some i"
    and "a = tgt_remote_addr (pi_target (se_probes se ! i))"
    and "steps_keep (x86_arch disasm) os (\<lambda>w. fetch (mem w) a ZT_PROBE_ORIG_CODE_MAX)"
    and "pi_state (se_probes se ! i) \<noteq> ZT_PROBE_PREPARED" and "pi_state (se_probes se ! i) \<noteq> ZT_PROBE_INSTALLED"
    and "zt_enable_probe (x86_arch disasm) os se x w = (True, se1, w1)"
    and "zt_install_probe_patch (x86_arch disasm) os se1 x t w1 = Some (True, se2, w2)"
    and "se_probes se3 = se_probes se2" and "se_pid se3 = se_pid se2" and "threads_ok se3"
    and "fetch (mem w3) a ZT_PROBE_ORIG_CODE_MAX = fetch (mem w2) a ZT_PROBE_ORIG_CODE_MAX"
    and "zt_uninstall_probe_patch (x86_arch disasm) os se3 x w3 = Some (True, se4, w4)"
  shows "fetch (mem w2) a ZT_PROBE_ORIG_CODE_MAX =
      x86_patch t @ drop x86_arch_probe_patch_len (fetch (mem w) a ZT_PROBE_ORIG_CODE_MAX) \<and>
    pi_state (se_probes se2 ! i) = ZT_PROBE_INSTALLED \<and>
    fetch (mem w4) a ZT_PROBE_ORIG_CODE_MAX = fetch (mem w) a ZT_PROBE_ORIG_CODE_MAX \<and>
    pi_state (se_probes se4 ! i) = ZT_PROBE_DISABLED"
proof -
  have "zt_arch_probe_patch_len (x86_arch disasm :: (_, 'a) zt_arch) = x86_arch_probe_patch_len" by (simp add: x86_arch_def)
  then show ?thesis using x86.install_uninstall [OF assms] by simp
qed

text \<open>
  Symbols of 64 and more characters alias: the table keeps the first 63 characters, so
  registering a second function whose name starts with the same 63 characters returns the
  probe of the first function, although \<^verbatim>\<open>zt_resolve_symbol_target\<close> found the second one.
\<close>

theorem long_symbols_alias:
  assumes ok: "probes_ok se" and n: "0 < se_next_probe_id se" "unat (se_next_probe_id se) < 2 ^ 64 - 1"
    and fit: "\<forall>p \<in> set (se_probes se). length (tgt_symbol (pi_target p)) < ZT_PROBE_SYMBOL_MAX"
    and long: "ZT_PROBE_SYMBOL_MAX \<le> length f" "ZT_PROBE_SYMBOL_MAX \<le> length g"
    and same: "take (ZT_PROBE_SYMBOL_MAX - 1) f = take (ZT_PROBE_SYMBOL_MAX - 1) g"
    and f: "zt_register_probe os se f w = (Some i, se1, w1)"
    and g: "zt_resolve_symbol_target os se1 g w1 = (Some target, w2)"
  shows "zt_register_probe os se1 g w1 = (Some i, se1, w2)"
proof -
  let ?s = "take (ZT_PROBE_SYMBOL_MAX - 1) g"
  have ok1: "probes_ok se1" and i: "registered se1 i" using register [OF ok n f] by blast+
  have fi: "tgt_symbol (pi_target (se_probes se1 ! i)) = ?s"
    and fit1: "\<forall>p \<in> set (se_probes se1). length (tgt_symbol (pi_target p)) < ZT_PROBE_SYMBOL_MAX"
    using register_long [OF ok n fit long(1) f] same by simp_all
  have "zt_probe_find_by_symbol se1 g = None" by (rule find_by_symbol_long [OF fit1 long(2)])
  moreover have "zt_probe_find_by_symbol se1 ?s = Some i" using find_by_symbol_registered [OF ok1 i] fi by simp
  moreover have "tgt_symbol target = ?s" by (rule resolve_symbol [OF g])
  moreover have "?s \<noteq> []" using long(2) by (auto simp: ZT_PROBE_SYMBOL_MAX_def)
  ultimately show ?thesis using g by (simp add: zt_register_probe_def zt_probe_alloc_def)
qed

section \<open>Concrete runs\<close>

lemma register_keeps:
  "zt_register_probe os se name w = (r, se', w') \<Longrightarrow>
     se_exe_path se' = se_exe_path se \<and> se_is_pie se' = se_is_pie se \<and> se_image_base se' = se_image_base se"
  by (auto simp: zt_register_probe_def zt_probe_alloc_def Let_def upd_probe_def split: option.splits prod.splits if_splits)

lemma enable_threads_ok:
  assumes "threads_ok se" and "zt_enable_probe A os se x w = (b, se', w')"
  shows "threads_ok se'"
  using assms by (auto simp: zt_enable_probe_def Let_def threads_ok_def split: option.splits if_splits prod.splits)

lemma install_threads_ok:
  assumes t: "threads_ok se" and r: "zt_install_probe_patch A os se x a w = Some (b, se', w')"
  shows "threads_ok se'"
proof -
  have u: "threads_ok (upd_probe i f se1)" if "threads_ok se1" for i f se1 using that by (simp add: threads_ok_def)
  show ?thesis
    using t r ensure_safe_ok [OF t, of A os w] u
    by (auto simp: zt_install_probe_patch_def bind_eq_Some_conv split: option.splits if_splits prod.splits bool.splits)
qed

text \<open>A file with two functions whose names share their first 63 characters.\<close>

definition ex_long_elf :: "u8 list" where
  "ex_long_elf =
     [0x7f, 0x45, 0x4c, 0x46, 2, 1, 1] @ replicate 9 0 @ [3, 0] @ replicate 22 0 @ le64 64 @ replicate 10 0 @ [64, 0, 2, 0, 0, 0] @
     replicate 4 0 @ [2, 0, 0, 0] @ replicate 16 0 @ le64 192 @ le64 48 @ [1, 0, 0, 0] @ replicate 12 0 @ le64 24 @
     replicate 4 0 @ [3, 0, 0, 0] @ replicate 16 0 @ le64 240 @ le64 131 @ replicate 24 0 @
     [1, 0, 0, 0, 0x12, 0, 1, 0] @ le64 0x1000 @ replicate 8 0 @ [66, 0, 0, 0, 0x12, 0, 1, 0] @ le64 0x2000 @ replicate 8 0 @
     [0] @ replicate 63 0x61 @ [0x31, 0] @ replicate 63 0x61 @ [0x32, 0]"

definition ex_long_os :: "(unit, unit) os" where
  "ex_long_os = \<lparr>
     os_vm_readv = (\<lambda>pid iov w. (None, w)), os_vm_writev = (\<lambda>pid a bs w. (None, w)),
     os_peekdata = (\<lambda>pid a w. (None, w)), os_pokedata = (\<lambda>pid a v w. (False, w)),
     os_getregs = (\<lambda>pid w. (Inl ESRCH, w)), os_setregs = (\<lambda>pid r w. (False, w)),
     os_cont = (\<lambda>pid sig w. (Some ESRCH, w)), os_singlestep = (\<lambda>pid sig w. (Some ESRCH, w)),
     os_interrupt = (\<lambda>pid w. (Some ESRCH, w)), os_seize = (\<lambda>pid w. (Some ESRCH, w)), os_detach = (\<lambda>pid w. w),
     os_waitpid = (\<lambda>pid nohang w. (Inl ECHILD, w)), os_kill0 = (\<lambda>pid w. (Some ESRCH, w)),
     os_proc_stat = (\<lambda>pid w. (Inl ENOENT, w)), os_proc_maps = (\<lambda>pid w. (Inl ENOENT, w)),
     os_proc_task = (\<lambda>pid w. (None, w)), os_proc_exe = (\<lambda>pid w. (None, w)),
     os_pread = (\<lambda>path off n w. (Inr (take n (drop off ex_long_elf)), w)), os_usleep = (\<lambda>us w. w)\<rparr>"

definition ex_long_session :: session where
  "ex_long_session = zero_session\<lparr>se_pid := 1, se_exe_path := ''/bin/t'', se_next_probe_id := 1\<rparr>"

definition ex_long_name :: "char \<Rightarrow> string" where
  "ex_long_name c = replicate 63 (CHR ''a'') @ [c]"

lemma take_ex_long: "take 63 (ex_long_name c) = replicate 63 (CHR ''a'')"
  by (simp add: ex_long_name_def)

lemma ex_long_find:
  "zt_find_symbol_addr ex_long_os ''/bin/t'' (ex_long_name (CHR ''1'')) () = (Some 0x1000, ())"
  "zt_find_symbol_addr ex_long_os ''/bin/t'' (ex_long_name (CHR ''2'')) () = (Some 0x2000, ())"
  by code_simp+

lemma ex_long_resolve:
  "se_exe_path se = ''/bin/t'' \<Longrightarrow> \<not> se_is_pie se \<Longrightarrow>
     zt_resolve_symbol_target ex_long_os se (ex_long_name (CHR ''1'')) () =
       (Some \<lparr>tgt_symbol = replicate 63 (CHR ''a''), tgt_module_path = ''/bin/t'', tgt_remote_addr = 0x1000\<rparr>, ())"
  "se_exe_path se = ''/bin/t'' \<Longrightarrow> \<not> se_is_pie se \<Longrightarrow>
     zt_resolve_symbol_target ex_long_os se (ex_long_name (CHR ''2'')) () =
       (Some \<lparr>tgt_symbol = replicate 63 (CHR ''a''), tgt_module_path = ''/bin/t'', tgt_remote_addr = 0x2000\<rparr>, ())"
  by (simp_all add: zt_resolve_symbol_target_def Let_def ex_long_find ZT_PROBE_SYMBOL_MAX_def ZT_PROBE_MODULE_MAX_def
      zero_target_def take_ex_long)

lemma find_index_replicate: "0 < n \<Longrightarrow> P x \<Longrightarrow> find_index P (replicate n x) = Some 0"
  by (cases n) simp_all

lemma ex_long_ok: "probes_ok ex_long_session" "threads_ok ex_long_session"
  by (simp_all add: probes_ok_def threads_ok_def ex_long_session_def zero_session_def zero_probe_def cong: conj_cong)

lemma ex_long_register:
  obtains se where "zt_register_probe ex_long_os ex_long_session (ex_long_name (CHR ''1'')) () = (Some 0, se, ())"
    "tgt_remote_addr (pi_target (se_probes se ! 0)) = 0x1000"
proof -
  have f: "zt_probe_find_by_symbol ex_long_session s = None" for s
    by (simp add: zt_probe_find_by_symbol_def ex_long_session_def zero_session_def zero_probe_def find_index_None_iff)
  have k: "find_index (\<lambda>p. pi_probe_id p = 0) (se_probes ex_long_session) = Some 0"
    and l: "0 < length (se_probes ex_long_session)"
    by (simp_all add: ex_long_session_def zero_session_def zero_probe_def find_index_replicate ZT_PROBES_CAPACITY_def)
  have e: "se_exe_path ex_long_session = ''/bin/t''" "\<not> se_is_pie ex_long_session"
    by (simp_all add: ex_long_session_def zero_session_def)
  show thesis
    using that nth_list_update_eq [OF l] by (simp add: zt_register_probe_def zt_probe_alloc_def f k ex_long_resolve [OF e] upd_probe_def Let_def)
qed

theorem probe_table_invariant_witness:
  "\<exists>se. zt_register_probe ex_long_os ex_long_session (ex_long_name (CHR ''1'')) () = (Some 0, se, ()) \<and> probes_ok se"
proof -
  obtain se where se: "zt_register_probe ex_long_os ex_long_session (ex_long_name (CHR ''1'')) () = (Some 0, se, ())"
    by (rule ex_long_register)
  have n: "0 < se_next_probe_id ex_long_session" "unat (se_next_probe_id ex_long_session) < 2 ^ 64 - 1"
    by (simp_all add: ex_long_session_def)
  have c: "probes_ok ex_long_session \<and> threads_ok ex_long_session \<and> 0 < se_next_probe_id ex_long_session \<and>
      unat (se_next_probe_id ex_long_session) < 2 ^ 64 - 1" using ex_long_ok n by (intro conjI)
  note p = probe_table_invariant [THEN conjunct2, THEN mp, OF c, THEN conjunct1, THEN spec, THEN spec, THEN spec, THEN mp, OF se]
  show ?thesis by (rule exI, rule conjI [OF se conjunct1 [OF p]])
qed

theorem long_symbols_alias_witness:
  "\<exists>se target. zt_resolve_symbol_target ex_long_os se (ex_long_name (CHR ''2'')) () = (Some target, ()) \<and>
     tgt_remote_addr target = 0x2000 \<and> tgt_remote_addr (pi_target (se_probes se ! 0)) = 0x1000 \<and>
     zt_register_probe ex_long_os se (ex_long_name (CHR ''2'')) () = (Some 0, se, ())"
proof -
  obtain se where se: "zt_register_probe ex_long_os ex_long_session (ex_long_name (CHR ''1'')) () = (Some 0, se, ())"
    "tgt_remote_addr (pi_target (se_probes se ! 0)) = 0x1000" by (rule ex_long_register)
  have e: "se_exe_path se = ''/bin/t''" "\<not> se_is_pie se"
    using register_keeps [OF se(1)] by (simp_all add: ex_long_session_def zero_session_def)
  note g = ex_long_resolve(2) [OF e]
  have r: "zt_register_probe ex_long_os se (ex_long_name (CHR ''2'')) () = (Some 0, se, ())"
    by (rule long_symbols_alias [OF ex_long_ok(1) _ _ _ _ _ _ se(1) g])
      (simp_all add: ex_long_session_def zero_session_def zero_probe_def zero_target_def ZT_PROBE_SYMBOL_MAX_def ex_long_name_def)
  show ?thesis
    by (rule exI, rule exI, rule conjI [OF g conjI [OF zt_symbol_target_t.select_convs(3) conjI [OF se(2) r]]])
qed

text \<open>A session with one registered function at 0x4000, made of 5, 7, 4 and 16 bytes of code.\<close>

definition ex_rt_insn :: "nat \<Rightarrow> x86_insn" where
  "ex_rt_insn n = \<lparr>xi_id = X86_INS_OTHER, xi_address = 0, xi_size = n, xi_bytes = [], xi_operands = [],
     xi_disp = 0, xi_disp_offset = 0, xi_disp_size = 0\<rparr>"

definition ex_rt_disasm :: x86_disasm where
  "ex_rt_disasm code a = (if 16 \<le> length code then Some (map ex_rt_insn [5, 7, 4]) else None)"

definition ex_rt_sim :: "user_regs_struct sim" where
  "ex_rt_sim = \<lparr>sm_mem = (\<lambda>x. ucast x),
     sm_regs = \<lparr>ur_r15 = 0, ur_r14 = 0, ur_r13 = 0, ur_r12 = 0, ur_rbp = 0, ur_rbx = 0, ur_r11 = 0, ur_r10 = 0,
       ur_r9 = 0, ur_r8 = 0, ur_rax = 0, ur_rcx = 0, ur_rdx = 0, ur_rsi = 0, ur_rdi = 0, ur_orig_rax = 0,
       ur_rip = 0, ur_cs = 0, ur_eflags = 0, ur_rsp = 0, ur_ss = 0, ur_fs_base = 0, ur_gs_base = 0,
       ur_ds = 0, ur_es = 0, ur_fs = 0, ur_gs = 0\<rparr>,
     sm_vm = True, sm_waits = [], sm_tasks = [], sm_maps = []\<rparr>"

definition ex_rt_session :: session where
  "ex_rt_session = zero_session\<lparr>se_pid := 1, se_threads_stopped := True, se_next_probe_id := 2, se_probe_count := 1,
     se_probes := zero_probe\<lparr>pi_probe_id := 1, pi_state := ZT_PROBE_RESOLVED,
       pi_target := \<lparr>tgt_symbol = ''f'', tgt_module_path = [], tgt_remote_addr = 0x4000\<rparr>\<rparr> #
       replicate (ZT_PROBES_CAPACITY - 1) zero_probe\<rparr>"

abbreviation ex_rt_os :: "(user_regs_struct, user_regs_struct sim) os" where
  "ex_rt_os \<equiv> sim_os (\<lambda>w. w)"

definition ex_rt_run :: "(bool \<times> bool \<times> bool) option" where
  "ex_rt_run =
     (case zt_enable_probe (x86_arch ex_rt_disasm) ex_rt_os ex_rt_session 1 ex_rt_sim of (b1, se1, w1) \<Rightarrow>
      case zt_install_probe_patch (x86_arch ex_rt_disasm) ex_rt_os se1 1 0x7000 w1 of None \<Rightarrow> None | Some (b2, se2, w2) \<Rightarrow>
      case zt_uninstall_probe_patch (x86_arch ex_rt_disasm) ex_rt_os se2 1 w2 of None \<Rightarrow> None | Some (b3, se3, w3) \<Rightarrow>
      Some (b1, b2, b3))"

lemma ex_rt_run: "ex_rt_run = Some (True, True, True)"
  by code_simp

theorem probe_install_roundtrip_witness:
  "\<exists>se1 w1 se2 w2 se3 w3. zt_enable_probe (x86_arch ex_rt_disasm) ex_rt_os ex_rt_session 1 ex_rt_sim = (True, se1, w1) \<and>
     zt_install_probe_patch (x86_arch ex_rt_disasm) ex_rt_os se1 1 0x7000 w1 = Some (True, se2, w2) \<and>
     zt_uninstall_probe_patch (x86_arch ex_rt_disasm) ex_rt_os se2 1 w2 = Some (True, se3, w3) \<and>
     take 14 (fetch (sm_mem w2) 0x4000 ZT_PROBE_ORIG_CODE_MAX) = x86_patch 0x7000 \<and>
     fetch (sm_mem w3) 0x4000 ZT_PROBE_ORIG_CODE_MAX = fetch (sm_mem ex_rt_sim) 0x4000 ZT_PROBE_ORIG_CODE_MAX"
proof -
  obtain se1 w1 se2 w2 se3 w3 where
    e: "zt_enable_probe (x86_arch ex_rt_disasm) ex_rt_os ex_rt_session 1 ex_rt_sim = (True, se1, w1)"
    and i: "zt_install_probe_patch (x86_arch ex_rt_disasm) ex_rt_os se1 1 0x7000 w1 = Some (True, se2, w2)"
    and u: "zt_uninstall_probe_patch (x86_arch ex_rt_disasm) ex_rt_os se2 1 w2 = Some (True, se3, w3)"
    using ex_rt_run unfolding ex_rt_run_def by (auto split: prod.splits option.splits)
  have d: "x86_disasm_ok ex_rt_disasm"
    by (auto simp: x86_disasm_ok_def ex_rt_disasm_def ex_rt_insn_def split: if_splits)
  have t: "threads_ok ex_rt_session" and f: "zt_probe_find_by_id ex_rt_session 1 = Some 0"
    and l: "length (se_probes ex_rt_session) = ZT_PROBES_CAPACITY"
    by (simp_all add: threads_ok_def ex_rt_session_def zero_session_def zt_probe_find_by_id_def ZT_PROBES_CAPACITY_def)
  have k: "steps_keep (x86_arch ex_rt_disasm) ex_rt_os (\<lambda>w. fetch (sm_mem w) 0x4000 ZT_PROBE_ORIG_CODE_MAX)"
    by (auto simp: steps_keep_def x86_arch_def x86_arch_get_pc_def x86_get_regs_def sim_os_def split: list.splits)
  have t2: "threads_ok se2"
    by (rule install_threads_ok [OF enable_threads_ok [OF t e] i])
  have st: "pi_state (se_probes ex_rt_session ! 0) \<noteq> ZT_PROBE_PREPARED" "pi_state (se_probes ex_rt_session ! 0) \<noteq> ZT_PROBE_INSTALLED"
    and a: "0x4000 = tgt_remote_addr (pi_target (se_probes ex_rt_session ! 0))" by (simp_all add: ex_rt_session_def)
  note r = probe_install_roundtrip [OF d sim_os_mem_ok t l f a k st e i refl refl t2 refl u]
  have "length (x86_patch 0x7000) = 14" by (simp add: x86_patch_def)
  then have "take 14 (fetch (sm_mem w2) 0x4000 ZT_PROBE_ORIG_CODE_MAX) = x86_patch 0x7000" using r by simp
  then show ?thesis using r e i u by blast
qed

end
