(* ===== verification/ZT_Printf.thy ===== *)
theory ZT_Printf
  imports ZT_CString
begin

text \<open>
  The conversions of \<^verbatim>\<open>printf\<close> the tracer uses beyond plain integers: minimum widths and
  \<^verbatim>\<open>%g\<close> of a \<^verbatim>\<open>double\<close> given by its bits, computed exactly on the rational value.
\<close>

section \<open>Widths\<close>

definition pad_left :: "nat \<Rightarrow> char \<Rightarrow> string \<Rightarrow> string" where
  "pad_left n c s = replicate (n - length s) c @ s"

lemma length_pad_left [simp]: "length (pad_left n c s) = max n (length s)"
  by (simp add: pad_left_def)

section \<open>General floating-point conversion\<close>

text \<open>Division rounded to nearest, ties to even.\<close>

definition round_div :: "int \<Rightarrow> int \<Rightarrow> int" where
  "round_div a b =
     (let q = a div b; r = a mod b in
      if 2 * r < b then q else if 2 * r > b then q + 1 else if even q then q else q + 1)"

text \<open>The least \<open>k\<close> with \<open>d \<le> n * 10 ^ k\<close>, for a positive \<open>n\<close>.\<close>

function scale_up :: "int \<Rightarrow> int \<Rightarrow> int" where
  "scale_up n d = (if n \<le> 0 \<or> d \<le> n then 0 else scale_up (10 * n) d + 1)"
  by pat_completeness auto
termination
  by (relation "measure (\<lambda>(n, d). nat (d - n))") auto

declare scale_up.simps [simp del]

definition decimal_exponent :: "int \<Rightarrow> int \<Rightarrow> int" where
  "decimal_exponent n d =
     (if d \<le> n then int (length (digits_of 10 (n div d))) - 1 else - scale_up n d)"

definition strip_zeros :: "string \<Rightarrow> string" where
  "strip_zeros s = rev (dropWhile (\<lambda>c. c = CHR ''0'') (rev s))"

definition with_fraction :: "string \<Rightarrow> string \<Rightarrow> string" where
  "with_fraction whole frac =
     (let frac = strip_zeros frac in if frac = [] then whole else whole @ ''.'' @ frac)"

text \<open>Six significant digits of a positive number \<open>n / d\<close>.\<close>

definition fmt_g_pos :: "int \<Rightarrow> int \<Rightarrow> string" where
  "fmt_g_pos n d =
     (let x0 = decimal_exponent n d;
          q0 = (if x0 \<le> 5 then round_div (n * 10 ^ nat (5 - x0)) d else round_div n (d * 10 ^ nat (x0 - 5)));
          (q, x) = (if q0 = 1000000 then (100000, x0 + 1) else (q0, x0));
          ds = digits_of 10 q
      in if x < - 4 \<or> 6 \<le> x
         then with_fraction (take 1 ds) (drop 1 ds) @ ''e'' @ (if x < 0 then ''-'' else ''+'') @
           pad_left 2 (CHR ''0'') (digits_of 10 \<bar>x\<bar>)
         else if 0 \<le> x then with_fraction (take (nat x + 1) ds) (drop (nat x + 1) ds)
         else with_fraction ''0'' (replicate (nat (- x) - 1) (CHR ''0'') @ ds))"

text \<open>
  A number in a binary interchange format with \<open>eb\<close> exponent bits and \<open>mb\<close> mantissa bits
  (11 and 52 for \<^verbatim>\<open>double\<close>, 8 and 23 for \<^verbatim>\<open>float\<close>, which converts exactly).
\<close>

definition fmt_g_bits :: "nat \<Rightarrow> nat \<Rightarrow> int \<Rightarrow> string" where
  "fmt_g_bits eb mb bits =
     (let m = bits mod 2 ^ mb; e = (bits div 2 ^ mb) mod 2 ^ eb; neg = odd (bits div 2 ^ (mb + eb));
          mant = (if e = 0 then m else m + 2 ^ mb);
          ex = max e 1 - (2 ^ (eb - 1) - 1 + int mb);
          body = (if e = 2 ^ eb - 1 then (if m = 0 then ''inf'' else ''nan'')
            else if mant = 0 then ''0''
            else if 0 \<le> ex then fmt_g_pos (mant * 2 ^ nat ex) 1 else fmt_g_pos mant (2 ^ nat (- ex)))
      in (if neg then ''-'' else []) @ body)"

definition fmt_g_double :: "u64 \<Rightarrow> string" where
  "fmt_g_double v = fmt_g_bits 11 52 (uint v)"

definition fmt_g_float :: "u32 \<Rightarrow> string" where
  "fmt_g_float v = fmt_g_bits 8 23 (uint v)"

end
