(* ===== verification/ZT_Sigconf.thy ===== *)
theory ZT_Sigconf
  imports ZT_RemoteMem ZT_Data ZT_Printf
begin

text \<open>
  Model of \<^verbatim>\<open>src/zt_sigconf.c\<close>: the table of function signatures and the formatting of
  events with it.

  A line is parsed in place, so it is a character buffer with explicit zeros and the cursors
  are indices; the strings of a signature are copies and therefore plain strings. The output
  buffer and its offset are the text written so far. Reading behind the end of a string is
  the value \<open>None\<close> of the functions that can do it.
\<close>

section \<open>Types\<close>

definition ZT_SIGCONF_MAX_FUNCS :: nat where "ZT_SIGCONF_MAX_FUNCS = 256"
definition ZT_SIGCONF_MAX_PARAMS :: nat where "ZT_SIGCONF_MAX_PARAMS = 6"

datatype zt_sig_type_t =
    ZT_SIG_TYPE_UNKNOWN | ZT_SIG_TYPE_INT | ZT_SIG_TYPE_LONG | ZT_SIG_TYPE_ULONG | ZT_SIG_TYPE_SIZE
  | ZT_SIG_TYPE_SSIZE | ZT_SIG_TYPE_PTR | ZT_SIG_TYPE_CSTR | ZT_SIG_TYPE_BUF | ZT_SIG_TYPE_CONST_BUF
  | ZT_SIG_TYPE_FLOAT | ZT_SIG_TYPE_DOUBLE | ZT_SIG_TYPE_VOID

record zt_sig_param_t =
  sp_decl :: string
  sp_name :: string
  sp_type :: zt_sig_type_t

record zt_func_sig_t =
  sg_symbol :: string
  sg_ret :: zt_sig_param_t
  sg_params :: "zt_sig_param_t list"
  sg_variadic :: bool

text \<open>The first \<^verbatim>\<open>param_count\<close> parameters; the table holds the first \<^verbatim>\<open>g_sig_count\<close> signatures.\<close>

record sigconf =
  g_sig_table :: "zt_func_sig_t list"
  g_sigconf_loaded :: bool

section \<open>Strings in a buffer\<close>

abbreviation NUL :: char where "NUL \<equiv> CHR 0x00"

definition cstr :: "char list \<Rightarrow> nat \<Rightarrow> string" where
  "cstr buf i = takeWhile (\<lambda>c. c \<noteq> NUL) (drop i buf)"

function zt_trim_end :: "char list \<Rightarrow> nat \<Rightarrow> nat \<Rightarrow> char list" where
  "zt_trim_end buf s end_idx =
     (if s < end_idx \<and> isspace (buf ! end_idx) then zt_trim_end (buf[end_idx := NUL]) s (end_idx - 1) else buf)"
  by pat_completeness auto
termination
  by (relation "measure (\<lambda>(buf, s, end_idx). end_idx)") auto

declare zt_trim_end.simps [simp del]

definition zt_trim :: "char list \<Rightarrow> nat \<Rightarrow> char list \<times> nat" where
  "zt_trim buf s =
     (let s1 = s + length (takeWhile isspace (cstr buf s)) in
      if cstr buf s1 = [] then (buf, s1)
      else (zt_trim_end buf s1 (s1 + length (cstr buf s1) - 1), s1))"

definition zt_copy_str :: "nat \<Rightarrow> string \<Rightarrow> string" where
  "zt_copy_str dst_size src = take (dst_size - 1) src"

definition zt_find_trailing_ident_span :: "string \<Rightarrow> (nat \<times> nat) option" where
  "zt_find_trailing_ident_span spec =
     (let end_idx = length spec - length (takeWhile isspace (rev spec));
          start = end_idx - length (takeWhile (\<lambda>c. isalnum c \<or> c = CHR ''_'') (rev (take end_idx spec)))
      in if start = end_idx \<or> start = 0 then None else Some (start, end_idx))"

definition zt_strip_param_name :: "string \<Rightarrow> string" where
  "zt_strip_param_name spec =
     (case zt_find_trailing_ident_span spec of
        None \<Rightarrow> spec
      | Some (start, end_idx) \<Rightarrow>
          if spec ! (start - 1) = CHR ''*'' then take start spec
          else take (start - length (takeWhile isspace (rev (take start spec)))) spec)"

definition zt_extract_param_name :: "string \<Rightarrow> nat \<Rightarrow> string" where
  "zt_extract_param_name spec name_size =
     (case zt_find_trailing_ident_span spec of
        None \<Rightarrow> []
      | Some (start, end_idx) \<Rightarrow>
          let len = (if end_idx - start \<ge> name_size then name_size - 1 else end_idx - start) in
          take len (drop start spec))"

section \<open>Parsing signatures\<close>

definition kExactSigTypes :: "(string \<times> zt_sig_type_t) list" where
  "kExactSigTypes =
     [(''void'', ZT_SIG_TYPE_VOID), (''buffer'', ZT_SIG_TYPE_BUF), (''const buffer'', ZT_SIG_TYPE_CONST_BUF),
      (''float'', ZT_SIG_TYPE_FLOAT), (''double'', ZT_SIG_TYPE_DOUBLE), (''size_t'', ZT_SIG_TYPE_SIZE),
      (''ssize_t'', ZT_SIG_TYPE_SSIZE), (''unsigned long'', ZT_SIG_TYPE_ULONG), (''time_t'', ZT_SIG_TYPE_ULONG),
      (''long'', ZT_SIG_TYPE_LONG), (''off_t'', ZT_SIG_TYPE_LONG), (''int'', ZT_SIG_TYPE_INT),
      (''unsigned int'', ZT_SIG_TYPE_INT), (''pid_t'', ZT_SIG_TYPE_INT), (''mode_t'', ZT_SIG_TYPE_INT),
      (''uid_t'', ZT_SIG_TYPE_INT), (''gid_t'', ZT_SIG_TYPE_INT), (''socklen_t'', ZT_SIG_TYPE_INT)]"

text \<open>\<^verbatim>\<open>strstr\<close>: the index of the first occurrence.\<close>

fun strstr :: "string \<Rightarrow> string \<Rightarrow> nat option" where
  "strstr [] t = (if t = [] then Some 0 else None)"
| "strstr (c # s) t = (if starts_with (c # s) t then Some 0 else map_option Suc (strstr s t))"

definition zt_parse_sig_type :: "string \<Rightarrow> zt_sig_type_t" where
  "zt_parse_sig_type decl =
     (if decl = [] then ZT_SIG_TYPE_UNKNOWN
      else case map_of kExactSigTypes decl of
          Some t \<Rightarrow> t
        | None \<Rightarrow>
            if strstr decl ''char *'' \<noteq> None then ZT_SIG_TYPE_CSTR
            else if CHR ''*'' \<in> set decl then ZT_SIG_TYPE_PTR
            else ZT_SIG_TYPE_UNKNOWN)"

text \<open>
  \<^verbatim>\<open>strtok\<close> with the delimiter \<^verbatim>\<open>,\<close> from a saved position: the token's index, the buffer
  with the token terminated, and the next position.
\<close>

definition strtok_comma :: "char list \<Rightarrow> nat \<Rightarrow> (nat \<times> char list \<times> nat) option" where
  "strtok_comma buf p =
     (let s = p + length (takeWhile (\<lambda>c. c = CHR '','') (drop p buf));
          t = takeWhile (\<lambda>c. c \<noteq> CHR '','' \<and> c \<noteq> NUL) (drop s buf);
          e = s + length t
      in if t = [] then None
         else if e < length buf \<and> buf ! e = CHR '','' then Some (s, buf[e := NUL], e + 1)
         else Some (s, buf, e))"

definition sig_param :: "string \<Rightarrow> zt_sig_param_t" where
  "sig_param trimmed =
     (let param_buf = zt_copy_str 64 trimmed;
          stripped = zt_strip_param_name param_buf @ [NUL];
          (b, i) = zt_trim stripped 0;
          decl = zt_copy_str 64 (cstr b i)
      in \<lparr>sp_decl = decl, sp_name = zt_extract_param_name param_buf 32, sp_type = zt_parse_sig_type decl\<rparr>)"

lemma length_zt_trim_end [simp]: "length (zt_trim_end buf s e) = length buf"
  by (induction buf s e rule: zt_trim_end.induct) (subst zt_trim_end.simps, simp)

lemma zt_trim_length: "zt_trim buf s = (buf', i) \<Longrightarrow> length buf' = length buf"
  by (auto simp: zt_trim_def Let_def split: if_splits)

lemma strtok_progress:
  assumes "strtok_comma buf p = Some (s, buf', q)"
  shows "p < q" "q \<le> length buf" "length buf' = length buf"
proof -
  let ?s = "p + length (takeWhile (\<lambda>c. c = CHR '','') (drop p buf))"
  let ?t = "takeWhile (\<lambda>c. c \<noteq> CHR '','' \<and> c \<noteq> NUL) (drop ?s buf)"
  have t: "?t \<noteq> []" using assms by (auto simp: strtok_comma_def Let_def split: if_splits)
  have le: "?s + length ?t \<le> length buf"
  proof -
    have "length ?t \<le> length buf - ?s" using length_takeWhile_le [of _ "drop ?s buf"] by simp
    moreover have "?s < length buf" using t by (cases "?s < length buf") auto
    ultimately show ?thesis by linarith
  qed
  have pos: "p < ?s + length ?t" using t by (simp add: trans_less_add2)
  then have pl: "p < length buf" using le by linarith
  show "p < q" "q \<le> length buf" "length buf' = length buf"
    using assms le pos pl by (auto simp: strtok_comma_def Let_def split: if_splits)
qed

lemma strtok_measure:
  "strtok_comma buf p = Some (s, buf', q) \<Longrightarrow> length buf' = length buf \<and> length buf - q < length buf - p"
  using strtok_progress [of buf p s buf' q] by linarith

text \<open>The loop over the parameters, from a saved position of \<^verbatim>\<open>strtok\<close>.\<close>

function zt_parse_params ::
  "char list \<Rightarrow> nat \<Rightarrow> zt_sig_param_t list \<Rightarrow> bool \<Rightarrow> char list \<times> zt_sig_param_t list \<times> bool" where
  "zt_parse_params buf p params variadic =
     (case strtok_comma buf p of
        None \<Rightarrow> (buf, params, variadic)
      | Some (token, buf1, q) \<Rightarrow>
          (case zt_trim buf1 token of
             (buf2, trimmed) \<Rightarrow>
               if cstr buf2 trimmed = ''...'' then zt_parse_params buf2 q params True
               else if cstr buf2 trimmed \<noteq> [] \<and> length params < ZT_SIGCONF_MAX_PARAMS
               then zt_parse_params buf2 q (params @ [sig_param (cstr buf2 trimmed)]) variadic
               else zt_parse_params buf2 q params variadic))"
  by pat_completeness auto
termination
  by (relation "measure (\<lambda>(buf, p, params, variadic). length buf - p)")
    (auto dest!: strtok_measure zt_trim_length [OF sym])

declare zt_parse_params.simps [simp del]

text \<open>
  One line, in a buffer that holds it with its terminating zero. The search for the arrow is
  done on the untouched line, its text is read after the zeros were written.
\<close>

definition zt_parse_sig_line :: "char list \<Rightarrow> zt_func_sig_t option" where
  "zt_parse_sig_line buf =
     (let line = cstr buf 0 in
      case (find_index (\<lambda>c. c = CHR ''('') line, find_index (\<lambda>c. c = CHR '')'') (rev line), strstr line ''->'') of
        (Some open_paren, Some back_paren, Some arrow) \<Rightarrow>
          let close_paren = length line - 1 - back_paren in
          if close_paren < open_paren then None
          else let (buf1, i) = zt_trim (buf[open_paren := NUL]) 0;
                   symbol = zt_copy_str ZT_PROBE_SYMBOL_MAX (cstr buf1 i)
               in if symbol = [] then None
                  else let (buf2, params, variadic) =
                         zt_parse_params (buf1[close_paren := NUL]) (open_paren + 1) [] False;
                           (buf3, j) = zt_trim buf2 (arrow + 2);
                           decl = zt_copy_str 64 (cstr buf3 j)
                       in Some \<lparr>sg_symbol = symbol,
                            sg_ret = \<lparr>sp_decl = decl, sp_name = [], sp_type = zt_parse_sig_type decl\<rparr>,
                            sg_params = params, sg_variadic = variadic\<rparr>
      | _ \<Rightarrow> None)"

text \<open>The lines of a file as \<^verbatim>\<open>fgets\<close> delivers them to a buffer of \<open>n + 2\<close> characters.\<close>

function fgets_lines :: "nat \<Rightarrow> string \<Rightarrow> string list" where
  "fgets_lines n s =
     (if s = [] then []
      else let k = min (Suc n) (length (takeWhile (\<lambda>c. c \<noteq> CHR 0x0A) s) + 1) in take k s # fgets_lines n (drop k s))"
  by pat_completeness auto
termination
  by (relation "measure (\<lambda>(n, s). length s)") (auto simp: Let_def)

declare fgets_lines.simps [simp del]

fun zt_sigconf_load_loop :: "string list \<Rightarrow> zt_func_sig_t list \<Rightarrow> zt_func_sig_t list" where
  "zt_sigconf_load_loop [] table = table"
| "zt_sigconf_load_loop (line # lines) table =
     (case zt_trim (line @ [NUL]) 0 of
        (buf, i) \<Rightarrow>
          let trimmed = cstr buf i in
          if trimmed = [] \<or> hd trimmed = CHR ''#'' \<or> hd trimmed = CHR '';'' then zt_sigconf_load_loop lines table
          else if length table \<ge> ZT_SIGCONF_MAX_FUNCS then table
          else case zt_parse_sig_line (drop i buf) of
              Some sig \<Rightarrow> zt_sigconf_load_loop lines (table @ [sig])
            | None \<Rightarrow> zt_sigconf_load_loop lines table)"

text \<open>The contents of the file, or \<open>None\<close> when it cannot be opened.\<close>

definition zt_sigconf_load :: "string option \<Rightarrow> sigconf \<Rightarrow> bool \<times> sigconf" where
  "zt_sigconf_load contents cfg =
     (case contents of
        None \<Rightarrow> (False, cfg)
      | Some s \<Rightarrow>
          (True, \<lparr>g_sig_table = zt_sigconf_load_loop (fgets_lines 510 s) [], g_sigconf_loaded = True\<rparr>))"

definition zt_sigconf_load_default :: "string option \<Rightarrow> sigconf \<Rightarrow> bool \<times> sigconf" where
  "zt_sigconf_load_default contents cfg =
     (if g_sigconf_loaded cfg then (True, cfg) else zt_sigconf_load contents cfg)"

definition zt_sigconf_find :: "sigconf \<Rightarrow> string \<Rightarrow> zt_func_sig_t option" where
  "zt_sigconf_find cfg symbol = List.find (\<lambda>sig. sg_symbol sig = symbol) (g_sig_table cfg)"

section \<open>Reading values\<close>

definition zt_event_arg_value :: "zt_trace_event_t option \<Rightarrow> nat \<Rightarrow> u64" where
  "zt_event_arg_value event i =
     (case event of None \<Rightarrow> 0 | Some e \<Rightarrow> if i \<ge> ZT_TRACE_GP_ARG_COUNT then 0 else ev_args e ! i)"

definition zt_event_fp_arg_value :: "zt_trace_event_t \<Rightarrow> nat \<Rightarrow> u64" where
  "zt_event_fp_arg_value event i = (if i \<ge> ZT_TRACE_FP_ARG_COUNT then 0 else ev_fp_args event ! i)"

definition zt_event_arg_value_ext :: "zt_trace_event_t \<Rightarrow> nat \<Rightarrow> u64 option" where
  "zt_event_arg_value_ext event i =
     (if i < ZT_TRACE_GP_ARG_COUNT then Some (zt_event_arg_value (Some event) i) else None)"

definition zt_read_remote_chunk_or_byte ::
  "('r, 'w) os \<Rightarrow> int \<Rightarrow> u64 \<Rightarrow> nat \<Rightarrow> 'w \<Rightarrow> (u8 list \<times> nat) option \<times> 'w" where
  "zt_read_remote_chunk_or_byte os pid remote_addr len w =
     (case zt_read_remote_memory os pid remote_addr len w of
        (Some bs, w1) \<Rightarrow> (Some (bs, len), w1)
      | (None, w1) \<Rightarrow>
          (case zt_read_remote_memory os pid remote_addr 1 w1 of
             (Some bs, w2) \<Rightarrow> (Some (bs, 1), w2)
           | (None, w2) \<Rightarrow> (None, w2)))"

lemma chunk_len_pos:
  "zt_read_remote_chunk_or_byte os pid a len w = (Some (bs, k), w') \<Longrightarrow> 0 < len \<Longrightarrow> 0 < k"
  by (auto simp: zt_read_remote_chunk_or_byte_def split: option.splits prod.splits)

fun zt_read_bytes_each :: "('r, 'w) os \<Rightarrow> int \<Rightarrow> u64 \<Rightarrow> nat list \<Rightarrow> 'w \<Rightarrow> u8 list option \<times> 'w" where
  "zt_read_bytes_each os pid remote_addr [] w = (Some [], w)"
| "zt_read_bytes_each os pid remote_addr (i # is) w =
     (case zt_read_remote_memory os pid (remote_addr + of_nat i) 1 w of
        (None, w1) \<Rightarrow> (None, w1)
      | (Some b, w1) \<Rightarrow>
          (case zt_read_bytes_each os pid remote_addr is w1 of
             (None, w2) \<Rightarrow> (None, w2)
           | (Some bs, w2) \<Rightarrow> (Some (b @ bs), w2)))"

definition zt_read_remote_bytes_with_fallback ::
  "('r, 'w) os \<Rightarrow> int \<Rightarrow> u64 \<Rightarrow> nat \<Rightarrow> 'w \<Rightarrow> u8 list option \<times> 'w" where
  "zt_read_remote_bytes_with_fallback os pid remote_addr len w =
     (if len = 0 then (Some [], w)
      else case zt_read_remote_memory os pid remote_addr len w of
          (Some bs, w1) \<Rightarrow> (Some bs, w1)
        | (None, w1) \<Rightarrow> zt_read_bytes_each os pid remote_addr [0..<len] w1)"

text \<open>The characters of one chunk up to a zero, and whether the zero was met.\<close>

fun cstr_chunk :: "u8 list \<Rightarrow> string \<times> bool" where
  "cstr_chunk [] = ([], False)"
| "cstr_chunk (b # bs) =
     (if b = 0 then ([], True)
      else let c = char_of (unat b) in
        case cstr_chunk bs of (s, met) \<Rightarrow> ((if isprint c then c else CHR ''.'') # s, met))"

function zt_read_cstr_loop ::
  "('r, 'w) os \<Rightarrow> int \<Rightarrow> u64 \<Rightarrow> nat \<Rightarrow> nat \<Rightarrow> string \<Rightarrow> 'w \<Rightarrow> string option \<times> 'w" where
  "zt_read_cstr_loop os pid remote_addr buffer_size i buffer w =
     (if i + 1 < buffer_size then
        (case zt_read_remote_chunk_or_byte os pid (remote_addr + of_nat i) (min 64 (buffer_size - 1 - i)) w of
           (None, w1) \<Rightarrow> (None, w1)
         | (Some (bs, chunk_len), w1) \<Rightarrow>
             (case cstr_chunk (take chunk_len bs) of
                (s, met) \<Rightarrow>
                  if met then (Some (buffer @ s), w1)
                  else zt_read_cstr_loop os pid remote_addr buffer_size (i + chunk_len) (buffer @ s) w1))
      else (Some buffer, w))"
  by pat_completeness auto
termination
  by (relation "measure (\<lambda>(os, pid, remote_addr, buffer_size, i, buffer, w). buffer_size - i)")
    (auto dest!: chunk_len_pos [OF sym])

declare zt_read_cstr_loop.simps [simp del]

definition zt_read_remote_cstr :: "('r, 'w) os \<Rightarrow> int \<Rightarrow> u64 \<Rightarrow> nat \<Rightarrow> 'w \<Rightarrow> string option \<times> 'w" where
  "zt_read_remote_cstr os pid remote_addr buffer_size w =
     (if buffer_size = 0 then (None, w)
      else if remote_addr = 0 then (Some (take (buffer_size - 1) ''NULL''), w)
      else zt_read_cstr_loop os pid remote_addr buffer_size 0 [] w)"

section \<open>Formatting\<close>

definition zt_append_raw :: "nat \<Rightarrow> string \<Rightarrow> string \<Rightarrow> string option" where
  "zt_append_raw out_size out s = (if length out + length s \<ge> out_size then None else Some (out @ s))"

definition zt_sig_type_is_numeric :: "zt_sig_type_t \<Rightarrow> bool" where
  "zt_sig_type_is_numeric t =
     (t \<in> {ZT_SIG_TYPE_INT, ZT_SIG_TYPE_LONG, ZT_SIG_TYPE_ULONG, ZT_SIG_TYPE_SIZE, ZT_SIG_TYPE_SSIZE})"

definition zt_sig_param_is_numeric :: "zt_func_sig_t \<Rightarrow> nat \<Rightarrow> bool" where
  "zt_sig_param_is_numeric sig i =
     (i < length (sg_params sig) \<and> zt_sig_type_is_numeric (sp_type (sg_params sig ! i)))"

definition zt_sig_type_is_fp :: "zt_sig_type_t \<Rightarrow> bool" where
  "zt_sig_type_is_fp t = (t = ZT_SIG_TYPE_FLOAT \<or> t = ZT_SIG_TYPE_DOUBLE)"

definition zt_cap_preview_len :: "nat \<Rightarrow> nat" where
  "zt_cap_preview_len len = (if len > 32 then 32 else len)"

fun zt_preview_bytes :: "nat \<Rightarrow> string \<Rightarrow> u8 list \<Rightarrow> string option" where
  "zt_preview_bytes buffer_size buffer [] = Some buffer"
| "zt_preview_bytes buffer_size buffer (b # bs) =
     (let c = char_of (unat b) in
      if isprint c \<and> c \<noteq> CHR 0x22 \<and> c \<noteq> CHR 0x5C
      then if length buffer + 1 \<ge> buffer_size then None else zt_preview_bytes buffer_size (buffer @ [c]) bs
      else let escaped = [CHR 0x5C, CHR ''x''] @ pad_left 2 (CHR ''0'') (fmt_x (ucast b)) in
        if length escaped \<ge> buffer_size - length buffer then None
        else zt_preview_bytes buffer_size (buffer @ escaped) bs)"

definition zt_read_remote_buf_preview :: "('r, 'w) os \<Rightarrow> int \<Rightarrow> u64 \<Rightarrow> nat \<Rightarrow> nat \<Rightarrow> 'w \<Rightarrow> string option \<times> 'w" where
  "zt_read_remote_buf_preview os pid remote_addr len buffer_size w =
     (if buffer_size = 0 then (None, w)
      else if remote_addr = 0 then (Some (take (buffer_size - 1) ''NULL''), w)
      else if 1 \<ge> buffer_size then (None, w)
      else case zt_read_remote_bytes_with_fallback os pid remote_addr (zt_cap_preview_len len) w of
          (None, w1) \<Rightarrow> (None, w1)
        | (Some bs, w1) \<Rightarrow>
            (case zt_preview_bytes buffer_size [CHR 0x22] bs of
               None \<Rightarrow> None
             | Some buffer \<Rightarrow> if length buffer + 2 \<ge> buffer_size then None else Some (buffer @ [CHR 0x22]), w1))"

definition zt_buffer_preview_len ::
  "zt_func_sig_t \<Rightarrow> zt_trace_event_t option \<Rightarrow> zt_trace_event_t option \<Rightarrow> nat \<Rightarrow> bool \<Rightarrow> nat" where
  "zt_buffer_preview_len sig args_event ret_event i for_return =
     (if args_event = None \<or> i \<ge> length (sg_params sig) then 0
      else if for_return then
        (case ret_event of
           None \<Rightarrow> 0
         | Some ret \<Rightarrow>
             let value0 = ev_args ret ! 0; nxt = zt_event_arg_value args_event (i + 1) in
             if sint value0 \<le> 0 then 0
             else if zt_sig_param_is_numeric sig (i + 1) \<and> zt_sig_param_is_numeric sig (i + 2)
             then zt_cap_preview_len (unat (value0 * nxt))
             else if zt_sig_param_is_numeric sig (i + 1)
             then zt_cap_preview_len (unat (if value0 < nxt then value0 else nxt))
             else zt_cap_preview_len (unat value0))
      else if zt_sig_param_is_numeric sig (i + 1) \<and> zt_sig_param_is_numeric sig (i + 2)
      then zt_cap_preview_len (unat (zt_event_arg_value args_event (i + 1) * zt_event_arg_value args_event (i + 2)))
      else if zt_sig_param_is_numeric sig (i + 1)
      then zt_cap_preview_len (unat (zt_event_arg_value args_event (i + 1)))
      else 0)"

definition zt_find_format_param_index :: "zt_func_sig_t \<Rightarrow> nat option" where
  "zt_find_format_param_index sig =
     (if \<not> sg_variadic sig then None
      else map_option (\<lambda>k. length (sg_params sig) - 1 - k)
        (find_index (\<lambda>p. sp_type p = ZT_SIG_TYPE_CSTR \<and> sp_name p = ''fmt'') (rev (sg_params sig))))"

definition zt_count_fixed_param_regs :: "zt_func_sig_t \<Rightarrow> nat \<times> nat" where
  "zt_count_fixed_param_regs sig =
     (length (filter (\<lambda>p. \<not> zt_sig_type_is_fp (sp_type p)) (sg_params sig)),
      length (filter (\<lambda>p. zt_sig_type_is_fp (sp_type p)) (sg_params sig)))"

definition skip_star_or_digits :: "string \<Rightarrow> nat \<Rightarrow> string \<times> nat" where
  "skip_star_or_digits p arg_index =
     (if p \<noteq> [] \<and> hd p = CHR ''*'' then (tl p, arg_index + 1) else (dropWhile isdigit p, arg_index))"

definition zt_skip_format_flags :: "string \<Rightarrow> nat \<Rightarrow> string \<times> nat" where
  "zt_skip_format_flags p arg_index =
     (let p1 = dropWhile (\<lambda>c. c \<in> set [CHR ''-'', CHR ''+'', CHR '' '', CHR ''#'', CHR ''0'', CHR 0x27]) p;
          (p2, n2) = skip_star_or_digits p1 arg_index
      in if p2 \<noteq> [] \<and> hd p2 = CHR ''.'' then skip_star_or_digits (tl p2) n2 else (p2, n2))"

text \<open>
  At the end of the string \<^verbatim>\<open>strchr\<close> finds the terminating zero of its first argument, and
  the cursor moves behind the end: \<open>None\<close>.
\<close>

fun zt_skip_format_length :: "string \<Rightarrow> string option" where
  "zt_skip_format_length [] = None"
| "zt_skip_format_length (c # p) =
     (if p \<noteq> [] \<and> (c = CHR ''h'' \<and> hd p = CHR ''h'' \<or> c = CHR ''l'' \<and> hd p = CHR ''l'') then Some (tl p)
      else if c \<in> set ''hljztL'' then Some p
      else Some (c # p))"

definition zt_append_value ::
  "('r, 'w) os \<Rightarrow> int \<Rightarrow> nat \<Rightarrow> string \<Rightarrow> zt_sig_type_t \<Rightarrow> u64 \<Rightarrow> 'w \<Rightarrow> string option \<times> 'w" where
  "zt_append_value os pid out_size out t v w =
     (let (tx, w1) = (case t of
          ZT_SIG_TYPE_INT \<Rightarrow> (fmt_d (sint (ucast v :: u32)), w)
        | ZT_SIG_TYPE_LONG \<Rightarrow> (fmt_d (sint v), w)
        | ZT_SIG_TYPE_SSIZE \<Rightarrow> (fmt_d (sint v), w)
        | ZT_SIG_TYPE_ULONG \<Rightarrow> (fmt_u v, w)
        | ZT_SIG_TYPE_SIZE \<Rightarrow> (fmt_u v, w)
        | ZT_SIG_TYPE_FLOAT \<Rightarrow> (fmt_g_float (ucast v), w)
        | ZT_SIG_TYPE_DOUBLE \<Rightarrow> (fmt_g_double v, w)
        | ZT_SIG_TYPE_CSTR \<Rightarrow>
            (case zt_read_remote_cstr os pid v 64 w of
               (None, w1) \<Rightarrow> (''0x'' @ fmt_x v, w1)
             | (Some s, w1) \<Rightarrow> ([CHR 0x22] @ s @ [CHR 0x22], w1))
        | ZT_SIG_TYPE_VOID \<Rightarrow> (''void'', w)
        | _ \<Rightarrow> (''0x'' @ fmt_x v, w))
      in (if length tx \<ge> 96 then None else zt_append_raw out_size out tx, w1))"

text \<open>The type an argument of a conversion is printed with.\<close>

definition conv_type :: "char \<Rightarrow> zt_sig_type_t option" where
  "conv_type conv =
     (if conv \<in> set ''di'' then Some ZT_SIG_TYPE_LONG
      else if conv \<in> set ''uoxX'' then Some ZT_SIG_TYPE_ULONG
      else if conv \<in> set ''pn'' then Some ZT_SIG_TYPE_PTR
      else if conv = CHR ''s'' then Some ZT_SIG_TYPE_CSTR
      else if conv = CHR ''c'' then Some ZT_SIG_TYPE_INT
      else None)"

definition zt_append_variadic_arg ::
  "('r, 'w) os \<Rightarrow> int \<Rightarrow> nat \<Rightarrow> string \<Rightarrow> zt_trace_event_t \<Rightarrow> nat \<Rightarrow> nat \<Rightarrow> char \<Rightarrow> 'w \<Rightarrow> (string option \<times> nat \<times> nat) \<times> 'w" where
  "zt_append_variadic_arg os pid out_size out event gp_index fp_index conv w =
     (if conv \<in> set ''aAeEfFgG'' then
        (case zt_append_raw out_size out '', '' of
           None \<Rightarrow> ((None, gp_index, fp_index + 1), w)
         | Some out1 \<Rightarrow>
             (case zt_append_value os pid out_size out1 ZT_SIG_TYPE_DOUBLE (zt_event_fp_arg_value event fp_index) w of
                (r, w1) \<Rightarrow> ((r, gp_index, fp_index + 1), w1)))
      else case zt_event_arg_value_ext event gp_index of
          None \<Rightarrow> ((zt_append_raw out_size out '', <unreadable>'', gp_index, fp_index), w)
        | Some v \<Rightarrow>
            (case zt_append_raw out_size out '', '' of
               None \<Rightarrow> ((None, gp_index + 1, fp_index), w)
             | Some out1 \<Rightarrow>
                 (case conv_type conv of
                    None \<Rightarrow> ((zt_append_raw out_size out1 ''<arg>'', gp_index + 1, fp_index), w)
                  | Some t \<Rightarrow>
                      (case zt_append_value os pid out_size out1 t v w of
                         (r, w1) \<Rightarrow> ((r, gp_index + 1, fp_index), w1)))))"

lemma skip_flags_length: "zt_skip_format_flags p n = (p', n') \<Longrightarrow> length p' \<le> length p"
proof -
  have d: "length (fst (skip_star_or_digits q k)) \<le> length q" for q k
    using length_dropWhile_le [of isdigit q] by (simp add: skip_star_or_digits_def)
  define q where "q = dropWhile (\<lambda>c. c \<in> set [CHR ''-'', CHR ''+'', CHR '' '', CHR ''#'', CHR ''0'', CHR 0x27]) p"
  have q: "length q \<le> length p" unfolding q_def by (rule length_dropWhile_le)
  obtain p2 n2 where 2: "skip_star_or_digits q n = (p2, n2)" by fastforce
  assume "zt_skip_format_flags p n = (p', n')"
  then have "p' = p2 \<or> p' = fst (skip_star_or_digits (tl p2) n2)"
    using 2 unfolding zt_skip_format_flags_def Let_def q_def [symmetric] by (auto split: if_splits)
  then show ?thesis using d [of q n] d [of "tl p2" n2] 2 q by auto
qed

lemma skip_length_length: "zt_skip_format_length p = Some p' \<Longrightarrow> length p' \<le> length p"
  by (cases p rule: zt_skip_format_length.cases) (auto split: if_splits)

text \<open>
  The conversions of a format string, from a cursor; \<open>None\<close> when the cursor runs behind the
  end of the string.
\<close>

function zt_variadic_loop ::
  "('r, 'w) os \<Rightarrow> int \<Rightarrow> nat \<Rightarrow> zt_trace_event_t \<Rightarrow> string \<Rightarrow> string \<Rightarrow> nat \<Rightarrow> nat \<Rightarrow> 'w \<Rightarrow> (string option \<times> 'w) option" where
  "zt_variadic_loop os pid out_size event [] out gp_index fp_index w = Some (Some out, w)"
| "zt_variadic_loop os pid out_size event (c # p) out gp_index fp_index w =
     (if c \<noteq> CHR ''%'' then zt_variadic_loop os pid out_size event p out gp_index fp_index w
      else if p \<noteq> [] \<and> hd p = CHR ''%'' then zt_variadic_loop os pid out_size event (tl p) out gp_index fp_index w
      else (case zt_skip_format_flags p gp_index of
        (p1, gp1) \<Rightarrow>
          (case zt_skip_format_length p1 of
             None \<Rightarrow> None
           | Some p2 \<Rightarrow>
               if p2 = [] then Some (Some out, w)
               else if hd p2 = CHR ''m'' then zt_variadic_loop os pid out_size event (tl p2) out gp1 fp_index w
               else (case zt_append_variadic_arg os pid out_size out event gp1 fp_index (hd p2) w of
                  ((None, gp2, fp2), w1) \<Rightarrow> Some (None, w1)
                | ((Some out1, gp2, fp2), w1) \<Rightarrow> zt_variadic_loop os pid out_size event (tl p2) out1 gp2 fp2 w1))))"
  by pat_completeness auto
termination
  by (relation "measure (\<lambda>(os, pid, out_size, event, p, out, gp, fp, w). length p)")
    (auto dest!: skip_flags_length [OF sym] skip_length_length)

definition zt_append_variadic_args ::
  "('r, 'w) os \<Rightarrow> int \<Rightarrow> nat \<Rightarrow> string \<Rightarrow> zt_func_sig_t \<Rightarrow> zt_trace_event_t \<Rightarrow> 'w \<Rightarrow> (string option \<times> 'w) option" where
  "zt_append_variadic_args os pid out_size out sig event w =
     (case zt_find_format_param_index sig of
        None \<Rightarrow> Some (zt_append_raw out_size out '', ...'', w)
      | Some fmt_index \<Rightarrow>
          (case zt_event_arg_value_ext event fmt_index of
             None \<Rightarrow> Some (zt_append_raw out_size out '', ...'', w)
           | Some fmt_addr \<Rightarrow>
               (case zt_read_remote_cstr os pid fmt_addr 192 w of
                  (None, w1) \<Rightarrow> Some (zt_append_raw out_size out '', ...'', w1)
                | (Some fmt, w1) \<Rightarrow>
                    (case zt_count_fixed_param_regs sig of
                       (gp_index, fp_index) \<Rightarrow> zt_variadic_loop os pid out_size event fmt out gp_index fp_index w1))))"

text \<open>The preview of a buffer argument, behind a separator; a preview that cannot be read is left out.\<close>

definition append_preview ::
  "('r, 'w) os \<Rightarrow> int \<Rightarrow> nat \<Rightarrow> string \<Rightarrow> string \<Rightarrow> u64 \<Rightarrow> nat \<Rightarrow> 'w \<Rightarrow> string option \<times> 'w" where
  "append_preview os pid out_size sep out addr preview_len w =
     (if preview_len = 0 then (Some out, w)
      else case zt_read_remote_buf_preview os pid addr preview_len 192 w of
          (None, w1) \<Rightarrow> (Some out, w1)
        | (Some preview, w1) \<Rightarrow>
            (case zt_append_raw out_size out sep of
               None \<Rightarrow> None
             | Some out1 \<Rightarrow> zt_append_raw out_size out1 preview, w1))"

fun zt_format_params ::
  "('r, 'w) os \<Rightarrow> int \<Rightarrow> nat \<Rightarrow> zt_func_sig_t \<Rightarrow> zt_trace_event_t \<Rightarrow> nat list \<Rightarrow> nat \<Rightarrow> nat \<Rightarrow> string \<Rightarrow> 'w \<Rightarrow> string option \<times> 'w" where
  "zt_format_params os pid out_size sig event [] gp_index fp_index out w = (Some out, w)"
| "zt_format_params os pid out_size sig event (i # is) gp_index fp_index out w =
     (case (if i > 0 then zt_append_raw out_size out '', '' else Some out) of
        None \<Rightarrow> (None, w)
      | Some out1 \<Rightarrow>
          let t = sp_type (sg_params sig ! i);
              raw_value = (if zt_sig_type_is_fp t then zt_event_fp_arg_value event fp_index
                           else zt_event_arg_value (Some event) gp_index);
              gp1 = (if zt_sig_type_is_fp t then gp_index else gp_index + 1);
              fp1 = (if zt_sig_type_is_fp t then fp_index + 1 else fp_index)
          in (case zt_append_value os pid out_size out1 t raw_value w of
                (None, w1) \<Rightarrow> (None, w1)
              | (Some out2, w1) \<Rightarrow>
                  (case (if t = ZT_SIG_TYPE_CONST_BUF
                         then append_preview os pid out_size ''='' out2 raw_value (zt_buffer_preview_len sig (Some event) None i False) w1
                         else (Some out2, w1)) of
                     (None, w2) \<Rightarrow> (None, w2)
                   | (Some out3, w2) \<Rightarrow> zt_format_params os pid out_size sig event is gp1 fp1 out3 w2)))"

definition zt_format_entry ::
  "('r, 'w) os \<Rightarrow> int \<Rightarrow> zt_func_sig_t \<Rightarrow> string \<Rightarrow> zt_trace_event_t \<Rightarrow> nat \<Rightarrow> 'w \<Rightarrow> (string option \<times> 'w) option" where
  "zt_format_entry os pid sig symbol event out_size w =
     (let out = symbol @ ''('' in
      if length out \<ge> out_size then Some (None, w)
      else case zt_format_params os pid out_size sig event [0..<length (sg_params sig)] 0 0 out w of
          (None, w1) \<Rightarrow> Some (None, w1)
        | (Some out1, w1) \<Rightarrow>
            (case (if sg_variadic sig then zt_append_variadic_args os pid out_size out1 sig event w1 else Some (Some out1, w1)) of
               None \<Rightarrow> None
             | Some (None, w2) \<Rightarrow> Some (None, w2)
             | Some (Some out2, w2) \<Rightarrow> Some (zt_append_raw out_size out2 ('')'' @ [CHR 0x0A]), w2)))"

definition zt_format_return ::
  "('r, 'w) os \<Rightarrow> int \<Rightarrow> zt_func_sig_t \<Rightarrow> string \<Rightarrow> zt_trace_event_t option \<Rightarrow> zt_trace_event_t \<Rightarrow> nat \<Rightarrow> 'w \<Rightarrow> string option \<times> 'w" where
  "zt_format_return os pid sig symbol entry_event event out_size w =
     (let out = symbol @ '' -> ''; t = sp_type (sg_ret sig) in
      if length out \<ge> out_size then (None, w)
      else case zt_append_value os pid out_size out t
                  (if zt_sig_type_is_fp t then ev_fp_args event ! 0 else ev_args event ! 0) w of
          (None, w1) \<Rightarrow> (None, w1)
        | (Some out1, w1) \<Rightarrow>
            (case (case find_index (\<lambda>p. sp_type p = ZT_SIG_TYPE_BUF) (sg_params sig) of
                     None \<Rightarrow> (Some out1, w1)
                   | Some i \<Rightarrow> append_preview os pid out_size '' '' out1 (zt_event_arg_value entry_event i)
                       (zt_buffer_preview_len sig entry_event (Some event) i True) w1) of
               (None, w2) \<Rightarrow> (None, w2)
             | (Some out2, w2) \<Rightarrow> (zt_append_raw out_size out2 [CHR 0x0A], w2)))"

definition zt_format_trace_event_with_sig ::
  "('r, 'w) os \<Rightarrow> sigconf \<Rightarrow> int \<Rightarrow> zt_probe_info_t \<Rightarrow> zt_trace_event_t option \<Rightarrow> zt_trace_event_t \<Rightarrow> nat \<Rightarrow> 'w \<Rightarrow>
   (string option \<times> 'w) option" where
  "zt_format_trace_event_with_sig os cfg pid probe entry_event event out_size w =
     (case zt_sigconf_find cfg (tgt_symbol (pi_target probe)) of
        None \<Rightarrow> Some (None, w)
      | Some sig \<Rightarrow>
          if ev_event_type event = event_type_code ZT_TRACE_EVENT_ENTRY
          then zt_format_entry os pid sig (tgt_symbol (pi_target probe)) event out_size w
          else if ev_event_type event = event_type_code ZT_TRACE_EVENT_RETURN
          then Some (zt_format_return os pid sig (tgt_symbol (pi_target probe)) entry_event event out_size w)
          else Some (None, w))"

end
