(* ===== verification/ZT_Reader.thy ===== *)
theory ZT_Reader
  imports ZT_Sigconf ZT_Filter ZT_Payload ZT_Probes
begin

text \<open>
  Reading the ring buffer: the part of \<^verbatim>\<open>src/zt_trace_runner.c\<close> that copies events out of
  the target, decides which copies are usable, applies the filters and writes the log.

  The target's buffer is memory, so the layout of \<^verbatim>\<open>zt_trace_buffer_t\<close> is explicit here:
  three words, 32 call actions of 128 bytes, then events of 168 bytes. The snapshot arrays
  and the entry cache, which are indexed by a number modulo the capacity only, are functions
  of the index; the log file is the text written so far.
\<close>

section \<open>Layout\<close>

definition offsetof_events :: nat where "offsetof_events = 4120"
definition sizeof_zt_trace_event_t :: nat where "sizeof_zt_trace_event_t = 168"

definition word_at :: "u8 list \<Rightarrow> nat \<Rightarrow> u64" where
  "word_at bs k = le_word (buf_get bs (8 * k) 8)"

definition decode_event :: "u8 list \<Rightarrow> zt_trace_event_t" where
  "decode_event bs = \<lparr>ev_committed_seq = word_at bs 0, ev_probe_id = word_at bs 1, ev_event_type = word_at bs 2,
     ev_call_id = word_at bs 3, ev_timestamp_ns = word_at bs 4, ev_tid = word_at bs 5, ev_cpu_id = word_at bs 6,
     ev_args = map (word_at bs) [7..<13], ev_fp_args = map (word_at bs) [13..<21]\<rparr>"

section \<open>State\<close>

record zt_entry_cache_slot_t =
  ec_call_id :: u64
  ec_event :: zt_trace_event_t
  ec_suppressed :: bool

record zt_call_symbol_cache_entry_t =
  cs_addr :: u64
  cs_symbol :: string

record zt_trace_buffer_header_t =
  bh_magic :: u64
  bh_write_seq :: u64

datatype zt_trace_slot_status_t =
  ZT_TRACE_SLOT_READY zt_trace_event_t | ZT_TRACE_SLOT_PENDING | ZT_TRACE_SLOT_OVERWRITTEN | ZT_TRACE_SLOT_READ_ERROR

text \<open>The statics a dump reads and writes, with the log.\<close>

record zt_log_state =
  g_entry_cache :: "nat \<Rightarrow> zt_entry_cache_slot_t"
  ls_out :: string

record zt_snapshot =
  g_event_snapshot :: "nat \<Rightarrow> zt_trace_event_t"
  g_commit_before :: "nat \<Rightarrow> u64"
  g_commit_after :: "nat \<Rightarrow> u64"

definition ZT_TRACE_READ_IOV_MAX :: nat where "ZT_TRACE_READ_IOV_MAX = 256"

definition event_slot :: "u64 \<Rightarrow> nat" where
  "event_slot seq = unat (seq - 1) mod ZT_TRACE_EVENT_CAPACITY"

section \<open>Formatting events\<close>

definition zt_trace_find_call_symbol :: "zt_call_symbol_cache_entry_t list \<Rightarrow> u64 \<Rightarrow> string option" where
  "zt_trace_find_call_symbol call_symbols addr =
     (if addr = 0 then None else map_option cs_symbol (List.find (\<lambda>e. cs_addr e = addr) call_symbols))"

definition zt_trace_event_is_suppressed :: "zt_probe_info_t option \<Rightarrow> zt_trace_event_t \<Rightarrow> bool" where
  "zt_trace_event_is_suppressed probe event =
     (case probe of
        None \<Rightarrow> False
      | Some p \<Rightarrow>
          if ev_event_type event \<noteq> event_type_code ZT_TRACE_EVENT_ENTRY then False
          else if fl_enabled (pi_filter p) = 0 then False
          else \<not> zt_probe_filter_eval (Some (pi_filter p)) (Some event))"

fun zt_format_call_args_loop :: "nat \<Rightarrow> bool \<Rightarrow> string \<Rightarrow> u64 list \<Rightarrow> string" where
  "zt_format_call_args_loop buffer_size fst_arg buffer [] = buffer"
| "zt_format_call_args_loop buffer_size fst_arg buffer (v # vs) =
     (let piece = (if fst_arg then [] else '', '') @ ''0x'' @ fmt_x v in
      if length piece \<ge> buffer_size - length buffer then take (buffer_size - 1) (buffer @ piece)
      else zt_format_call_args_loop buffer_size False (buffer @ piece) vs)"

definition zt_format_call_args :: "zt_trace_event_t \<Rightarrow> nat \<Rightarrow> string" where
  "zt_format_call_args event buffer_size =
     (let n = unat (ev_args event ! 2);
          n = (if n > ZT_CALL_ACTION_ARG_CAP then ZT_CALL_ACTION_ARG_CAP else n)
      in if buffer_size = 0 then [] else zt_format_call_args_loop buffer_size True [] (take n (ev_fp_args event)))"

definition zt_trace_print_event_prefix :: "string \<Rightarrow> int \<Rightarrow> zt_trace_event_t \<Rightarrow> string \<Rightarrow> string" where
  "zt_trace_print_event_prefix comm pid event kind =
     comm @ ''-'' @ fmt_d pid @ ''/'' @ fmt_u (ev_tid event) @ '' ['' @ pad_left 3 (CHR ''0'') (fmt_u (ev_cpu_id event)) @ ''] '' @
     pad_left 5 (CHR '' '') (fmt_u (ev_timestamp_ns event div NSEC_PER_SEC)) @ ''.'' @
     pad_left 9 (CHR ''0'') (fmt_u (ev_timestamp_ns event mod NSEC_PER_SEC)) @ '': ztrace:'' @ kind @ '': ''"

abbreviation hex :: "u64 \<Rightarrow> string" where "hex v \<equiv> ''0x'' @ fmt_x v"

definition log_put :: "string \<Rightarrow> zt_log_state \<Rightarrow> zt_log_state" where
  "log_put s st = st\<lparr>ls_out := ls_out st @ s\<rparr>"

text \<open>The line of a call action's event.\<close>

definition zt_call_line ::
  "zt_call_symbol_cache_entry_t list \<Rightarrow> session \<Rightarrow> string \<Rightarrow> zt_probe_info_t option \<Rightarrow> string \<Rightarrow> zt_trace_event_t \<Rightarrow> string" where
  "zt_call_line call_symbols se comm probe symbol_name event =
     (let callee = ev_args event ! 0;
          callee_name = (case zt_trace_find_call_symbol call_symbols callee of
              Some s \<Rightarrow> s
            | None \<Rightarrow>
                (case probe of
                   Some p \<Rightarrow>
                     if act_enabled (pi_call_action p) \<noteq> 0 \<and> act_callee_addr (pi_call_action p) = callee \<and> pi_call_symbol p \<noteq> []
                     then pi_call_symbol p else ''<unknown>''
                 | None \<Rightarrow> ''<unknown>''))
      in zt_trace_print_event_prefix comm (se_pid se) event ''call'' @
         symbol_name @ '' => '' @ callee_name @ ''('' @ zt_format_call_args event 160 @ '') -> '' @ hex (ev_args event ! 1) @
         '' callee='' @ hex callee @ [CHR 0x0A])"

text \<open>The line without signature.\<close>

definition zt_plain_line :: "session \<Rightarrow> string \<Rightarrow> string \<Rightarrow> zt_trace_event_t \<Rightarrow> u64 \<Rightarrow> string" where
  "zt_plain_line se comm symbol_name event seq =
     (if ev_event_type event = event_type_code ZT_TRACE_EVENT_ENTRY then
        zt_trace_print_event_prefix comm (se_pid se) event ''entry'' @ symbol_name @
        ''(arg0='' @ hex (ev_args event ! 0) @ '', arg1='' @ hex (ev_args event ! 1) @ '', arg2='' @ hex (ev_args event ! 2) @
        '', arg3='' @ hex (ev_args event ! 3) @ '', arg4='' @ hex (ev_args event ! 4) @ '', arg5='' @ hex (ev_args event ! 5) @
        '')'' @ [CHR 0x0A]
      else if ev_event_type event = event_type_code ZT_TRACE_EVENT_RETURN then
        zt_trace_print_event_prefix comm (se_pid se) event ''return'' @ symbol_name @ '' -> '' @ hex (ev_args event ! 0) @ [CHR 0x0A]
      else
        zt_trace_print_event_prefix comm (se_pid se) event ''event'' @ symbol_name @ '' type='' @ fmt_u (ev_event_type event) @
        '' seq='' @ fmt_u seq @ [CHR 0x0A])"

text \<open>
  The entry cache: an entry is remembered with the filter's verdict; a return finds its entry
  and the verdict, and clears the slot. The result is the matched entry and whether the event
  is dropped.
\<close>

definition zt_match_event ::
  "zt_probe_info_t option \<Rightarrow> zt_trace_event_t \<Rightarrow> (nat \<Rightarrow> zt_entry_cache_slot_t) \<Rightarrow>
   (zt_trace_event_t option \<times> bool) \<times> (nat \<Rightarrow> zt_entry_cache_slot_t)" where
  "zt_match_event probe event cache =
     (let i = unat (ev_call_id event) mod ZT_TRACE_EVENT_CAPACITY; slot = cache i in
      if ev_event_type event = event_type_code ZT_TRACE_EVENT_ENTRY \<and> ev_call_id event \<noteq> 0 then
        let suppressed = zt_trace_event_is_suppressed probe event in
        ((None, suppressed), cache(i := \<lparr>ec_call_id = ev_call_id event, ec_event = event, ec_suppressed = suppressed\<rparr>))
      else if ev_event_type event = event_type_code ZT_TRACE_EVENT_RETURN \<and> ev_call_id event \<noteq> 0 then
        if ec_call_id slot = ev_call_id event
        then ((Some (ec_event slot), ec_suppressed slot), cache(i := slot\<lparr>ec_call_id := 0, ec_suppressed := False\<rparr>))
        else ((None, False), cache)
      else ((None, False), cache))"

definition zt_dump_one_trace_event ::
  "('r, 'w) os \<Rightarrow> sigconf \<Rightarrow> zt_call_symbol_cache_entry_t list \<Rightarrow> session \<Rightarrow> string \<Rightarrow> zt_trace_event_t \<Rightarrow> u64 \<Rightarrow> zt_log_state \<Rightarrow> 'w \<Rightarrow>
   (zt_log_state \<times> 'w) option" where
  "zt_dump_one_trace_event os cfg call_symbols se comm event seq st w =
     (let probe = map_option (\<lambda>i. se_probes se ! i) (zt_probe_find_by_id se (ev_probe_id event));
          symbol_name = (case probe of Some p \<Rightarrow> tgt_symbol (pi_target p) | None \<Rightarrow> ''<unknown>'');
          phase = (if ev_event_type event = event_type_code ZT_TRACE_EVENT_RETURN then ''return'' else ''entry'')
      in if ev_event_type event = event_type_code ZT_TRACE_EVENT_CALL
         then Some (log_put (zt_call_line call_symbols se comm probe symbol_name event) st, w)
         else case zt_match_event probe event (g_entry_cache st) of
             ((matched_entry, suppressed), cache) \<Rightarrow>
               let st1 = st\<lparr>g_entry_cache := cache\<rparr> in
               if suppressed then Some (st1, w)
               else do {
                 (formatted, w1) \<leftarrow> (case probe of
                     None \<Rightarrow> Some (None, w)
                   | Some p \<Rightarrow> zt_format_trace_event_with_sig os cfg (se_pid se) p matched_entry event 512 w);
                 Some (case formatted of
                     Some s \<Rightarrow> (log_put (zt_trace_print_event_prefix comm (se_pid se) event phase @ s) st1, w1)
                   | None \<Rightarrow> (log_put (zt_plain_line se comm symbol_name event seq) st1, w1)) })"

section \<open>Snapshots\<close>

definition zt_trace_event_slot_addr :: "u64 \<Rightarrow> u64 \<Rightarrow> u64" where
  "zt_trace_event_slot_addr buffer_addr seq =
     (if seq = 0 then 0 else buffer_addr + of_nat offsetof_events + of_nat (event_slot seq * sizeof_zt_trace_event_t))"

definition zt_trace_session_comm :: "session \<Rightarrow> string" where
  "zt_trace_session_comm se =
     (case after_last (CHR ''/'') (se_exe_path se) of Some s \<Rightarrow> s | None \<Rightarrow> se_exe_path se)"

definition zt_trace_read_buffer_header ::
  "('r, 'w) os \<Rightarrow> int \<Rightarrow> u64 \<Rightarrow> 'w \<Rightarrow> zt_trace_buffer_header_t option \<times> 'w" where
  "zt_trace_read_buffer_header os pid buffer_addr w =
     (if buffer_addr = 0 then (None, w)
      else case zt_read_remote_memory os pid buffer_addr 16 w of
          (None, w1) \<Rightarrow> (None, w1)
        | (Some bs, w1) \<Rightarrow> (Some \<lparr>bh_magic = word_at bs 0, bh_write_seq = word_at bs 1\<rparr>, w1))"

definition zt_trace_log_lost_events :: "session \<Rightarrow> u64 \<Rightarrow> u64 \<Rightarrow> u64 \<Rightarrow> zt_log_state \<Rightarrow> zt_log_state" where
  "zt_trace_log_lost_events se first_lost lost_count write_seq st =
     (if lost_count = 0 then st
      else log_put (zt_trace_session_comm se @ ''-'' @ fmt_d (se_pid se) @ '' [---] ztrace:lost: dropped '' @ fmt_u lost_count @
        '' events starting at seq='' @ fmt_u first_lost @ '' (write_seq='' @ fmt_u write_seq @ '' capacity='' @
        fmt_d (int ZT_TRACE_EVENT_CAPACITY) @ '')'' @ [CHR 0x0A]) st)"

definition commits_put :: "u64 \<Rightarrow> nat \<Rightarrow> u8 list \<Rightarrow> (nat \<Rightarrow> u64) \<Rightarrow> nat \<Rightarrow> u64" where
  "commits_put first n bs commits =
     fold (\<lambda>i c. c(event_slot (first + of_nat i) := word_at bs i)) [0..<n] commits"

function zt_commit_batches ::
  "('r, 'w) os \<Rightarrow> int \<Rightarrow> u64 \<Rightarrow> u64 \<Rightarrow> nat \<Rightarrow> nat \<Rightarrow> (nat \<Rightarrow> u64) \<Rightarrow> 'w \<Rightarrow> (nat \<Rightarrow> u64) option \<times> 'w" where
  "zt_commit_batches os pid buffer_addr start_seq count offset commits w =
     (if offset < count then
        let batch_count = min (count - offset) ZT_TRACE_READ_IOV_MAX;
            first = start_seq + of_nat offset;
            remote_iov = map (\<lambda>i. (zt_trace_event_slot_addr buffer_addr (first + of_nat i), 8)) [0..<batch_count]
        in case zt_read_remote_iov os pid remote_iov (batch_count * 8) w of
             (None, w1) \<Rightarrow> (None, w1)
           | (Some bs, w1) \<Rightarrow>
               zt_commit_batches os pid buffer_addr start_seq count (offset + ZT_TRACE_READ_IOV_MAX)
                 (commits_put first batch_count bs commits) w1
      else (Some commits, w))"
  by pat_completeness auto
termination
  by (relation "measure (\<lambda>(os, pid, buffer_addr, start_seq, count, offset, commits, w). count - offset)")
    (auto simp: ZT_TRACE_READ_IOV_MAX_def)

declare zt_commit_batches.simps [simp del]

definition zt_trace_read_commit_snapshot ::
  "('r, 'w) os \<Rightarrow> int \<Rightarrow> u64 \<Rightarrow> u64 \<Rightarrow> nat \<Rightarrow> (nat \<Rightarrow> u64) \<Rightarrow> 'w \<Rightarrow> (nat \<Rightarrow> u64) option \<times> 'w" where
  "zt_trace_read_commit_snapshot os pid buffer_addr start_seq count commits w =
     (if start_seq = 0 \<or> count > ZT_TRACE_EVENT_CAPACITY then (None, w)
      else zt_commit_batches os pid buffer_addr start_seq count 0 commits w)"

definition events_put :: "nat \<Rightarrow> nat \<Rightarrow> u8 list \<Rightarrow> (nat \<Rightarrow> zt_trace_event_t) \<Rightarrow> nat \<Rightarrow> zt_trace_event_t" where
  "events_put slot n bs snapshot =
     fold (\<lambda>i s. s(slot + i := decode_event (buf_get bs (sizeof_zt_trace_event_t * i) sizeof_zt_trace_event_t))) [0..<n] snapshot"

function zt_event_runs ::
  "('r, 'w) os \<Rightarrow> int \<Rightarrow> u64 \<Rightarrow> u64 \<Rightarrow> nat \<Rightarrow> (nat \<Rightarrow> zt_trace_event_t) \<Rightarrow> 'w \<Rightarrow> (nat \<Rightarrow> zt_trace_event_t) option \<times> 'w" where
  "zt_event_runs os pid buffer_addr seq remaining snapshot w =
     (if remaining > 0 then
        let slot = event_slot seq;
            run = min (ZT_TRACE_EVENT_CAPACITY - slot) remaining
        in case zt_read_remote_memory os pid (zt_trace_event_slot_addr buffer_addr seq) (run * sizeof_zt_trace_event_t) w of
             (None, w1) \<Rightarrow> (None, w1)
           | (Some bs, w1) \<Rightarrow>
               zt_event_runs os pid buffer_addr (seq + of_nat run) (remaining - run) (events_put slot run bs snapshot) w1
      else (Some snapshot, w))"
  by pat_completeness auto
termination
  by (relation "measure (\<lambda>(os, pid, buffer_addr, seq, remaining, snapshot, w). remaining)")
    (auto simp: event_slot_def ZT_TRACE_EVENT_CAPACITY_def)

declare zt_event_runs.simps [simp del]

definition zt_trace_read_event_snapshot ::
  "('r, 'w) os \<Rightarrow> int \<Rightarrow> u64 \<Rightarrow> u64 \<Rightarrow> nat \<Rightarrow> (nat \<Rightarrow> zt_trace_event_t) \<Rightarrow> 'w \<Rightarrow> (nat \<Rightarrow> zt_trace_event_t) option \<times> 'w" where
  "zt_trace_read_event_snapshot os pid buffer_addr start_seq count snapshot w =
     (if start_seq = 0 \<or> count > ZT_TRACE_EVENT_CAPACITY then (None, w)
      else zt_event_runs os pid buffer_addr start_seq count snapshot w)"

definition zt_trace_refresh_event_snapshots ::
  "('r, 'w) os \<Rightarrow> int \<Rightarrow> u64 \<Rightarrow> u64 \<Rightarrow> nat \<Rightarrow> zt_snapshot \<Rightarrow> 'w \<Rightarrow> zt_snapshot option \<times> 'w" where
  "zt_trace_refresh_event_snapshots os pid buffer_addr start_seq count sn w =
     (if count = 0 then (Some sn, w)
      else case zt_trace_read_commit_snapshot os pid buffer_addr start_seq count (g_commit_before sn) w of
          (None, w1) \<Rightarrow> (None, w1)
        | (Some c_before, w1) \<Rightarrow>
            (case zt_trace_read_event_snapshot os pid buffer_addr start_seq count (g_event_snapshot sn) w1 of
               (None, w2) \<Rightarrow> (None, w2)
             | (Some events, w2) \<Rightarrow>
                 (case zt_trace_read_commit_snapshot os pid buffer_addr start_seq count (g_commit_after sn) w2 of
                    (None, w3) \<Rightarrow> (None, w3)
                  | (Some c_after, w3) \<Rightarrow>
                      (Some \<lparr>g_event_snapshot = events, g_commit_before = c_before, g_commit_after = c_after\<rparr>, w3))))"

definition zt_trace_snapshot_slot :: "zt_snapshot \<Rightarrow> u64 \<Rightarrow> zt_trace_slot_status_t" where
  "zt_trace_snapshot_slot sn seq =
     (if seq = 0 then ZT_TRACE_SLOT_READ_ERROR
      else let slot = event_slot seq; event = g_event_snapshot sn slot;
               c_before = g_commit_before sn slot; c_after = g_commit_after sn slot
        in if c_before = seq \<and> ev_committed_seq event = seq \<and> c_after = seq then ZT_TRACE_SLOT_READY event
           else if c_before > seq \<or> ev_committed_seq event > seq \<or> c_after > seq then ZT_TRACE_SLOT_OVERWRITTEN
           else ZT_TRACE_SLOT_PENDING)"

section \<open>Dumping\<close>

text \<open>
  The result: success, the number of the last event accounted for, and the log. The number
  of events in a snapshot is at most the capacity.
\<close>

lemma unat64: "unat (v :: u64) < 2 ^ 64"
  using unsigned_less [of v, where ?'a = nat] by simp

lemma lapped_start:
  assumes "seq \<le> ws" and "of_nat ZT_TRACE_EVENT_CAPACITY \<le> ws - (seq :: u64)"
  shows "unat seq < unat (ws - of_nat ZT_TRACE_EVENT_CAPACITY + 1)"
proof -
  have "unat (ws - seq) = unat ws - unat seq" using assms(1) by (simp add: unat_sub)
  moreover have "4096 \<le> unat (ws - seq)" using assms(2) by (simp add: ZT_TRACE_EVENT_CAPACITY_def word_le_nat_alt)
  ultimately have le: "unat seq + 4096 \<le> unat ws" by simp
  then have "(4096 :: u64) \<le> ws" by (simp add: word_le_nat_alt)
  then have s: "unat (ws - 4096) = unat ws - 4096" by (simp add: unat_sub)
  have "unat ws < 2 ^ 64" by (rule unat64)
  then have "unat (ws - 4096 + 1) = unat ws - 4096 + 1" using s le by (subst unat_add_lem [THEN iffD1]) simp_all
  then show ?thesis using le by (simp add: ZT_TRACE_EVENT_CAPACITY_def)
qed

lemma unat_next: "unat (seq + 1 :: u64) = Suc (unat seq) \<or> seq + 1 = 0"
  using unat64 [of seq] by (simp add: unat_word_ariths mod_Suc unat_eq_0 [symmetric])

function zt_dump_loop ::
  "('r, 'w) os \<Rightarrow> sigconf \<Rightarrow> zt_call_symbol_cache_entry_t list \<Rightarrow> session \<Rightarrow> u64 \<Rightarrow> u64 \<Rightarrow> u64 \<Rightarrow> u64 \<Rightarrow> zt_log_state \<Rightarrow> zt_snapshot \<Rightarrow> 'w \<Rightarrow>
   ((bool \<times> u64 \<times> zt_log_state) \<times> 'w) option" where
  "zt_dump_loop os cfg call_symbols se buffer_addr seq write_seq last_seq st sn w =
     (if \<not> seq \<le> write_seq then Some ((True, last_seq, st), w)
      else (case zt_trace_snapshot_slot sn seq of
          ZT_TRACE_SLOT_READY event \<Rightarrow>
            (case zt_dump_one_trace_event os cfg call_symbols se (zt_trace_session_comm se) event seq st w of
               None \<Rightarrow> None
             | Some (st1, w1) \<Rightarrow> zt_dump_loop os cfg call_symbols se buffer_addr (seq + 1) write_seq seq st1 sn w1)
        | ZT_TRACE_SLOT_PENDING \<Rightarrow> Some ((True, last_seq, st), w)
        | ZT_TRACE_SLOT_OVERWRITTEN \<Rightarrow>
            (case zt_trace_read_buffer_header os (se_pid se) buffer_addr w of
               (None, w1) \<Rightarrow> Some ((False, last_seq, st), w1)
             | (Some fresh, w1) \<Rightarrow>
                 if bh_magic fresh \<noteq> ZT_TRACE_BUFFER_MAGIC then Some ((False, last_seq, st), w1)
                 else if bh_write_seq fresh \<ge> seq \<and> bh_write_seq fresh - seq \<ge> of_nat ZT_TRACE_EVENT_CAPACITY then
                   let start_seq = bh_write_seq fresh - of_nat ZT_TRACE_EVENT_CAPACITY + 1;
                       st1 = zt_trace_log_lost_events se seq (start_seq - seq) (bh_write_seq fresh) st
                   in (case zt_trace_refresh_event_snapshots os (se_pid se) buffer_addr start_seq
                              (unat (bh_write_seq fresh - start_seq + 1)) sn w1 of
                         (None, w2) \<Rightarrow> Some ((False, start_seq - 1, st1), w2)
                       | (Some sn1, w2) \<Rightarrow>
                           zt_dump_loop os cfg call_symbols se buffer_addr start_seq (bh_write_seq fresh) (start_seq - 1) st1 sn1 w2)
                 else Some ((True, last_seq, st), w1))
        | ZT_TRACE_SLOT_READ_ERROR \<Rightarrow> Some ((False, last_seq, st), w)))"
  by pat_completeness auto
termination
proof (relation "measure (\<lambda>(os, cfg, call_symbols, se, buffer_addr, seq, write_seq, last_seq, st, sn, w).
    if seq = 0 then 0 else 2 ^ 64 - unat seq)", goal_cases)
  case 1
  show ?case by simp
next
  case (2 os cfg call_symbols se buffer_addr seq write_seq last_seq st sn w event st1 w1)
  then have "seq \<noteq> 0" by (auto simp: zt_trace_snapshot_slot_def)
  moreover have "unat seq < 2 ^ 64" by (rule unat64)
  ultimately show ?case using unat_next [of seq] by auto
next
  case (3 os cfg call_symbols se buffer_addr seq write_seq last_seq st sn w r w1 fresh)
  then have "seq \<noteq> 0" by (auto simp: zt_trace_snapshot_slot_def)
  moreover have "unat seq < 2 ^ 64" by (rule unat64)
  ultimately show ?case using 3 lapped_start [of seq "bh_write_seq fresh"] by auto
qed

declare zt_dump_loop.simps [simp del]

definition zt_dump_trace_events_since ::
  "('r, 'w) os \<Rightarrow> sigconf \<Rightarrow> zt_call_symbol_cache_entry_t list \<Rightarrow> session \<Rightarrow> u64 \<Rightarrow> u64 \<Rightarrow> zt_log_state \<Rightarrow> zt_snapshot \<Rightarrow> 'w \<Rightarrow>
   ((bool \<times> u64 \<times> zt_log_state) \<times> 'w) option" where
  "zt_dump_trace_events_since os cfg call_symbols se buffer_addr last_seq st sn w =
     (case zt_trace_read_buffer_header os (se_pid se) buffer_addr w of
        (None, w1) \<Rightarrow> Some ((False, last_seq, st), w1)
      | (Some header, w1) \<Rightarrow>
          if bh_magic header \<noteq> ZT_TRACE_BUFFER_MAGIC
          then Some ((False, last_seq, log_put (''trace buffer magic mismatch'' @ [CHR 0x0A]) st), w1)
          else let write_seq = bh_write_seq header in
            if write_seq = 0 \<or> write_seq \<le> last_seq then Some ((True, last_seq, st), w1)
            else let lapped = write_seq - last_seq > of_nat ZT_TRACE_EVENT_CAPACITY;
                     seq = (if lapped then write_seq - of_nat ZT_TRACE_EVENT_CAPACITY + 1 else last_seq + 1);
                     st1 = (if lapped then zt_trace_log_lost_events se (last_seq + 1) (seq - (last_seq + 1)) write_seq st else st);
                     last1 = (if lapped then seq - 1 else last_seq)
              in (case zt_trace_refresh_event_snapshots os (se_pid se) buffer_addr seq (unat (write_seq - seq + 1)) sn w1 of
                    (None, w2) \<Rightarrow> Some ((False, last1, st1), w2)
                  | (Some sn1, w2) \<Rightarrow> zt_dump_loop os cfg call_symbols se buffer_addr seq write_seq last1 st1 sn1 w2))"

end
