(* ===== verification/ZT_ReaderProps.thy ===== *)
theory ZT_ReaderProps
  imports ZT_Reader
begin

text \<open>
  Properties of the reader: every event number is accounted for, and on a quiet buffer the
  log holds exactly the committed events.
\<close>

section \<open>Reports\<close>

text \<open>What a dump does to the log, as a list of reports.\<close>

datatype report = Reported u64 zt_trace_event_t | Missed u64 u64 u64

text \<open>The reports account for the numbers behind \<open>a\<close> up to \<open>b\<close>, each once and in order.\<close>

fun accounts :: "u64 \<Rightarrow> report list \<Rightarrow> u64 \<Rightarrow> bool" where
  "accounts a [] b \<longleftrightarrow> b = a"
| "accounts a (Reported s e # rs) b \<longleftrightarrow> unat s = unat a + 1 \<and> ev_committed_seq e = s \<and> accounts s rs b"
| "accounts a (Missed f n ws # rs) b \<longleftrightarrow> unat f = unat a + 1 \<and> 0 < n \<and> unat (a + n) = unat a + unat n \<and> accounts (a + n) rs b"

text \<open>Writing the reports, with the formatting reading the target in some world each time.\<close>

inductive logged ::
  "('r, 'w) os \<Rightarrow> sigconf \<Rightarrow> zt_call_symbol_cache_entry_t list \<Rightarrow> session \<Rightarrow> report list \<Rightarrow> zt_log_state \<Rightarrow> zt_log_state \<Rightarrow> bool"
  for os cfg call_symbols se where
  logged_Nil: "logged os cfg call_symbols se [] st st"
| logged_Reported: "zt_dump_one_trace_event os cfg call_symbols se (zt_trace_session_comm se) e s st w = Some (st1, w1) \<Longrightarrow>
    logged os cfg call_symbols se rs st1 st2 \<Longrightarrow> logged os cfg call_symbols se (Reported s e # rs) st st2"
| logged_Missed: "logged os cfg call_symbols se rs (zt_trace_log_lost_events se f n ws st) st2 \<Longrightarrow>
    logged os cfg call_symbols se (Missed f n ws # rs) st st2"

inductive_simps logged_Nil_iff [simp]: "logged os cfg call_symbols se [] st st'"

lemma snapshot_ready:
  assumes "zt_trace_snapshot_slot sn seq = ZT_TRACE_SLOT_READY e"
  shows "seq \<noteq> 0" "ev_committed_seq e = seq" "e = g_event_snapshot sn (event_slot seq)"
  using assms by (auto simp: zt_trace_snapshot_slot_def Let_def split: if_splits)

lemma snapshot_nonzero: "zt_trace_snapshot_slot sn seq \<noteq> ZT_TRACE_SLOT_READ_ERROR \<Longrightarrow> seq \<noteq> 0"
  by (auto simp: zt_trace_snapshot_slot_def)

lemma unat_pred: "seq \<noteq> 0 \<Longrightarrow> unat (seq - 1 :: u64) = unat seq - 1"
  by (metis unat_eq_0 unat_minus_one)

lemma unat_add_diff:
  assumes "unat (a :: u64) < unat b"
  shows "unat (b - a) = unat b - unat a"
  using assms by (simp add: unat_sub word_le_nat_alt)

lemma accounts_missed:
  assumes "seq \<noteq> 0" and "unat seq < unat (start :: u64)" and "accounts (start - 1) rs b"
  shows "accounts (seq - 1) (Missed seq (start - seq) ws # rs) b"
proof -
  have d: "unat (start - seq) = unat start - unat seq" using unat_add_diff [OF assms(2)] .
  have e: "seq - 1 + (start - seq) = start - 1" by simp
  have s0: "start \<noteq> 0" using assms(2) by auto
  have p: "unat (seq - 1) = unat seq - 1" "unat (start - 1) = unat start - 1" using unat_pred assms(1) s0 by blast+
  have "0 < unat seq" using assms(1) by (simp add: unat_gt_0)
  moreover have "0 < start - seq" using d assms(2) by (simp add: word_less_nat_alt)
  ultimately show ?thesis using d p assms(2,3) by (simp add: e)
qed

text \<open>A slot reported, or a gap reported, and then the rest of the run.\<close>

lemma report_then:
  assumes "zt_trace_snapshot_slot sn seq = ZT_TRACE_SLOT_READY e"
    and "zt_dump_one_trace_event os cfg call_symbols se (zt_trace_session_comm se) e seq st w = Some (st1, w1)"
    and "\<exists>rs. logged os cfg call_symbols se rs st1 st' \<and> accounts seq rs last'"
  shows "\<exists>rs. logged os cfg call_symbols se rs st st' \<and> accounts (seq - 1) rs last'"
proof -
  note r = snapshot_ready [OF assms(1)]
  obtain rs where rs: "logged os cfg call_symbols se rs st1 st'" "accounts seq rs last'" using assms(3) by blast
  have "0 < unat seq" using r(1) by (simp add: unat_gt_0)
  then have "accounts (seq - 1) (Reported seq e # rs) last'" using rs(2) r(2) unat_pred [OF r(1)] by simp
  with logged_Reported [OF assms(2) rs(1)] show ?thesis by blast
qed

lemma gap_then:
  assumes "\<exists>rs. logged os cfg call_symbols se rs (zt_trace_log_lost_events se seq (start - seq) ws st) st' \<and>
      accounts (start - 1) rs last'"
    and "seq \<noteq> 0" and "unat seq < unat start"
  shows "\<exists>rs. logged os cfg call_symbols se rs st st' \<and> accounts (seq - 1) rs last'"
  using assms(1) accounts_missed [OF assms(2,3)] logged_Missed by blast

lemma dump_loop_accounts:
  "zt_dump_loop os cfg call_symbols se a seq write_seq lst st sn w = Some ((ok, last', st'), w') \<Longrightarrow> lst = seq - 1 \<Longrightarrow>
     \<exists>rs. logged os cfg call_symbols se rs st st' \<and> accounts lst rs last'"
proof (induction os cfg call_symbols se a seq write_seq lst st sn w rule: zt_dump_loop.induct)
  case (1 os cfg call_symbols se a seq write_seq lst st sn w)
  note run = "1.prems"(1) [unfolded zt_dump_loop.simps [of os cfg call_symbols se a seq write_seq lst]]
  show ?case
  proof (cases "seq \<le> write_seq")
    case False
    then show ?thesis using run by (auto intro!: exI [of _ "[]"])
  next
    case le: True
    show ?thesis
    proof (cases "zt_trace_snapshot_slot sn seq")
      case (ZT_TRACE_SLOT_READY e)
      obtain st1 w1 where d: "zt_dump_one_trace_event os cfg call_symbols se (zt_trace_session_comm se) e seq st w = Some (st1, w1)"
        and l: "zt_dump_loop os cfg call_symbols se a (seq + 1) write_seq seq st1 sn w1 = Some ((ok, last', st'), w')"
        using run le ZT_TRACE_SLOT_READY by (auto split: option.splits)
      show ?thesis
        using report_then [OF ZT_TRACE_SLOT_READY d "1.IH"(1) [OF _ ZT_TRACE_SLOT_READY d _ l]] le "1.prems"(2) by simp
    next
      case ZT_TRACE_SLOT_PENDING
      then show ?thesis using run le by (auto intro!: exI [of _ "[]"])
    next
      case ZT_TRACE_SLOT_READ_ERROR
      then show ?thesis using run le by (auto intro!: exI [of _ "[]"])
    next
      case ov: ZT_TRACE_SLOT_OVERWRITTEN
      then have s0: "seq \<noteq> 0" using snapshot_nonzero [of sn seq] by simp
      obtain h w1 where h: "zt_trace_read_buffer_header os (se_pid se) a w = (h, w1)" by fastforce
      show ?thesis
      proof (cases "\<exists>fresh. h = Some fresh \<and> bh_magic fresh = ZT_TRACE_BUFFER_MAGIC \<and>
          bh_write_seq fresh \<ge> seq \<and> bh_write_seq fresh - seq \<ge> of_nat ZT_TRACE_EVENT_CAPACITY")
        case False
        then show ?thesis using run le ov h by (auto split: option.splits if_splits intro!: exI [of _ "[]"])
      next
        case True
        then obtain fresh where f: "h = Some fresh" "bh_magic fresh = ZT_TRACE_BUFFER_MAGIC"
          "bh_write_seq fresh \<ge> seq" "bh_write_seq fresh - seq \<ge> of_nat ZT_TRACE_EVENT_CAPACITY" by blast
        define start where "start = bh_write_seq fresh - of_nat ZT_TRACE_EVENT_CAPACITY + 1"
        define st1 where "st1 = zt_trace_log_lost_events se seq (start - seq) (bh_write_seq fresh) st"
        have lt: "unat seq < unat start" unfolding start_def by (rule lapped_start [OF f(3,4)])
        obtain q w2 where q: "zt_trace_refresh_event_snapshots os (se_pid se) a start (unat (bh_write_seq fresh - start + 1)) sn w1 = (q, w2)"
          by fastforce
        have "\<exists>rs. logged os cfg call_symbols se rs st1 st' \<and> accounts (start - 1) rs last'"
        proof (cases q)
          case None
          then show ?thesis
            using run le ov h f q unfolding start_def st1_def by (auto simp: Let_def intro!: exI [of _ "[]"])
        next
          case (Some sn1)
          have "zt_dump_loop os cfg call_symbols se a start (bh_write_seq fresh) (start - 1) st1 sn1 w2 = Some ((ok, last', st'), w')"
            using run le ov h f q Some unfolding start_def st1_def by (simp add: Let_def)
          then show ?thesis
            using "1.IH"(2) [OF _ ov h [symmetric] f(1)] le f(2-4) q Some unfolding start_def [symmetric] st1_def by (auto simp: Let_def start_def)
        qed
        then show ?thesis using gap_then [OF _ s0 lt] "1.prems"(2) unfolding st1_def by simp
      qed
    qed
  qed
qed

lemma dump_unfold:
  assumes "zt_trace_read_buffer_header os (se_pid se) a w = (Some header, w1)" and "bh_magic header = ZT_TRACE_BUFFER_MAGIC"
    and ws: "bh_write_seq header = ws" and "lst < ws"
    and seq: "seq = (if of_nat ZT_TRACE_EVENT_CAPACITY < ws - lst then ws - of_nat ZT_TRACE_EVENT_CAPACITY + 1 else lst + 1)"
    and st1: "st1 = (if of_nat ZT_TRACE_EVENT_CAPACITY < ws - lst then zt_trace_log_lost_events se (lst + 1) (seq - (lst + 1)) ws st else st)"
  shows "zt_dump_trace_events_since os cfg call_symbols se a lst st sn w =
    (case zt_trace_refresh_event_snapshots os (se_pid se) a seq (unat (ws - seq + 1)) sn w1 of
       (None, w2) \<Rightarrow> Some ((False, seq - 1, st1), w2)
     | (Some sn1, w2) \<Rightarrow> zt_dump_loop os cfg call_symbols se a seq ws (seq - 1) st1 sn1 w2)"
proof -
  have "\<not> (ws = 0 \<or> ws \<le> lst)" using assms(4) by auto
  then show ?thesis
    unfolding zt_dump_trace_events_since_def assms(1) using assms(2,3) seq st1
    by (cases "of_nat ZT_TRACE_EVENT_CAPACITY < ws - lst") (simp_all add: Let_def split: prod.split option.split)
qed

lemma lapped_next:
  assumes "lst < ws" and "of_nat ZT_TRACE_EVENT_CAPACITY < ws - (lst :: u64)"
  shows "lst + 1 \<noteq> 0" and "unat (lst + 1) < unat (ws - of_nat ZT_TRACE_EVENT_CAPACITY + 1)"
proof -
  have n: "unat (lst + 1) = unat lst + 1"
    using assms(1) unat64 [of ws] by (simp add: unat_word_ariths word_less_nat_alt)
  then show "lst + 1 \<noteq> 0" by auto
  have d: "unat (ws - lst) = unat ws - unat lst" using assms(1) by (simp add: unat_sub)
  have c: "4096 < unat (ws - lst)" using assms(2) by (simp add: ZT_TRACE_EVENT_CAPACITY_def word_less_nat_alt)
  have le: "lst + 1 \<le> ws" using n c d by (simp add: word_le_nat_alt)
  then have "unat (ws - (lst + 1)) = unat ws - (unat lst + 1)" using n by (simp add: unat_sub)
  then have "of_nat ZT_TRACE_EVENT_CAPACITY \<le> ws - (lst + 1)" using c d by (simp add: ZT_TRACE_EVENT_CAPACITY_def word_le_nat_alt)
  then show "unat (lst + 1) < unat (ws - of_nat ZT_TRACE_EVENT_CAPACITY + 1)" by (rule lapped_start [OF le])
qed

lemma dump_accounts:
  assumes "zt_dump_trace_events_since os cfg call_symbols se a lst st sn w = Some ((ok, last', st'), w')"
  shows "(\<exists>rs. logged os cfg call_symbols se rs st st' \<and> accounts lst rs last') \<or>
    \<not> ok \<and> last' = lst \<and> st' = log_put (''trace buffer magic mismatch'' @ [CHR 0x0A]) st"
proof -
  obtain h w1 where h: "zt_trace_read_buffer_header os (se_pid se) a w = (h, w1)" by fastforce
  show ?thesis
  proof (cases "\<exists>header. h = Some header \<and> bh_magic header = ZT_TRACE_BUFFER_MAGIC \<and> lst < bh_write_seq header")
    case False
    then show ?thesis
      using assms h by (auto simp: zt_dump_trace_events_since_def not_less split: option.splits if_splits intro!: exI [of _ "[]"])
  next
    case True
    then obtain header where f: "h = Some header" "bh_magic header = ZT_TRACE_BUFFER_MAGIC" "lst < bh_write_seq header" by blast
    define ws where "ws = bh_write_seq header"
    let ?lapped = "of_nat ZT_TRACE_EVENT_CAPACITY < ws - lst"
    define seq where "seq = (if ?lapped then ws - of_nat ZT_TRACE_EVENT_CAPACITY + 1 else lst + 1)"
    define st1 where "st1 = (if ?lapped then zt_trace_log_lost_events se (lst + 1) (seq - (lst + 1)) ws st else st)"
    note run = dump_unfold [OF h [unfolded f(1)] f(2) ws_def [symmetric] f(3) [folded ws_def] seq_def st1_def, of cfg call_symbols sn]
    obtain q w2 where q: "zt_trace_refresh_event_snapshots os (se_pid se) a seq (unat (ws - seq + 1)) sn w1 = (q, w2)" by fastforce
    have "\<exists>rs. logged os cfg call_symbols se rs st1 st' \<and> accounts (seq - 1) rs last'"
    proof (cases q)
      case None
      then show ?thesis using run assms q by (auto intro!: exI [of _ "[]"])
    next
      case (Some sn1)
      then show ?thesis
        using run assms q dump_loop_accounts [of os cfg call_symbols se a seq ws "seq - 1" st1 sn1 w2 ok last' st' w'] by simp
    qed
    note rest = this
    show ?thesis
    proof (cases ?lapped)
      case False
      then show ?thesis using rest by (simp add: st1_def seq_def)
    next
      case True
      note n = lapped_next [OF f(3) [folded ws_def] True]
      show ?thesis
        using gap_then [of os cfg call_symbols se "lst + 1" seq ws st st' last'] rest n True
        by (simp add: st1_def seq_def)
    qed
  qed
qed

section \<open>A quiet buffer\<close>

definition ring_event :: "(u64 \<Rightarrow> u8) \<Rightarrow> u64 \<Rightarrow> u64 \<Rightarrow> zt_trace_event_t" where
  "ring_event m a s = decode_event (fetch m (zt_trace_event_slot_addr a s) sizeof_zt_trace_event_t)"

lemma committed_ring_event: "ev_committed_seq (ring_event m a s) = load64 m (zt_trace_event_slot_addr a s)"
  by (simp add: ring_event_def decode_event_def word_at_def load64_def sizeof_zt_trace_event_t_def buf_get_fetch)

text \<open>Slots of the numbers of a range no longer than the ring.\<close>

lemma event_slot_add:
  assumes "start \<noteq> 0" and "unat start + k \<le> 2 ^ 64"
  shows "event_slot (start + of_nat k) = (unat start - 1 + k) mod ZT_TRACE_EVENT_CAPACITY"
proof -
  have p: "0 < unat start" using assms(1) by (simp add: unat_gt_0)
  have "unat (start - 1 + of_nat k) = unat start - 1 + k"
  proof -
    have "unat (start - 1) = unat start - 1" by (rule unat_pred [OF assms(1)])
    moreover have "unat (of_nat k :: u64) = k" using assms(2) p by (simp add: unat_of_nat)
    moreover have "unat start - 1 + k < 2 ^ 64" using assms(2) p by simp
    ultimately show ?thesis by (subst unat_add_lem [THEN iffD1]) simp_all
  qed
  moreover have "start + of_nat k - 1 = start - 1 + of_nat k" by simp
  ultimately show ?thesis unfolding event_slot_def by (simp only:)
qed

lemma mod_add_inj:
  assumes "(b + i) mod c = (b + j) mod (c :: nat)" and "i < c" "j < c"
  shows "i = j"
proof -
  have le: "x = y" if "x \<le> y" "(b + x) mod c = (b + y) mod c" "y < c" for x y
  proof -
    have "c dvd (b + y) - (b + x)" using that(1,2) mod_eq_dvd_iff_nat [of "b + x" "b + y" c] by simp
    then have "c dvd y - x" by simp
    then show ?thesis using that dvd_imp_le [of c "y - x"] by (cases "x = y") auto
  qed
  show ?thesis using le [of i j] le [of j i] assms by (cases "i \<le> j") auto
qed

lemma event_slot_inj:
  assumes s: "start \<noteq> 0" and n: "unat start + n \<le> 2 ^ 64" "n \<le> ZT_TRACE_EVENT_CAPACITY" and "i < n" "j < n"
    and "event_slot (start + of_nat i) = event_slot (start + of_nat j)"
  shows "i = j"
proof -
  have "(unat start - 1 + i) mod ZT_TRACE_EVENT_CAPACITY = (unat start - 1 + j) mod ZT_TRACE_EVENT_CAPACITY"
    using assms event_slot_add [OF s, of i] event_slot_add [OF s, of j] by simp
  then show ?thesis using mod_add_inj assms(3-5) by (meson less_le_trans)
qed

lemma commits_put_apply:
  assumes s: "first \<noteq> 0" and n: "unat first + n \<le> 2 ^ 64" "n \<le> ZT_TRACE_EVENT_CAPACITY"
  shows "i < n \<Longrightarrow> commits_put first n bs c (event_slot (first + of_nat i)) = word_at bs i"
    and "\<forall>i < n. j \<noteq> event_slot (first + of_nat i) \<Longrightarrow> commits_put first n bs c j = c j"
proof -
  have "(\<forall>i < k. commits_put first k bs c (event_slot (first + of_nat i)) = word_at bs i) \<and>
      (\<forall>j. (\<forall>i < k. j \<noteq> event_slot (first + of_nat i)) \<longrightarrow> commits_put first k bs c j = c j)" if "k \<le> n" for k
    using that
  proof (induction k)
    case (Suc k)
    have "event_slot (first + of_nat i) \<noteq> event_slot (first + of_nat k)" if "i < k" for i
      using event_slot_inj [OF s n, of i k] that Suc.prems by auto
    with Suc show ?case by (auto simp: commits_put_def less_Suc_eq)
  qed (simp add: commits_put_def)
  then show "i < n \<Longrightarrow> commits_put first n bs c (event_slot (first + of_nat i)) = word_at bs i"
    and "\<forall>i < n. j \<noteq> event_slot (first + of_nat i) \<Longrightarrow> commits_put first n bs c j = c j" by blast+
qed

lemma events_put_apply:
  "events_put slot n bs c j = (if slot \<le> j \<and> j < slot + n
     then decode_event (buf_get bs (sizeof_zt_trace_event_t * (j - slot)) sizeof_zt_trace_event_t) else c j)"
  by (induction n) (auto simp: events_put_def)

lemma buf_get_concat:
  assumes "\<forall>x \<in> set xs. length (f x) = m" and "i < length xs"
  shows "buf_get (concat (map f xs)) (m * i) m = f (xs ! i)"
  using assms
proof (induction xs arbitrary: i)
  case (Cons x xs)
  then show ?case by (cases i) (auto simp: buf_get_def)
qed simp

lemma iov_commits:
  assumes ok: "os_mem_ok os pid mem"
    and r: "zt_read_remote_iov os pid (map (\<lambda>i. (addr i, 8)) [0..<n]) (n * 8) w = (q, w')"
  shows "mem w' = mem w" and "q = Some bs \<Longrightarrow> i < n \<Longrightarrow> word_at bs i = load64 (mem w) (addr i)"
proof -
  let ?iov = "map (\<lambda>i. (addr i, 8)) [0..<n]"
  have e: "n * 8 = sum_list (map snd ?iov)" by (simp add: comp_def sum_list_triv)
  show "mem w' = mem w" by (rule zt_read_remote_iov_ok(1) [OF ok r e])
  assume "q = Some bs" and i: "i < n"
  then have "bs = concat (map (\<lambda>i. fetch (mem w) (addr i) 8) [0..<n])"
    using zt_read_remote_iov_ok(2) [OF ok r e] by (simp add: comp_def)
  then show "word_at bs i = load64 (mem w) (addr i)"
    using buf_get_concat [of "[0..<n]" "\<lambda>i. fetch (mem w) (addr i) 8" 8 i] i by (simp add: word_at_def load64_def)
qed

definition commits_hold :: "(u64 \<Rightarrow> u8) \<Rightarrow> u64 \<Rightarrow> u64 \<Rightarrow> nat \<Rightarrow> (nat \<Rightarrow> u64) \<Rightarrow> bool" where
  "commits_hold m a start k c \<longleftrightarrow>
     (\<forall>i < k. c (event_slot (start + of_nat i)) = load64 m (zt_trace_event_slot_addr a (start + of_nat i)))"

lemma commits_hold_put:
  assumes h: "commits_hold m a start k c" and s: "start \<noteq> 0" and n: "unat start + (k + b) \<le> 2 ^ 64" "k + b \<le> ZT_TRACE_EVENT_CAPACITY"
    and bs: "\<And>i. i < b \<Longrightarrow> word_at bs i = load64 m (zt_trace_event_slot_addr a (start + of_nat k + of_nat i))"
  shows "commits_hold m a start (k + b) (commits_put (start + of_nat k) b bs c)"
  unfolding commits_hold_def
proof (intro allI impI)
  fix i
  assume i: "i < k + b"
  show "commits_put (start + of_nat k) b bs c (event_slot (start + of_nat i)) = load64 m (zt_trace_event_slot_addr a (start + of_nat i))"
  proof (cases "b = 0")
    case True
    then show ?thesis using h i by (simp add: commits_hold_def commits_put_def)
  next
    case False
    then have k: "unat start + k < 2 ^ 64" using n(1) by simp
    then have u: "unat (start + of_nat k) = unat start + k" by (simp add: unat_word_ariths unat_of_nat)
    have f: "start + of_nat k \<noteq> 0" using u s by (metis add_is_0 unat_0 unat_eq_0)
    have fn: "unat (start + of_nat k) + b \<le> 2 ^ 64" "b \<le> ZT_TRACE_EVENT_CAPACITY" using n u by simp_all
    show ?thesis
    proof (cases "i < k")
      case True
      have "event_slot (start + of_nat i) \<noteq> event_slot (start + of_nat k + of_nat j)" if "j < b" for j
        using event_slot_inj [OF s n, of i "k + j"] True that by (auto simp: add.assoc)
      then show ?thesis using commits_put_apply(2) [OF f fn] h True by (simp add: commits_hold_def)
    next
      case False
      then have e: "start + of_nat i = start + of_nat k + of_nat (i - k)" by simp
      show ?thesis unfolding e using commits_put_apply(1) [OF f fn, of "i - k"] bs [of "i - k"] False i by simp
    qed
  qed
qed

lemma commit_batches_ok:
  fixes os :: "('r, 'w) os"
  assumes s: "start \<noteq> 0" and n: "unat start + count \<le> 2 ^ 64" "count \<le> ZT_TRACE_EVENT_CAPACITY"
  shows "zt_commit_batches os pid a start count offset c w = (Some c', w') \<Longrightarrow> os_mem_ok os pid mem \<Longrightarrow>
    commits_hold (mem w) a start (min offset count) c \<Longrightarrow> mem w' = mem w \<and> commits_hold (mem w) a start count c'"
  using s n
proof (induction os pid a start count offset c w rule: zt_commit_batches.induct)
  case (1 os pid a start count offset c w)
  note run = "1.prems"(1) [unfolded zt_commit_batches.simps [of os pid a start count offset c w]]
  show ?case
  proof (cases "offset < count")
    case False
    then show ?thesis using run "1.prems"(3) by simp
  next
    case True
    define b where "b = min (count - offset) ZT_TRACE_READ_IOV_MAX"
    let ?first = "start + of_nat offset"
    let ?iov = "map (\<lambda>i. (zt_trace_event_slot_addr a (?first + of_nat i), 8)) [0..<b]"
    obtain bs w1 where q: "zt_read_remote_iov os pid ?iov (b * 8) w = (Some bs, w1)"
      and l: "zt_commit_batches os pid a start count (offset + ZT_TRACE_READ_IOV_MAX) (commits_put ?first b bs c) w1 = (Some c', w')"
      using run True by (auto simp: Let_def b_def [symmetric] split: option.splits prod.splits)
    note io = iov_commits [OF "1.prems"(2) q]
    have "commits_hold (mem w) a start (offset + b) (commits_put ?first b bs c)"
    proof (rule commits_hold_put)
      show "commits_hold (mem w) a start offset c" using "1.prems"(3) True by simp
      show "unat start + (offset + b) \<le> 2 ^ 64" "offset + b \<le> ZT_TRACE_EVENT_CAPACITY"
        using "1.prems"(5,6) True by (simp_all add: b_def)
    qed (use "1.prems"(4) io(2) in simp_all)
    moreover have "offset + b = min (offset + ZT_TRACE_READ_IOV_MAX) count" using True by (simp add: b_def)
    ultimately show ?thesis
      using "1.IH" [OF True b_def refl refl q [symmetric] refl l "1.prems"(2)] io(1) "1.prems"(4-6) by simp
  qed
qed

definition events_hold :: "(u64 \<Rightarrow> u8) \<Rightarrow> u64 \<Rightarrow> u64 \<Rightarrow> nat \<Rightarrow> (nat \<Rightarrow> zt_trace_event_t) \<Rightarrow> bool" where
  "events_hold m a start k c \<longleftrightarrow> (\<forall>i < k. c (event_slot (start + of_nat i)) = ring_event m a (start + of_nat i))"

text \<open>The events of one contiguous run of slots.\<close>

lemma run_events:
  assumes s: "seq \<noteq> 0" and n: "unat seq + r \<le> 2 ^ 64" and r: "event_slot seq + r \<le> ZT_TRACE_EVENT_CAPACITY"
    and bs: "bs = fetch m (zt_trace_event_slot_addr a seq) (r * sizeof_zt_trace_event_t)" and i: "i < r"
  shows "event_slot (seq + of_nat i) = event_slot seq + i"
    and "events_put (event_slot seq) r bs c (event_slot seq + i) = ring_event m a (seq + of_nat i)"
proof -
  have es: "event_slot seq = (unat seq - 1) mod ZT_TRACE_EVENT_CAPACITY" using unat_pred [OF s] by (simp add: event_slot_def)
  have "event_slot (seq + of_nat i) = (unat seq - 1 + i) mod ZT_TRACE_EVENT_CAPACITY"
    by (rule event_slot_add [OF s]) (use n i in simp)
  also have "\<dots> = ((unat seq - 1) mod ZT_TRACE_EVENT_CAPACITY + i) mod ZT_TRACE_EVENT_CAPACITY" by (simp add: mod_simps)
  also have "\<dots> = event_slot seq + i" using r i unfolding es by simp
  finally show e: "event_slot (seq + of_nat i) = event_slot seq + i" .
  have u: "unat (of_nat i :: u64) = i" using n i unat_gt_0 [of seq] s by (simp add: unat_of_nat)
  have n0: "seq + of_nat i \<noteq> 0"
  proof -
    have "unat (seq + of_nat i) = unat seq + i" using u n i by (subst unat_add_lem [THEN iffD1]) simp_all
    then show ?thesis using s by (metis add_is_0 unat_0 unat_eq_0)
  qed
  have a: "zt_trace_event_slot_addr a (seq + of_nat i) = zt_trace_event_slot_addr a seq + of_nat (sizeof_zt_trace_event_t * i)"
    using s n0 by (simp add: zt_trace_event_slot_addr_def e algebra_simps)
  have "sizeof_zt_trace_event_t * i + sizeof_zt_trace_event_t \<le> r * sizeof_zt_trace_event_t"
    using mult_le_mono1 [of "i + 1" r sizeof_zt_trace_event_t] i by (simp add: algebra_simps)
  then have "buf_get bs (sizeof_zt_trace_event_t * i) sizeof_zt_trace_event_t =
      fetch m (zt_trace_event_slot_addr a (seq + of_nat i)) sizeof_zt_trace_event_t"
    unfolding bs a by (rule buf_get_fetch)
  then show "events_put (event_slot seq) r bs c (event_slot seq + i) = ring_event m a (seq + of_nat i)"
    using i by (simp add: events_put_apply ring_event_def)
qed

text \<open>One run of \<open>r\<close> slots, followed by a rest that leaves the slots of the run alone.\<close>

lemma run_then_rest:
  assumes s: "seq \<noteq> 0" and n: "unat seq + n < 2 ^ 64" "n \<le> ZT_TRACE_EVENT_CAPACITY"
    and r: "r \<le> n" "event_slot seq + r \<le> ZT_TRACE_EVENT_CAPACITY"
    and bs: "bs = fetch m (zt_trace_event_slot_addr a seq) (r * sizeof_zt_trace_event_t)"
    and rest: "events_hold m a (seq + of_nat r) (n - r) c'"
      "\<And>j. \<forall>i < n - r. j \<noteq> event_slot (seq + of_nat r + of_nat i) \<Longrightarrow> c' j = events_put (event_slot seq) r bs c j"
  shows "events_hold m a seq n c'" and "\<forall>i < n. j \<noteq> event_slot (seq + of_nat i) \<Longrightarrow> c' j = c j"
proof -
  note R = run_events [OF s _ r(2) bs]
  have n1: "unat seq + r \<le> 2 ^ 64" using n(1) r(1) by simp
  have later: "seq + of_nat r + of_nat (i - r) = seq + of_nat i" if "r \<le> i" for i using that by simp
  have "c' (event_slot (seq + of_nat i)) = ring_event m a (seq + of_nat i)" if i: "i < n" for i
  proof (cases "i < r")
    case True
    have "event_slot (seq + of_nat i) \<noteq> event_slot (seq + of_nat r + of_nat k)" if "k < n - r" for k
      using event_slot_inj [OF s _ n(2), of i "r + k"] n(1) True i that less_diff_conv [of k n r]
      by (auto simp: add.assoc add.commute [of k r])
    then have "c' (event_slot (seq + of_nat i)) = events_put (event_slot seq) r bs c (event_slot (seq + of_nat i))"
      using rest(2) by blast
    then show ?thesis using R [OF n1 True] by simp
  next
    case False
    then show ?thesis using rest(1) i later [of i] unfolding events_hold_def by (metis diff_less_mono not_less)
  qed
  then show "events_hold m a seq n c'" by (simp add: events_hold_def)
  assume j: "\<forall>i < n. j \<noteq> event_slot (seq + of_nat i)"
  have "j \<noteq> event_slot (seq + of_nat r + of_nat i)" if "i < n - r" for i
    using j that later [of "r + i"] r(1) by (metis add.commute add_diff_cancel_left' le_add1 less_diff_conv)
  then have "c' j = events_put (event_slot seq) r bs c j" using rest(2) by blast
  moreover have "\<not> (event_slot seq \<le> j \<and> j < event_slot seq + r)"
  proof
    assume a: "event_slot seq \<le> j \<and> j < event_slot seq + r"
    then have "event_slot (seq + of_nat (j - event_slot seq)) = event_slot seq + (j - event_slot seq)"
      by (intro R(1) [OF n1]) linarith
    then have "event_slot (seq + of_nat (j - event_slot seq)) = j" using a by (simp only: le_add_diff_inverse)
    then show False using j a r(1) by (metis add.commute less_diff_conv2 less_le_trans)
  qed
  ultimately show "c' j = c j" by (simp add: events_put_apply)
qed

lemma event_runs_ok:
  fixes os :: "('r, 'w) os"
  shows "zt_event_runs os pid a seq n c w = (Some c', w') \<Longrightarrow> os_mem_ok os pid mem \<Longrightarrow>
    seq \<noteq> 0 \<or> n = 0 \<Longrightarrow> unat seq + n < 2 ^ 64 \<Longrightarrow> n \<le> ZT_TRACE_EVENT_CAPACITY \<Longrightarrow>
    mem w' = mem w \<and> events_hold (mem w) a seq n c' \<and> (\<forall>j. (\<forall>i < n. j \<noteq> event_slot (seq + of_nat i)) \<longrightarrow> c' j = c j)"
proof (induction os pid a seq n c w rule: zt_event_runs.induct)
  case (1 os pid a seq n c w)
  note run = "1.prems"(1) [unfolded zt_event_runs.simps [of os pid a seq n c w]]
  show ?case
  proof (cases "0 < n")
    case False
    then show ?thesis using run by (simp add: events_hold_def)
  next
    case True
    define r where "r = min (ZT_TRACE_EVENT_CAPACITY - event_slot seq) n"
    have slot: "event_slot seq < ZT_TRACE_EVENT_CAPACITY" by (simp add: event_slot_def ZT_TRACE_EVENT_CAPACITY_def)
    have r: "0 < r" "r \<le> n" "event_slot seq + r \<le> ZT_TRACE_EVENT_CAPACITY" using True slot by (auto simp: r_def)
    have s: "seq \<noteq> 0" using "1.prems"(3) True by simp
    obtain bs w1 where q: "zt_read_remote_memory os pid (zt_trace_event_slot_addr a seq) (r * sizeof_zt_trace_event_t) w = (Some bs, w1)"
      and l: "zt_event_runs os pid a (seq + of_nat r) (n - r) (events_put (event_slot seq) r bs c) w1 = (Some c', w')"
      using run True by (auto simp: Let_def r_def [symmetric] split: option.splits prod.splits)
    have m1: "mem w1 = mem w" by (rule rm.rd_mem [OF "1.prems"(2) q])
    have bs: "bs = fetch (mem w) (zt_trace_event_slot_addr a seq) (r * sizeof_zt_trace_event_t)" by (rule rm.rd_Some [OF "1.prems"(2) q])
    have u: "unat (seq + of_nat r) = unat seq + r"
      using "1.prems"(4) r(2) by (simp add: unat_word_ariths unat_of_nat)
    then have s1: "seq + of_nat r \<noteq> 0" using s by (metis add_is_0 unat_0 unat_eq_0)
    have IH: "mem w' = mem w1" "events_hold (mem w1) a (seq + of_nat r) (n - r) c'"
      "\<And>j. \<forall>i < n - r. j \<noteq> event_slot (seq + of_nat r + of_nat i) \<Longrightarrow> c' j = events_put (event_slot seq) r bs c j"
      using "1.IH" [OF True refl r_def q [symmetric] refl l "1.prems"(2)] s1 u "1.prems"(4,5) r(2) by auto
    show ?thesis
      using run_then_rest [OF s "1.prems"(4,5) r(2,3) bs, of c'] IH m1 by simp
  qed
qed

lemma refresh_ok:
  assumes ok: "os_mem_ok os pid mem" and s: "start \<noteq> 0" and n: "0 < n" "unat start + n < 2 ^ 64" "n \<le> ZT_TRACE_EVENT_CAPACITY"
    and r: "zt_trace_refresh_event_snapshots os pid a start n sn w = (Some sn', w')"
  shows "commits_hold (mem w) a start n (g_commit_before sn')" "events_hold (mem w) a start n (g_event_snapshot sn')"
    "commits_hold (mem w) a start n (g_commit_after sn')"
proof -
  obtain before events after w1 w2 where
    b: "zt_commit_batches os pid a start n 0 (g_commit_before sn) w = (Some before, w1)"
    and e: "zt_event_runs os pid a start n (g_event_snapshot sn) w1 = (Some events, w2)"
    and af: "zt_commit_batches os pid a start n 0 (g_commit_after sn) w2 = (Some after, w')"
    and sn': "sn' = \<lparr>g_event_snapshot = events, g_commit_before = before, g_commit_after = after\<rparr>"
    using r s n
    by (auto simp: zt_trace_refresh_event_snapshots_def zt_trace_read_commit_snapshot_def zt_trace_read_event_snapshot_def
        split: option.splits prod.splits)
  have le: "unat start + n \<le> 2 ^ 64" using n(2) by simp
  have h0: "commits_hold m a start (min 0 n) c" for m c by (simp add: commits_hold_def)
  note B = commit_batches_ok [OF s le n(3) b ok h0]
  note E = event_runs_ok [OF e ok _ n(2,3)]
  note F = commit_batches_ok [OF s le n(3) af ok h0]
  show "commits_hold (mem w) a start n (g_commit_before sn')" "events_hold (mem w) a start n (g_event_snapshot sn')"
    "commits_hold (mem w) a start n (g_commit_after sn')" using B E F s by (simp_all add: sn')
qed

lemma loop_ready:
  assumes "\<forall>i < n. zt_trace_snapshot_slot sn (seq + of_nat i) = ZT_TRACE_SLOT_READY (ev (seq + of_nat i))"
    and "unat seq + n = unat ws + 1" and "unat ws < 2 ^ 64 - 1"
    and "zt_dump_loop os cfg call_symbols se a seq ws (seq - 1) st sn w = Some ((ok, last', st'), w')"
  shows "ok \<and> last' = ws \<and> logged os cfg call_symbols se (map (\<lambda>i. Reported (seq + of_nat i) (ev (seq + of_nat i))) [0..<n]) st st'"
  using assms
proof (induction n arbitrary: seq st w)
  case 0
  have u: "unat (ws + 1) = unat ws + 1" using 0(3) by (simp add: unat_word_ariths)
  then have sq: "seq = ws + 1" using 0(2) by (simp add: word_unat_eq_iff)
  have "\<not> seq \<le> ws" using u by (simp add: sq word_le_nat_alt)
  then have "Some ((True, seq - 1, st), w) = Some ((ok, last', st'), w')"
    using 0(4) zt_dump_loop.simps [of os cfg call_symbols se a seq ws "seq - 1" st sn w] by (simp only: if_True simp_thms)
  then show ?case by (auto simp: sq)
next
  case (Suc n)
  have le: "seq \<le> ws" using Suc.prems(2) by (simp add: word_le_nat_alt)
  have r: "zt_trace_snapshot_slot sn seq = ZT_TRACE_SLOT_READY (ev seq)" using Suc.prems(1) [rule_format, of 0] by simp
  obtain st1 w1 where d: "zt_dump_one_trace_event os cfg call_symbols se (zt_trace_session_comm se) (ev seq) seq st w = Some (st1, w1)"
    and l: "zt_dump_loop os cfg call_symbols se a (seq + 1) ws seq st1 sn w1 = Some ((ok, last', st'), w')"
    using Suc.prems(4) [unfolded zt_dump_loop.simps [of os cfg call_symbols se a seq ws "seq - 1" st sn w]] le r
    by (auto split: option.splits)
  have u: "unat (seq + 1) = unat seq + 1" using Suc.prems(2,3) by (simp add: unat_word_ariths)
  have sh: "seq + 1 + of_nat i = seq + of_nat (Suc i)" for i by simp
  have "ok \<and> last' = ws \<and> logged os cfg call_symbols se (map (\<lambda>i. Reported (seq + 1 + of_nat i) (ev (seq + 1 + of_nat i))) [0..<n]) st1 st'"
  proof (rule Suc.IH)
    show "\<forall>i < n. zt_trace_snapshot_slot sn (seq + 1 + of_nat i) = ZT_TRACE_SLOT_READY (ev (seq + 1 + of_nat i))"
      unfolding sh using Suc.prems(1) by blast
    show "unat (seq + 1) + n = unat ws + 1" using Suc.prems(2) u by simp
  qed (use Suc.prems(3) l in simp_all)
  moreover have "map (\<lambda>i. Reported (seq + of_nat i) (ev (seq + of_nat i))) [0..<Suc n] =
      Reported seq (ev seq) # map (\<lambda>i. Reported (seq + 1 + of_nat i) (ev (seq + 1 + of_nat i))) [0..<n]"
    unfolding sh by (simp add: upt_conv_Cons map_Suc_upt [symmetric] comp_def del: upt_Suc of_nat_Suc)
  ultimately show ?case using logged_Reported [OF d] by simp
qed

text \<open>
  The buffer at \<open>a\<close> holds committed events up to number \<open>ws\<close>, as many as the ring keeps, and
  no event is being written.
\<close>

definition ring_ok :: "(u64 \<Rightarrow> u8) \<Rightarrow> u64 \<Rightarrow> u64 \<Rightarrow> bool" where
  "ring_ok m a ws \<longleftrightarrow> a \<noteq> 0 \<and> load64 m a = ZT_TRACE_BUFFER_MAGIC \<and> load64 m (a + 8) = ws \<and>
     (\<forall>s. 0 < s \<and> s \<le> ws \<and> ws - s < of_nat ZT_TRACE_EVENT_CAPACITY \<longrightarrow> load64 m (zt_trace_event_slot_addr a s) = s)"

lemma read_header_ok:
  assumes "os_mem_ok os pid mem" and "zt_trace_read_buffer_header os pid a w = (Some h, w')"
  shows "bh_magic h = load64 (mem w) a" "bh_write_seq h = load64 (mem w) (a + 8)" "mem w' = mem w"
proof -
  obtain bs where r: "zt_read_remote_memory os pid a 16 w = (Some bs, w')"
    and h: "h = \<lparr>bh_magic = word_at bs 0, bh_write_seq = word_at bs 1\<rparr>"
    using assms(2) by (auto simp: zt_trace_read_buffer_header_def split: if_splits option.splits prod.splits)
  have bs: "bs = fetch (mem w) a 16" by (rule rm.rd_Some [OF assms(1) r])
  show "bh_magic h = load64 (mem w) a" "bh_write_seq h = load64 (mem w) (a + 8)"
    by (simp_all add: h bs word_at_def load64_def buf_get_fetch)
  show "mem w' = mem w" by (rule rm.rd_mem [OF assms(1) r])
qed

text \<open>The first number a dump behind \<open>lst\<close> can still find.\<close>

definition first_kept :: "u64 \<Rightarrow> u64 \<Rightarrow> u64" where
  "first_kept lst ws = (if of_nat ZT_TRACE_EVENT_CAPACITY < ws - lst then ws - of_nat ZT_TRACE_EVENT_CAPACITY + 1 else lst + 1)"

lemma first_kept:
  assumes "lst < ws" and "unat ws < 2 ^ 64 - 1"
  shows "first_kept lst ws \<noteq> 0" "unat (ws - first_kept lst ws + 1) \<le> ZT_TRACE_EVENT_CAPACITY"
    "unat (first_kept lst ws) + unat (ws - first_kept lst ws + 1) = unat ws + 1" "0 < unat (ws - first_kept lst ws + 1)"
proof -
  let ?f = "first_kept lst ws"
  have c: "unat (of_nat ZT_TRACE_EVENT_CAPACITY :: u64) = 4096" by (simp add: ZT_TRACE_EVENT_CAPACITY_def)
  have d: "unat (ws - lst) = unat ws - unat lst" using assms(1) by (simp add: unat_sub)
  have l: "unat lst < unat ws" using assms(1) by (simp add: word_less_nat_alt)
  have f: "unat ?f = (if 4096 < unat ws - unat lst then unat ws - 4096 + 1 else unat lst + 1)"
  proof (cases "of_nat ZT_TRACE_EVENT_CAPACITY < ws - lst")
    case True
    then have g: "4096 < unat ws - unat lst" using c d by (simp add: word_less_nat_alt)
    then have "of_nat ZT_TRACE_EVENT_CAPACITY \<le> ws" using c by (simp add: word_le_nat_alt)
    then have "unat (ws - of_nat ZT_TRACE_EVENT_CAPACITY) = unat ws - 4096" using c by (simp add: unat_sub)
    then have "unat (ws - of_nat ZT_TRACE_EVENT_CAPACITY + 1) = unat ws - 4096 + 1"
      using assms(2) by (subst unat_add_lem [THEN iffD1]) simp_all
    then show ?thesis using True g by (simp add: first_kept_def)
  next
    case False
    then have g: "\<not> 4096 < unat ws - unat lst" using c d by (simp add: word_less_nat_alt)
    have "unat (lst + 1) = unat lst + 1" using l assms(2) by (subst unat_add_lem [THEN iffD1]) simp_all
    then show ?thesis using False g by (simp add: first_kept_def)
  qed
  then show "?f \<noteq> 0" by (metis Suc_eq_plus1 nat.distinct(1) unat_0)
  have fw: "?f \<le> ws" using f l by (simp add: word_le_nat_alt split: if_splits)
  have "unat (ws - ?f) = unat ws - unat ?f" using fw by (simp add: unat_sub)
  then have n: "unat (ws - ?f + 1) = unat ws - unat ?f + 1" using assms(2) by (subst unat_add_lem [THEN iffD1]) simp_all
  show "unat (ws - ?f + 1) \<le> ZT_TRACE_EVENT_CAPACITY" using n f l by (auto simp: ZT_TRACE_EVENT_CAPACITY_def split: if_splits)
  show "unat ?f + unat (ws - ?f + 1) = unat ws + 1" "0 < unat (ws - ?f + 1)" using n fw by (simp_all add: word_le_nat_alt)
qed

lemma quiet_ready:
  assumes ring: "ring_ok m a ws" and s: "start \<noteq> 0" and n: "n \<le> ZT_TRACE_EVENT_CAPACITY" "unat start + n = unat ws + 1" "unat ws < 2 ^ 64 - 1"
    and h: "commits_hold m a start n (g_commit_before sn)" "events_hold m a start n (g_event_snapshot sn)" "commits_hold m a start n (g_commit_after sn)"
    and i: "i < n"
  shows "zt_trace_snapshot_slot sn (start + of_nat i) = ZT_TRACE_SLOT_READY (ring_event m a (start + of_nat i))"
proof -
  let ?s = "start + of_nat i"
  have u: "unat ?s = unat start + i" using n i by (simp add: unat_word_ariths unat_of_nat)
  have "0 < unat ?s" using u s by (simp add: unat_gt_0)
  then have s0: "0 < ?s" by (simp add: word_less_nat_alt)
  have le: "?s \<le> ws" using u n i by (simp add: word_le_nat_alt)
  have "unat (ws - ?s) = unat ws - (unat start + i)" using le u by (simp add: unat_sub)
  then have "ws - ?s < of_nat ZT_TRACE_EVENT_CAPACITY" using n i by (simp add: word_less_nat_alt ZT_TRACE_EVENT_CAPACITY_def)
  then have c: "load64 m (zt_trace_event_slot_addr a ?s) = ?s" using ring s0 le unfolding ring_ok_def by blast
  have e: "g_event_snapshot sn (event_slot ?s) = ring_event m a ?s" "g_commit_before sn (event_slot ?s) = ?s" "g_commit_after sn (event_slot ?s) = ?s"
    using h i c by (simp_all add: commits_hold_def events_hold_def)
  show ?thesis using s0 e c by (simp add: zt_trace_snapshot_slot_def Let_def committed_ring_event)
qed

lemma quiet_dump:
  assumes ok: "os_mem_ok os (se_pid se) mem" and ring: "ring_ok (mem w) a ws" and ws: "lst < ws" "unat ws < 2 ^ 64 - 1"
    and run: "zt_dump_trace_events_since os cfg call_symbols se a lst st sn w = Some ((True, last', st'), w')"
  shows "last' = ws \<and> logged os cfg call_symbols se
    ((if of_nat ZT_TRACE_EVENT_CAPACITY < ws - lst then [Missed (lst + 1) (first_kept lst ws - (lst + 1)) ws] else []) @
     map (\<lambda>i. Reported (first_kept lst ws + of_nat i) (ring_event (mem w) a (first_kept lst ws + of_nat i)))
       [0..<unat (ws - first_kept lst ws + 1)]) st st'"
proof -
  let ?f = "first_kept lst ws" and ?lapped = "of_nat ZT_TRACE_EVENT_CAPACITY < ws - lst"
  note f = first_kept [OF ws]
  obtain h w1 where h: "zt_trace_read_buffer_header os (se_pid se) a w = (h, w1)" by fastforce
  then obtain header where hd: "h = Some header" using run by (cases h) (simp_all add: zt_dump_trace_events_since_def)
  note H = read_header_ok [OF ok h [unfolded hd]]
  have mag: "bh_magic header = ZT_TRACE_BUFFER_MAGIC" and wseq: "bh_write_seq header = ws" using H ring by (simp_all add: ring_ok_def)
  define st1 where "st1 = (if ?lapped then zt_trace_log_lost_events se (lst + 1) (?f - (lst + 1)) ws st else st)"
  note unf = dump_unfold [OF h [unfolded hd] mag wseq ws(1) first_kept_def st1_def, of cfg call_symbols sn]
  obtain q w2 where q: "zt_trace_refresh_event_snapshots os (se_pid se) a ?f (unat (ws - ?f + 1)) sn w1 = (q, w2)" by fastforce
  then obtain sn1 where sn1: "q = Some sn1" using run unf by (cases q) simp_all
  have l: "zt_dump_loop os cfg call_symbols se a ?f ws (?f - 1) st1 sn1 w2 = Some ((True, last', st'), w')"
    using run unf q sn1 by simp
  have n: "unat ?f + unat (ws - ?f + 1) < 2 ^ 64" using f(3) ws(2) by simp
  note R = refresh_ok [OF ok f(1,4) n f(2) q [unfolded sn1], unfolded H(3)]
  have "True \<and> last' = ws \<and> logged os cfg call_symbols se
      (map (\<lambda>i. Reported (?f + of_nat i) (ring_event (mem w) a (?f + of_nat i))) [0..<unat (ws - ?f + 1)]) st1 st'"
    by (rule loop_ready [OF _ f(3) ws(2) l]) (use quiet_ready [OF ring f(1) f(2) f(3) ws(2) R] in blast)
  then show ?thesis using logged_Missed by (auto simp: st1_def)
qed

section \<open>When the reads succeed\<close>

definition reads_succeed :: "('r, 'w) os \<Rightarrow> int \<Rightarrow> bool" where
  "reads_succeed os pid \<longleftrightarrow> (\<forall>iov w. \<exists>bs w'. os_vm_readv os pid iov w = (Some bs, w') \<and> length bs = sum_list (map snd iov))"

lemma read_memory_succeeds:
  assumes "reads_succeed os pid" and "0 < n"
  obtains bs w' where "zt_read_remote_memory os pid a n w = (Some bs, w')"
proof -
  obtain bs w' where "os_vm_readv os pid [(a, n)] w = (Some bs, w')" "length bs = n"
    using assms(1) unfolding reads_succeed_def by fastforce
  then show thesis using that assms(2) by (simp add: zt_read_remote_memory_def)
qed

lemma read_iov_succeeds:
  assumes "reads_succeed os pid" and "iov \<noteq> []" and "n = sum_list (map snd iov)"
  obtains bs w' where "zt_read_remote_iov os pid iov n w = (Some bs, w')"
proof -
  obtain bs w' where "os_vm_readv os pid iov w = (Some bs, w')" "length bs = n"
    using assms unfolding reads_succeed_def by blast
  then show thesis using that assms(2) by (cases "n = 0") (simp_all add: zt_read_remote_iov_def)
qed

lemma commit_batches_succeed:
  "reads_succeed os pid \<Longrightarrow> \<exists>c' w'. zt_commit_batches os pid a start n offset c w = (Some c', w')"
proof (induction os pid a start n offset c w rule: zt_commit_batches.induct)
  case (1 os pid a start n offset c w)
  show ?case
  proof (cases "offset < n")
    case False
    then show ?thesis by (subst zt_commit_batches.simps) simp
  next
    case True
    define b where "b = min (n - offset) ZT_TRACE_READ_IOV_MAX"
    let ?iov = "map (\<lambda>i. (zt_trace_event_slot_addr a (start + of_nat offset + of_nat i), 8 :: nat)) [0..<b]"
    have "b * 8 = sum_list (map snd ?iov)" by (simp add: comp_def sum_list_triv)
    moreover have "?iov \<noteq> []" using True by (simp add: b_def ZT_TRACE_READ_IOV_MAX_def)
    ultimately obtain bs w1 where q: "zt_read_remote_iov os pid ?iov (b * 8) w = (Some bs, w1)"
      using read_iov_succeeds [OF "1.prems"] by metis
    from "1.IH" [OF True b_def refl refl q [symmetric] refl "1.prems"] show ?thesis
      using True q by (subst zt_commit_batches.simps) (simp add: Let_def b_def [symmetric])
  qed
qed

lemma event_runs_succeed:
  "reads_succeed os pid \<Longrightarrow> \<exists>c' w'. zt_event_runs os pid a seq n c w = (Some c', w')"
proof (induction os pid a seq n c w rule: zt_event_runs.induct)
  case (1 os pid a seq n c w)
  show ?case
  proof (cases "0 < n")
    case False
    then show ?thesis by (subst zt_event_runs.simps) simp
  next
    case True
    define r where "r = min (ZT_TRACE_EVENT_CAPACITY - event_slot seq) n"
    have "event_slot seq < ZT_TRACE_EVENT_CAPACITY" by (simp add: event_slot_def ZT_TRACE_EVENT_CAPACITY_def)
    then have "0 < r * sizeof_zt_trace_event_t" using True by (simp add: r_def sizeof_zt_trace_event_t_def)
    then obtain bs w1 where q: "zt_read_remote_memory os pid (zt_trace_event_slot_addr a seq) (r * sizeof_zt_trace_event_t) w = (Some bs, w1)"
      using read_memory_succeeds [OF "1.prems"] by metis
    from "1.IH" [OF True refl r_def q [symmetric] refl "1.prems"] show ?thesis
      using True q by (subst zt_event_runs.simps) (simp add: Let_def r_def [symmetric])
  qed
qed

lemma refresh_succeeds:
  assumes "reads_succeed os pid" and "start \<noteq> 0" and "n \<le> ZT_TRACE_EVENT_CAPACITY"
  obtains sn' w' where "zt_trace_refresh_event_snapshots os pid a start n sn w = (Some sn', w')"
proof -
  obtain b w1 where 1: "zt_commit_batches os pid a start n 0 (g_commit_before sn) w = (Some b, w1)"
    using commit_batches_succeed [OF assms(1)] by blast
  obtain e w2 where 2: "zt_event_runs os pid a start n (g_event_snapshot sn) w1 = (Some e, w2)"
    using event_runs_succeed [OF assms(1)] by blast
  obtain c w3 where 3: "zt_commit_batches os pid a start n 0 (g_commit_after sn) w2 = (Some c, w3)"
    using commit_batches_succeed [OF assms(1)] by blast
  show thesis
    using that 1 2 3 assms(2,3)
    by (cases "n = 0") (simp_all add: zt_trace_refresh_event_snapshots_def zt_trace_read_commit_snapshot_def zt_trace_read_event_snapshot_def)
qed

text \<open>Without variadic signatures the formatter has a result for every event.\<close>

lemma format_defined:
  assumes "\<forall>sig \<in> set (g_sig_table cfg). \<not> sg_variadic sig"
  shows "\<exists>r. zt_format_trace_event_with_sig os cfg pid probe entry e n w = Some r"
proof (cases "zt_sigconf_find cfg (tgt_symbol (pi_target probe))")
  case None
  then show ?thesis by (simp add: zt_format_trace_event_with_sig_def)
next
  case (Some sig)
  then have "sig \<in> set (g_sig_table cfg)" unfolding zt_sigconf_find_def by (metis find_Some_iff nth_mem)
  then have "\<not> sg_variadic sig" using assms by blast
  then have "\<exists>r. zt_format_entry os pid sig s e n w = Some r" for s
    by (auto simp: zt_format_entry_def Let_def split: option.splits prod.splits)
  then show ?thesis using Some by (simp add: zt_format_trace_event_with_sig_def)
qed

lemma dump_one_defined:
  assumes "\<forall>sig \<in> set (g_sig_table cfg). \<not> sg_variadic sig"
  obtains st' w' where "zt_dump_one_trace_event os cfg call_symbols se comm e seq st w = Some (st', w')"
proof -
  have f: "zt_format_trace_event_with_sig os cfg pid probe entry e n w \<noteq> None" for pid probe entry n
    using format_defined [OF assms, of os pid probe entry e n w] by auto
  have "zt_dump_one_trace_event os cfg call_symbols se comm e seq st w \<noteq> None"
    by (simp add: zt_dump_one_trace_event_def Let_def f bind_eq_None_conv del: not_None_eq split: prod.split option.split)
  then show thesis using that by auto
qed

lemma loop_ready_defined:
  assumes "\<forall>sig \<in> set (g_sig_table cfg). \<not> sg_variadic sig"
    and "\<forall>i < n. zt_trace_snapshot_slot sn (seq + of_nat i) = ZT_TRACE_SLOT_READY (ev (seq + of_nat i))"
    and "unat seq + n = unat ws + 1" and "unat ws < 2 ^ 64 - 1"
  shows "\<exists>r. zt_dump_loop os cfg call_symbols se a seq ws lst st sn w = Some r"
  using assms
proof (induction n arbitrary: seq lst st w)
  case 0
  then have "\<not> seq \<le> ws" by (simp add: word_le_nat_alt)
  then show ?case using zt_dump_loop.simps [of os cfg call_symbols se a seq ws lst st sn w] by auto
next
  case (Suc n)
  have le: "seq \<le> ws" using Suc.prems(3) by (simp add: word_le_nat_alt)
  have r: "zt_trace_snapshot_slot sn seq = ZT_TRACE_SLOT_READY (ev seq)" using Suc.prems(2) [rule_format, of 0] by simp
  obtain st1 w1 where d: "zt_dump_one_trace_event os cfg call_symbols se (zt_trace_session_comm se) (ev seq) seq st w = Some (st1, w1)"
    by (rule dump_one_defined [OF Suc.prems(1)])
  have u: "unat (seq + 1) = unat seq + 1" using Suc.prems(3,4) by (simp add: unat_word_ariths)
  have sh: "seq + 1 + of_nat i = seq + of_nat (Suc i)" for i by simp
  have "\<exists>r. zt_dump_loop os cfg call_symbols se a (seq + 1) ws seq st1 sn w1 = Some r"
  proof (rule Suc.IH)
    show "\<forall>i < n. zt_trace_snapshot_slot sn (seq + 1 + of_nat i) = ZT_TRACE_SLOT_READY (ev (seq + 1 + of_nat i))"
      unfolding sh using Suc.prems(2) by blast
    show "unat (seq + 1) + n = unat ws + 1" using Suc.prems(3) u by simp
  qed (use Suc.prems in simp_all)
  then show ?case using le r d zt_dump_loop.simps [of os cfg call_symbols se a seq ws lst st sn w] by simp
qed

lemma quiet_dump_defined:
  assumes ok: "os_mem_ok os (se_pid se) mem" and ring: "ring_ok (mem w) a ws" and ws: "lst < ws" "unat ws < 2 ^ 64 - 1"
    and rd: "reads_succeed os (se_pid se)" and sig: "\<forall>sig \<in> set (g_sig_table cfg). \<not> sg_variadic sig"
  shows "\<exists>last' st' w'. zt_dump_trace_events_since os cfg call_symbols se a lst st sn w = Some ((True, last', st'), w')"
proof -
  let ?f = "first_kept lst ws" and ?lapped = "of_nat ZT_TRACE_EVENT_CAPACITY < ws - lst"
  note f = first_kept [OF ws]
  obtain bs w1 where "zt_read_remote_memory os (se_pid se) a 16 w = (Some bs, w1)" by (rule read_memory_succeeds [OF rd, of 16]) simp
  then obtain header where h: "zt_trace_read_buffer_header os (se_pid se) a w = (Some header, w1)"
    using ring by (simp add: zt_trace_read_buffer_header_def ring_ok_def)
  note H = read_header_ok [OF ok h]
  have mag: "bh_magic header = ZT_TRACE_BUFFER_MAGIC" and wseq: "bh_write_seq header = ws" using H ring by (simp_all add: ring_ok_def)
  define st1 where "st1 = (if ?lapped then zt_trace_log_lost_events se (lst + 1) (?f - (lst + 1)) ws st else st)"
  note unf = dump_unfold [OF h mag wseq ws(1) first_kept_def st1_def, of cfg call_symbols sn]
  obtain sn1 w2 where q: "zt_trace_refresh_event_snapshots os (se_pid se) a ?f (unat (ws - ?f + 1)) sn w1 = (Some sn1, w2)"
    using refresh_succeeds [OF rd f(1,2)] by blast
  have n: "unat ?f + unat (ws - ?f + 1) < 2 ^ 64" using f(3) ws(2) by simp
  note R = refresh_ok [OF ok f(1,4) n f(2) q, unfolded H(3)]
  have rdy: "\<forall>i < unat (ws - ?f + 1). zt_trace_snapshot_slot sn1 (?f + of_nat i) = ZT_TRACE_SLOT_READY (ring_event (mem w) a (?f + of_nat i))"
    using quiet_ready [OF ring f(1) f(2) f(3) ws(2) R] by blast
  obtain ok' last' st' w' where l: "zt_dump_loop os cfg call_symbols se a ?f ws (?f - 1) st1 sn1 w2 = Some ((ok', last', st'), w')"
    using loop_ready_defined [OF sig rdy f(3) ws(2), of os call_symbols se a "?f - 1" st1 w2] by auto
  then have ok' using loop_ready [OF rdy f(3) ws(2) l] by blast
  then show ?thesis using l unf q by auto
qed

section \<open>Properties\<close>



text \<open>A buffer with an entry and its return, read behind the first.\<close>

lemma fetch_mem_put_in:
  assumes "i + k \<le> length bs" and "length bs \<le> 2 ^ 64"
  shows "fetch (mem_put m a bs) (a + of_nat i) k = buf_get bs i k"
proof (rule nth_equalityI)
  fix j
  assume "j < length (fetch (mem_put m a bs) (a + of_nat i) k)"
  then have j: "j < k" by simp
  have "unat (of_nat (i + j) :: u64) = i + j" using assms j by (simp add: unat_of_nat del: of_nat_add)
  then show "fetch (mem_put m a bs) (a + of_nat i) k ! j = buf_get bs i k ! j"
    using j assms by (simp add: mem_put_def buf_get_def add.assoc of_nat_add [symmetric] del: of_nat_add)
qed (use assms in simp)

definition ex_ring_event :: "u64 \<Rightarrow> u64 \<Rightarrow> u8 list" where
  "ex_ring_event seq t = le64 seq @ le64 1 @ le64 t @ le64 7 @ replicate 136 3"

definition ex_ring :: "u8 list" where
  "ex_ring = le64 ZT_TRACE_BUFFER_MAGIC @ le64 2 @ replicate 4104 0 @ ex_ring_event 1 0 @ ex_ring_event 2 1"

definition ex_ring_sim :: "unit sim" where
  "ex_ring_sim = \<lparr>sm_mem = mem_put (\<lambda>_. 0) 0x10000 ex_ring, sm_regs = (), sm_vm = True, sm_waits = [], sm_tasks = [], sm_maps = []\<rparr>"

definition ex_ring_log :: zt_log_state where
  "ex_ring_log = \<lparr>g_entry_cache = (\<lambda>_. \<lparr>ec_call_id = 0, ec_event = zero_event, ec_suppressed = False\<rparr>), ls_out = []\<rparr>"

definition ex_ring_sn :: zt_snapshot where
  "ex_ring_sn = \<lparr>g_event_snapshot = (\<lambda>_. zero_event), g_commit_before = (\<lambda>_. 0), g_commit_after = (\<lambda>_. 0)\<rparr>"

definition ex_ring_cfg :: sigconf where
  "ex_ring_cfg = \<lparr>g_sig_table = [], g_sigconf_loaded = True\<rparr>"

definition ex_ring_session :: session where
  "ex_ring_session = zero_session\<lparr>se_pid := 1, se_exe_path := ''/bin/t''\<rparr>"

lemma ex_ring_load: "i + 8 \<le> 4456 \<Longrightarrow> load64 (sm_mem ex_ring_sim) (0x10000 + of_nat i) = le_word (buf_get ex_ring i 8)"
  using fetch_mem_put_in [of i 8 ex_ring "\<lambda>_. 0" "0x10000"]
  by (simp add: load64_def ex_ring_sim_def ex_ring_def ex_ring_event_def)

lemma ex_ring_ok: "ring_ok (sm_mem ex_ring_sim) 0x10000 2"
proof -
  have s: "s = 1 \<or> s = 2" if "0 < s" "s \<le> 2" for s :: u64
  proof -
    have "unat s = 1 \<or> unat s = 2" using that by (simp add: word_less_nat_alt word_le_nat_alt) arith
    then show ?thesis by (auto simp: word_unat_eq_iff)
  qed
  have a: "zt_trace_event_slot_addr 0x10000 1 = 0x10000 + of_nat 4120" "zt_trace_event_slot_addr 0x10000 2 = 0x10000 + of_nat 4288"
    by (simp_all add: zt_trace_event_slot_addr_def event_slot_def offsetof_events_def sizeof_zt_trace_event_t_def ZT_TRACE_EVENT_CAPACITY_def)
  have e: "load64 (sm_mem ex_ring_sim) (0x10000 + of_nat 4120) = 1" "load64 (sm_mem ex_ring_sim) (0x10000 + of_nat 4288) = 2"
    "load64 (sm_mem ex_ring_sim) (0x10000 + of_nat 0) = ZT_TRACE_BUFFER_MAGIC" "load64 (sm_mem ex_ring_sim) (0x10000 + of_nat 8) = 2"
    by (subst ex_ring_load, simp, simp add: buf_get_def ex_ring_def ex_ring_event_def del: of_nat_numeral)+
  have "load64 (sm_mem ex_ring_sim) (zt_trace_event_slot_addr 0x10000 v) = v" if "0 < v" "v \<le> 2" for v
    using s [OF that] e(1,2) a by auto
  then show ?thesis using e(3,4) by (simp add: ring_ok_def)
qed

definition ex_ring_os :: "(unit, unit sim) os" where
  "ex_ring_os = (sim_os (\<lambda>w. w))\<lparr>os_vm_readv := \<lambda>pid iov w. (Some (concat (map (\<lambda>(a, n). fetch (sm_mem w) a n) iov)), w)\<rparr>"

lemma ex_ring_os_ok: "os_mem_ok ex_ring_os pid sm_mem" "reads_succeed ex_ring_os pid"
proof -
  show "os_mem_ok ex_ring_os pid sm_mem" by (simp add: os_mem_ok_def ex_ring_os_def sim_os_def)
  have "length (concat (map (\<lambda>(a, n). fetch m a n) iov)) = sum_list (map snd iov)" for m iov by (induction iov) auto
  then show "reads_succeed ex_ring_os pid" by (simp add: reads_succeed_def ex_ring_os_def)
qed



end
