(* ===== verification/ZT_Runner.thy ===== *)
theory ZT_Runner
  imports ZT_Reader ZT_Pool
begin

text \<open>
  Model of the trace orchestration in \<^verbatim>\<open>src/zt_trace_runner.c\<close>: call actions, installing a
  probe with its trampoline, loading the payload, and the life cycle of a trace.

  Operations on a session that is passed by the caller act on its value. The operations that
  look at the active trace act on the statics of the file, which hold the address of the
  session they work on; the sessions are the objects at those addresses. A result \<open>None\<close>
  means that a remote execution or a wait does not return (or that the formatter reads
  behind the end of a string). Messages to standard output are left out.
\<close>

section \<open>State\<close>

record zt_runtime_state_t =
  rt_payload_so_path :: string
  rt_remote_dlopen_addr :: u64
  rt_remote_payload_path_addr :: u64
  rt_remote_entry_stub_addr :: u64
  rt_remote_payload_init_addr :: u64
  rt_remote_trace_buffer_addr :: u64
  rt_remote_payload_config_addr :: u64
  rt_trampoline_pool :: zt_trampoline_pool_t

definition zero_runtime :: zt_runtime_state_t where
  "zero_runtime = \<lparr>rt_payload_so_path = [], rt_remote_dlopen_addr = 0, rt_remote_payload_path_addr = 0,
     rt_remote_entry_stub_addr = 0, rt_remote_payload_init_addr = 0, rt_remote_trace_buffer_addr = 0,
     rt_remote_payload_config_addr = 0, rt_trampoline_pool = zero_pool\<rparr>"

datatype zt_trace_runtime_status_t = ZT_TRACE_RUNTIME_INACTIVE | ZT_TRACE_RUNTIME_STOPPED | ZT_TRACE_RUNTIME_RUNNING

record zt_active_trace_t =
  at_session :: "nat option"
  at_runtime :: zt_runtime_state_t
  at_last_seq :: u64
  at_state :: zt_trace_runtime_status_t
  at_call_symbols :: "zt_call_symbol_cache_entry_t list"
  at_call_action_epoch :: u64

definition zero_active_trace :: zt_active_trace_t where
  "zero_active_trace = \<lparr>at_session = None, at_runtime = zero_runtime, at_last_seq = 0,
     at_state = ZT_TRACE_RUNTIME_INACTIVE, at_call_symbols = [], at_call_action_epoch = 0\<rparr>"

definition zero_cache :: "nat \<Rightarrow> zt_entry_cache_slot_t" where
  "zero_cache = (\<lambda>_. \<lparr>ec_call_id = 0, ec_event = zero_event, ec_suppressed = False\<rparr>)"

record trace =
  g_active_trace :: zt_active_trace_t
  g_trace_exit_observed :: bool
  tr_log :: zt_log_state
  tr_snapshot :: zt_snapshot
  tr_sigconf :: sigconf
  tr_sessions :: "nat \<Rightarrow> session"

abbreviation runtime :: "trace \<Rightarrow> zt_runtime_state_t" where
  "runtime st \<equiv> at_runtime (g_active_trace st)"

definition upd_active :: "(zt_active_trace_t \<Rightarrow> zt_active_trace_t) \<Rightarrow> trace \<Rightarrow> trace" where
  "upd_active f st = st\<lparr>g_active_trace := f (g_active_trace st)\<rparr>"

definition put_session :: "nat \<Rightarrow> session \<Rightarrow> trace \<Rightarrow> trace" where
  "put_session p se st = st\<lparr>tr_sessions := (tr_sessions st)(p := se)\<rparr>"

definition zt_trace_reset_active :: "bool \<Rightarrow> trace \<Rightarrow> trace" where
  "zt_trace_reset_active exit_observed st =
     st\<lparr>g_active_trace := zero_active_trace, tr_log := (tr_log st)\<lparr>g_entry_cache := zero_cache\<rparr>,
        g_trace_exit_observed := exit_observed\<rparr>"

definition zt_trace_mark_target_exited :: "trace \<Rightarrow> trace" where
  "zt_trace_mark_target_exited st = zt_trace_reset_active True st"

section \<open>Cleaning up\<close>

definition zt_trace_munmap_region ::
  "('r, 'w) zt_arch \<Rightarrow> ('r, 'w) os \<Rightarrow> int \<Rightarrow> u64 \<Rightarrow> nat \<Rightarrow> 'w \<Rightarrow> ((bool \<times> u64) \<times> 'w) option" where
  "zt_trace_munmap_region A os pid remote_addr sz w =
     (if remote_addr = 0 then Some ((True, remote_addr), w)
      else do {
        (b, w1) \<leftarrow> zt_remote_munmap A os pid remote_addr sz w;
        Some (if b then (True, 0) else (False, remote_addr), w1) })"

definition sizeof_zt_payload_config_t :: nat where "sizeof_zt_payload_config_t = 16"

definition zt_trace_cleanup_runtime ::
  "('r, 'w) zt_arch \<Rightarrow> ('r, 'w) os \<Rightarrow> int \<Rightarrow> zt_runtime_state_t \<Rightarrow> 'w \<Rightarrow> ((bool \<times> zt_runtime_state_t) \<times> 'w) option" where
  "zt_trace_cleanup_runtime A os pid rt w = do {
     ((b1, a1), w1) \<leftarrow> zt_trace_munmap_region A os pid (rt_remote_payload_path_addr rt) (length (rt_payload_so_path rt) + 1) w;
     ((b2, a2), w2) \<leftarrow> zt_trace_munmap_region A os pid (rt_remote_payload_config_addr rt) sizeof_zt_payload_config_t w1;
     ((b3, a3), w3) \<leftarrow> zt_trace_munmap_region A os pid (rt_remote_trace_buffer_addr rt) (unat sizeof_zt_trace_buffer_t) w2;
     Some ((b1 \<and> b2 \<and> b3, rt\<lparr>rt_remote_payload_path_addr := a1, rt_remote_payload_config_addr := a2,
       rt_remote_trace_buffer_addr := a3\<rparr>), w3) }"

section \<open>Noticing the exit of the target\<close>

definition exit_or_unmapped :: "('r, 'w) os \<Rightarrow> int \<Rightarrow> u64 \<Rightarrow> 'w \<Rightarrow> bool \<times> 'w" where
  "exit_or_unmapped os pid remote_addr w =
     (case zt_process_is_exited os pid w of
        (True, w1) \<Rightarrow> (True, w1)
      | (False, w1) \<Rightarrow> (case zt_remote_addr_is_mapped os pid remote_addr w1 of (b, w2) \<Rightarrow> (\<not> b, w2)))"

fun zt_exit_window_loop :: "('r, 'w) os \<Rightarrow> int \<Rightarrow> u64 \<Rightarrow> nat \<Rightarrow> 'w \<Rightarrow> bool \<times> 'w" where
  "zt_exit_window_loop os pid remote_addr 0 w = exit_or_unmapped os pid remote_addr w"
| "zt_exit_window_loop os pid remote_addr (Suc n) w =
     (case exit_or_unmapped os pid remote_addr w of
        (True, w1) \<Rightarrow> (True, w1)
      | (False, w1) \<Rightarrow> zt_exit_window_loop os pid remote_addr n (os_usleep os 1000 w1))"

definition zt_trace_is_exit_window :: "('r, 'w) os \<Rightarrow> int \<Rightarrow> u64 \<Rightarrow> 'w \<Rightarrow> bool \<times> 'w" where
  "zt_trace_is_exit_window os pid remote_addr w = zt_exit_window_loop os pid remote_addr 50 w"

definition zt_trace_mark_exit_window_if_needed :: "('r, 'w) os \<Rightarrow> int \<Rightarrow> u64 \<Rightarrow> trace \<Rightarrow> 'w \<Rightarrow> bool \<times> trace \<times> 'w" where
  "zt_trace_mark_exit_window_if_needed os pid trace_buffer_addr st w =
     (case zt_trace_is_exit_window os pid trace_buffer_addr w of
        (True, w1) \<Rightarrow> (True, zt_trace_mark_target_exited st, w1)
      | (False, w1) \<Rightarrow> (False, st, w1))"

section \<open>Call actions\<close>

definition zt_trace_call_action_slot_valid :: "int \<Rightarrow> bool" where
  "zt_trace_call_action_slot_valid slot = (0 \<le> slot \<and> slot < int ZT_PAYLOAD_PROBE_ACTION_CAP)"

text \<open>The image of an action: four words and six argument pairs.\<close>

definition encode_action :: "zt_probe_call_action_t \<Rightarrow> u8 list" where
  "encode_action a = le64 (act_enabled a) @ le64 (act_probe_id a) @ le64 (act_callee_addr a) @ le64 (act_arg_count a) @
     concat (map (\<lambda>x. le64 (ca_kind x) @ le64 (ca_value x)) (act_args a))"

definition call_action_addr :: "u64 \<Rightarrow> int \<Rightarrow> u64" where
  "call_action_addr buffer_addr slot = buffer_addr + 24 + of_int slot * 128"

definition zt_trace_write_call_action ::
  "('r, 'w) os \<Rightarrow> int \<Rightarrow> u64 \<Rightarrow> zt_probe_info_t \<Rightarrow> 'w \<Rightarrow> bool \<times> 'w" where
  "zt_trace_write_call_action os pid buffer_addr probe w =
     (if buffer_addr = 0 \<or> pi_probe_id probe = 0 \<or> \<not> zt_trace_call_action_slot_valid (pi_call_action_slot probe) then (False, w)
      else let action_addr = call_action_addr buffer_addr (pi_call_action_slot probe) in
        case zt_write_remote_memory os pid action_addr (le64 0) w of
          (False, w1) \<Rightarrow> (False, w1)
        | (True, w1) \<Rightarrow>
            (case zt_write_remote_memory os pid action_addr (encode_action ((pi_call_action probe)\<lparr>act_enabled := 0\<rparr>)) w1 of
               (False, w2) \<Rightarrow> (False, w2)
             | (True, w2) \<Rightarrow>
                 if act_enabled (pi_call_action probe) = 0 then (True, w2)
                 else zt_write_remote_memory os pid action_addr (le64 (act_enabled (pi_call_action probe))) w2))"

definition zt_trace_count_call_actions :: "session \<Rightarrow> u64" where
  "zt_trace_count_call_actions se =
     of_nat (length (filter (\<lambda>p. pi_probe_id p \<noteq> 0 \<and> act_enabled (pi_call_action p) \<noteq> 0) (se_probes se)))"

definition zt_trace_next_call_action_epoch :: "trace \<Rightarrow> u64 \<times> trace" where
  "zt_trace_next_call_action_epoch st =
     (let e = at_call_action_epoch (g_active_trace st) + 1; e = (if e = 0 then 1 else e)
      in (e, upd_active (\<lambda>t. t\<lparr>at_call_action_epoch := e\<rparr>) st))"

definition zt_trace_write_call_action_count :: "('r, 'w) os \<Rightarrow> session \<Rightarrow> u64 \<Rightarrow> 'w \<Rightarrow> bool \<times> 'w" where
  "zt_trace_write_call_action_count os se buffer_addr w =
     (if buffer_addr = 0 then (False, w)
      else zt_write_remote_memory os (se_pid se) (buffer_addr + 16) (le64 (zt_trace_count_call_actions se)) w)"

definition ZT_TRACE_CALL_SYMBOL_CACHE_CAP :: nat where
  "ZT_TRACE_CALL_SYMBOL_CACHE_CAP = ZT_PAYLOAD_PROBE_ACTION_CAP * 2"

definition zt_trace_set_call_symbol_entry :: "u64 \<Rightarrow> string \<Rightarrow> zt_call_symbol_cache_entry_t" where
  "zt_trace_set_call_symbol_entry addr symbol = \<lparr>cs_addr = addr, cs_symbol = take (ZT_PROBE_SYMBOL_MAX - 1) symbol\<rparr>"

definition zt_trace_remember_call_symbol ::
  "u64 \<Rightarrow> string \<Rightarrow> zt_call_symbol_cache_entry_t list \<Rightarrow> zt_call_symbol_cache_entry_t list" where
  "zt_trace_remember_call_symbol addr symbol call_symbols =
     (if addr = 0 \<or> symbol = [] then call_symbols
      else case find_index (\<lambda>e. cs_addr e = addr) call_symbols of
          Some i \<Rightarrow> call_symbols[i := zt_trace_set_call_symbol_entry addr symbol]
        | None \<Rightarrow>
            if length call_symbols \<ge> ZT_TRACE_CALL_SYMBOL_CACHE_CAP then call_symbols
            else call_symbols @ [zt_trace_set_call_symbol_entry addr symbol])"

definition zt_trace_probe_uses_call_slot :: "session \<Rightarrow> nat \<Rightarrow> int \<Rightarrow> bool" where
  "zt_trace_probe_uses_call_slot se owner slot =
     (if slot < 0 then False
      else list_ex (\<lambda>i. let probe = se_probes se ! i in
          i \<noteq> owner \<and> pi_probe_id probe \<noteq> 0 \<and> act_enabled (pi_call_action probe) \<noteq> 0 \<and> pi_call_action_slot probe = slot)
        [0..<ZT_PROBES_CAPACITY])"

definition zt_trace_assign_call_action_slot :: "session \<Rightarrow> nat \<Rightarrow> bool \<times> session" where
  "zt_trace_assign_call_action_slot se i =
     (let probe = se_probes se ! i; slot = pi_call_action_slot probe in
      if pi_probe_id probe = 0 then (False, se)
      else if zt_trace_call_action_slot_valid slot \<and> \<not> zt_trace_probe_uses_call_slot se i slot then (True, se)
      else let se1 = (if zt_trace_call_action_slot_valid slot then upd_probe i (\<lambda>p. p\<lparr>pi_call_action_slot := - 1\<rparr>) se else se);
               home_slot = unat (pi_probe_id probe) mod ZT_PAYLOAD_PROBE_ACTION_CAP;
               slots = map (\<lambda>offset. int ((home_slot + offset) mod ZT_PAYLOAD_PROBE_ACTION_CAP)) [0..<ZT_PAYLOAD_PROBE_ACTION_CAP]
        in case List.find (\<lambda>s. \<not> zt_trace_probe_uses_call_slot se1 i s) slots of
             Some s \<Rightarrow> (True, upd_probe i (\<lambda>p. p\<lparr>pi_call_action_slot := s\<rparr>) se1)
           | None \<Rightarrow> (False, se1))"

definition zt_trace_set_probe_filter :: "zt_probe_filter_t option \<Rightarrow> zt_probe_info_t \<Rightarrow> zt_probe_info_t" where
  "zt_trace_set_probe_filter flt probe =
     probe\<lparr>pi_filter := (case flt of Some f \<Rightarrow> f | None \<Rightarrow> zero_filter)\<lparr>fl_probe_id := pi_probe_id probe\<rparr>\<rparr>"

section \<open>Installing a probe\<close>

record zt_probe_install_snapshot_t =
  is_existed :: bool
  is_state :: zt_probe_state_t
  is_trampoline_addr :: u64
  is_trampoline_slot :: int
  is_orig_code :: "u8 list"
  is_orig_len :: nat
  is_filter :: zt_probe_filter_t

definition zt_trace_capture_probe_install_snapshot :: "zt_probe_info_t \<Rightarrow> bool \<Rightarrow> zt_probe_install_snapshot_t" where
  "zt_trace_capture_probe_install_snapshot probe existed =
     \<lparr>is_existed = existed, is_state = pi_state probe, is_trampoline_addr = pi_trampoline_addr probe,
      is_trampoline_slot = pi_trampoline_slot probe, is_orig_code = pi_orig_code probe, is_orig_len = pi_orig_len probe,
      is_filter = pi_filter probe\<rparr>"

definition zt_trace_rollback_probe_install ::
  "('r, 'w) zt_arch \<Rightarrow> ('r, 'w) os \<Rightarrow> session \<Rightarrow> zt_runtime_state_t \<Rightarrow> nat \<Rightarrow> zt_probe_install_snapshot_t \<Rightarrow> 'w \<Rightarrow>
   (session \<times> zt_runtime_state_t \<times> 'w) option" where
  "zt_trace_rollback_probe_install A os se rt i snapshot w =
     (let probe = se_probes se ! i in do {
        (se1, rt1, w1) \<leftarrow>
          (if pi_trampoline_addr probe \<noteq> 0 \<and> pi_trampoline_addr probe \<noteq> is_trampoline_addr snapshot
           then do {
             ((pool, probe1), w1) \<leftarrow> zt_trampoline_pool_release A os (se_pid se) (rt_trampoline_pool rt) probe w;
             Some (upd_probe i (\<lambda>_. probe1) se, rt\<lparr>rt_trampoline_pool := pool\<rparr>, w1) }
           else Some (se, rt, w));
        Some (if \<not> is_existed snapshot then (snd (zt_unregister_probe se1 (pi_probe_id probe)), rt1, w1)
              else (upd_probe i (\<lambda>p. p\<lparr>pi_state := is_state snapshot, pi_trampoline_addr := is_trampoline_addr snapshot,
                      pi_trampoline_slot := is_trampoline_slot snapshot, pi_orig_code := is_orig_code snapshot,
                      pi_orig_len := is_orig_len snapshot, pi_filter := is_filter snapshot\<rparr>) se1, rt1, w1)) })"

text \<open>The steps after the filter was set; a step that fails leaves what it did so far for the rollback.\<close>

definition zt_install_steps ::
  "('r, 'w) zt_arch \<Rightarrow> ('r, 'w) os \<Rightarrow> session \<Rightarrow> zt_runtime_state_t \<Rightarrow> nat \<Rightarrow> 'w \<Rightarrow> (bool \<times> session \<times> zt_runtime_state_t \<times> 'w) option" where
  "zt_install_steps A os se rt i w =
     (let probe_id = pi_probe_id (se_probes se ! i) in
      case zt_enable_probe A os se probe_id w of
        (False, se1, w1) \<Rightarrow> Some (False, se1, rt, w1)
      | (True, se1, w1) \<Rightarrow> do {
          ((addr, pool, probe), w2) \<leftarrow> zt_trampoline_pool_alloc A os (se_pid se1) (rt_trampoline_pool rt) (se_probes se1 ! i) w1;
          let se2 = upd_probe i (\<lambda>_. probe) se1; rt2 = rt\<lparr>rt_trampoline_pool := pool\<rparr> in
          case addr of
            None \<Rightarrow> Some (False, se2, rt2, w2)
          | Some remote_trampoline_addr \<Rightarrow>
              (case zt_arch_build_trampoline A probe (rt_remote_entry_stub_addr rt2) remote_trampoline_addr of
                 None \<Rightarrow> Some (False, se2, rt2, w2)
               | Some (trampoline_buf, trampoline_size) \<Rightarrow>
                   (case zt_write_remote_memory os (se_pid se2) remote_trampoline_addr (take trampoline_size trampoline_buf) w2 of
                      (False, w3) \<Rightarrow> Some (False, se2, rt2, w3)
                    | (True, w3) \<Rightarrow> do {
                        (b, se3, w4) \<leftarrow> zt_install_probe_patch A os se2 probe_id remote_trampoline_addr w3;
                        Some (b, se3, rt2, w4) })) })"

definition zt_trace_install_probe ::
  "('r, 'w) zt_arch \<Rightarrow> ('r, 'w) os \<Rightarrow> session \<Rightarrow> zt_runtime_state_t \<Rightarrow> string \<Rightarrow> zt_probe_filter_t option \<Rightarrow> 'w \<Rightarrow>
   (bool \<times> session \<times> zt_runtime_state_t \<times> 'w) option" where
  "zt_trace_install_probe A os se rt symbol flt w =
     (let existed = zt_probe_find_by_symbol se symbol \<noteq> None in
      case zt_register_probe os se symbol w of
        (None, se1, w1) \<Rightarrow> Some (False, se1, rt, w1)
      | (Some i, se1, w1) \<Rightarrow>
          let snapshot = zt_trace_capture_probe_install_snapshot (se_probes se1 ! i) existed in
          if pi_state (se_probes se1 ! i) = ZT_PROBE_INSTALLED
          then Some (True, if flt \<noteq> None then upd_probe i (zt_trace_set_probe_filter flt) se1 else se1, rt, w1)
          else do {
            (b, se2, rt2, w2) \<leftarrow> zt_install_steps A os (upd_probe i (zt_trace_set_probe_filter flt) se1) rt i w1;
            if b then Some (True, se2, rt2, w2)
            else do {
              (se3, rt3, w3) \<leftarrow> zt_trace_rollback_probe_install A os se2 rt2 i snapshot w2;
              Some (False, se3, rt3, w3) } })"

section \<open>Loading the payload\<close>

text \<open>
  \<open>payload_path\<close> is the answer of \<^verbatim>\<open>realpath\<close>; \<^verbatim>\<open>PROT_READ | PROT_WRITE\<close> is 3 and
  \<^verbatim>\<open>RTLD_NOW | RTLD_GLOBAL\<close> is 0x102.
\<close>

definition path_bytes :: "string \<Rightarrow> u8 list" where
  "path_bytes s = map (\<lambda>c. of_nat (of_char c)) s @ [0]"

definition zt_load_payload ::
  "('r, 'w) zt_arch \<Rightarrow> ('r, 'w) os \<Rightarrow> session \<Rightarrow> zt_runtime_state_t \<Rightarrow> 'w \<Rightarrow> (bool \<times> zt_runtime_state_t \<times> 'w) option" where
  "zt_load_payload A os se rt w =
     (case zt_resolve_symbol_target os se ''dlopen'' w of
        (None, w1) \<Rightarrow> Some (False, rt, w1)
      | (Some target, w1) \<Rightarrow>
          let rt1 = rt\<lparr>rt_remote_dlopen_addr := tgt_remote_addr target\<rparr> in do {
            (r2, w2) \<leftarrow> zt_remote_mmap A os (se_pid se) (length (rt_payload_so_path rt1) + 1) 3 0x22 w1;
            case r2 of
              None \<Rightarrow> Some (False, rt1, w2)
            | Some path_addr \<Rightarrow>
                let rt2 = rt1\<lparr>rt_remote_payload_path_addr := path_addr\<rparr> in
                (case zt_write_remote_memory os (se_pid se) path_addr (path_bytes (rt_payload_so_path rt2)) w2 of
                   (False, w3) \<Rightarrow> Some (False, rt2, w3)
                 | (True, w3) \<Rightarrow> do {
                     (r4, w4) \<leftarrow> zt_remote_call2 A os (se_pid se) (rt_remote_dlopen_addr rt2) path_addr 0x102 w3;
                     Some (r4 \<noteq> None \<and> r4 \<noteq> Some 0, rt2, w4) }) })"

definition zt_find_payload_entries ::
  "('r, 'w) os \<Rightarrow> session \<Rightarrow> zt_runtime_state_t \<Rightarrow> 'w \<Rightarrow> bool \<times> zt_runtime_state_t \<times> 'w" where
  "zt_find_payload_entries os se rt w =
     (case zt_find_remote_symbol_addr os (se_pid se) (rt_payload_so_path rt) ''entry_stub'' w of
        (None, w1) \<Rightarrow> (False, rt, w1)
      | (Some stub, w1) \<Rightarrow>
          let rt1 = rt\<lparr>rt_remote_entry_stub_addr := stub\<rparr> in
          (case zt_find_remote_symbol_addr os (se_pid se) (rt_payload_so_path rt1) ''zt_payload_init'' w1 of
             (None, w2) \<Rightarrow> (False, rt1, w2)
           | (Some ini, w2) \<Rightarrow> (True, rt1\<lparr>rt_remote_payload_init_addr := ini\<rparr>, w2)))"

definition zt_init_payload ::
  "('r, 'w) zt_arch \<Rightarrow> ('r, 'w) os \<Rightarrow> session \<Rightarrow> zt_runtime_state_t \<Rightarrow> 'w \<Rightarrow> (bool \<times> zt_runtime_state_t \<times> 'w) option" where
  "zt_init_payload A os se rt w = do {
     (r1, w1) \<leftarrow> zt_remote_mmap A os (se_pid se) (unat sizeof_zt_trace_buffer_t) 3 0x22 w;
     case r1 of
       None \<Rightarrow> Some (False, rt, w1)
     | Some buffer_addr \<Rightarrow>
         let rt1 = rt\<lparr>rt_remote_trace_buffer_addr := buffer_addr\<rparr> in do {
           (r2, w2) \<leftarrow> zt_remote_mmap A os (se_pid se) sizeof_zt_payload_config_t 3 0x22 w1;
           case r2 of
             None \<Rightarrow> Some (False, rt1, w2)
           | Some config_addr \<Rightarrow>
               let rt2 = rt1\<lparr>rt_remote_payload_config_addr := config_addr\<rparr> in
               (case zt_write_remote_memory os (se_pid se) config_addr (le64 buffer_addr @ le64 sizeof_zt_trace_buffer_t) w2 of
                  (False, w3) \<Rightarrow> Some (False, rt2, w3)
                | (True, w3) \<Rightarrow> do {
                    (r4, w4) \<leftarrow> zt_remote_call2 A os (se_pid se) (rt_remote_payload_init_addr rt2) config_addr 0 w3;
                    Some (r4 \<noteq> None, rt2, w4) }) } }"

definition zt_setup_remote_payload ::
  "('r, 'w) zt_arch \<Rightarrow> ('r, 'w) os \<Rightarrow> string option \<Rightarrow> session \<Rightarrow> zt_runtime_state_t \<Rightarrow> 'w \<Rightarrow> (bool \<times> zt_runtime_state_t \<times> 'w) option" where
  "zt_setup_remote_payload A os payload_path se rt w =
     (case payload_path of
        None \<Rightarrow> Some (False, rt, w)
      | Some path \<Rightarrow> do {
          (b1, rt1, w1) \<leftarrow> zt_load_payload A os se (rt\<lparr>rt_payload_so_path := path\<rparr>) w;
          if \<not> b1 then Some (False, rt1, w1)
          else case zt_find_payload_entries os se rt1 w1 of
              (False, rt2, w2) \<Rightarrow> Some (False, rt2, w2)
            | (True, rt2, w2) \<Rightarrow> zt_init_payload A os se rt2 w2 })"

section \<open>Running and stopped\<close>

text \<open>
  From here on the functions act on the statics of the file. \<open>session\<close> is the pointer the
  caller passes, \<open>None\<close> when it is \<^verbatim>\<open>NULL\<close>; the object behind it is \<open>tr_sessions st p\<close>.
\<close>

definition zt_trace_session_is_active :: "nat option \<Rightarrow> trace \<Rightarrow> bool" where
  "zt_trace_session_is_active session st \<longleftrightarrow>
     session \<noteq> None \<and> at_state (g_active_trace st) \<noteq> ZT_TRACE_RUNTIME_INACTIVE \<and> at_session (g_active_trace st) = session"

definition set_state :: "zt_trace_runtime_status_t \<Rightarrow> trace \<Rightarrow> trace" where
  "set_state s = upd_active (\<lambda>t. t\<lparr>at_state := s\<rparr>)"

definition set_runtime :: "zt_runtime_state_t \<Rightarrow> trace \<Rightarrow> trace" where
  "set_runtime rt = upd_active (\<lambda>t. t\<lparr>at_runtime := rt\<rparr>)"

definition zt_trace_ensure_stopped ::
  "('r, 'w) os \<Rightarrow> nat option \<Rightarrow> trace \<Rightarrow> 'w \<Rightarrow> (bool \<times> trace \<times> 'w) option" where
  "zt_trace_ensure_stopped os session st w =
     (if \<not> zt_trace_session_is_active session st then Some (False, st, w)
      else if at_state (g_active_trace st) = ZT_TRACE_RUNTIME_STOPPED then Some (True, st, w)
      else do {
        (b, se, w1) \<leftarrow> zt_injector_interrupt_all os (tr_sessions st (the session)) w;
        let st1 = put_session (the session) se st in
        Some (b, if b then set_state ZT_TRACE_RUNTIME_STOPPED st1 else st1, w1) })"

definition zt_trace_ensure_running :: "('r, 'w) os \<Rightarrow> nat option \<Rightarrow> trace \<Rightarrow> 'w \<Rightarrow> bool \<times> trace \<times> 'w" where
  "zt_trace_ensure_running os session st w =
     (if \<not> zt_trace_session_is_active session st then (False, st, w)
      else if at_state (g_active_trace st) = ZT_TRACE_RUNTIME_RUNNING then (True, st, w)
      else case zt_injector_continue_all os (tr_sessions st (the session)) w of
          (b, se, w1) \<Rightarrow>
            let st1 = put_session (the session) se st in
            (b, if b then set_state ZT_TRACE_RUNTIME_RUNNING st1 else st1, w1))"

definition zt_trace_install_active_probe ::
  "('r, 'w) zt_arch \<Rightarrow> ('r, 'w) os \<Rightarrow> nat option \<Rightarrow> string \<Rightarrow> zt_probe_filter_t option \<Rightarrow> trace \<Rightarrow> 'w \<Rightarrow>
   (bool \<times> trace \<times> 'w) option" where
  "zt_trace_install_active_probe A os session symbol flt st w = do {
     (b1, st1, w1) \<leftarrow> zt_trace_ensure_stopped os session st w;
     if \<not> b1 then Some (False, st1, w1)
     else do {
       (b2, se, rt, w2) \<leftarrow> zt_trace_install_probe A os (tr_sessions st1 (the session)) (runtime st1) symbol flt w1;
       let st2 = set_runtime rt (put_session (the session) se st1) in
       if \<not> b2 then Some (False, st2, w2) else Some (zt_trace_ensure_running os session st2 w2) } }"

section \<open>Polling\<close>

text \<open>The results -1, 0 and 1 are those of the code: an error, nothing new, the target is gone.\<close>

definition zt_trace_check_exit_event :: "('r, 'w) os \<Rightarrow> trace \<Rightarrow> 'w \<Rightarrow> (int \<times> trace \<times> 'w) option" where
  "zt_trace_check_exit_event os st w =
     (case at_session (g_active_trace st) of
        None \<Rightarrow> Some (0, st, w)
      | Some p \<Rightarrow>
          if at_state (g_active_trace st) \<noteq> ZT_TRACE_RUNTIME_RUNNING then Some (0, st, w)
          else do {
            (b, target_exited, se, w1) \<leftarrow> zt_injector_poll_events os (tr_sessions st p) w;
            let st1 = put_session p se st in
            if \<not> b then
              (case zt_trace_mark_exit_window_if_needed os (se_pid se) (rt_remote_trace_buffer_addr (runtime st1)) st1 w1 of
                 (gone, st2, w2) \<Rightarrow> Some (if gone then 1 else - 1, st2, w2))
            else if target_exited then Some (1, zt_trace_mark_target_exited st1, w1)
            else Some (0, st1, w1) })"

definition zt_trace_handle_read_failure ::
  "('r, 'w) os \<Rightarrow> int \<Rightarrow> u64 \<Rightarrow> trace \<Rightarrow> 'w \<Rightarrow> (int \<times> trace \<times> 'w) option" where
  "zt_trace_handle_read_failure os pid trace_buffer_addr st w = do {
     (exit_status, st1, w1) \<leftarrow> zt_trace_check_exit_event os st w;
     if exit_status > 0 then Some (1, st1, w1)
     else case zt_trace_mark_exit_window_if_needed os pid trace_buffer_addr st1 w1 of
         (gone, st2, w2) \<Rightarrow> Some (if gone then 1 else - 1, st2, w2) }"

text \<open>
  A running trace has a session, so the dump is never called without one. The local snapshot
  arrays are refilled for the range of every dump, so what they hold afterwards is not kept.
\<close>

definition zt_trace_poll :: "('r, 'w) os \<Rightarrow> trace \<Rightarrow> 'w \<Rightarrow> (int \<times> trace \<times> 'w) option" where
  "zt_trace_poll os st w =
     (if at_state (g_active_trace st) = ZT_TRACE_RUNTIME_INACTIVE
      then Some (if g_trace_exit_observed st then 1 else - 1, st, w)
      else if at_state (g_active_trace st) \<noteq> ZT_TRACE_RUNTIME_RUNNING then Some (0, st, w)
      else do {
        (exit_status, st1, w1) \<leftarrow> zt_trace_check_exit_event os st w;
        if exit_status < 0 then Some (- 1, st1, w1)
        else if exit_status > 0 then Some (1, st1, w1)
        else if at_state (g_active_trace st1) \<noteq> ZT_TRACE_RUNTIME_RUNNING then Some (0, st1, w1)
        else case at_session (g_active_trace st1) of
            None \<Rightarrow> None
          | Some p \<Rightarrow> do {
              let tr = g_active_trace st1; se = tr_sessions st1 p; buffer_addr = rt_remote_trace_buffer_addr (runtime st1) in do {
              ((b, last_seq, log1), w2) \<leftarrow> zt_dump_trace_events_since os (tr_sigconf st1) (at_call_symbols tr) se buffer_addr
                 (at_last_seq tr) (tr_log st1) (tr_snapshot st1) w1;
              let st2 = upd_active (\<lambda>t. t\<lparr>at_last_seq := last_seq\<rparr>) (st1\<lparr>tr_log := log1\<rparr>) in
              if b then Some (0, st2, w2) else zt_trace_handle_read_failure os (se_pid se) buffer_addr st2 w2 } } })"

section \<open>Changing a probe\<close>

definition zt_trace_disable_probe ::
  "('r, 'w) zt_arch \<Rightarrow> ('r, 'w) os \<Rightarrow> nat option \<Rightarrow> u64 \<Rightarrow> trace \<Rightarrow> 'w \<Rightarrow> (bool \<times> trace \<times> 'w) option" where
  "zt_trace_disable_probe A os session probe_id st w =
     (if probe_id = 0 \<or> \<not> zt_trace_session_is_active session st then Some (False, st, w)
      else let se = tr_sessions st (the session) in
        case zt_probe_find_by_id se probe_id of
          None \<Rightarrow> Some (False, st, w)
        | Some i \<Rightarrow>
            if pi_state (se_probes se ! i) \<noteq> ZT_PROBE_INSTALLED then Some (False, st, w)
            else do {
              (b1, st1, w1) \<leftarrow> zt_trace_ensure_stopped os session st w;
              if \<not> b1 then Some (False, st1, w1)
              else do {
                (b2, se2, w2) \<leftarrow> zt_uninstall_probe_patch A os (tr_sessions st1 (the session)) probe_id w1;
                let st2 = put_session (the session) se2 st1 in
                if \<not> b2 then Some (False, st2, w2) else Some (zt_trace_ensure_running os session st2 w2) } })"

definition zt_trace_update_probe_filter ::
  "nat option \<Rightarrow> u64 \<Rightarrow> zt_probe_filter_t option \<Rightarrow> trace \<Rightarrow> bool \<times> trace" where
  "zt_trace_update_probe_filter session probe_id flt st =
     (if probe_id = 0 \<or> \<not> zt_trace_session_is_active session st then (False, st)
      else let se = tr_sessions st (the session) in
        case zt_probe_find_by_id se probe_id of
          None \<Rightarrow> (False, st)
        | Some i \<Rightarrow> (True, put_session (the session) (upd_probe i (zt_trace_set_probe_filter flt) se) st))"

definition zt_trace_validate_call_action_args :: "zt_call_action_arg_t list option \<Rightarrow> u64 \<Rightarrow> bool" where
  "zt_trace_validate_call_action_args args arg_count =
     (if arg_count > of_nat ZT_CALL_ACTION_ARG_CAP \<or> (arg_count > 0 \<and> args = None) then False
      else list_all (\<lambda>a.
          (ca_kind a = ZT_CALL_ACTION_ARG_CONST \<or> ca_kind a = ZT_CALL_ACTION_ARG_ENTRY_ARG) \<and>
          \<not> (ca_kind a = ZT_CALL_ACTION_ARG_ENTRY_ARG \<and> ca_value a \<ge> of_nat ZT_TRACE_GP_ARG_COUNT))
        (case args of None \<Rightarrow> [] | Some xs \<Rightarrow> take (unat arg_count) xs))"

definition new_call_action :: "u64 \<Rightarrow> u64 \<Rightarrow> u64 \<Rightarrow> zt_call_action_arg_t list option \<Rightarrow> u64 \<Rightarrow> zt_probe_call_action_t" where
  "new_call_action epoch probe_id callee_addr args arg_count =
     zero_action\<lparr>act_enabled := epoch, act_probe_id := probe_id, act_callee_addr := callee_addr, act_arg_count := arg_count,
       act_args := (case args of None \<Rightarrow> act_args zero_action
         | Some xs \<Rightarrow> take (unat arg_count) xs @ drop (unat arg_count) (act_args zero_action))\<rparr>"

definition zt_trace_update_probe_call_action_args ::
  "('r, 'w) os \<Rightarrow> nat option \<Rightarrow> u64 \<Rightarrow> string option \<Rightarrow> zt_call_action_arg_t list option \<Rightarrow> u64 \<Rightarrow> trace \<Rightarrow> 'w \<Rightarrow>
   bool \<times> trace \<times> 'w" where
  "zt_trace_update_probe_call_action_args os session probe_id callee_symbol args arg_count st w =
     (case callee_symbol of
        None \<Rightarrow> (False, st, w)
      | Some callee \<Rightarrow>
          if probe_id = 0 \<or> \<not> zt_trace_session_is_active session st \<or> \<not> zt_trace_validate_call_action_args args arg_count
          then (False, st, w)
          else let p = the session; se = tr_sessions st p in
            case zt_probe_find_by_id se probe_id of
              None \<Rightarrow> (False, st, w)
            | Some i \<Rightarrow>
                (case zt_resolve_symbol_target os se callee w of
                   (None, w1) \<Rightarrow> (False, st, w1)
                 | (Some target, w1) \<Rightarrow>
                     (case zt_trace_assign_call_action_slot se i of
                        (False, se1) \<Rightarrow> (False, put_session p se1 st, w1)
                      | (True, se1) \<Rightarrow>
                          (case zt_trace_next_call_action_epoch st of
                             (epoch, st1) \<Rightarrow>
                               let se2 = upd_probe i (\<lambda>pr. pr\<lparr>pi_call_action :=
                                      new_call_action epoch (pi_probe_id pr) (tgt_remote_addr target) args arg_count,
                                      pi_call_symbol := take (ZT_PROBE_SYMBOL_MAX - 1) callee\<rparr>) se1;
                                   st2 = put_session p se2 (upd_active (\<lambda>t. t\<lparr>at_call_symbols :=
                                      zt_trace_remember_call_symbol (tgt_remote_addr target) callee (at_call_symbols t)\<rparr>) st1);
                                   buffer_addr = rt_remote_trace_buffer_addr (runtime st2)
                               in (case zt_trace_write_call_action os (se_pid se2) buffer_addr (se_probes se2 ! i) w1 of
                                     (False, w2) \<Rightarrow> (False, st2, w2)
                                   | (True, w2) \<Rightarrow>
                                       (case zt_trace_write_call_action_count os se2 buffer_addr w2 of
                                          (b, w3) \<Rightarrow> (b, st2, w3)))))))"

definition zt_trace_update_probe_call_action ::
  "('r, 'w) os \<Rightarrow> nat option \<Rightarrow> u64 \<Rightarrow> string option \<Rightarrow> trace \<Rightarrow> 'w \<Rightarrow> bool \<times> trace \<times> 'w" where
  "zt_trace_update_probe_call_action os session probe_id callee_symbol st w =
     zt_trace_update_probe_call_action_args os session probe_id callee_symbol None 0 st w"

definition zt_trace_clear_probe_call_action ::
  "('r, 'w) os \<Rightarrow> nat option \<Rightarrow> u64 \<Rightarrow> trace \<Rightarrow> 'w \<Rightarrow> bool \<times> trace \<times> 'w" where
  "zt_trace_clear_probe_call_action os session probe_id st w =
     (if probe_id = 0 \<or> \<not> zt_trace_session_is_active session st then (False, st, w)
      else let p = the session; se = tr_sessions st p; buffer_addr = rt_remote_trace_buffer_addr (runtime st) in
        case zt_probe_find_by_id se probe_id of
          None \<Rightarrow> (False, st, w)
        | Some i \<Rightarrow>
            let old_slot = pi_call_action_slot (se_probes se ! i);
                se1 = upd_probe i (\<lambda>pr. pr\<lparr>pi_call_action := zero_action, pi_call_symbol := []\<rparr>) se in
            case (if old_slot \<ge> 0 then zt_trace_write_call_action os (se_pid se1) buffer_addr (se_probes se1 ! i) w else (True, w)) of
              (False, w1) \<Rightarrow> (False, put_session p se1 st, w1)
            | (True, w1) \<Rightarrow>
                let se2 = upd_probe i (\<lambda>pr. pr\<lparr>pi_call_action_slot := - 1\<rparr>) se1 in
                (case zt_trace_write_call_action_count os se2 buffer_addr w1 of
                   (b, w2) \<Rightarrow> (b, put_session p se2 st, w2)))"

definition zt_trace_enable_probe ::
  "('r, 'w) zt_arch \<Rightarrow> ('r, 'w) os \<Rightarrow> nat option \<Rightarrow> u64 \<Rightarrow> trace \<Rightarrow> 'w \<Rightarrow> (bool \<times> trace \<times> 'w) option" where
  "zt_trace_enable_probe A os session probe_id st w =
     (if probe_id = 0 \<or> \<not> zt_trace_session_is_active session st then Some (False, st, w)
      else let se = tr_sessions st (the session) in
        case zt_probe_find_by_id se probe_id of
          None \<Rightarrow> Some (False, st, w)
        | Some i \<Rightarrow>
            let probe = se_probes se ! i in
            if pi_state probe = ZT_PROBE_INSTALLED then Some (True, st, w)
            else zt_trace_install_active_probe A os session (tgt_symbol (pi_target probe)) (Some (pi_filter probe)) st w)"

definition zt_trace_pause :: "('r, 'w) os \<Rightarrow> nat option \<Rightarrow> trace \<Rightarrow> 'w \<Rightarrow> (bool \<times> trace \<times> 'w) option" where
  "zt_trace_pause os session st w = zt_trace_ensure_stopped os session st w"

definition zt_trace_resume :: "('r, 'w) os \<Rightarrow> nat option \<Rightarrow> trace \<Rightarrow> 'w \<Rightarrow> bool \<times> trace \<times> 'w" where
  "zt_trace_resume os session st w = zt_trace_ensure_running os session st w"

section \<open>The end and the beginning of a trace\<close>

fun zt_stop_each ::
  "('r, 'w) zt_arch \<Rightarrow> ('r, 'w) os \<Rightarrow> nat list \<Rightarrow> bool \<Rightarrow> session \<Rightarrow> zt_trampoline_pool_t \<Rightarrow> 'w \<Rightarrow>
   (bool \<times> session \<times> zt_trampoline_pool_t \<times> 'w) option" where
  "zt_stop_each A os [] ok se pool w = Some (ok, se, pool, w)"
| "zt_stop_each A os (i # is) ok se pool w =
     (let probe = se_probes se ! i in
      if pi_probe_id probe = 0 then zt_stop_each A os is ok se pool w
      else do {
        (ok1, se1, w1) \<leftarrow> (if pi_state probe = ZT_PROBE_INSTALLED
           then do { (b, se1, w1) \<leftarrow> zt_uninstall_probe_patch A os se (pi_probe_id probe) w; Some (ok \<and> b, se1, w1) }
           else Some (ok, se, w));
        ((pool1, probe1), w2) \<leftarrow> zt_trampoline_pool_release A os (se_pid se1) pool (se_probes se1 ! i) w1;
        let se2 = upd_probe i (\<lambda>_. probe1) se1 in
        zt_stop_each A os is ok1 (snd (zt_unregister_probe se2 (pi_probe_id probe1))) pool1 w2 })"

definition zt_trace_stop :: "('r, 'w) zt_arch \<Rightarrow> ('r, 'w) os \<Rightarrow> trace \<Rightarrow> 'w \<Rightarrow> (bool \<times> trace \<times> 'w) option" where
  "zt_trace_stop A os st w =
     (if at_state (g_active_trace st) = ZT_TRACE_RUNTIME_INACTIVE then Some (False, st, w)
      else do {
        (b1, st1, w1) \<leftarrow> zt_trace_ensure_stopped os (at_session (g_active_trace st)) st w;
        if \<not> b1 then Some (False, st1, w1)
        else let p = the (at_session (g_active_trace st1)); rt = runtime st1 in do {
          (ok, se, pool, w2) \<leftarrow> zt_stop_each A os [0..<ZT_PROBES_CAPACITY] True (tr_sessions st1 p) (rt_trampoline_pool rt) w1;
          ((b2, rt2), w3) \<leftarrow> zt_trace_cleanup_runtime A os (se_pid se) (rt\<lparr>rt_trampoline_pool := pool\<rparr>) w2;
          Some (ok \<and> b2, zt_trace_reset_active False (put_session p se st1), w3) } })"

definition zt_trace_is_active :: "trace \<Rightarrow> bool" where
  "zt_trace_is_active st \<longleftrightarrow> at_state (g_active_trace st) \<noteq> ZT_TRACE_RUNTIME_INACTIVE"

definition zt_trace_shutdown :: "('r, 'w) zt_arch \<Rightarrow> ('r, 'w) os \<Rightarrow> trace \<Rightarrow> 'w \<Rightarrow> (bool \<times> trace \<times> 'w) option" where
  "zt_trace_shutdown A os st w =
     (if at_state (g_active_trace st) = ZT_TRACE_RUNTIME_INACTIVE
      then Some (True, st\<lparr>g_trace_exit_observed := False\<rparr>, w) else zt_trace_stop A os st w)"

text \<open>
  Starting a trace. The files of the tracer's own machine are a parameter: whether the log can
  be opened for writing, the contents of the default signature file and the real path of the
  payload. Opening the log truncates it.
\<close>

record host_files =
  hf_log_opens :: "string \<Rightarrow> bool"
  hf_sigconf :: "string option"
  hf_payload_path :: "string option"

definition zt_trace_start_filtered_in_session ::
  "('r, 'w) zt_arch \<Rightarrow> ('r, 'w) os \<Rightarrow> host_files \<Rightarrow> nat option \<Rightarrow> string option \<Rightarrow> string option \<Rightarrow> zt_probe_filter_t option \<Rightarrow>
   trace \<Rightarrow> 'w \<Rightarrow> (bool \<times> trace \<times> 'w) option" where
  "zt_trace_start_filtered_in_session A os hf session symbol log_path flt st w =
     (case (session, symbol, log_path) of
        (Some p, Some sname, Some path) \<Rightarrow>
          if at_state (g_active_trace st) \<noteq> ZT_TRACE_RUNTIME_INACTIVE
          then if \<not> zt_trace_session_is_active session st then Some (False, st, w)
               else zt_trace_install_active_probe A os session sname flt st w
          else if \<not> hf_log_opens hf path then Some (False, st, w)
          else let st1 = st\<lparr>tr_log := (tr_log st)\<lparr>ls_out := []\<rparr>,
                            tr_sigconf := snd (zt_sigconf_load_default (hf_sigconf hf) (tr_sigconf st))\<rparr>;
                   st2 = zt_trace_reset_active False st1; se = tr_sessions st2 p in do {
            (b3, rt3, w3) \<leftarrow> zt_setup_remote_payload A os (hf_payload_path hf) se (runtime st2) w;
            if \<not> b3 then do {
              ((b4, rt4), w4) \<leftarrow> zt_trace_cleanup_runtime A os (se_pid se) rt3 w3;
              Some (False, set_runtime rt4 st2, w4) }
            else do {
              (b4, se4, rt4, w4) \<leftarrow> zt_trace_install_probe A os se rt3 sname flt w3;
              let st4 = put_session p se4 st2 in
              if \<not> b4 then do {
                ((b5, rt5), w5) \<leftarrow> zt_trace_cleanup_runtime A os (se_pid se4) rt4 w4;
                Some (False, set_runtime rt5 st4, w5) }
              else let st5 = upd_active (\<lambda>t. t\<lparr>at_session := session, at_state := ZT_TRACE_RUNTIME_STOPPED\<rparr>) (set_runtime rt4 st4) in
                (case zt_trace_ensure_running os session st5 w4 of
                   (True, st6, w6) \<Rightarrow> Some (True, st6, w6)
                 | (False, st6, w6) \<Rightarrow> do {
                     (b7, st7, w7) \<leftarrow> zt_trace_stop A os st6 w6;
                     Some (False, st7, w7) }) } }
      | _ \<Rightarrow> Some (False, st, w))"

definition zt_trace_start_in_session ::
  "('r, 'w) zt_arch \<Rightarrow> ('r, 'w) os \<Rightarrow> host_files \<Rightarrow> nat option \<Rightarrow> string option \<Rightarrow> string option \<Rightarrow>
   trace \<Rightarrow> 'w \<Rightarrow> (bool \<times> trace \<times> 'w) option" where
  "zt_trace_start_in_session A os hf session symbol log_path st w =
     zt_trace_start_filtered_in_session A os hf session symbol log_path None st w"

definition zt_trace_remove_probe ::
  "('r, 'w) zt_arch \<Rightarrow> ('r, 'w) os \<Rightarrow> nat option \<Rightarrow> u64 \<Rightarrow> trace \<Rightarrow> 'w \<Rightarrow> (bool \<times> trace \<times> 'w) option" where
  "zt_trace_remove_probe A os session probe_id st w =
     (case session of
        None \<Rightarrow> Some (False, st, w)
      | Some p \<Rightarrow>
          if probe_id = 0 then Some (False, st, w)
          else case zt_probe_find_by_id (tr_sessions st p) probe_id of
            None \<Rightarrow> Some (False, st, w)
          | Some i \<Rightarrow>
              if at_state (g_active_trace st) = ZT_TRACE_RUNTIME_INACTIVE
              then (case zt_unregister_probe (tr_sessions st p) probe_id of (b, se) \<Rightarrow> Some (b, put_session p se st, w))
              else if \<not> zt_trace_session_is_active session st then Some (False, st, w)
              else do {
                (b1, st1, w1) \<leftarrow> zt_trace_ensure_stopped os session st w;
                if \<not> b1 then Some (False, st1, w1)
                else do {
                  (b2, se2, w2) \<leftarrow> (if pi_state (se_probes (tr_sessions st1 p) ! i) = ZT_PROBE_INSTALLED
                     then zt_uninstall_probe_patch A os (tr_sessions st1 p) probe_id w1 else Some (True, tr_sessions st1 p, w1));
                  let st2 = put_session p se2 st1 in
                  if \<not> b2 then Some (False, st2, w2)
                  else case (if act_enabled (pi_call_action (se_probes se2 ! i)) \<noteq> 0
                        then zt_trace_clear_probe_call_action os session probe_id st2 w2 else (True, st2, w2)) of
                    (b3, st3, w3) \<Rightarrow> do {
                      ((pool, probe), w4) \<leftarrow> zt_trampoline_pool_release A os (se_pid (tr_sessions st3 p))
                         (rt_trampoline_pool (runtime st3)) (se_probes (tr_sessions st3 p) ! i) w3;
                      let rt4 = (runtime st3)\<lparr>rt_trampoline_pool := pool\<rparr>; se4 = upd_probe i (\<lambda>_. probe) (tr_sessions st3 p) in
                      case zt_unregister_probe se4 probe_id of
                        (b5, se5) \<Rightarrow>
                          let st5 = put_session p se5 (set_runtime rt4 st3) in
                          if \<not> b5 then Some (False, st5, w4)
                          else if se_probe_count se5 = 0 then do {
                            ((b6, rt6), w6) \<leftarrow> zt_trace_cleanup_runtime A os (se_pid se5) rt4 w4;
                            Some (b6, zt_trace_reset_active False st5, w6) }
                          else Some (zt_trace_ensure_running os session st5 w4) } } })"

end
