(* ===== verification/ZT_RunnerProps.thy ===== *)
theory ZT_RunnerProps
  imports ZT_Runner ZT_ProbesProps ZT_PoolProps ZT_SymbolsProps
begin

text \<open>
  Properties of the trace runner: the slots of call actions, and what a failed installation
  leaves behind.
\<close>

section \<open>Slots of call actions\<close>

abbreviation has_action :: "session \<Rightarrow> nat \<Rightarrow> bool" where
  "has_action se i \<equiv> registered se i \<and> act_enabled (pi_call_action (se_probes se ! i)) \<noteq> 0"

definition calls_ok :: "session \<Rightarrow> bool" where
  "calls_ok se \<longleftrightarrow> length (se_probes se) = ZT_PROBES_CAPACITY \<and>
     (\<forall>i. has_action se i \<longrightarrow> zt_trace_call_action_slot_valid (pi_call_action_slot (se_probes se ! i))) \<and>
     (\<forall>i j. has_action se i \<and> has_action se j \<and>
        pi_call_action_slot (se_probes se ! i) = pi_call_action_slot (se_probes se ! j) \<longrightarrow> i = j)"

lemma uses_call_slot_iff:
  "0 \<le> s \<Longrightarrow> zt_trace_probe_uses_call_slot se i s \<longleftrightarrow>
     (\<exists>j. j \<noteq> i \<and> has_action se j \<and> pi_call_action_slot (se_probes se ! j) = s)"
  by (auto simp: zt_trace_probe_uses_call_slot_def list_ex_iff Let_def)

text \<open>The search from the home slot visits every slot.\<close>

lemma home_slots:
  "set (map (\<lambda>k. int ((h + k) mod ZT_PAYLOAD_PROBE_ACTION_CAP)) [0..<ZT_PAYLOAD_PROBE_ACTION_CAP]) = {0..<int ZT_PAYLOAD_PROBE_ACTION_CAP}"
proof (intro set_eqI iffI)
  fix s
  assume s: "s \<in> {0..<int ZT_PAYLOAD_PROBE_ACTION_CAP}"
  let ?c = ZT_PAYLOAD_PROBE_ACTION_CAP
  have c: "0 < ?c" by (simp add: ZT_PAYLOAD_PROBE_ACTION_CAP_def)
  define k where "k = (nat s + (?c - h mod ?c)) mod ?c"
  have "(h + k) mod ?c = (h mod ?c + (nat s + (?c - h mod ?c))) mod ?c" unfolding k_def by (simp add: mod_simps)
  also have "h mod ?c + (nat s + (?c - h mod ?c)) = nat s + ?c" using mod_less_divisor [OF c, of h] by linarith
  finally have "(h + k) mod ?c = nat s mod ?c" by simp
  moreover have "nat s < ?c" using s by auto
  ultimately have "(h + k) mod ?c = nat s" by simp
  then have "s = int ((h + k) mod ?c)" using s by simp
  moreover have "k < ?c" using c by (simp add: k_def)
  ultimately show "s \<in> set (map (\<lambda>k. int ((h + k) mod ?c)) [0..<?c])" by auto
qed (auto simp: ZT_PAYLOAD_PROBE_ACTION_CAP_def)

lemma free_call_slot:
  assumes "i < ZT_PROBES_CAPACITY"
  shows "\<exists>s. 0 \<le> s \<and> s < int ZT_PAYLOAD_PROBE_ACTION_CAP \<and> \<not> zt_trace_probe_uses_call_slot se i s"
proof (rule ccontr)
  assume n: "\<not> ?thesis"
  let ?f = "\<lambda>j. pi_call_action_slot (se_probes se ! j)"
  have "{0..<int ZT_PAYLOAD_PROBE_ACTION_CAP} \<subseteq> ?f ` ({0..<ZT_PROBES_CAPACITY} - {i})"
  proof
    fix s
    assume s: "s \<in> {0..<int ZT_PAYLOAD_PROBE_ACTION_CAP}"
    then have "zt_trace_probe_uses_call_slot se i s" using n by auto
    then show "s \<in> ?f ` ({0..<ZT_PROBES_CAPACITY} - {i})" using uses_call_slot_iff [of s se i] s by auto
  qed
  then have "card {0..<int ZT_PAYLOAD_PROBE_ACTION_CAP} \<le> card ({0..<ZT_PROBES_CAPACITY} - {i})"
    by (meson card_image_le card_mono finite_Diff finite_atLeastLessThan finite_imageI le_trans)
  then show False using assms by (simp add: zt_limits)
qed

lemma upd_probe_twice: "upd_probe i f (upd_probe i g se) = upd_probe i (f \<circ> g) se"
  by (cases "i < length (se_probes se)") (simp_all add: upd_probe_def list_update_beyond)

lemma upd_probe_same: "f (se_probes se ! i) = se_probes se ! i \<Longrightarrow> upd_probe i f se = se"
  by (simp add: upd_probe_def)

lemma uses_call_slot_upd:
  "zt_trace_probe_uses_call_slot (upd_probe i f se) i s = zt_trace_probe_uses_call_slot se i s"
  if "length (se_probes se) = ZT_PROBES_CAPACITY"
  unfolding zt_trace_probe_uses_call_slot_def
  by (rule if_cong [OF refl refl], rule list_ex_cong [OF refl]) (use that in \<open>auto simp: nth_upd_probe Let_def\<close>)

lemma assign_call_slot:
  assumes l: "length (se_probes se) = ZT_PROBES_CAPACITY" and i: "registered se i"
    and r: "zt_trace_assign_call_action_slot se i = (b, se')"
  shows "b" and "\<exists>s. se' = upd_probe i (\<lambda>p. p\<lparr>pi_call_action_slot := s\<rparr>) se \<and> zt_trace_call_action_slot_valid s \<and>
    \<not> zt_trace_probe_uses_call_slot se i s"
proof -
  let ?slot = "pi_call_action_slot (se_probes se ! i)"
  have "b \<and> (\<exists>s. se' = upd_probe i (\<lambda>p. p\<lparr>pi_call_action_slot := s\<rparr>) se \<and> zt_trace_call_action_slot_valid s \<and>
    \<not> zt_trace_probe_uses_call_slot se i s)"
  proof (cases "zt_trace_call_action_slot_valid ?slot \<and> \<not> zt_trace_probe_uses_call_slot se i ?slot")
    case True
    then have "b" "se' = se" using r i by (simp_all add: zt_trace_assign_call_action_slot_def Let_def)
    moreover have "se = upd_probe i (\<lambda>p. p\<lparr>pi_call_action_slot := ?slot\<rparr>) se" by (rule upd_probe_same [symmetric]) simp
    ultimately show ?thesis using True by blast
  next
    case False
    define se1 where "se1 = (if zt_trace_call_action_slot_valid ?slot then upd_probe i (\<lambda>p. p\<lparr>pi_call_action_slot := - 1\<rparr>) se else se)"
    define slots where "slots = map (\<lambda>k. int ((unat (pi_probe_id (se_probes se ! i)) mod ZT_PAYLOAD_PROBE_ACTION_CAP + k) mod
      ZT_PAYLOAD_PROBE_ACTION_CAP)) [0..<ZT_PAYLOAD_PROBE_ACTION_CAP]"
    have u: "zt_trace_probe_uses_call_slot se1 i s = zt_trace_probe_uses_call_slot se i s" for s
      unfolding se1_def using uses_call_slot_upd [OF l] by simp
    have e: "(b, se') = (case List.find (\<lambda>s. \<not> zt_trace_probe_uses_call_slot se1 i s) slots of
        Some s \<Rightarrow> (True, upd_probe i (\<lambda>p. p\<lparr>pi_call_action_slot := s\<rparr>) se1) | None \<Rightarrow> (False, se1))"
      using r i False unfolding zt_trace_assign_call_action_slot_def se1_def slots_def Let_def by auto
    obtain t where t: "t \<in> set slots" "\<not> zt_trace_probe_uses_call_slot se i t"
      using free_call_slot [of i se] i home_slots unfolding slots_def by fastforce
    then obtain s where s: "List.find (\<lambda>s. \<not> zt_trace_probe_uses_call_slot se1 i s) slots = Some s"
      using find_None_iff [of "\<lambda>s. \<not> zt_trace_probe_uses_call_slot se1 i s" slots] u by auto
    have v: "s \<in> set slots" "\<not> zt_trace_probe_uses_call_slot se i s" using s u by (auto simp: find_Some_iff)
    have "upd_probe i (\<lambda>p. p\<lparr>pi_call_action_slot := s\<rparr>) se1 = upd_probe i (\<lambda>p. p\<lparr>pi_call_action_slot := s\<rparr>) se"
      by (simp add: se1_def upd_probe_twice comp_def)
    then show ?thesis using e s v home_slots unfolding slots_def by (auto simp: zt_trace_call_action_slot_valid_def)
  qed
  then show "b" and "\<exists>s. se' = upd_probe i (\<lambda>p. p\<lparr>pi_call_action_slot := s\<rparr>) se \<and> zt_trace_call_action_slot_valid s \<and>
    \<not> zt_trace_probe_uses_call_slot se i s" by blast+
qed

lemma calls_ok_upd:
  assumes ok: "calls_ok se" and id: "pi_probe_id (f (se_probes se ! i)) = pi_probe_id (se_probes se ! i)"
    and s: "act_enabled (pi_call_action (f (se_probes se ! i))) \<noteq> 0 \<Longrightarrow>
      zt_trace_call_action_slot_valid (pi_call_action_slot (f (se_probes se ! i))) \<and>
      \<not> zt_trace_probe_uses_call_slot se i (pi_call_action_slot (f (se_probes se ! i)))"
  shows "calls_ok (upd_probe i f se)"
proof -
  have l: "length (se_probes se) = ZT_PROBES_CAPACITY" using ok by (simp add: calls_ok_def)
  let ?q = "f (se_probes se ! i)"
  have n: "se_probes (upd_probe i f se) ! j = (if i = j then ?q else se_probes se ! j)" if "j < ZT_PROBES_CAPACITY" for j
    using that l by (simp add: nth_upd_probe)
  have other: "pi_call_action_slot (se_probes se ! j) \<noteq> pi_call_action_slot ?q"
    if "has_action se j" "j \<noteq> i" "act_enabled (pi_call_action ?q) \<noteq> 0" for j
    using s [OF that(3)] uses_call_slot_iff [of "pi_call_action_slot ?q" se i] that
    by (auto simp: zt_trace_call_action_slot_valid_def)
  show ?thesis
    unfolding calls_ok_def
  proof (intro conjI allI impI; (elim conjE)?)
    show "length (se_probes (upd_probe i f se)) = ZT_PROBES_CAPACITY" using l by simp
  next
    fix j
    assume "j < ZT_PROBES_CAPACITY" "pi_probe_id (se_probes (upd_probe i f se) ! j) \<noteq> 0"
      "act_enabled (pi_call_action (se_probes (upd_probe i f se) ! j)) \<noteq> 0"
    then show "zt_trace_call_action_slot_valid (pi_call_action_slot (se_probes (upd_probe i f se) ! j))"
      using n [of j] s ok unfolding calls_ok_def by (auto split: if_splits)
  next
    fix j k
    assume jk: "j < ZT_PROBES_CAPACITY" "pi_probe_id (se_probes (upd_probe i f se) ! j) \<noteq> 0"
      "act_enabled (pi_call_action (se_probes (upd_probe i f se) ! j)) \<noteq> 0"
      "k < ZT_PROBES_CAPACITY" "pi_probe_id (se_probes (upd_probe i f se) ! k) \<noteq> 0"
      "act_enabled (pi_call_action (se_probes (upd_probe i f se) ! k)) \<noteq> 0"
      "pi_call_action_slot (se_probes (upd_probe i f se) ! j) = pi_call_action_slot (se_probes (upd_probe i f se) ! k)"
    show "j = k"
    proof (cases "j = i \<or> k = i")
      case True
      then show ?thesis using jk n [of j] n [of k] other [of j] other [of k] by (auto split: if_splits)
    next
      case False
      then show ?thesis using jk n [of j] n [of k] ok unfolding calls_ok_def by auto
    qed
  qed
qed

lemma trace_simps [simp]:
  "tr_sessions (put_session p se st) p = se" "tr_sessions (upd_active f st) = tr_sessions st"
  "g_active_trace (put_session p se st) = g_active_trace st" "g_active_trace (upd_active f st) = f (g_active_trace st)"
  by (simp_all add: put_session_def upd_active_def)

lemma epoch_nonzero: "zt_trace_next_call_action_epoch st = (e, st') \<Longrightarrow> e \<noteq> 0 \<and> tr_sessions st' = tr_sessions st"
  by (auto simp: zt_trace_next_call_action_epoch_def Let_def split: if_splits)

text \<open>An update either leaves the session alone or gives the probe a new action in a free slot.\<close>

lemma update_call_action:
  assumes l: "length (se_probes (tr_sessions st p)) = ZT_PROBES_CAPACITY"
    and r: "zt_trace_update_probe_call_action_args os (Some p) x callee args n st w = (b, st', w')"
  obtains (same) "\<not> b" "tr_sessions st' p = tr_sessions st p"
  | (new) i s e a c y where "zt_probe_find_by_id (tr_sessions st p) x = Some i" "zt_trace_call_action_slot_valid s"
      "\<not> zt_trace_probe_uses_call_slot (tr_sessions st p) i s" "e \<noteq> 0" "callee = Some c"
      "tr_sessions st' p = upd_probe i (\<lambda>pr. pr\<lparr>pi_call_action_slot := s,
         pi_call_action := new_call_action e (pi_probe_id pr) a args n, pi_call_symbol := y\<rparr>) (tr_sessions st p)"
proof -
  let ?se = "tr_sessions st p"
  have "(\<not> b \<and> tr_sessions st' p = ?se) \<or> (\<exists>i s e a c y. zt_probe_find_by_id ?se x = Some i \<and> zt_trace_call_action_slot_valid s \<and>
      \<not> zt_trace_probe_uses_call_slot ?se i s \<and> e \<noteq> 0 \<and> callee = Some c \<and>
      tr_sessions st' p = upd_probe i (\<lambda>pr. pr\<lparr>pi_call_action_slot := s,
         pi_call_action := new_call_action e (pi_probe_id pr) a args n, pi_call_symbol := y\<rparr>) ?se)"
  proof (cases "callee = None \<or> x = 0 \<or> \<not> zt_trace_session_is_active (Some p) st \<or> \<not> zt_trace_validate_call_action_args args n \<or>
      zt_probe_find_by_id ?se x = None")
    case True
    then show ?thesis
      using r by (auto simp: zt_trace_update_probe_call_action_args_def Let_def split: option.splits if_splits)
  next
    case False
    then obtain c i where c: "callee = Some c" and i: "zt_probe_find_by_id ?se x = Some i" by auto
    obtain t w1 where t: "zt_resolve_symbol_target os ?se c w = (t, w1)" by fastforce
    obtain b1 se1 where a: "zt_trace_assign_call_action_slot ?se i = (b1, se1)" by fastforce
    obtain e st1 where e: "zt_trace_next_call_action_epoch st = (e, st1)" by fastforce
    note i' = find_by_id_Some [OF i l]
    from assign_call_slot [OF l i'(1) a] obtain s where b1: b1 and
      s: "se1 = upd_probe i (\<lambda>p. p\<lparr>pi_call_action_slot := s\<rparr>) ?se" "zt_trace_call_action_slot_valid s"
        "\<not> zt_trace_probe_uses_call_slot ?se i s" by blast
    show ?thesis
    proof (cases t)
      case None
      then show ?thesis using r False c i t by (simp add: zt_trace_update_probe_call_action_args_def Let_def)
    next
      case (Some target)
      then have "tr_sessions st' p = upd_probe i (\<lambda>pr. pr\<lparr>pi_call_action :=
          new_call_action e (pi_probe_id pr) (tgt_remote_addr target) args n,
          pi_call_symbol := take (ZT_PROBE_SYMBOL_MAX - 1) c\<rparr>) se1"
        using r False c i t a b1 e
        by (auto simp: zt_trace_update_probe_call_action_args_def Let_def split: bool.splits prod.splits)
      then have "tr_sessions st' p = upd_probe i (\<lambda>pr. pr\<lparr>pi_call_action_slot := s,
          pi_call_action := new_call_action e (pi_probe_id pr) (tgt_remote_addr target) args n,
          pi_call_symbol := take (ZT_PROBE_SYMBOL_MAX - 1) c\<rparr>) ?se"
        by (simp add: s(1) upd_probe_twice comp_def)
      then show ?thesis using i s(2,3) epoch_nonzero [OF e] c by blast
    qed
  qed
  then show thesis using same new by blast
qed

lemma clear_call_action:
  assumes r: "zt_trace_clear_probe_call_action os (Some p) x st w = (b, st', w')"
  obtains (same) "\<not> b" "tr_sessions st' p = tr_sessions st p"
  | (cleared) i s where "zt_probe_find_by_id (tr_sessions st p) x = Some i"
      "tr_sessions st' p = upd_probe i (\<lambda>pr. pr\<lparr>pi_call_action := zero_action, pi_call_symbol := [], pi_call_action_slot := s\<rparr>) (tr_sessions st p)"
proof (cases "x = 0 \<or> \<not> zt_trace_session_is_active (Some p) st \<or> zt_probe_find_by_id (tr_sessions st p) x = None")
  case True
  then have "\<not> b \<and> tr_sessions st' p = tr_sessions st p"
    using r by (auto simp: zt_trace_clear_probe_call_action_def split: if_splits)
  then show ?thesis using same by blast
next
  case False
  let ?se = "tr_sessions st p"
  obtain i where i: "zt_probe_find_by_id ?se x = Some i" using False by auto
  let ?se1 = "upd_probe i (\<lambda>pr. pr\<lparr>pi_call_action := zero_action, pi_call_symbol := []\<rparr>) ?se"
  have "tr_sessions st' p = ?se1 \<or> tr_sessions st' p = upd_probe i (\<lambda>pr. pr\<lparr>pi_call_action_slot := - 1\<rparr>) ?se1"
    using r False i by (auto simp: zt_trace_clear_probe_call_action_def Let_def split: bool.splits prod.splits if_splits)
  moreover have "?se1 = upd_probe i (\<lambda>pr. pr\<lparr>pi_call_action := zero_action, pi_call_symbol := [],
      pi_call_action_slot := pi_call_action_slot (se_probes ?se ! i)\<rparr>) ?se" by (simp add: upd_probe_def)
  ultimately show ?thesis using cleared [OF i] by (auto simp: upd_probe_twice comp_def)
qed

lemma find_by_id_upd:
  assumes "\<And>pr. pi_probe_id (f pr) = pi_probe_id pr"
  shows "zt_probe_find_by_id (upd_probe i f se) x = zt_probe_find_by_id se x"
  by (rule find_by_id_cong [OF map_id_upd_probe]) (use assms in simp)

text \<open>The image of an action takes 128 bytes, and the actions lie in front of the events.\<close>

lemma action_addr_inject:
  assumes s: "zt_trace_call_action_slot_valid s" "zt_trace_call_action_slot_valid t" and k: "k < 128" "l < 128"
    and e: "call_action_addr a s + of_nat k = call_action_addr a t + of_nat l"
  shows "s = t"
proof -
  have n: "0 \<le> s" "s < 32" "0 \<le> t" "t < 32" using s by (simp_all add: zt_trace_call_action_slot_valid_def zt_limits)
  have w: "of_int x * 128 + of_nat i = (of_nat (nat x * 128 + i) :: u64)" if "0 \<le> x" for x :: int and i
    using that by (simp flip: of_nat_nat)
  have u: "unat (of_nat (nat x * 128 + i) :: u64) = nat x * 128 + i" if "x < 32" "i < 128" for x :: int and i
  proof -
    have "nat x \<le> 31" using that by linarith
    then have "nat x * 128 + i < 4096" using that(2) by linarith
    then show ?thesis by (simp add: unat_of_nat del: of_nat_add of_nat_mult)
  qed
  have "of_int s * 128 + of_nat k = (of_int t * 128 + of_nat l :: u64)" using e by (simp add: call_action_addr_def)
  then have "nat s * 128 + k = nat t * 128 + l" using w u n k by metis
  moreover have "(nat s * 128 + k) div 128 = nat s" "(nat t * 128 + l) div 128 = nat t" using k by simp_all
  ultimately have "nat s = nat t" by simp
  then show ?thesis using n by simp
qed

lemma action_addr_inside:
  assumes "zt_trace_call_action_slot_valid s"
  shows "\<exists>off. off + 128 \<le> offsetof_events \<and> 24 \<le> off \<and> call_action_addr a s = a + of_nat off"
  using assms
  by (intro exI [of _ "24 + nat s * 128"])
    (auto simp: call_action_addr_def offsetof_events_def zt_trace_call_action_slot_valid_def zt_limits simp flip: of_nat_nat)

lemma length_encode_action: "length (act_args a) = ZT_CALL_ACTION_ARG_CAP \<Longrightarrow> length (encode_action a) = 128"
  by (simp add: encode_action_def length_concat comp_def zt_limits sum_list_triv)

lemma update_keeps_calls_ok:
  assumes ok: "calls_ok (tr_sessions st p)"
    and r: "zt_trace_update_probe_call_action_args os (Some p) x callee args n st w = (b, st', w')"
  shows "calls_ok (tr_sessions st' p)"
    and "b \<Longrightarrow> \<exists>i. zt_probe_find_by_id (tr_sessions st' p) x = Some i \<and> has_action (tr_sessions st' p) i"
proof -
  have l: "length (se_probes (tr_sessions st p)) = ZT_PROBES_CAPACITY" using ok by (simp add: calls_ok_def)
  have "calls_ok (tr_sessions st' p) \<and>
      (b \<longrightarrow> (\<exists>i. zt_probe_find_by_id (tr_sessions st' p) x = Some i \<and> has_action (tr_sessions st' p) i))"
    using l r
  proof (cases rule: update_call_action)
    case same
    then show ?thesis using ok by simp
  next
    case (new i s e a c y)
    note i = find_by_id_Some [OF new(1) l]
    have "calls_ok (tr_sessions st' p)" unfolding new(6) using new(2,3) by (intro calls_ok_upd [OF ok]) simp_all
    moreover have "zt_probe_find_by_id (tr_sessions st' p) x = Some i" unfolding new(6) by (subst find_by_id_upd) (simp_all add: new(1))
    moreover have "has_action (tr_sessions st' p) i" using i new(4) l by (simp add: new(6) nth_upd_probe new_call_action_def)
    ultimately show ?thesis by blast
  qed
  then show "calls_ok (tr_sessions st' p)"
    and "b \<Longrightarrow> \<exists>i. zt_probe_find_by_id (tr_sessions st' p) x = Some i \<and> has_action (tr_sessions st' p) i" by blast+
qed

lemma clear_keeps_calls_ok:
  assumes ok: "calls_ok (tr_sessions st p)" and r: "zt_trace_clear_probe_call_action os (Some p) x st w = (b, st', w')"
  shows "calls_ok (tr_sessions st' p)"
    and "b \<Longrightarrow> \<exists>i. zt_probe_find_by_id (tr_sessions st' p) x = Some i \<and> \<not> has_action (tr_sessions st' p) i"
proof -
  have l: "length (se_probes (tr_sessions st p)) = ZT_PROBES_CAPACITY" using ok by (simp add: calls_ok_def)
  have "calls_ok (tr_sessions st' p) \<and>
      (b \<longrightarrow> (\<exists>i. zt_probe_find_by_id (tr_sessions st' p) x = Some i \<and> \<not> has_action (tr_sessions st' p) i))"
    using r
  proof (cases rule: clear_call_action)
    case same
    then show ?thesis using ok by simp
  next
    case (cleared i s)
    note i = find_by_id_Some [OF cleared(1) l]
    have "calls_ok (tr_sessions st' p)" unfolding cleared(2) by (intro calls_ok_upd [OF ok]) (simp_all add: zero_action_def)
    moreover have "zt_probe_find_by_id (tr_sessions st' p) x = Some i"
      unfolding cleared(2) by (subst find_by_id_upd) (simp_all add: cleared(1))
    moreover have "\<not> has_action (tr_sessions st' p) i" using i l by (simp add: cleared(2) nth_upd_probe zero_action_def)
    ultimately show ?thesis by blast
  qed
  then show "calls_ok (tr_sessions st' p)"
    and "b \<Longrightarrow> \<exists>i. zt_probe_find_by_id (tr_sessions st' p) x = Some i \<and> \<not> has_action (tr_sessions st' p) i" by blast+
qed

section \<open>Properties\<close>

text \<open>
  C38. Call actions of different probes never share a slot of the shared buffer: setting and
  clearing actions keep the slots of all enabled actions valid and different, on every
  outcome; a registered probe always finds a free slot; a successful update leaves the probe
  with an enabled action and a successful clear without one; and the images of two enabled
  actions have no byte in common and lie between the header and the events.
\<close>

theorem call_action_slots_unique:
  assumes ok: "calls_ok (tr_sessions st p)"
  shows "(zt_trace_update_probe_call_action_args os (Some p) x callee args n st w = (b, st', w') \<longrightarrow>
      calls_ok (tr_sessions st' p) \<and>
      (b \<longrightarrow> (\<exists>i. zt_probe_find_by_id (tr_sessions st' p) x = Some i \<and> has_action (tr_sessions st' p) i))) \<and>
    (zt_trace_clear_probe_call_action os (Some p) x st w = (b, st', w') \<longrightarrow>
      calls_ok (tr_sessions st' p) \<and>
      (b \<longrightarrow> (\<exists>i. zt_probe_find_by_id (tr_sessions st' p) x = Some i \<and> \<not> has_action (tr_sessions st' p) i))) \<and>
    (\<forall>i. registered (tr_sessions st p) i \<longrightarrow> fst (zt_trace_assign_call_action_slot (tr_sessions st p) i)) \<and>
    (\<forall>i j k l. has_action (tr_sessions st p) i \<and> has_action (tr_sessions st p) j \<and> i \<noteq> j \<and> k < 128 \<and> l < 128 \<longrightarrow>
      call_action_addr a (pi_call_action_slot (se_probes (tr_sessions st p) ! i)) + of_nat k \<noteq>
      call_action_addr a (pi_call_action_slot (se_probes (tr_sessions st p) ! j)) + of_nat l) \<and>
    (\<forall>i. has_action (tr_sessions st p) i \<longrightarrow> (\<exists>off. off + 128 \<le> offsetof_events \<and> 24 \<le> off \<and>
      call_action_addr a (pi_call_action_slot (se_probes (tr_sessions st p) ! i)) = a + of_nat off))"
proof (intro conjI)
  let ?se = "tr_sessions st p"
  show "zt_trace_update_probe_call_action_args os (Some p) x callee args n st w = (b, st', w') \<longrightarrow> calls_ok (tr_sessions st' p) \<and>
      (b \<longrightarrow> (\<exists>i. zt_probe_find_by_id (tr_sessions st' p) x = Some i \<and> has_action (tr_sessions st' p) i))"
    by (intro impI conjI; (rule update_keeps_calls_ok(1) [OF ok] | rule update_keeps_calls_ok(2) [OF ok]))
  show "zt_trace_clear_probe_call_action os (Some p) x st w = (b, st', w') \<longrightarrow> calls_ok (tr_sessions st' p) \<and>
      (b \<longrightarrow> (\<exists>i. zt_probe_find_by_id (tr_sessions st' p) x = Some i \<and> \<not> has_action (tr_sessions st' p) i))"
    by (intro impI conjI; (rule clear_keeps_calls_ok(1) [OF ok] | rule clear_keeps_calls_ok(2) [OF ok]))
  have l: "length (se_probes ?se) = ZT_PROBES_CAPACITY" using ok by (simp add: calls_ok_def)
  show "\<forall>i. registered ?se i \<longrightarrow> fst (zt_trace_assign_call_action_slot ?se i)"
    using assign_call_slot(1) [OF l] by (metis prod.collapse)
  show "\<forall>i j k l. has_action ?se i \<and> has_action ?se j \<and> i \<noteq> j \<and> k < 128 \<and> l < 128 \<longrightarrow>
      call_action_addr a (pi_call_action_slot (se_probes ?se ! i)) + of_nat k \<noteq>
      call_action_addr a (pi_call_action_slot (se_probes ?se ! j)) + of_nat l"
    using ok action_addr_inject unfolding calls_ok_def by metis
  show "\<forall>i. has_action ?se i \<longrightarrow> (\<exists>off. off + 128 \<le> offsetof_events \<and> 24 \<le> off \<and>
      call_action_addr a (pi_call_action_slot (se_probes ?se ! i)) = a + of_nat off)"
    using ok action_addr_inside unfolding calls_ok_def by blast
qed

text \<open>
  A session with two probes whose ids have the same home slot 1; the first has an action in it.
\<close>

definition ex_call_probe :: "u64 \<Rightarrow> zt_probe_info_t" where
  "ex_call_probe x = zero_probe\<lparr>pi_probe_id := x, pi_call_action_slot := - 1, pi_trampoline_slot := - 1\<rparr>"

definition ex_call_session :: session where
  "ex_call_session = zero_session\<lparr>se_pid := 1, se_exe_path := ''/bin/t'', se_probe_count := 2,
     se_probes := (ex_call_probe 1)\<lparr>pi_call_action_slot := 1, pi_call_action := zero_action\<lparr>act_enabled := 1, act_probe_id := 1\<rparr>\<rparr> #
       ex_call_probe 33 # replicate (ZT_PROBES_CAPACITY - 2) zero_probe\<rparr>"

definition ex_call_state :: trace where
  "ex_call_state = \<lparr>g_active_trace = zero_active_trace\<lparr>at_session := Some 0, at_state := ZT_TRACE_RUNTIME_RUNNING,
       at_runtime := zero_runtime\<lparr>rt_remote_trace_buffer_addr := 0x9000\<rparr>, at_call_action_epoch := 1\<rparr>,
     g_trace_exit_observed = False, tr_log = \<lparr>g_entry_cache = zero_cache, ls_out = []\<rparr>,
     tr_snapshot = \<lparr>g_event_snapshot = (\<lambda>_. zero_event), g_commit_before = (\<lambda>_. 0), g_commit_after = (\<lambda>_. 0)\<rparr>,
     tr_sigconf = \<lparr>g_sig_table = [], g_sigconf_loaded = False\<rparr>, tr_sessions = (\<lambda>_. ex_call_session)\<rparr>"

lemma ex_calls_ok: "calls_ok (tr_sessions ex_call_state 0)"
proof -
  have n: "has_action ex_call_session i \<Longrightarrow> i = 0" for i
    by (cases i; cases "i - 1")
      (auto simp: ex_call_session_def ex_call_probe_def zero_probe_def zero_action_def nth_Cons' split: if_splits)
  have v: "zt_trace_call_action_slot_valid (pi_call_action_slot (se_probes ex_call_session ! 0))"
    by (simp add: ex_call_session_def zt_trace_call_action_slot_valid_def zt_limits)
  have l: "length (se_probes ex_call_session) = ZT_PROBES_CAPACITY" by (simp add: ex_call_session_def ZT_PROBES_CAPACITY_def)
  have "calls_ok ex_call_session" unfolding calls_ok_def using l v n by blast
  then show ?thesis by (simp add: ex_call_state_def)
qed

lemma ex_call_update:
  "(case zt_trace_update_probe_call_action_args ex_elf_os (Some 0) 33 (Some ''f'') None 0 ex_call_state (ex_sim\<lparr>sm_vm := True\<rparr>) of (b, st, w) \<Rightarrow>
      (b, map pi_call_action_slot (take 2 (se_probes (tr_sessions st 0))))) = (True, [1, 2])"
  by code_simp

theorem call_action_slots_unique_witness:
  "\<exists>st w. zt_trace_update_probe_call_action_args ex_elf_os (Some 0) 33 (Some ''f'') None 0 ex_call_state (ex_sim\<lparr>sm_vm := True\<rparr>) = (True, st, w) \<and>
     map pi_call_action_slot (take 2 (se_probes (tr_sessions st 0))) = [1, 2] \<and> calls_ok (tr_sessions st 0)"
proof -
  obtain st w where r: "zt_trace_update_probe_call_action_args ex_elf_os (Some 0) 33 (Some ''f'') None 0 ex_call_state (ex_sim\<lparr>sm_vm := True\<rparr>) = (True, st, w)"
    and s: "map pi_call_action_slot (take 2 (se_probes (tr_sessions st 0))) = [1, 2]"
    using ex_call_update by (auto split: prod.splits)
  note c = call_action_slots_unique [OF ex_calls_ok, THEN conjunct1, THEN mp, OF r, THEN conjunct1]
  show ?thesis by (rule exI, rule exI, rule conjI [OF r conjI [OF s c]])
qed

end
