(* ===== verification/ZT_InstallProps.thy ===== *)
theory ZT_InstallProps
  imports ZT_RunnerProps
begin

text \<open>
  Installing a probe on a running trace is all or nothing for the tables of the tracer.
\<close>

section \<open>The probe table and the pool together\<close>

definition probe_ok :: "zt_probe_info_t \<Rightarrow> bool" where
  "probe_ok p \<longleftrightarrow> (pi_probe_id p = 0 \<longrightarrow> p = zero_probe) \<and> (\<not> holds_slot p \<longrightarrow> pi_trampoline_addr p = 0) \<and>
     (pi_state p = ZT_PROBE_INSTALLED \<longrightarrow> holds_slot p)"

definition table_ok :: "session \<Rightarrow> zt_trampoline_pool_t \<Rightarrow> bool" where
  "table_ok se pool \<longleftrightarrow> probes_ok se \<and> pool_inv pool (se_probes se) \<and> list_all probe_ok (se_probes se)"

lemma probe_ok_zero [simp]: "probe_ok zero_probe" "\<not> holds_slot zero_probe"
  by (simp_all add: probe_ok_def holds_slot_def zero_probe_def)

lemma list_all_update: "list_all P xs \<Longrightarrow> P x \<Longrightarrow> list_all P (xs[i := x])"
  by (auto simp: list_all_iff dest!: subsetD [OF set_update_subset_insert])

text \<open>The invariant of the pool looks at the slots and the addresses of the probes that hold one.\<close>

lemma pool_inv_update:
  assumes inv: "pool_inv pool (ps[i := q])" and s: "holds_slot r = holds_slot q"
    "holds_slot r \<Longrightarrow> pi_trampoline_slot r = pi_trampoline_slot q \<and> pi_trampoline_addr r = pi_trampoline_addr q"
  shows "pool_inv pool (ps[i := r])"
proof -
  have e: "holds_slot (ps[i := r] ! j) = holds_slot (ps[i := q] ! j)"
    "holds_slot (ps[i := r] ! j) \<Longrightarrow> pi_trampoline_slot (ps[i := r] ! j) = pi_trampoline_slot (ps[i := q] ! j) \<and>
      pi_trampoline_addr (ps[i := r] ! j) = pi_trampoline_addr (ps[i := q] ! j)" if "j < length ps" for j
    using s that by (cases "i = j"; simp)+
  note d = pool_invD [OF inv, unfolded length_list_update]
  show ?thesis
    unfolding pool_inv_def length_list_update
  proof (intro conjI allI impI)
    fix j
    assume j: "j < length ps" "holds_slot (ps[i := r] ! j)"
    then have h: "holds_slot (ps[i := q] ! j)" using e(1) by blast
    show "tp_remote_addr pool \<noteq> 0" by (rule d(3) [OF j(1) h])
    show "tp_slot_used pool ! nat (pi_trampoline_slot (ps[i := r] ! j))" using d(4) [OF j(1) h] e(2) [OF j] by simp
    show "pi_trampoline_addr (ps[i := r] ! j) = zt_trampoline_pool_slot_addr pool (pi_trampoline_slot (ps[i := r] ! j))"
      using d(5) [OF j(1) h] e(2) [OF j] by simp
    show "pi_trampoline_addr (ps[i := r] ! j) \<noteq> 0" using d(8) [OF j(1) h] e(2) [OF j] by simp
  next
    fix j k
    assume "j < length ps" "k < length ps" "holds_slot (ps[i := r] ! j) \<and> holds_slot (ps[i := r] ! k) \<and>
      pi_trampoline_slot (ps[i := r] ! j) = pi_trampoline_slot (ps[i := r] ! k)"
    then show "j = k" using d(6) [of j k] e [of j] e [of k] by simp
  next
    fix t
    assume "t < ZT_TRAMPOLINE_POOL_SLOTS" "tp_slot_used pool ! t"
    then obtain j where "j < length ps" "holds_slot (ps[i := q] ! j)" "pi_trampoline_slot (ps[i := q] ! j) = int t" using d(7) by blast
    then show "\<exists>j<length ps. holds_slot (ps[i := r] ! j) \<and> pi_trampoline_slot (ps[i := r] ! j) = int t" using e [of j] by auto
  qed (use d(1,2) in blast)+
qed

lemma probes_ok_update:
  assumes ok: "probes_ok se" and r: "se_probes se' = (se_probes se)[i := q]" "se_next_probe_id se' = se_next_probe_id se"
      "se_probe_count se' = se_probe_count se"
    and q: "pi_probe_id q = pi_probe_id (se_probes se ! i)" "pi_target q = pi_target (se_probes se ! i)"
  shows "probes_ok se'"
proof -
  let ?f = "\<lambda>p. q\<lparr>pi_probe_id := pi_probe_id p, pi_target := pi_target p\<rparr>"
  have "?f (se_probes se ! i) = q" unfolding q [symmetric] by (cases q) simp
  then have "se_probes (upd_probe i ?f se) = se_probes se'" using r by (simp add: upd_probe_def)
  then have "probes_ok se' = probes_ok (upd_probe i ?f se)" using r by (simp add: probes_ok_def)
  then show ?thesis using probes_ok_upd [OF ok, of ?f i] by simp
qed

lemma find_by_id_registered:
  assumes ok: "probes_ok se" and i: "registered se i"
  shows "zt_probe_find_by_id se (pi_probe_id (se_probes se ! i)) = Some i"
proof -
  have l: "length (se_probes se) = ZT_PROBES_CAPACITY" using ok by (simp add: probes_ok_def)
  show ?thesis
  proof (cases "zt_probe_find_by_id se (pi_probe_id (se_probes se ! i))")
    case None
    then show ?thesis using i l by (auto simp: zt_probe_find_by_id_def find_index_None_iff all_set_conv_all_nth)
  next
    case (Some j)
    from find_by_id_Some [OF Some l] have "j = i" using ok i unfolding probes_ok_def by metis
    then show ?thesis using Some by simp
  qed
qed

section \<open>The steps of an installation\<close>

text \<open>What the steps may change of a probe.\<close>

definition base_of :: "zt_probe_info_t \<Rightarrow> zt_probe_info_t" where
  "base_of p = p\<lparr>pi_trampoline_addr := 0, pi_trampoline_slot := 0, pi_orig_code := [], pi_orig_len := 0, pi_state := ZT_PROBE_EMPTY\<rparr>"

abbreviation step_of :: "zt_probe_info_t \<Rightarrow> zt_probe_info_t \<Rightarrow> bool" where
  "step_of p q \<equiv> base_of q = base_of p"

lemma step_of_keeps:
  "step_of p q \<Longrightarrow> pi_probe_id q = pi_probe_id p \<and> pi_target q = pi_target p \<and> pi_filter q = pi_filter p"
  by (cases p; cases q) (simp add: base_of_def)

lemma restore_fields:
  "step_of p q \<Longrightarrow> q\<lparr>pi_state := pi_state p, pi_trampoline_addr := pi_trampoline_addr p, pi_trampoline_slot := pi_trampoline_slot p,
     pi_orig_code := pi_orig_code p, pi_orig_len := pi_orig_len p\<rparr> = p"
  by (cases p; cases q) (simp add: base_of_def)

abbreviation same_slot :: "zt_probe_info_t \<Rightarrow> zt_probe_info_t \<Rightarrow> bool" where
  "same_slot p q \<equiv> pi_trampoline_slot q = pi_trampoline_slot p \<and> pi_trampoline_addr q = pi_trampoline_addr p"

lemma same_slot_holds: "same_slot p q \<Longrightarrow> pi_probe_id q = pi_probe_id p \<Longrightarrow> holds_slot q = holds_slot p"
  by (simp add: holds_slot_def)

lemma enable_step:
  assumes "zt_enable_probe A os se x w = (b, se', w')" and "zt_probe_find_by_id se x = Some i"
    and "pi_state (se_probes se ! i) \<noteq> ZT_PROBE_INSTALLED"
  obtains q where "se' = upd_probe i (\<lambda>_. q) se" "step_of (se_probes se ! i) q" "same_slot (se_probes se ! i) q"
    "b \<Longrightarrow> pi_state q = ZT_PROBE_PREPARED"
proof -
  let ?p = "se_probes se ! i"
  have "(se' = se \<and> (b \<longrightarrow> pi_state ?p = ZT_PROBE_PREPARED)) \<or>
      (\<exists>c n. se' = upd_probe i (\<lambda>p. p\<lparr>pi_orig_code := c, pi_orig_len := n, pi_state := ZT_PROBE_PREPARED\<rparr>) se)"
    using assms by (auto simp: zt_enable_probe_def upd_probe_def Let_def split: if_splits option.splits prod.splits)
  then show thesis
  proof (elim disjE exE conjE)
    assume "se' = se" "b \<longrightarrow> pi_state ?p = ZT_PROBE_PREPARED"
    then show thesis using that [of ?p] by (simp add: upd_probe_def)
  next
    fix c n
    assume "se' = upd_probe i (\<lambda>p. p\<lparr>pi_orig_code := c, pi_orig_len := n, pi_state := ZT_PROBE_PREPARED\<rparr>) se"
    then show thesis
      using that [of "?p\<lparr>pi_orig_code := c, pi_orig_len := n, pi_state := ZT_PROBE_PREPARED\<rparr>"] by (simp add: upd_probe_def base_of_def)
  qed
qed

lemma assign_step:
  assumes "zt_trampoline_pool_assign_slot pool p s = (r, pool', q)"
  shows "q = p \<or> q = p\<lparr>pi_trampoline_slot := s, pi_trampoline_addr := zt_trampoline_pool_slot_addr pool s\<rparr> \<and> zt_trampoline_pool_slot_valid s"
  using assms by (auto simp: zt_trampoline_pool_assign_slot_def Let_def split: if_splits)

lemma alloc_step:
  assumes inv: "pool_inv pool probes" and i: "i < length probes" "pi_probe_id (probes ! i) \<noteq> 0"
    and r: "zt_trampoline_pool_alloc A os pid pool (probes ! i) w = Some ((r, pool', q), w')"
  shows "step_of (probes ! i) q" and "pi_state q = pi_state (probes ! i)"
    and "same_slot (probes ! i) q \<or> \<not> holds_slot (probes ! i) \<and> holds_slot q"
proof -
  let ?p = "probes ! i"
  have "q = ?p \<or> (\<exists>s pool1. q = ?p\<lparr>pi_trampoline_slot := s, pi_trampoline_addr := zt_trampoline_pool_slot_addr pool1 s\<rparr> \<and>
      zt_trampoline_pool_slot_valid s \<and> (holds_slot ?p \<longrightarrow> s = pi_trampoline_slot ?p \<and> pool1 = pool))"
  proof (cases "zt_trampoline_pool_slot_valid (pi_trampoline_slot ?p) \<and> tp_remote_addr pool \<noteq> 0")
    case True
    then have "q = ?p \<or> zt_trampoline_pool_assign_slot pool ?p (pi_trampoline_slot ?p) = (r, pool', q)"
      using r by (auto simp: zt_trampoline_pool_alloc_def Let_def split: if_splits)
    then show ?thesis using assign_step by blast
  next
    case False
    then have n: "\<not> holds_slot ?p" using pool_invD(3) [OF inv i(1)] by (auto simp: holds_slot_def)
    have "q = ?p \<or> (\<exists>pool1 s. zt_trampoline_pool_assign_slot pool1 ?p s = (r, pool', q))"
      using r False by (auto simp: zt_trampoline_pool_alloc_def Let_def bind_eq_Some_conv split: if_splits option.splits)
    then show ?thesis using assign_step n by blast
  qed
  then show "step_of ?p q" and "pi_state q = pi_state ?p" and "same_slot ?p q \<or> \<not> holds_slot ?p \<and> holds_slot q"
    using pool_invD(5) [OF inv i(1)] i(2) by (auto simp: base_of_def holds_slot_def)
qed

lemma patch_step:
  assumes t: "threads_ok se" and r: "zt_install_probe_patch A os se x t w = Some (b, se', w')"
    and i: "zt_probe_find_by_id se x = Some i" and a: "pi_trampoline_addr (se_probes se ! i) = t"
  obtains q where "se_rest se' = se_rest (upd_probe i (\<lambda>_. q) se)" "step_of (se_probes se ! i) q" "same_slot (se_probes se ! i) q"
    "b \<Longrightarrow> pi_state q = ZT_PROBE_INSTALLED"
proof -
  let ?p = "se_probes se ! i"
  have keep: "se_rest se1 = se_rest se \<and> se_probes se1 = se_probes se"
    if "zt_ensure_patch_regions_are_safe A os se w = Some (b1, se1, w1)" for b1 se1 w1
    using ensure_safe_ok [OF t that] se_restD by blast
  have "\<not> b \<and> se_rest se' = se_rest se \<or>
      b \<and> (\<exists>se1. se_rest se1 = se_rest se \<and> se_probes se1 = se_probes se \<and>
        se' = upd_probe i (\<lambda>p. p\<lparr>pi_trampoline_addr := t, pi_state := ZT_PROBE_INSTALLED\<rparr>) se1)"
    using r i keep
    by (auto simp: zt_install_probe_patch_def bind_eq_Some_conv split: if_splits prod.splits bool.splits)
  then show thesis
  proof (elim disjE exE conjE)
    assume "\<not> b" "se_rest se' = se_rest se"
    then show thesis using that [of ?p] by (simp add: upd_probe_def)
  next
    fix se1
    assume b and s: "se_rest se1 = se_rest se" "se_probes se1 = se_probes se"
      "se' = upd_probe i (\<lambda>p. p\<lparr>pi_trampoline_addr := t, pi_state := ZT_PROBE_INSTALLED\<rparr>) se1"
    let ?q = "?p\<lparr>pi_trampoline_addr := t, pi_state := ZT_PROBE_INSTALLED\<rparr>"
    have "se_rest (upd_probe i (\<lambda>_. ?q) se1) = (se_rest se1)\<lparr>se_probes := (se_probes se)[i := ?q]\<rparr>"
      by (simp add: se_rest_def upd_probe_def s(2))
    also have "\<dots> = se_rest (upd_probe i (\<lambda>_. ?q) se)" unfolding s(1) by (simp add: se_rest_def upd_probe_def)
    finally show thesis using that [of ?q] a s(2,3) by (simp add: upd_probe_def base_of_def)
  qed
qed

lemma upd_const_twice: "upd_probe i (\<lambda>_. q) (upd_probe i (\<lambda>_. p) se) = upd_probe i (\<lambda>_. q) se"
  by (simp add: upd_probe_def)

lemma threads_ok_upd_probe: "threads_ok (upd_probe i f se) = threads_ok se"
  by (simp add: threads_ok_def)

lemma find_by_id_const:
  assumes "pi_probe_id q = pi_probe_id (se_probes se ! i)"
  shows "zt_probe_find_by_id (upd_probe i (\<lambda>_. q) se) x = zt_probe_find_by_id se x"
  by (rule find_by_id_cong, rule nth_equalityI) (use assms in \<open>auto simp: nth_upd_probe\<close>)

text \<open>The outcomes of the steps, the probe before (\<open>p\<close>) and after (\<open>q\<close>).\<close>

definition steps_done :: "bool \<Rightarrow> zt_trampoline_pool_t \<Rightarrow> zt_probe_info_t list \<Rightarrow> nat \<Rightarrow> zt_probe_info_t \<Rightarrow> bool" where
  "steps_done b pool ps i q \<longleftrightarrow> step_of (ps ! i) q \<and> pool_inv pool (ps[i := q]) \<and>
     (same_slot (ps ! i) q \<or> \<not> holds_slot (ps ! i) \<and> holds_slot q) \<and> (b \<longrightarrow> pi_state q = ZT_PROBE_INSTALLED \<and> holds_slot q)"

lemma patch_steps_done:
  assumes d: "steps_done False pool (se_probes se) i q" and i: "i < length (se_probes se)" and t: "threads_ok se"
    and f: "zt_probe_find_by_id se x = Some i" and h: "holds_slot q" and a: "pi_trampoline_addr q = addr"
    and r: "zt_install_probe_patch A os (upd_probe i (\<lambda>_. q) se) x addr w = Some (b, se', w')"
  obtains q' where "se_rest se' = se_rest (upd_probe i (\<lambda>_. q') se)" "steps_done b pool (se_probes se) i q'"
proof -
  let ?se = "upd_probe i (\<lambda>_. q) se"
  have q: "step_of (se_probes se ! i) q" "pool_inv pool ((se_probes se)[i := q])" "se_probes ?se ! i = q"
    using d i by (simp_all add: steps_done_def nth_upd_probe)
  have "zt_probe_find_by_id ?se x = Some i" using find_by_id_const step_of_keeps [OF q(1)] f by simp
  from patch_step [OF _ r this] obtain q' where q': "se_rest se' = se_rest (upd_probe i (\<lambda>_. q') ?se)" "step_of q q'" "same_slot q q'"
      "b \<Longrightarrow> pi_state q' = ZT_PROBE_INSTALLED"
    using t a by (metis q(3) threads_ok_upd_probe)
  have h': "holds_slot q'" using h same_slot_holds [OF q'(3)] step_of_keeps [OF q'(2)] by simp
  have "pool_inv pool ((se_probes se)[i := q'])" by (rule pool_inv_update [OF q(2)]) (use h h' q'(3) in simp_all)
  then have "steps_done b pool (se_probes se) i q'" using d q' h h' q(1) unfolding steps_done_def by auto
  then show thesis using that q'(1) by (simp add: upd_const_twice)
qed

lemma install_steps:
  assumes ok: "probes_ok se" and inv: "pool_inv (rt_trampoline_pool rt) (se_probes se)" and t: "threads_ok se"
    and i: "registered se i" and s: "pi_state (se_probes se ! i) \<noteq> ZT_PROBE_INSTALLED"
    and r: "zt_install_steps A os se rt i w = Some (b, se', rt', w')"
  obtains q where "se_rest se' = se_rest (upd_probe i (\<lambda>_. q) se)" "steps_done b (rt_trampoline_pool rt') (se_probes se) i q"
proof -
  let ?ps = "se_probes se" and ?id = "pi_probe_id (se_probes se ! i)"
  have l: "i < length ?ps" using ok i by (simp add: probes_ok_def)
  note f = find_by_id_registered [OF ok i]
  obtain b1 se1 w1 where e: "zt_enable_probe A os se ?id w = (b1, se1, w1)" by (metis prod_cases3)
  from enable_step [OF e f s] obtain q1 where q1: "se1 = upd_probe i (\<lambda>_. q1) se" "step_of (?ps ! i) q1" "same_slot (?ps ! i) q1" by metis
  have id1: "pi_probe_id q1 = ?id" using step_of_keeps [OF q1(2)] by simp
  have inv1: "pool_inv (rt_trampoline_pool rt) (?ps[i := q1])"
    by (rule pool_inv_update [of _ ?ps i "?ps ! i"]) (use inv same_slot_holds [OF q1(3) id1] q1(3) in simp_all)
  then have d1: "steps_done False (rt_trampoline_pool rt) ?ps i q1" using q1 by (simp add: steps_done_def)
  show thesis
  proof (cases b1)
    case False
    then have "se' = se1" "rt' = rt" "\<not> b" using r e by (simp_all add: zt_install_steps_def Let_def)
    then show thesis using that [of q1] d1 q1(1) by simp
  next
    case True
    obtain addr pool q2 w2 where al: "zt_trampoline_pool_alloc A os (se_pid se1) (rt_trampoline_pool rt) (?ps[i := q1] ! i) w1 = Some ((addr, pool, q2), w2)"
      using r e True q1(1) by (auto simp: zt_install_steps_def Let_def upd_probe_def bind_eq_Some_conv)
    have l1: "i < length (?ps[i := q1])" "pi_probe_id (?ps[i := q1] ! i) \<noteq> 0" using l id1 i by simp_all
    note inv2 = alloc_inv [OF inv1 l1 al] and st = alloc_step [OF inv1 l1 al]
    have d2: "steps_done False pool ?ps i q2"
      using inv2(1) st q1(2,3) l same_slot_holds [OF q1(3) id1] by (auto simp: steps_done_def)
    have u: "upd_probe i (\<lambda>_. q2) se1 = upd_probe i (\<lambda>_. q2) se" by (simp add: q1(1) upd_const_twice)
    have al': "zt_trampoline_pool_alloc A os (se_pid se1) (rt_trampoline_pool rt) (se_probes se1 ! i) w1 = Some ((addr, pool, q2), w2)"
      using al l by (simp add: q1(1) upd_probe_def)
    show thesis
    proof (cases "\<exists>a w3. addr = Some a \<and> zt_install_probe_patch A os (upd_probe i (\<lambda>_. q2) se1) ?id a w3 = Some (b, se', w') \<and>
        rt' = rt\<lparr>rt_trampoline_pool := pool\<rparr>")
      case True
      then obtain a w3 where a: "addr = Some a" "zt_install_probe_patch A os (upd_probe i (\<lambda>_. q2) se) ?id a w3 = Some (b, se', w')"
        "rt' = rt\<lparr>rt_trampoline_pool := pool\<rparr>" unfolding u by blast
      have h: "holds_slot q2" "pi_trampoline_addr q2 = a"
        using inv2(2) [OF a(1)] pool_invD(5) [OF inv2(1), of i] l by simp_all
      from patch_steps_done [OF d2 l t f h a(2)] show thesis using that a(3) by auto
    next
      case False
      then have "se' = upd_probe i (\<lambda>_. q2) se1 \<and> rt' = rt\<lparr>rt_trampoline_pool := pool\<rparr> \<and> \<not> b"
        using r e \<open>b1\<close> al' by (auto simp: zt_install_steps_def Let_def bind_eq_Some_conv split: option.splits prod.splits bool.splits)
      then show thesis using that [of q2] d2 u by simp
    qed
  qed
qed

section \<open>Registering and rolling back\<close>

lemma se_rest_fields:
  "se_rest se' = se_rest se \<Longrightarrow> se_probes se' = se_probes se \<and> se_next_probe_id se' = se_next_probe_id se \<and>
     se_probe_count se' = se_probe_count se \<and> se_pid se' = se_pid se"
  by (cases se; cases se') (simp add: se_rest_def)

lemma register_new:
  assumes r: "zt_register_probe os se name w = (Some i, se', w')" and n: "zt_probe_find_by_symbol se name = None"
    and l: "length name < ZT_PROBE_SYMBOL_MAX"
  obtains new where "se_probes se' = (se_probes se)[i := new]" "i < length (se_probes se)" "pi_probe_id (se_probes se ! i) = 0"
    "\<not> holds_slot new" "pi_trampoline_addr new = 0" "pi_state new = ZT_PROBE_RESOLVED"
    "se_probe_count se' = se_probe_count se + 1" "threads_ok se' = threads_ok se"
proof -
  obtain target w1 where t: "zt_resolve_symbol_target os se name w = (Some target, w1)" and a: "zt_probe_alloc se target = (Some i, se')"
    using r n by (auto simp: zt_register_probe_def split: option.splits prod.splits)
  have "tgt_symbol target = name" using resolve_symbol [OF t] l by simp
  then have f: "find_index (\<lambda>p. pi_probe_id p = 0) (se_probes se) = Some i" and
    s: "\<exists>x y. se' = (upd_probe i (\<lambda>_. zero_probe\<lparr>pi_probe_id := x, pi_target := target, pi_trampoline_slot := - 1,
      pi_call_action_slot := - 1, pi_state := ZT_PROBE_RESOLVED\<rparr>) se)\<lparr>se_next_probe_id := y, se_probe_count := se_probe_count se + 1\<rparr>"
    using a n by (auto simp: zt_probe_alloc_def Let_def split: if_splits option.splits)
  note i = find_index_SomeD [OF f]
  from s obtain x y where "se' = (upd_probe i (\<lambda>_. zero_probe\<lparr>pi_probe_id := x, pi_target := target, pi_trampoline_slot := - 1,
      pi_call_action_slot := - 1, pi_state := ZT_PROBE_RESOLVED\<rparr>) se)\<lparr>se_next_probe_id := y, se_probe_count := se_probe_count se + 1\<rparr>" by blast
  then show thesis
    by (intro that [of "zero_probe\<lparr>pi_probe_id := x, pi_target := target, pi_trampoline_slot := - 1,
      pi_call_action_slot := - 1, pi_state := ZT_PROBE_RESOLVED\<rparr>"])
      (use i in \<open>simp_all add: upd_probe_def holds_slot_def zt_trampoline_pool_slot_valid_def zero_probe_def threads_ok_def\<close>)
qed

lemma release_step:
  assumes "zt_trampoline_pool_release A os pid pool p w = Some ((pool', q), w')"
  shows "step_of p q"
  using assms
  by (auto simp: zt_trampoline_pool_release_def zt_trampoline_pool_clear_probe_slot_def base_of_def Let_def bind_eq_Some_conv split: if_splits)

text \<open>After the release the probe holds what it held before the steps.\<close>

lemma rollback_release:
  assumes d: "steps_done b pool ps i q" and i: "i < length ps" "pi_probe_id (ps ! i) \<noteq> 0" and ok: "probe_ok (ps ! i)"
    and r: "(if pi_trampoline_addr q \<noteq> 0 \<and> pi_trampoline_addr q \<noteq> pi_trampoline_addr (ps ! i)
      then zt_trampoline_pool_release A os pid pool q w else Some ((pool, q), w)) = Some ((pool', q'), w')"
  shows "step_of (ps ! i) q'" and "pool_inv pool' (ps[i := q'])" and "pool_inv pool' ps"
proof -
  let ?p = "ps ! i"
  have q: "step_of ?p q" "pool_inv pool (ps[i := q])" "same_slot ?p q \<or> \<not> holds_slot ?p \<and> holds_slot q"
    using d by (simp_all add: steps_done_def)
  have id: "pi_probe_id q = pi_probe_id ?p" using step_of_keeps [OF q(1)] by simp
  have "step_of ?p q' \<and> pool_inv pool' (ps[i := q']) \<and> holds_slot ?p = holds_slot q' \<and> (holds_slot ?p \<longrightarrow> same_slot ?p q')"
  proof (cases "pi_trampoline_addr q \<noteq> 0 \<and> pi_trampoline_addr q \<noteq> pi_trampoline_addr ?p")
    case True
    then have n: "\<not> holds_slot ?p" using q(3) by auto
    have rel: "zt_trampoline_pool_release A os pid pool (ps[i := q] ! i) w = Some ((pool', q'), w')" using r True i by simp
    have "step_of q q'" using release_step [OF rel] i by simp
    then show ?thesis using release_inv [OF q(2) _ _ rel] i id n q(1) by simp
  next
    case False
    then have e: "pool' = pool" "q' = q" using r by (auto split: if_splits)
    have "same_slot ?p q"
      using q(3) False pool_invD(8) [OF q(2), of i] i ok by (auto simp: probe_ok_def)
    then show ?thesis using q(1,2) e same_slot_holds [OF _ id] by auto
  qed
  then show "step_of ?p q'" "pool_inv pool' (ps[i := q'])" "pool_inv pool' ps"
    using pool_inv_update [of pool' ps i q' ?p] by auto
qed

lemma filter_keeps [simp]:
  "pi_probe_id (zt_trace_set_probe_filter flt p) = pi_probe_id p" "pi_target (zt_trace_set_probe_filter flt p) = pi_target p"
  "pi_state (zt_trace_set_probe_filter flt p) = pi_state p" "pi_trampoline_addr (zt_trace_set_probe_filter flt p) = pi_trampoline_addr p"
  "pi_trampoline_slot (zt_trace_set_probe_filter flt p) = pi_trampoline_slot p"
  "holds_slot (zt_trace_set_probe_filter flt p) = holds_slot p"
  by (simp_all add: zt_trace_set_probe_filter_def holds_slot_def)

lemma probe_ok_filter: "probe_ok p \<Longrightarrow> pi_probe_id p \<noteq> 0 \<Longrightarrow> probe_ok (zt_trace_set_probe_filter flt p)"
  by (simp add: probe_ok_def)

lemma restore_filter:
  assumes "step_of (zt_trace_set_probe_filter flt p) q"
  shows "q\<lparr>pi_state := pi_state p, pi_trampoline_addr := pi_trampoline_addr p, pi_trampoline_slot := pi_trampoline_slot p,
     pi_orig_code := pi_orig_code p, pi_orig_len := pi_orig_len p, pi_filter := pi_filter p\<rparr> = p"
  using assms by (cases p; cases q) (simp add: base_of_def zt_trace_set_probe_filter_def)

text \<open>
  The rollback of an installation that began with the registered probe \<open>p\<close> puts \<open>p\<close> back, or
  unregisters it when the installation had registered it.
\<close>

lemma rollback:
  fixes se :: session and i :: nat
  defines "p \<equiv> se_probes se ! i"
  assumes ok: "probes_ok se" and i: "registered se i" and pok: "probe_ok p"
    and d: "steps_done False (rt_trampoline_pool rt) ((se_probes se)[i := zt_trace_set_probe_filter flt p]) i q"
    and e: "se_rest se' = se_rest (upd_probe i (\<lambda>_. q) se)"
    and r: "zt_trace_rollback_probe_install A os se' rt i (zt_trace_capture_probe_install_snapshot p existed) w = Some (se'', rt'', w'')"
  obtains se1 where "se'' = (if existed then se1 else snd (zt_unregister_probe se1 (pi_probe_id p)))"
    "existed \<longrightarrow> se_probes se1 = se_probes se" "probes_ok se1"
    "map pi_probe_id (se_probes se1) = map pi_probe_id (se_probes se)" "\<exists>q. se_probes se1 = (se_probes se)[i := q]"
    "se_probe_count se1 = se_probe_count se" "pool_inv (rt_trampoline_pool rt'') (se_probes se)"
proof -
  let ?ps = "se_probes se" and ?p' = "zt_trace_set_probe_filter flt p"
  have l: "i < length ?ps" using ok i by (simp add: probes_ok_def)
  note f = se_rest_fields [OF e]
  have q: "se_probes se' ! i = q" "se_probes se' = ?ps[i := q]" using f l by (simp_all add: upd_probe_def)
  define rel where "rel = (if pi_trampoline_addr q \<noteq> 0 \<and> pi_trampoline_addr q \<noteq> pi_trampoline_addr p
      then zt_trampoline_pool_release A os (se_pid se') (rt_trampoline_pool rt) q w else Some ((rt_trampoline_pool rt, q), w))"
  obtain pool' q' w' where r1: "rel = Some ((pool', q'), w')" and r2: "se'' = (if \<not> existed
        then snd (zt_unregister_probe (upd_probe i (\<lambda>_. q') se') (pi_probe_id q))
        else upd_probe i (\<lambda>x. x\<lparr>pi_state := pi_state p, pi_trampoline_addr := pi_trampoline_addr p, pi_trampoline_slot := pi_trampoline_slot p,
          pi_orig_code := pi_orig_code p, pi_orig_len := pi_orig_len p, pi_filter := pi_filter p\<rparr>) (upd_probe i (\<lambda>_. q') se'))"
      "rt_trampoline_pool rt'' = pool'"
    using r unfolding zt_trace_rollback_probe_install_def zt_trace_capture_probe_install_snapshot_def rel_def Let_def q(1)
    by (auto simp: bind_eq_Some_conv upd_probe_same q(1) split: if_splits)
  note rr = rollback_release [OF d, unfolded length_list_update nth_list_update_eq [OF l] list_update_overwrite, OF l, simplified, of A os "se_pid se'" w pool' q' w']
  have pp: "probe_ok ?p'" using probe_ok_filter [OF pok] i by (simp add: p_def)
  have c: "step_of ?p' q'" "pool_inv pool' (?ps[i := ?p'])"
    using rr pp r1 i unfolding rel_def p_def by auto
  have id: "pi_probe_id q' = pi_probe_id p" "pi_target q' = pi_target p" "pi_probe_id q = pi_probe_id p"
    using step_of_keeps [OF c(1)] step_of_keeps [of ?p' q] d l by (simp_all add: steps_done_def)
  have inv: "pool_inv pool' ?ps" using pool_inv_update [OF c(2), of p] by (simp add: p_def)
  let ?u = "upd_probe i (\<lambda>_. q') se'"
  have u: "se_probes ?u = ?ps[i := q']" using q by (simp add: upd_probe_def)
  have restored: "se_probes (upd_probe i (\<lambda>x. x\<lparr>pi_state := pi_state p, pi_trampoline_addr := pi_trampoline_addr p, pi_trampoline_slot := pi_trampoline_slot p,
      pi_orig_code := pi_orig_code p, pi_orig_len := pi_orig_len p, pi_filter := pi_filter p\<rparr>) ?u) = ?ps"
    using restore_filter [OF c(1)] l by (simp add: upd_probe_def q p_def)
  show thesis
  proof (cases existed)
    case True
    let ?s = "upd_probe i (\<lambda>x. x\<lparr>pi_state := pi_state p, pi_trampoline_addr := pi_trampoline_addr p, pi_trampoline_slot := pi_trampoline_slot p,
      pi_orig_code := pi_orig_code p, pi_orig_len := pi_orig_len p, pi_filter := pi_filter p\<rparr>) ?u"
    have "probes_ok ?s" using ok f unfolding probes_ok_def restored by simp
    moreover have "\<exists>q. se_probes ?s = ?ps[i := q]" unfolding restored by (rule exI [of _ p]) (simp add: p_def)
    ultimately show thesis using that [of ?s] True r2 f inv restored by simp
  next
    case False
    have "probes_ok ?u" by (rule probes_ok_update [OF ok u]) (use f id in \<open>simp_all add: p_def\<close>)
    moreover have "map pi_probe_id (se_probes ?u) = map pi_probe_id ?ps" unfolding u using id(1) by (simp add: map_update p_def list_update_same_conv l)
    ultimately show thesis using that [of ?u] False r2 f inv u id by auto
  qed
qed

lemma table_okD:
  assumes "table_ok se pool"
  shows "probes_ok se" "pool_inv pool (se_probes se)" "i < length (se_probes se) \<Longrightarrow> probe_ok (se_probes se ! i)"
    "length (se_probes se) = ZT_PROBES_CAPACITY"
  using assms by (simp_all add: table_ok_def probes_ok_def list_all_length)

lemma table_ok_update:
  assumes "table_ok se pool" and "se_probes se' = (se_probes se)[i := q]" and "probes_ok se'" and "probe_ok q"
    and "pool_inv pool' ((se_probes se)[i := q])"
  shows "table_ok se' pool'"
  using assms by (simp add: table_ok_def list_all_update)

text \<open>Registering keeps the tables; the table before is the one after, or has a free entry at \<open>i\<close>.\<close>

lemma register_table:
  assumes t: "table_ok se pool" and n: "0 < se_next_probe_id se" "unat (se_next_probe_id se) < 2 ^ 64 - 1"
    and l: "length name < ZT_PROBE_SYMBOL_MAX" and r: "zt_register_probe os se name w = (Some i, se', w')"
  shows "table_ok se' pool" and "registered se' i" and "zt_probe_find_by_symbol se' name = Some i" and "threads_ok se' = threads_ok se"
    and "zt_probe_find_by_symbol se name \<noteq> None \<Longrightarrow> se' = se"
    and "zt_probe_find_by_symbol se name = None \<Longrightarrow> se_probes se = (se_probes se')[i := zero_probe] \<and>
      se_probe_count se' = se_probe_count se + 1 \<and> \<not> holds_slot (se_probes se' ! i)"
proof -
  note d = table_okD [OF t]
  note reg = register [OF d(1) n r]
  show i: "registered se' i" using reg(2) by blast
  have sym: "tgt_symbol (pi_target (se_probes se' ! i)) = name" using reg(2) l by auto
  show "zt_probe_find_by_symbol se' name = Some i" using find_by_symbol_registered [OF reg(1) i] sym by simp
  show "zt_probe_find_by_symbol se name \<noteq> None \<Longrightarrow> se' = se" using r by (auto simp: zt_register_probe_def)
  have "table_ok se' pool \<and> (threads_ok se' = threads_ok se) \<and> (zt_probe_find_by_symbol se name = None \<longrightarrow>
      se_probes se = (se_probes se')[i := zero_probe] \<and> se_probe_count se' = se_probe_count se + 1 \<and> \<not> holds_slot (se_probes se' ! i))"
  proof (cases "zt_probe_find_by_symbol se name")
    case None
    obtain new where new: "se_probes se' = (se_probes se)[i := new]" "i < length (se_probes se)" "pi_probe_id (se_probes se ! i) = 0"
      "\<not> holds_slot new" "pi_trampoline_addr new = 0" "pi_state new = ZT_PROBE_RESOLVED"
      "se_probe_count se' = se_probe_count se + 1" "threads_ok se' = threads_ok se" by (rule register_new [OF r None l])
    have z: "se_probes se ! i = zero_probe" using d(3) [OF new(2)] new(3) by (simp add: probe_ok_def)
    have "pi_probe_id new \<noteq> 0" using i new(1,2) by simp
    then have "probe_ok new" using new by (simp add: probe_ok_def)
    moreover have "pool_inv pool ((se_probes se)[i := se_probes se ! i])" using d(2) by simp
    then have "pool_inv pool ((se_probes se)[i := new])" by (rule pool_inv_update) (use z new(4) in simp_all)
    ultimately have "table_ok se' pool" using table_ok_update [OF t new(1) reg(1)] by blast
    moreover have "se_probes se = (se_probes se')[i := zero_probe]" using new(1) z by (metis list_update_id list_update_overwrite)
    ultimately show ?thesis using new by simp
  qed (use r t in \<open>auto simp: zt_register_probe_def\<close>)
  then show "table_ok se' pool" "threads_ok se' = threads_ok se"
    "zt_probe_find_by_symbol se name = None \<Longrightarrow> se_probes se = (se_probes se')[i := zero_probe] \<and>
      se_probe_count se' = se_probe_count se + 1 \<and> \<not> holds_slot (se_probes se' ! i)" by blast+
qed

lemma unregister_effect:
  assumes ok: "probes_ok se" and i: "registered se i" and r: "se' = snd (zt_unregister_probe se (pi_probe_id (se_probes se ! i)))"
  shows "se_probes se' = (se_probes se)[i := zero_probe]" and "se_probe_count se' = se_probe_count se - 1" and "probes_ok se'"
proof -
  have "0 < se_probe_count se"
    using ok i finite_registered [of se] card_gt_0_iff [of "{i. registered se i}"] unfolding probes_ok_def by auto
  then show "se_probes se' = (se_probes se)[i := zero_probe]" "se_probe_count se' = se_probe_count se - 1"
    using r find_by_id_registered [OF ok i] by (simp_all add: zt_unregister_probe_def Let_def upd_probe_def)
  show "probes_ok se'" using unregister(1) [OF ok] r by (metis prod.collapse)
qed

lemma install_succeeded:
  assumes t: "table_ok se pool" and i: "registered se i"
    and d: "steps_done True pool' ((se_probes se)[i := zt_trace_set_probe_filter flt (se_probes se ! i)]) i q"
    and e: "se_rest se' = se_rest (upd_probe i (\<lambda>_. q) se)"
  shows "table_ok se' pool'" and "se_probes se' = (se_probes se)[i := q]" and "pi_state q = ZT_PROBE_INSTALLED"
    and "pi_target q = pi_target (se_probes se ! i)"
proof -
  note f = se_rest_fields [OF e] and o = table_okD [OF t]
  have l: "i < length (se_probes se)" using i o(4) by simp
  show ps: "se_probes se' = (se_probes se)[i := q]" using f by (simp add: upd_probe_def)
  have q: "pi_probe_id q = pi_probe_id (se_probes se ! i)" "pi_target q = pi_target (se_probes se ! i)"
    using step_of_keeps [of "zt_trace_set_probe_filter flt (se_probes se ! i)" q] d l by (simp_all add: steps_done_def)
  then show "pi_target q = pi_target (se_probes se ! i)" by simp
  show s: "pi_state q = ZT_PROBE_INSTALLED" using d by (simp add: steps_done_def)
  have "probes_ok se'" by (rule probes_ok_update [OF o(1) ps]) (use f q in simp_all)
  moreover have "probe_ok q" "pool_inv pool' ((se_probes se)[i := q])"
    using d i q by (auto simp: probe_ok_def steps_done_def)
  ultimately show "table_ok se' pool'" using table_ok_update [OF t ps] by blast
qed

lemma install_failed:
  assumes t: "table_ok se pool" and i: "registered se i"
    and d: "steps_done False (rt_trampoline_pool rt) ((se_probes se)[i := zt_trace_set_probe_filter flt (se_probes se ! i)]) i q"
    and e: "se_rest se' = se_rest (upd_probe i (\<lambda>_. q) se)"
    and r: "zt_trace_rollback_probe_install A os se' rt i (zt_trace_capture_probe_install_snapshot (se_probes se ! i) existed) w = Some (se'', rt'', w'')"
    and n: "\<not> existed \<Longrightarrow> \<not> holds_slot (se_probes se ! i)"
  shows "table_ok se'' (rt_trampoline_pool rt'')"
    and "se_probes se'' = (if existed then se_probes se else (se_probes se)[i := zero_probe])"
    and "se_probe_count se'' = (if existed then se_probe_count se else se_probe_count se - 1)"
proof -
  let ?ps = "se_probes se" and ?pool = "rt_trampoline_pool rt''"
  note o = table_okD [OF t]
  have l: "i < length ?ps" using i o(4) by simp
  obtain se1 where s: "se'' = (if existed then se1 else snd (zt_unregister_probe se1 (pi_probe_id (?ps ! i))))"
    "existed \<longrightarrow> se_probes se1 = ?ps" "probes_ok se1" "map pi_probe_id (se_probes se1) = map pi_probe_id ?ps"
    "\<exists>q. se_probes se1 = ?ps[i := q]" "se_probe_count se1 = se_probe_count se" "pool_inv ?pool ?ps"
    by (rule rollback [OF o(1) i o(3) [OF l] d e r])
  have id: "pi_probe_id (se_probes se1 ! i) = pi_probe_id (?ps ! i)" using s(4,5) l by (metis length_list_update nth_map)
  have u: "se_probes se'' = (se_probes se1)[i := zero_probe]" "se_probe_count se'' = se_probe_count se1 - 1" "probes_ok se''" if "\<not> existed"
    using unregister_effect [OF s(3), of i se''] s(1) that i id by simp_all
  show ps: "se_probes se'' = (if existed then ?ps else ?ps[i := zero_probe])" using u(1) s(1,2,5) by auto
  show "se_probe_count se'' = (if existed then se_probe_count se else se_probe_count se - 1)" using u(2) s(1,6) by auto
  show "table_ok se'' ?pool"
  proof (cases existed)
    case True
    then show ?thesis using s t by (simp add: table_ok_def)
  next
    case False
    have "pool_inv ?pool (?ps[i := ?ps ! i])" using s(7) by simp
    then have "pool_inv ?pool (?ps[i := zero_probe])" by (rule pool_inv_update) (use n [OF False] in simp_all)
    then show ?thesis using table_ok_update [OF t _ u(3) [OF False] probe_ok_zero(1)] ps False by simp
  qed
qed

text \<open>Changes of a probe that concern neither its identity nor its slot.\<close>

lemma table_ok_same:
  assumes t: "table_ok se pool" and i: "registered se i" and q: "probe_ok q" "pi_probe_id q = pi_probe_id (se_probes se ! i)"
    "pi_target q = pi_target (se_probes se ! i)" "same_slot (se_probes se ! i) q"
  shows "table_ok (upd_probe i (\<lambda>_. q) se) pool"
proof -
  note d = table_okD [OF t]
  have ps: "se_probes (upd_probe i (\<lambda>_. q) se) = (se_probes se)[i := q]" by (simp add: upd_probe_def)
  have "pool_inv pool ((se_probes se)[i := se_probes se ! i])" using d(2) by simp
  then have "pool_inv pool ((se_probes se)[i := q])" by (rule pool_inv_update) (use same_slot_holds [OF q(4,2)] q(4) in simp_all)
  moreover have "probes_ok (upd_probe i (\<lambda>_. q) se)" by (rule probes_ok_update [OF d(1) ps]) (use q in simp_all)
  ultimately show ?thesis using table_ok_update [OF t ps] q(1) by blast
qed

lemma find_by_symbol_table:
  assumes t: "table_ok se pool" and i: "registered se i" and s: "zt_probe_find_by_symbol se name = Some i"
    and t': "table_ok se' pool'" and ps: "se_probes se' = (se_probes se)[i := q]"
    and q: "pi_probe_id q = pi_probe_id (se_probes se ! i)" "pi_target q = pi_target (se_probes se ! i)"
  shows "zt_probe_find_by_symbol se' name = Some i"
proof -
  have l: "i < length (se_probes se)" using i table_okD(4) [OF t] by simp
  have "registered se' i" "tgt_symbol (pi_target (se_probes se' ! i)) = name"
    using i q ps l find_by_symbol_Some(2) [OF s table_okD(4) [OF t]] by simp_all
  then show ?thesis using find_by_symbol_registered [OF table_okD(1) [OF t']] by blast
qed

text \<open>The two ways an installation goes on after the probe \<open>i\<close> was registered.\<close>

lemma install_reused:
  fixes se :: session and i :: nat and flt :: "zt_probe_filter_t option"
  defines "q \<equiv> if flt \<noteq> None then zt_trace_set_probe_filter flt (se_probes se ! i) else se_probes se ! i"
  assumes t: "table_ok se pool" and i: "registered se i" and s: "zt_probe_find_by_symbol se name = Some i"
  shows "table_ok (upd_probe i (\<lambda>_. q) se) pool" and "zt_probe_find_by_symbol (upd_probe i (\<lambda>_. q) se) name = Some i"
    and "pi_state q = pi_state (se_probes se ! i)"
proof -
  have l: "i < length (se_probes se)" using i table_okD(4) [OF t] by simp
  have k: "probe_ok q" "pi_probe_id q = pi_probe_id (se_probes se ! i)" "pi_target q = pi_target (se_probes se ! i)"
    "same_slot (se_probes se ! i) q" "pi_state q = pi_state (se_probes se ! i)"
    using probe_ok_filter [OF table_okD(3) [OF t l]] table_okD(3) [OF t l] i by (simp_all add: q_def)
  show t': "table_ok (upd_probe i (\<lambda>_. q) se) pool" by (rule table_ok_same [OF t i k(1-4)])
  have "se_probes (upd_probe i (\<lambda>_. q) se) = (se_probes se)[i := q]" by (simp add: upd_probe_def)
  then show "zt_probe_find_by_symbol (upd_probe i (\<lambda>_. q) se) name = Some i" by (rule find_by_symbol_table [OF t i s t' _ k(2,3)])
  show "pi_state q = pi_state (se_probes se ! i)" by (rule k(5))
qed

lemma install_fresh:
  fixes se :: session and i :: nat and flt :: "zt_probe_filter_t option"
  defines "p \<equiv> se_probes se ! i"
  assumes t: "table_ok se (rt_trampoline_pool rt)" and i: "registered se i" and s: "zt_probe_find_by_symbol se name = Some i"
    and th: "threads_ok se" and n: "pi_state p \<noteq> ZT_PROBE_INSTALLED"
    and r: "zt_install_steps A os (upd_probe i (zt_trace_set_probe_filter flt) se) rt i w = Some (b, se', rt', w')"
  shows "b \<Longrightarrow> table_ok se' (rt_trampoline_pool rt') \<and> zt_probe_find_by_symbol se' name = Some i \<and>
      pi_state (se_probes se' ! i) = ZT_PROBE_INSTALLED \<and> (\<forall>j. j \<noteq> i \<longrightarrow> se_probes se' ! j = se_probes se ! j)"
    and "\<not> b \<Longrightarrow> (existed \<or> \<not> holds_slot p) \<Longrightarrow>
      zt_trace_rollback_probe_install A os se' rt' i (zt_trace_capture_probe_install_snapshot p existed) w' = Some (se'', rt'', w'') \<Longrightarrow>
      table_ok se'' (rt_trampoline_pool rt'') \<and> se_probes se'' = (if existed then se_probes se else (se_probes se)[i := zero_probe]) \<and>
      se_probe_count se'' = (if existed then se_probe_count se else se_probe_count se - 1)"
proof -
  let ?p' = "zt_trace_set_probe_filter flt p"
  let ?se = "upd_probe i (\<lambda>_. ?p') se"
  have l: "i < length (se_probes se)" using i table_okD(4) [OF t] by simp
  have u: "upd_probe i (zt_trace_set_probe_filter flt) se = ?se" by (simp add: upd_probe_def p_def)
  have t1: "table_ok ?se (rt_trampoline_pool rt)"
    by (rule table_ok_same [OF t i]) (use probe_ok_filter [OF table_okD(3) [OF t l]] i in \<open>simp_all add: p_def\<close>)
  have pre: "threads_ok ?se" "registered ?se i" "pi_state (se_probes ?se ! i) \<noteq> ZT_PROBE_INSTALLED" "se_probes ?se = (se_probes se)[i := ?p']"
    using th i n l by (simp_all add: threads_ok_upd_probe nth_upd_probe p_def) (simp add: upd_probe_def)
  obtain q where q: "se_rest se' = se_rest (upd_probe i (\<lambda>_. q) se)" "steps_done b (rt_trampoline_pool rt') ((se_probes se)[i := ?p']) i q"
    by (rule install_steps [OF table_okD(1,2) [OF t1] pre(1-3) r [unfolded u]]) (simp add: upd_const_twice pre(4))
  { assume b
    then have q2: "steps_done True (rt_trampoline_pool rt') ((se_probes se)[i := ?p']) i q" using q(2) by simp
    note d = install_succeeded [OF t i q2 [unfolded p_def] q(1)]
    have id: "pi_probe_id q = pi_probe_id (se_probes se ! i)" using step_of_keeps [of ?p' q] q2 l by (simp add: steps_done_def p_def)
    have "zt_probe_find_by_symbol se' name = Some i" by (rule find_by_symbol_table [OF t i s d(1,2) id d(4)])
    then show "table_ok se' (rt_trampoline_pool rt') \<and> zt_probe_find_by_symbol se' name = Some i \<and>
      pi_state (se_probes se' ! i) = ZT_PROBE_INSTALLED \<and> (\<forall>j. j \<noteq> i \<longrightarrow> se_probes se' ! j = se_probes se ! j)"
      using d l by simp }
  { assume b: "\<not> b" and h: "existed \<or> \<not> holds_slot p"
      and rb: "zt_trace_rollback_probe_install A os se' rt' i (zt_trace_capture_probe_install_snapshot p existed) w' = Some (se'', rt'', w'')"
    have q2: "steps_done False (rt_trampoline_pool rt') ((se_probes se)[i := ?p']) i q" using q(2) b by simp
    have hh: "\<not> existed \<Longrightarrow> \<not> holds_slot (se_probes se ! i)" using h by (simp add: p_def)
    show "table_ok se'' (rt_trampoline_pool rt'') \<and> se_probes se'' = (if existed then se_probes se else (se_probes se)[i := zero_probe]) \<and>
      se_probe_count se'' = (if existed then se_probe_count se else se_probe_count se - 1)"
      using install_failed [OF t i q2 [unfolded p_def] q(1) rb [unfolded p_def] hh] by (intro conjI) }
qed

section \<open>Properties\<close>


text \<open>
  A run that fails: the file of the session defines \<open>f\<close>, but no patch fits there.
\<close>

definition ex_inst_session :: session where
  "ex_inst_session = zero_session\<lparr>se_pid := 1, se_exe_path := ''/bin/t'', se_next_probe_id := 1\<rparr>"

lemma ex_inst_run:
  "map_option fst (zt_trace_install_probe ex_pool_arch ex_elf_os ex_inst_session zero_runtime ''f'' None (ex_sim\<lparr>sm_vm := True\<rparr>)) = Some False"
  by code_simp

lemma ex_inst_table: "table_ok ex_inst_session (rt_trampoline_pool zero_runtime)"
proof -
  have "probes_ok ex_inst_session"
    by (simp add: probes_ok_def ex_inst_session_def zero_session_def zero_probe_def cong: conj_cong)
  moreover have "pool_inv zero_pool (se_probes ex_inst_session)"
    by (auto simp: pool_inv_def zero_pool_def ex_inst_session_def zero_session_def holds_slot_def zero_probe_def)
  moreover have "list_all probe_ok (se_probes ex_inst_session)"
    by (simp add: ex_inst_session_def zero_session_def list_all_iff)
  ultimately show ?thesis by (simp add: table_ok_def zero_runtime_def)
qed


end
