(* ===== verification/ZT_SigconfProps.thy ===== *)
theory ZT_SigconfProps
  imports ZT_Sigconf
begin

text \<open>
  Properties of the signature file and of the lines formatted with it.
\<close>

section \<open>Printable text\<close>

abbreviation printable :: "string \<Rightarrow> bool" where
  "printable s \<equiv> list_all isprint s"

named_theorems printable_texts \<open>conversions that produce printable text\<close>

lemma isprint_digit_char: "d < 16 \<Longrightarrow> isprint (digit_char d)"
  by (auto simp: isprint_def digit_char_def Let_def)

lemma printable_digits_of [printable_texts]: "2 \<le> b \<Longrightarrow> b \<le> 16 \<Longrightarrow> printable (digits_of b n)"
proof (induction b n rule: digits_of.induct)
  case (1 b n)
  show ?case
  proof (cases "n < b")
    case True
    then have "nat n < 16" using 1 by linarith
    then show ?thesis using True by (subst digits_of.simps) (simp add: isprint_digit_char)
  next
    case False
    have "n mod b < b" using 1 by simp
    then have "nat (n mod b) < 16" using 1 by linarith
    then show ?thesis using False 1 by (subst digits_of.simps) (simp add: isprint_digit_char)
  qed
qed

lemma isprint_consts [simp]:
  "isprint (CHR ''0'')" "isprint (CHR ''.'')" "isprint (CHR ''-'')" "isprint (CHR ''+'')" "isprint (CHR ''e'')" "isprint (CHR ''x'')"
  "isprint (CHR 0x22)" "isprint (CHR 0x5C)" "isprint (CHR '','')" "isprint (CHR '' '')" "isprint (CHR ''<'')" "isprint (CHR ''>'')"
  "isprint (CHR ''='')" "isprint (CHR ''('')" "isprint (CHR '')'')"
  by (simp_all add: isprint_def)

lemma printable_pad_left [printable_texts]: "isprint c \<Longrightarrow> printable s \<Longrightarrow> printable (pad_left n c s)"
  by (auto simp: pad_left_def list_all_iff)

lemma printable_numbers [printable_texts]:
  "printable (fmt_x v)" "printable (fmt_u v)" "printable (fmt_d i)"
  by (simp_all add: fmt_x_def fmt_u_def fmt_d_def printable_digits_of)

lemma printable_with_fraction: "printable a \<Longrightarrow> printable b \<Longrightarrow> printable (with_fraction a b)"
  using set_dropWhileD [of _ "\<lambda>c. c = CHR ''0''" "rev b"]
  by (auto simp: with_fraction_def strip_zeros_def list_all_iff Let_def)

lemma printable_take_drop: "printable s \<Longrightarrow> printable (take n s)" "printable s \<Longrightarrow> printable (drop n s)"
  by (auto simp: list_all_iff dest: in_set_takeD in_set_dropD)

lemma printable_fmt_g_pos: "printable (fmt_g_pos n d)"
proof -
  have d: "printable (digits_of 10 q)" for q by (rule printable_digits_of) simp_all
  have r: "printable (replicate k (CHR ''0''))" for k by (simp add: list_all_iff)
  show ?thesis
    unfolding fmt_g_pos_def Let_def
    by (auto split: prod.splits if_splits intro!: printable_with_fraction printable_pad_left printable_take_drop d r)
qed

lemma printable_fmt_g [printable_texts]: "printable (fmt_g_double v)" "printable (fmt_g_float u)"
  by (auto simp: fmt_g_double_def fmt_g_float_def fmt_g_bits_def Let_def printable_fmt_g_pos isprint_def)

section \<open>Text from the target\<close>

lemma cstr_chunk_printable: "printable (fst (cstr_chunk bs))"
  by (induction bs) (auto simp: Let_def split: prod.splits)

lemma read_cstr_loop_printable:
  "zt_read_cstr_loop os pid a n i buffer w = (Some s, w') \<Longrightarrow> printable buffer \<Longrightarrow> printable s"
proof (induction os pid a n i buffer w rule: zt_read_cstr_loop.induct)
  case (1 os pid a n i buffer w)
  show ?case
  proof (cases "i + 1 < n")
    case False
    then show ?thesis using 1 by (simp add: zt_read_cstr_loop.simps)
  next
    case True
    then obtain bs k w1 where c: "zt_read_remote_chunk_or_byte os pid (a + of_nat i) (min 64 (n - 1 - i)) w = (Some (bs, k), w1)"
      using 1(2) by (subst (asm) zt_read_cstr_loop.simps) (auto split: prod.splits option.splits)
    obtain t met where t: "cstr_chunk (take k bs) = (t, met)" by fastforce
    have p: "printable (buffer @ t)" using 1(3) cstr_chunk_printable [of "take k bs"] t by simp
    show ?thesis
    proof (cases met)
      case True
      then show ?thesis using 1(2) \<open>i + 1 < n\<close> c t p by (subst (asm) zt_read_cstr_loop.simps) auto
    next
      case False
      then have "zt_read_cstr_loop os pid a n (i + k) (buffer @ t) w1 = (Some s, w')"
        using 1(2) \<open>i + 1 < n\<close> c t by (subst (asm) zt_read_cstr_loop.simps) simp
      then show ?thesis using 1(1) [OF True c [symmetric] refl refl t [symmetric] _ _ p] False by blast
    qed
  qed
qed

lemma read_cstr_printable: "zt_read_remote_cstr os pid a n w = (Some s, w') \<Longrightarrow> printable s"
  using read_cstr_loop_printable [of os pid a n 0 "[]" w s w']
  by (auto simp: zt_read_remote_cstr_def isprint_def intro: printable_take_drop split: if_splits)

lemma preview_bytes_printable: "zt_preview_bytes n buffer bs = Some s \<Longrightarrow> printable buffer \<Longrightarrow> printable s"
  by (induction n buffer bs rule: zt_preview_bytes.induct) (auto simp: Let_def printable_texts split: if_splits)

lemma buf_preview_printable: "zt_read_remote_buf_preview os pid a len n w = (Some s, w') \<Longrightarrow> printable s"
  using preview_bytes_printable [of n "[CHR 0x22]"]
  by (auto simp: zt_read_remote_buf_preview_def isprint_def intro: printable_take_drop split: if_splits prod.splits option.splits)

section \<open>The text of an event\<close>

text \<open>What every step of the formatter keeps of the text written so far.\<close>

definition text_ok :: "nat \<Rightarrow> string \<Rightarrow> string \<Rightarrow> bool" where
  "text_ok n start out \<longleftrightarrow> length out < n \<and> printable out \<and> (\<exists>t. out = start @ t)"

lemma text_ok_append: "zt_append_raw n out s = Some out' \<Longrightarrow> text_ok n start out \<Longrightarrow> printable s \<Longrightarrow> text_ok n start out'"
  by (auto simp: zt_append_raw_def text_ok_def split: if_splits)

lemma text_ok_value:
  assumes r: "zt_append_value os pid n out t v w = (Some out', w')" and ok: "text_ok n start out"
  shows "text_ok n start out'"
proof -
  obtain tx where tx: "zt_append_raw n out tx = Some out'" "printable tx"
  proof (cases "t = ZT_SIG_TYPE_CSTR")
    case True
    obtain c w1 where c: "zt_read_remote_cstr os pid v 64 w = (c, w1)" by fastforce
    show thesis
      using r True c read_cstr_printable [of os pid v 64 w _ w1] that [of "''0x'' @ fmt_x v"] that [of "[CHR 0x22] @ the c @ [CHR 0x22]"]
      by (cases c) (auto simp: zt_append_value_def printable_texts split: if_splits)
  next
    case False
    then show thesis
      using r that by (cases t) (auto simp: zt_append_value_def Let_def printable_texts isprint_def split: if_splits)
  qed
  then show ?thesis using text_ok_append ok by blast
qed

lemma text_ok_variadic_arg:
  assumes "zt_append_variadic_arg os pid n out event gp fp c w = ((Some out', gp', fp'), w')" and "text_ok n start out"
  shows "text_ok n start out'"
proof -
  have p: "printable '', ''" "printable '', <unreadable>''" "printable ''<arg>''" by (simp_all add: isprint_def)
  have a: "text_ok n start out1" if "zt_append_raw n out '', '' = Some out1" for out1 using text_ok_append [OF that assms(2) p(1)] .
  show ?thesis
    using assms(1)
    by (auto simp: zt_append_variadic_arg_def split: if_splits option.splits prod.splits
        dest: a intro: text_ok_value text_ok_append [OF _ assms(2) p(2)] text_ok_append [OF _ _ p(3)])
qed

lemma text_ok_variadic_loop:
  "zt_variadic_loop os pid n event p out gp fp w = Some (Some out', w') \<Longrightarrow> text_ok n start out \<Longrightarrow> text_ok n start out'"
proof (induction os pid n event p out gp fp w rule: zt_variadic_loop.induct)
  case (2 os pid n event c p out gp fp w)
  note IH = 2(1-4)
  show ?case
    using 2(5,6) IH text_ok_variadic_arg [of os pid n out event _ _ _ w]
    by (auto split: if_splits option.splits prod.splits)
qed simp

lemma text_ok_preview:
  assumes "append_preview os pid n sep out a len w = (Some out', w')" and "text_ok n start out" and "printable sep"
  shows "text_ok n start out'"
  using assms buf_preview_printable [of os pid a len 192 w]
  by (auto simp: append_preview_def intro: text_ok_append split: if_splits option.splits prod.splits)

lemma text_ok_params:
  "zt_format_params os pid n sig event is gp fp out w = (Some out', w') \<Longrightarrow> text_ok n start out \<Longrightarrow> text_ok n start out'"
proof (induction "is" arbitrary: gp fp out w)
  case (Cons i "is")
  have p: "printable '', ''" "printable ''=''" by (simp_all add: isprint_def)
  let ?t = "sp_type (sg_params sig ! i)"
  let ?v = "if zt_sig_type_is_fp ?t then zt_event_fp_arg_value event fp else zt_event_arg_value (Some event) gp"
  obtain out1 where 1: "(if i > 0 then zt_append_raw n out '', '' else Some out) = Some out1"
    using Cons.prems(1) by (auto split: option.splits)
  have ok1: "text_ok n start out1" using 1 Cons.prems(2) text_ok_append [OF _ _ p(1)] by (auto split: if_splits)
  obtain out2 w1 where 2: "zt_append_value os pid n out1 ?t ?v w = (Some out2, w1)"
    using Cons.prems(1) unfolding zt_format_params.simps 1 Let_def by (auto split: option.splits prod.splits)
  note ok2 = text_ok_value [OF 2 ok1]
  obtain out3 w2 where 3: "(if ?t = ZT_SIG_TYPE_CONST_BUF
      then append_preview os pid n ''='' out2 ?v (zt_buffer_preview_len sig (Some event) None i False) w1 else (Some out2, w1)) = (Some out3, w2)"
    using Cons.prems(1) unfolding zt_format_params.simps 1 Let_def option.case 2 prod.case by (auto split: option.splits prod.splits)
  have ok3: "text_ok n start out3" using 3 ok2 text_ok_preview [OF _ ok2 p(2)] by (auto split: if_splits)
  show ?case
    using Cons.prems(1) Cons.IH ok3 unfolding zt_format_params.simps 1 Let_def option.case 2 prod.case 3 by blast
qed simp

lemma text_ok_entry:
  assumes r: "zt_format_entry os pid sig symbol event n w = Some (Some s, w')" and p: "printable symbol"
  obtains t where "text_ok n (symbol @ ''('') t" "s = t @ [CHR 0x0A]" "length s < n"
proof -
  let ?ok = "text_ok n (symbol @ ''('')"
  have 0: "?ok (symbol @ ''('')" if "length (symbol @ ''('') < n" using that p by (simp add: text_ok_def)
  obtain out1 w1 where 1: "zt_format_params os pid n sig event [0..<length (sg_params sig)] 0 0 (symbol @ ''('') w = (Some out1, w1)"
    and l: "length (symbol @ ''('') < n"
    using r by (auto simp: zt_format_entry_def Let_def split: if_splits option.splits prod.splits)
  note ok1 = text_ok_params [OF 1 0 [OF l]]
  obtain out2 w2 where 2: "(if sg_variadic sig then zt_append_variadic_args os pid n out1 sig event w1 else Some (Some out1, w1)) = Some (Some out2, w2)"
    and 3: "zt_append_raw n out2 ('')'' @ [CHR 0x0A]) = Some s"
    using r l unfolding zt_format_entry_def Let_def 1 by (auto split: option.splits prod.splits if_splits)
  have "printable '', ...''" by (simp add: isprint_def)
  then have ok2: "?ok out2"
    using 2 ok1 text_ok_append [OF _ ok1] text_ok_variadic_loop [OF _ ok1]
    by (auto simp: zt_append_variadic_args_def split: if_splits option.splits prod.splits)
  then have "?ok (out2 @ '')'')" "s = (out2 @ '')'') @ [CHR 0x0A]" "length s < n"
    using 3 by (auto simp: zt_append_raw_def text_ok_def split: if_splits)
  then show thesis using that by blast
qed

lemma text_ok_return:
  assumes r: "zt_format_return os pid sig symbol entry event n w = (Some s, w')" and p: "printable symbol"
  obtains t where "text_ok n (symbol @ '' -> '') t" "s = t @ [CHR 0x0A]" "length s < n"
proof -
  let ?ok = "text_ok n (symbol @ '' -> '')" and ?t = "sp_type (sg_ret sig)"
  let ?v = "if zt_sig_type_is_fp ?t then ev_fp_args event ! 0 else ev_args event ! 0"
  obtain out1 w1 where 1: "zt_append_value os pid n (symbol @ '' -> '') ?t ?v w = (Some out1, w1)" and l: "length (symbol @ '' -> '') < n"
    using r by (auto simp: zt_format_return_def Let_def split: if_splits option.splits prod.splits)
  have ok1: "?ok out1" by (rule text_ok_value [OF 1]) (use l p in \<open>simp add: text_ok_def\<close>)
  obtain out2 w2 where 2: "(case find_index (\<lambda>p. sp_type p = ZT_SIG_TYPE_BUF) (sg_params sig) of
        None \<Rightarrow> (Some out1, w1)
      | Some i \<Rightarrow> append_preview os pid n '' '' out1 (zt_event_arg_value entry i) (zt_buffer_preview_len sig entry (Some event) i True) w1) = (Some out2, w2)"
    and 3: "zt_append_raw n out2 [CHR 0x0A] = Some s"
    using r l unfolding zt_format_return_def Let_def 1 prod.case option.case by (auto split: prod.splits option.splits if_splits)
  have ok2: "?ok out2" using 2 ok1 text_ok_preview [OF _ ok1, of os pid "'' ''"] by (auto split: option.splits)
  then show thesis using that [of out2] 3 by (auto simp: zt_append_raw_def split: if_splits)
qed

section \<open>Properties\<close>


text \<open>A call whose string argument holds the bytes 0xF8 to 0xFF.\<close>

definition ex_sig_cfg :: sigconf where
  "ex_sig_cfg = snd (zt_sigconf_load (Some ''f(const char *s, int n) -> int'') \<lparr>g_sig_table = [], g_sigconf_loaded = False\<rparr>)"

definition ex_sig_probe :: zt_probe_info_t where
  "ex_sig_probe = zero_probe\<lparr>pi_probe_id := 1, pi_target := zero_target\<lparr>tgt_symbol := ''f''\<rparr>\<rparr>"

definition ex_sig_event :: zt_trace_event_t where
  "ex_sig_event = zero_event\<lparr>ev_probe_id := 1, ev_event_type := event_type_code ZT_TRACE_EVENT_ENTRY, ev_args := [0xF8, 7, 0, 0, 0, 0]\<rparr>"

lemma ex_sig_format:
  "map_option fst (zt_format_trace_event_with_sig (sim_os (\<lambda>w. w)) ex_sig_cfg 1 ex_sig_probe None ex_sig_event 512 (ex_sim\<lparr>sm_vm := True\<rparr>)) =
     Some (Some (''f('' @ [CHR 0x22] @ ''........'' @ [CHR 0x22] @ '', 7)'' @ [CHR 0x0A]))"
  by code_simp


end
