(* ===== verification/ZT_SigLines.thy ===== *)
theory ZT_SigLines
  imports ZT_Sigconf
begin

text \<open>
  Reading a signature file: the lines that the file format describes are read back to the
  signatures they were written from.
\<close>

section \<open>The format of the file\<close>

abbreviation ident_char :: "char \<Rightarrow> bool" where
  "ident_char c \<equiv> isalnum c \<or> c = CHR ''_''"

abbreviation decl_char :: "char \<Rightarrow> bool" where
  "decl_char c \<equiv> ident_char c \<or> c = CHR '' '' \<or> c = CHR ''*''"

text \<open>A declaration: words and stars, no blank at its ends.\<close>

definition wf_decl :: "string \<Rightarrow> bool" where
  "wf_decl d \<longleftrightarrow> d \<noteq> [] \<and> list_all decl_char d \<and> hd d \<noteq> CHR '' '' \<and> last d \<noteq> CHR '' ''"

definition param_text :: "zt_sig_param_t \<Rightarrow> string" where
  "param_text p = sp_decl p @ (if last (sp_decl p) = CHR ''*'' then [] else '' '') @ sp_name p"

definition wf_param :: "zt_sig_param_t \<Rightarrow> bool" where
  "wf_param p \<longleftrightarrow> wf_decl (sp_decl p) \<and> sp_name p \<noteq> [] \<and> list_all ident_char (sp_name p) \<and> length (sp_name p) < 32 \<and>
     length (param_text p) < 64 \<and> sp_type p = zt_parse_sig_type (sp_decl p)"

definition tokens_of :: "zt_func_sig_t \<Rightarrow> string list" where
  "tokens_of sig = map param_text (sg_params sig) @ (if sg_variadic sig then [''...''] else [])"

fun join_params :: "string list \<Rightarrow> string" where
  "join_params [] = []"
| "join_params [t] = t"
| "join_params (t # ts) = t @ '', '' @ join_params ts"

definition sig_line :: "zt_func_sig_t \<Rightarrow> string" where
  "sig_line sig = sg_symbol sig @ ''('' @ join_params (tokens_of sig) @ '')'' @ '' -> '' @ sp_decl (sg_ret sig)"

definition wf_sig :: "zt_func_sig_t \<Rightarrow> bool" where
  "wf_sig sig \<longleftrightarrow> sg_symbol sig \<noteq> [] \<and> list_all ident_char (sg_symbol sig) \<and> length (sg_symbol sig) < ZT_PROBE_SYMBOL_MAX \<and>
     list_all wf_param (sg_params sig) \<and> length (sg_params sig) \<le> ZT_SIGCONF_MAX_PARAMS \<and>
     wf_decl (sp_decl (sg_ret sig)) \<and> length (sp_decl (sg_ret sig)) < 64 \<and> sp_name (sg_ret sig) = [] \<and>
     sp_type (sg_ret sig) = zt_parse_sig_type (sp_decl (sg_ret sig))"

section \<open>Strings in buffers\<close>

lemma decl_char_facts:
  assumes "decl_char c"
  shows "c \<noteq> NUL" "c \<noteq> CHR '',''" "c \<noteq> CHR ''(''" "c \<noteq> CHR '')''" "c \<noteq> CHR ''-''" "c \<noteq> CHR ''>''" "c \<noteq> CHR 0x0A"
    "c \<noteq> CHR ''#''" "c \<noteq> CHR '';''" "isspace c \<longleftrightarrow> c = CHR '' ''"
  using assms by (auto simp: isalnum_def isalpha_def isdigit_def isspace_def Let_def)

lemma ident_not_space: "ident_char c \<Longrightarrow> \<not> isspace c"
  by (auto simp: isalnum_def isalpha_def isdigit_def isspace_def Let_def)

lemma cstr_at: "list_all (\<lambda>c. c \<noteq> NUL) s \<Longrightarrow> cstr (pre @ s @ NUL # rest) (length pre) = s"
  by (simp add: cstr_def takeWhile_append list_all_iff)

text \<open>Trimming a string that has blanks only in front of it changes nothing and skips them.\<close>

lemma trim_at:
  assumes s: "s \<noteq> []" "list_all (\<lambda>c. c \<noteq> NUL) s" "\<not> isspace (hd s)" "\<not> isspace (last s)" and b: "list_all (\<lambda>c. isspace c) bl"
  shows "zt_trim (pre @ bl @ s @ NUL # rest) (length pre) = (pre @ bl @ s @ NUL # rest, length pre + length bl)"
proof -
  let ?buf = "pre @ bl @ s @ NUL # rest"
  have nb: "list_all (\<lambda>c. c \<noteq> NUL) bl" using b by (auto simp: list_all_iff isspace_def)
  have c0: "cstr ?buf (length pre) = bl @ s" using cstr_at [of "bl @ s" pre rest] nb s(2) by simp
  have c1: "cstr ?buf (length pre + length bl) = s" using cstr_at [of s "pre @ bl" rest] s(2) by simp
  have tw: "takeWhile isspace (bl @ s) = bl" using b s(1,3) by (cases s) (auto simp: takeWhile_append list_all_iff)
  let ?e = "length pre + length bl + length s - 1"
  have "?buf ! ?e = last s" using s(1) by (cases s rule: rev_cases) (simp_all add: nth_append)
  then have "zt_trim_end ?buf (length pre + length bl) ?e = ?buf" using s(4) by (subst zt_trim_end.simps) simp
  then show ?thesis using s(1) unfolding zt_trim_def Let_def c0 tw c1 by simp
qed

section \<open>One parameter\<close>

lemma wf_declD:
  assumes "wf_decl d"
  shows "d \<noteq> []" "list_all (\<lambda>c. c \<noteq> NUL) d" "\<not> isspace (hd d)" "\<not> isspace (last d)" "list_all decl_char d"
proof -
  have a: "d \<noteq> []" "\<And>c. c \<in> set d \<Longrightarrow> decl_char c" "hd d \<noteq> CHR '' ''" "last d \<noteq> CHR '' ''"
    using assms by (simp_all add: wf_decl_def list_all_iff)
  show "d \<noteq> []" "list_all decl_char d" using a(1,2) by (simp_all add: list_all_iff)
  show "list_all (\<lambda>c. c \<noteq> NUL) d" unfolding list_all_iff using decl_char_facts(1) [OF a(2)] by blast
  show "\<not> isspace (hd d)" using decl_char_facts(10) [OF a(2) [OF hd_in_set [OF a(1)]]] a(3) by simp
  show "\<not> isspace (last d)" using decl_char_facts(10) [OF a(2) [OF last_in_set [OF a(1)]]] a(4) by simp
qed

lemma trailing_ident:
  assumes n: "n \<noteq> []" "list_all ident_char n" and d: "d \<noteq> []" "\<not> ident_char (last d)"
  shows "zt_find_trailing_ident_span (d @ n) = Some (length d, length (d @ n))"
proof -
  have "takeWhile isspace (rev (d @ n)) = []"
    using n ident_not_space by (cases n rule: rev_cases) (auto simp: list_all_iff)
  moreover have "takeWhile ident_char (rev (d @ n)) = rev n"
  proof -
    have "takeWhile ident_char (rev d) = []" using d by (cases d rule: rev_cases) auto
    then show ?thesis using n(2) by (simp add: takeWhile_append list_all_iff)
  qed
  ultimately show ?thesis using n(1) d(1) unfolding zt_find_trailing_ident_span_def Let_def by simp
qed

lemma sig_param_text:
  assumes wf: "wf_param p"
  shows "sig_param (param_text p) = p"
proof -
  let ?d = "sp_decl p" and ?n = "sp_name p"
  define sep where "sep = (if last ?d = CHR ''*'' then [] else '' '')"
  have w: "wf_decl ?d" "?n \<noteq> []" "list_all ident_char ?n" "length ?n < 32" "length (param_text p) < 64"
    "sp_type p = zt_parse_sig_type ?d" using wf by (simp_all add: wf_param_def)
  note d = wf_declD [OF w(1)]
  have t: "param_text p = (?d @ sep) @ ?n" by (simp add: param_text_def sep_def)
  have "\<not> ident_char (last (?d @ sep))"
    by (auto simp: sep_def isalnum_def isalpha_def isdigit_def Let_def)
  then have span: "zt_find_trailing_ident_span (param_text p) = Some (length (?d @ sep), length (param_text p))"
    unfolding t by (intro trailing_ident [OF w(2,3)]) (use d(1) in simp_all)
  have c: "zt_copy_str 64 (param_text p) = param_text p" using w(5) by (simp add: zt_copy_str_def)
  have name: "zt_extract_param_name (param_text p) 32 = ?n"
    unfolding zt_extract_param_name_def span using w(4) by (simp add: t Let_def)
  have strip: "zt_strip_param_name (param_text p) = ?d"
  proof (cases "last ?d = CHR ''*''")
    case True
    then have "param_text p ! (length (?d @ sep) - 1) = CHR ''*''"
      using d(1) by (cases ?d rule: rev_cases) (simp_all add: t sep_def nth_append)
    then show ?thesis unfolding zt_strip_param_name_def span using True by (simp add: t sep_def)
  next
    case False
    then have "param_text p ! (length (?d @ sep) - 1) = CHR '' ''" by (simp add: t sep_def nth_append)
    moreover have "takeWhile isspace (rev (?d @ '' '')) = '' ''"
      using d(1,4) by (cases ?d rule: rev_cases) (auto simp: isspace_def)
    ultimately show ?thesis unfolding zt_strip_param_name_def span using False by (simp add: t sep_def)
  qed
  have "zt_trim (?d @ [NUL]) 0 = (?d @ [NUL], 0)" using trim_at [OF d(1-4), of "[]" "[]" "[]"] by simp
  moreover have "cstr (?d @ [NUL]) 0 = ?d" using cstr_at [OF d(2), of "[]" "[]"] by simp
  moreover have "zt_copy_str 64 ?d = ?d" using w(5) by (simp add: zt_copy_str_def t)
  ultimately show ?thesis using w(6) unfolding sig_param_def Let_def c strip name by (cases p) simp
qed

section \<open>The list of parameters\<close>

text \<open>A token as it stands between two commas.\<close>

definition wf_token :: "string \<Rightarrow> bool" where
  "wf_token t \<longleftrightarrow> t \<noteq> [] \<and> list_all (\<lambda>c. c \<noteq> NUL \<and> c \<noteq> CHR '','') t \<and> \<not> isspace (hd t) \<and> \<not> isspace (last t)"

lemma strtok_token:
  assumes t: "list_all (\<lambda>c. c \<noteq> NUL \<and> c \<noteq> CHR '','') t" "t \<noteq> []"
  shows "strtok_comma (pre @ t @ CHR '','' # rest) (length pre) = Some (length pre, pre @ t @ NUL # rest, length pre + length t + 1)"
    and "strtok_comma (pre @ t @ NUL # rest) (length pre) = Some (length pre, pre @ t @ NUL # rest, length pre + length t)"
proof -
  have tw: "takeWhile (\<lambda>c. c \<noteq> CHR '','' \<and> c \<noteq> NUL) (t @ x # rest) = t" if "x = CHR '','' \<or> x = NUL" for x
    using t(1) that by (auto simp: takeWhile_append list_all_iff)
  have nc: "takeWhile (\<lambda>c. c = CHR '','') (t @ x # rest) = []" for x using t by (cases t) auto
  show "strtok_comma (pre @ t @ CHR '','' # rest) (length pre) = Some (length pre, pre @ t @ NUL # rest, length pre + length t + 1)"
    using tw [of "CHR '',''"] nc t(2) by (simp add: strtok_comma_def Let_def nth_append list_update_append)
  show "strtok_comma (pre @ t @ NUL # rest) (length pre) = Some (length pre, pre @ t @ NUL # rest, length pre + length t)"
    using tw [of NUL] nc t(2) by (simp add: strtok_comma_def Let_def nth_append)
qed

lemma strtok_end: "strtok_comma (pre @ NUL # rest) (length pre) = None"
  by (simp add: strtok_comma_def)

text \<open>The loop sees the tokens, each but the first behind a blank.\<close>

fun spaced :: "string \<Rightarrow> string list \<Rightarrow> string" where
  "spaced bl [] = []"
| "spaced bl [t] = bl @ t"
| "spaced bl (t # ts) = bl @ t @ '','' @ spaced '' '' ts"

lemma spaced_blank: "ts \<noteq> [] \<Longrightarrow> spaced bl ts = bl @ spaced [] ts"
  by (cases ts rule: join_params.cases) auto

lemma join_spaced: "join_params ts = spaced [] ts"
  by (induction ts rule: join_params.induct) (simp_all add: spaced_blank [of _ "'' ''"])

fun read_tokens :: "string list \<Rightarrow> zt_sig_param_t list \<Rightarrow> bool \<Rightarrow> zt_sig_param_t list \<times> bool" where
  "read_tokens [] params v = (params, v)"
| "read_tokens (t # ts) params v =
     (if t = ''...'' then read_tokens ts params True
      else read_tokens ts (if length params < ZT_SIGCONF_MAX_PARAMS then params @ [sig_param t] else params) v)"

lemma parse_params_step:
  assumes t: "wf_token t" and b: "bl = [] \<or> bl = '' ''"
    and s: "strtok_comma buf (length pre) = Some (length pre, pre @ bl @ t @ NUL # rest, q)"
  shows "zt_parse_params buf (length pre) params v =
    (if t = ''...'' then zt_parse_params (pre @ bl @ t @ NUL # rest) q params True
     else zt_parse_params (pre @ bl @ t @ NUL # rest) q
       (if length params < ZT_SIGCONF_MAX_PARAMS then params @ [sig_param t] else params) v)"
proof -
  have w: "t \<noteq> []" "list_all (\<lambda>c. c \<noteq> NUL) t" "\<not> isspace (hd t)" "\<not> isspace (last t)"
    using t by (auto simp: wf_token_def list_all_iff)
  have bl: "list_all isspace bl" using b by (auto simp: isspace_def)
  have c: "cstr (pre @ bl @ t @ NUL # rest) (length pre + length bl) = t" using cstr_at [OF w(2), of "pre @ bl" rest] by simp
  show ?thesis
    unfolding zt_parse_params.simps [of buf] s option.case prod.case trim_at [OF w bl] c using w(1) by simp
qed

lemma parse_params_end: "zt_parse_params (pre @ NUL # rest) (length pre) params v = (pre @ NUL # rest, params, v)"
  by (simp add: zt_parse_params.simps [of "pre @ NUL # rest"] strtok_end)

lemma parse_params:
  assumes "list_all wf_token ts" and "bl = [] \<or> bl = '' ''"
  shows "\<exists>pre'. zt_parse_params (pre @ spaced bl ts @ NUL # rest) (length pre) params v = (pre' @ NUL # rest, read_tokens ts params v) \<and>
    length pre' = length pre + length (spaced bl ts)"
  using assms
proof (induction bl ts arbitrary: pre params v rule: spaced.induct)
  case (1 bl)
  then show ?case by (simp add: parse_params_end)
next
  case (2 bl t)
  have t: "wf_token t" "list_all (\<lambda>c. c \<noteq> NUL \<and> c \<noteq> CHR '','') (bl @ t)" "bl @ t \<noteq> []" using 2 by (auto simp: wf_token_def)
  note s = strtok_token(2) [OF t(2,3), of pre rest, unfolded append_assoc]
  have e: "zt_parse_params (pre @ bl @ t @ NUL # rest) (length pre + length (bl @ t)) ps u = (pre @ bl @ t @ NUL # rest, ps, u)" for ps u
    using parse_params_end [of "pre @ bl @ t" rest ps u] by simp
  show ?case
    using parse_params_step [OF t(1) 2(2) s, of params v] by (intro exI [of _ "pre @ bl @ t"]) (simp only: spaced.simps append_assoc e, simp)
next
  case (3 bl t t' ts)
  let ?tail = "spaced '' '' (t' # ts) @ NUL # rest"
  have t: "wf_token t" "list_all (\<lambda>c. c \<noteq> NUL \<and> c \<noteq> CHR '','') (bl @ t)" "bl @ t \<noteq> []" using 3 by (auto simp: wf_token_def)
  note s = strtok_token(1) [OF t(2,3), of pre ?tail, unfolded append_assoc]
  have buf: "pre @ spaced bl (t # t' # ts) @ NUL # rest = pre @ bl @ t @ CHR '','' # ?tail" by simp
  have pre: "pre @ bl @ t @ NUL # ?tail = (pre @ bl @ t @ [NUL]) @ ?tail" "length pre + length (bl @ t) + 1 = length (pre @ bl @ t @ [NUL])" by simp_all
  have IH: "\<exists>pre'. zt_parse_params ((pre @ bl @ t @ [NUL]) @ ?tail) (length (pre @ bl @ t @ [NUL])) ps u = (pre' @ NUL # rest, read_tokens (t' # ts) ps u) \<and>
      length pre' = length (pre @ bl @ t @ [NUL]) + length (spaced '' '' (t' # ts))" for ps u
    by (rule 3(1)) (use 3(2) in simp_all)
  obtain ps u where pu: "zt_parse_params (pre @ spaced bl (t # t' # ts) @ NUL # rest) (length pre) params v =
      zt_parse_params ((pre @ bl @ t @ [NUL]) @ ?tail) (length (pre @ bl @ t @ [NUL])) ps u"
    "read_tokens (t # t' # ts) params v = read_tokens (t' # ts) ps u"
    using parse_params_step [OF t(1) 3(3) s, of params v] unfolding buf pre by (cases "t = ''...''") auto
  show ?case unfolding pu using IH [of ps u] by auto
qed

lemma read_tokens_params:
  assumes "list_all wf_param ps" and "length params + length ps \<le> ZT_SIGCONF_MAX_PARAMS"
  shows "read_tokens (map param_text ps @ rest) params v = read_tokens rest (params @ ps) v"
  using assms
proof (induction ps arbitrary: params)
  case (Cons p ps)
  have "param_text p \<noteq> ''...''"
  proof
    assume e: "param_text p = ''...''"
    have "list_all decl_char (sp_decl p)" "sp_decl p \<noteq> []" using Cons.prems(1) by (simp_all add: wf_param_def wf_decl_def)
    then have "decl_char (hd (param_text p))" by (cases "sp_decl p") (auto simp: param_text_def)
    then show False using e by (simp add: isalnum_def isalpha_def isdigit_def)
  qed
  then show ?case using Cons sig_param_text by simp
qed simp

lemma tokens_wf:
  assumes "wf_sig sig"
  shows "list_all wf_token (tokens_of sig)" and "read_tokens (tokens_of sig) [] False = (sg_params sig, sg_variadic sig)"
proof -
  have ps: "list_all wf_param (sg_params sig)" "length (sg_params sig) \<le> ZT_SIGCONF_MAX_PARAMS" using assms by (simp_all add: wf_sig_def)
  show "read_tokens (tokens_of sig) [] False = (sg_params sig, sg_variadic sig)"
    using read_tokens_params [OF ps(1), of "[]"] ps(2) by (simp add: tokens_of_def)
  have "wf_token (param_text p)" if "wf_param p" for p
  proof -
    note d = wf_declD [of "sp_decl p"]
    have w: "wf_decl (sp_decl p)" "sp_name p \<noteq> []" "list_all ident_char (sp_name p)" using that by (simp_all add: wf_param_def)
    have all: "list_all decl_char (param_text p)" using d(5) [OF w(1)] w(3) by (auto simp: param_text_def list_all_iff)
    have "\<not> isspace (last (param_text p))" using w(2,3) ident_not_space last_in_set [OF w(2)] by (simp add: param_text_def list_all_iff)
    moreover have "list_all (\<lambda>c. c \<noteq> NUL \<and> c \<noteq> CHR '','') (param_text p)"
      unfolding list_all_iff
    proof
      fix c
      assume "c \<in> set (param_text p)"
      then have c: "decl_char c" by (rule bspec [OF all [unfolded list_all_iff]])
      show "c \<noteq> NUL \<and> c \<noteq> CHR '',''" by (rule conjI [OF decl_char_facts(1,2) [OF c]])
    qed
    ultimately show ?thesis using d(1,3) [OF w(1)] by (simp add: wf_token_def param_text_def)
  qed
  then have "list_all wf_token (map param_text (sg_params sig))" using ps(1) by (simp add: list.pred_map list.pred_mono_strong)
  moreover have "wf_token ''...''" by (simp add: wf_token_def isspace_def)
  ultimately show "list_all wf_token (tokens_of sig)" by (simp add: tokens_of_def)
qed

section \<open>A line\<close>

lemma find_index_skip: "list_all (\<lambda>c. \<not> P c) s \<Longrightarrow> P c \<Longrightarrow> find_index P (s @ c # r) = Some (length s)"
  by (induction s) simp_all

lemma strstr_skip: "list_all (\<lambda>c. c \<noteq> CHR ''-'') s \<Longrightarrow> strstr (s @ ''->'' @ r) ''->'' = Some (length s)"
  by (induction s) simp_all

definition plain :: "char \<Rightarrow> bool" where
  "plain c \<longleftrightarrow> c \<noteq> NUL \<and> c \<noteq> CHR ''('' \<and> c \<noteq> CHR '')'' \<and> c \<noteq> CHR ''-'' \<and> c \<noteq> CHR 0x0A"

lemma plain_decl: "decl_char c \<Longrightarrow> plain c"
  unfolding plain_def by (intro conjI decl_char_facts; assumption)

lemma plain_spaced: "list_all (list_all plain) ts \<Longrightarrow> list_all plain bl \<Longrightarrow> list_all plain (spaced bl ts)"
  by (induction bl ts rule: spaced.induct) (simp_all add: plain_def)

lemma plain_parts:
  assumes "wf_sig sig"
  shows "list_all plain (sg_symbol sig)" "list_all plain (join_params (tokens_of sig))" "list_all plain (sp_decl (sg_ret sig))"
proof -
  have s: "list_all ident_char (sg_symbol sig)" "list_all wf_param (sg_params sig)" "wf_decl (sp_decl (sg_ret sig))"
    using assms by (simp_all add: wf_sig_def)
  show "list_all plain (sg_symbol sig)" using s(1) by (rule list.pred_mono_strong) (rule plain_decl, blast)
  have d: "list_all plain x" if "wf_decl x" for x using wf_declD(5) [OF that] by (rule list.pred_mono_strong) (rule plain_decl)
  then show "list_all plain (sp_decl (sg_ret sig))" using s(3) .
  have "list_all plain (param_text p)" if "wf_param p" for p
  proof -
    have "list_all plain (sp_name p)"
      using that unfolding wf_param_def by (elim conjE, elim list.pred_mono_strong) (rule plain_decl, blast)
    moreover have "list_all plain (sp_decl p)" using d that by (simp add: wf_param_def)
    moreover have "plain (CHR '' '')" by (simp add: plain_def)
    ultimately show ?thesis by (simp add: param_text_def)
  qed
  then have "list_all (list_all plain) (map param_text (sg_params sig))" using s(2) by (simp add: list.pred_map list.pred_mono_strong)
  moreover have "list_all plain ''...''" by (simp add: plain_def)
  ultimately show "list_all plain (join_params (tokens_of sig))" unfolding join_spaced by (intro plain_spaced) (simp_all add: tokens_of_def)
qed

lemma parse_sig_line:
  assumes wf: "wf_sig sig"
  shows "zt_parse_sig_line (sig_line sig @ NUL # rest) = Some sig"
proof -
  let ?s = "sg_symbol sig" and ?j = "join_params (tokens_of sig)" and ?r = "sp_decl (sg_ret sig)"
  let ?line = "?s @ CHR ''('' # ?j @ CHR '')'' # '' -> '' @ ?r"
  note pl = plain_parts [OF wf]
  have line: "sig_line sig = ?line" by (simp add: sig_line_def)
  have w: "?s \<noteq> []" "list_all ident_char ?s" "length ?s < ZT_PROBE_SYMBOL_MAX" "wf_decl ?r" "length ?r < 64"
    using wf by (simp_all add: wf_sig_def)
  have np: "list_all (\<lambda>c. c \<noteq> NUL) x" "list_all (\<lambda>c. c \<noteq> CHR ''('') x" "list_all (\<lambda>c. c \<noteq> CHR '')'') x" "list_all (\<lambda>c. c \<noteq> CHR ''-'') x"
    if "list_all plain x" for x using that by (auto simp: plain_def list_all_iff)
  have c0: "cstr (?line @ NUL # rest) 0 = ?line"
    using cstr_at [of ?line "[]" rest] np(1) [OF pl(1)] np(1) [OF pl(2)] np(1) [OF pl(3)] by simp
  have o: "find_index (\<lambda>c. c = CHR ''('') ?line = Some (length ?s)" by (rule find_index_skip) (use np(2) [OF pl(1)] in simp_all)
  have b: "find_index (\<lambda>c. c = CHR '')'') (rev ?line) = Some (4 + length ?r)"
    using find_index_skip [of "\<lambda>c. c = CHR '')''" "rev ('' -> '' @ ?r)" "CHR '')''" "rev (?s @ CHR ''('' # ?j)"] np(3) [OF pl(3)] by simp
  have a: "strstr ?line ''->'' = Some (length ?s + length ?j + 3)"
    using strstr_skip [of "?s @ CHR ''('' # ?j @ '') ''" "CHR '' '' # ?r"] np(4) [OF pl(1)] np(4) [OF pl(2)] by simp
  let ?close = "length ?s + 1 + length ?j"
  have cl: "length ?line - 1 - (4 + length ?r) = ?close" by simp
  let ?tail = "CHR '')'' # '' -> '' @ ?r @ NUL # rest"
  have u1: "(?line @ NUL # rest)[length ?s := NUL] = ?s @ NUL # ?j @ ?tail" by (simp add: list_update_append)
  have sp: "\<not> isspace (hd ?s)" "\<not> isspace (last ?s)" using w(1,2) ident_not_space by (simp_all add: list_all_iff)
  have t1: "zt_trim (?s @ NUL # ?j @ ?tail) 0 = (?s @ NUL # ?j @ ?tail, 0)"
    using trim_at [OF w(1) np(1) [OF pl(1)] sp, of "[]" "[]" "?j @ ?tail"] by simp
  have c1: "cstr (?s @ NUL # ?j @ ?tail) 0 = ?s" using cstr_at [OF np(1) [OF pl(1)], of "[]" "?j @ ?tail"] by simp
  let ?after = "'' -> '' @ ?r @ NUL # rest"
  have u2: "(?s @ NUL # ?j @ ?tail)[?close := NUL] = (?s @ [NUL]) @ spaced [] (tokens_of sig) @ NUL # ?after"
    by (simp add: list_update_append join_spaced)
  obtain pre where p: "zt_parse_params ((?s @ [NUL]) @ spaced [] (tokens_of sig) @ NUL # ?after) (length (?s @ [NUL])) [] False =
      (pre @ NUL # ?after, sg_params sig, sg_variadic sig)" "length pre = ?close"
    using parse_params [OF tokens_wf(1) [OF wf], of "[]" "?s @ [NUL]" ?after "[]" False] tokens_wf(2) [OF wf] by (auto simp: join_spaced)
  note d = wf_declD [OF w(4)]
  have "zt_trim ((pre @ NUL # '' ->'') @ '' '' @ ?r @ NUL # rest) (length (pre @ NUL # '' ->'')) =
      ((pre @ NUL # '' ->'') @ '' '' @ ?r @ NUL # rest, length (pre @ NUL # '' ->'') + length '' '')"
    by (rule trim_at [OF d(1-4)]) (simp add: isspace_def)
  then have t2: "zt_trim (pre @ NUL # ?after) (length ?s + length ?j + 3 + 2) = (pre @ NUL # ?after, length (pre @ NUL # '' -> ''))"
    using p(2) by (simp add: numeral_eq_Suc)
  have c2: "cstr (pre @ NUL # ?after) (length (pre @ NUL # '' -> '')) = ?r" using cstr_at [OF d(2), of "pre @ NUL # '' -> ''" rest] by simp
  have p1: "zt_parse_params ((?s @ [NUL]) @ spaced [] (tokens_of sig) @ NUL # ?after) (length ?s + 1) [] False =
      (pre @ NUL # ?after, sg_params sig, sg_variadic sig)" using p(1) by simp
  have n: "\<not> ?close < length ?s" by simp
  have cp: "zt_copy_str ZT_PROBE_SYMBOL_MAX ?s = ?s" "zt_copy_str 64 ?r = ?r" using w(3,5) by (simp_all add: zt_copy_str_def)
  have "zt_parse_sig_line (?line @ NUL # rest) = Some \<lparr>sg_symbol = ?s, sg_ret = \<lparr>sp_decl = ?r, sp_name = [], sp_type = zt_parse_sig_type ?r\<rparr>,
      sg_params = sg_params sig, sg_variadic = sg_variadic sig\<rparr>"
    unfolding zt_parse_sig_line_def Let_def c0 o b a option.case prod.case cl u1 t1 c1 u2 p1 t2 c2 cp if_not_P [OF n] if_not_P [OF w(1)] ..
  moreover have "sg_ret sig = \<lparr>sp_decl = ?r, sp_name = [], sp_type = zt_parse_sig_type ?r\<rparr>" using wf by (cases "sg_ret sig") (simp add: wf_sig_def)
  ultimately show ?thesis unfolding line by (cases sig) simp
qed

section \<open>A file\<close>

datatype conf_line = Sig zt_func_sig_t | Comment string

fun line_text :: "conf_line \<Rightarrow> string" where
  "line_text (Sig sig) = sig_line sig"
| "line_text (Comment c) = CHR ''#'' # c"

definition file_text :: "conf_line list \<Rightarrow> string" where
  "file_text ls = concat (map (\<lambda>l. line_text l @ [CHR 0x0A]) ls)"

fun sigs_of :: "conf_line list \<Rightarrow> zt_func_sig_t list" where
  "sigs_of [] = []"
| "sigs_of (Sig sig # ls) = sig # sigs_of ls"
| "sigs_of (Comment c # ls) = sigs_of ls"

text \<open>Lines fit the line buffer of 512 characters.\<close>

definition wf_line :: "conf_line \<Rightarrow> bool" where
  "wf_line l \<longleftrightarrow> length (line_text l) \<le> 510 \<and>
     (case l of Sig sig \<Rightarrow> wf_sig sig | Comment c \<Rightarrow> list_all (\<lambda>x. x \<noteq> CHR 0x0A \<and> x \<noteq> NUL) c)"

lemma line_text_plain:
  assumes "wf_line l"
  shows "list_all (\<lambda>c. c \<noteq> CHR 0x0A \<and> c \<noteq> NUL) (line_text l)"
proof (cases l)
  case (Sig sig)
  then have "wf_sig sig" using assms by (simp add: wf_line_def)
  note p = plain_parts [OF this]
  have "list_all (\<lambda>c. c \<noteq> CHR 0x0A \<and> c \<noteq> NUL) x" if "list_all plain x" for x
    using that by (rule list.pred_mono_strong) (simp add: plain_def)
  from this [OF p(1)] this [OF p(2)] this [OF p(3)] show ?thesis by (simp add: Sig sig_line_def)
next
  case (Comment c)
  then show ?thesis using assms by (simp add: wf_line_def)
qed

lemma fgets_file:
  assumes "list_all wf_line ls"
  shows "fgets_lines 510 (file_text ls) = map (\<lambda>l. line_text l @ [CHR 0x0A]) ls"
  using assms
proof (induction ls)
  case Nil
  then show ?case by (simp add: file_text_def fgets_lines.simps)
next
  case (Cons l ls)
  have p: "takeWhile (\<lambda>c. c \<noteq> CHR 0x0A) (line_text l @ CHR 0x0A # file_text ls) = line_text l"
    using line_text_plain [of l] Cons.prems by (simp add: takeWhile_append list_all_iff)
  have f: "file_text (l # ls) = line_text l @ CHR 0x0A # file_text ls" by (simp add: file_text_def)
  have "min (Suc 510) (length (line_text l) + 1) = length (line_text l) + 1" using Cons.prems by (simp add: wf_line_def)
  then show ?case using Cons unfolding f by (subst fgets_lines.simps) (simp add: p Let_def)
qed

lemma trim_newline:
  assumes s: "s \<noteq> []" "list_all (\<lambda>c. c \<noteq> NUL) s" "\<not> isspace (hd s)" "\<not> isspace (last s)"
  shows "zt_trim (s @ [CHR 0x0A, NUL]) 0 = (s @ [NUL, NUL], 0)"
proof -
  have c: "cstr (s @ [CHR 0x0A, NUL]) 0 = s @ [CHR 0x0A]" using cstr_at [of "s @ [CHR 0x0A]" "[]" "[]"] s(2) by simp
  have tw: "takeWhile isspace (s @ [CHR 0x0A]) = []" using s(1,3) by (cases s) simp_all
  have l: "(s @ [NUL, NUL]) ! (length s - 1) = last s" using s(1) by (cases s rule: rev_cases) (simp_all add: nth_append)
  have "zt_trim_end (s @ [CHR 0x0A, NUL]) 0 (length s) = zt_trim_end (s @ [NUL, NUL]) 0 (length s - 1)"
    using s(1) by (subst zt_trim_end.simps) (simp add: isspace_def)
  also have "\<dots> = s @ [NUL, NUL]" using l s(4) by (subst zt_trim_end.simps) simp
  finally show ?thesis using c tw by (simp add: zt_trim_def)
qed

lemma trim_end_keeps: "s < length buf \<Longrightarrow> zt_trim_end buf s e ! s = buf ! s"
proof (induction buf s e rule: zt_trim_end.induct)
  case (1 buf s e)
  then show ?case by (subst zt_trim_end.simps) simp
qed

lemma load_line:
  assumes wf: "wf_line l" and t: "length table + length (sigs_of [l]) \<le> ZT_SIGCONF_MAX_FUNCS"
  shows "zt_sigconf_load_loop ((line_text l @ [CHR 0x0A]) # lines) table = zt_sigconf_load_loop lines (table @ sigs_of [l])"
proof (cases l)
  case (Sig sig)
  then have w: "wf_sig sig" using wf by (simp add: wf_line_def)
  let ?s = "sig_line sig"
  obtain c r where c: "sg_symbol sig = c # r" "ident_char c" using w by (cases "sg_symbol sig") (auto simp: wf_sig_def)
  have s: "?s \<noteq> []" "hd ?s = c" "last ?s = last (sp_decl (sg_ret sig))"
    using w by (simp_all add: sig_line_def c wf_sig_def wf_decl_def)
  have n: "list_all (\<lambda>c. c \<noteq> NUL) ?s" using line_text_plain [OF wf] by (simp add: Sig list_all_iff)
  have "wf_decl (sp_decl (sg_ret sig))" using w by (simp add: wf_sig_def)
  then have sp: "\<not> isspace (hd ?s)" "\<not> isspace (last ?s)" using s ident_not_space [OF c(2)] wf_declD(4) by simp_all
  have cs: "cstr (?s @ [NUL, NUL]) 0 = ?s" using cstr_at [OF n, of "[]" "[NUL]"] by simp
  have h: "c \<noteq> CHR ''#''" "c \<noteq> CHR '';''" using decl_char_facts(8,9) [of c] c(2) by blast+
  show ?thesis
    using trim_newline [OF s(1) n sp] parse_sig_line [OF w, of "[NUL]"] t s h cs by (simp add: Sig)
next
  case (Comment c)
  let ?s = "CHR ''#'' # c"
  obtain buf i where b: "zt_trim ((line_text l @ [CHR 0x0A]) @ [NUL]) 0 = (buf, i)" by fastforce
  have n: "list_all (\<lambda>c. c \<noteq> NUL) (?s @ [CHR 0x0A])" using line_text_plain [OF wf] by (simp add: Comment list_all_iff)
  have c0: "cstr (?s @ CHR 0x0A # [NUL]) 0 = ?s @ [CHR 0x0A]" using cstr_at [OF n, of "[]" "[]"] by simp
  have i: "i = 0" "buf = zt_trim_end (?s @ CHR 0x0A # [NUL]) 0 (length ?s)"
    using b c0 by (simp_all add: Comment zt_trim_def isspace_def)
  have "buf ! 0 = CHR ''#''" "length buf = length ?s + 2" unfolding i using trim_end_keeps [of 0 "?s @ CHR 0x0A # [NUL]" "length ?s"] by simp_all
  then have "cstr buf i \<noteq> []" "hd (cstr buf i) = CHR ''#''" unfolding i(1) cstr_def by (cases buf; simp)+
  then show ?thesis using b by (simp add: Comment)
qed

lemma load_lines:
  assumes "list_all wf_line ls" and "length table + length (sigs_of ls) \<le> ZT_SIGCONF_MAX_FUNCS"
  shows "zt_sigconf_load_loop (map (\<lambda>l. line_text l @ [CHR 0x0A]) ls) table = table @ sigs_of ls"
  using assms
proof (induction ls arbitrary: table)
  case (Cons l ls)
  have e: "sigs_of (l # ls) = sigs_of [l] @ sigs_of ls" by (cases l) simp_all
  then show ?case using load_line [of l table] Cons.IH [of "table @ sigs_of [l]"] Cons.prems by (simp only: list.map) simp
qed simp

section \<open>Properties\<close>

text \<open>
  C5. A signature file is read back: when a file consists of comments and of lines printed
  from well-formed signatures, loading it succeeds and the table holds exactly these
  signatures in their order, with the types of their declarations; with different symbols
  every signature is found under its symbol, and no other symbol is found.
\<close>

theorem signature_file_roundtrip:
  assumes "list_all wf_line ls" and "length (sigs_of ls) \<le> ZT_SIGCONF_MAX_FUNCS"
  shows "zt_sigconf_load (Some (file_text ls)) cfg = (True, \<lparr>g_sig_table = sigs_of ls, g_sigconf_loaded = True\<rparr>) \<and>
    (distinct (map sg_symbol (sigs_of ls)) \<longrightarrow>
      (\<forall>sig \<in> set (sigs_of ls). zt_sigconf_find (snd (zt_sigconf_load (Some (file_text ls)) cfg)) (sg_symbol sig) = Some sig)) \<and>
    (\<forall>s. s \<notin> sg_symbol ` set (sigs_of ls) \<longrightarrow> zt_sigconf_find (snd (zt_sigconf_load (Some (file_text ls)) cfg)) s = None)"
proof -
  have l: "zt_sigconf_load (Some (file_text ls)) cfg = (True, \<lparr>g_sig_table = sigs_of ls, g_sigconf_loaded = True\<rparr>)"
    using load_lines [of ls "[]"] assms fgets_file [OF assms(1)] by (simp add: zt_sigconf_load_def)
  have f: "List.find (\<lambda>x. sg_symbol x = sg_symbol sig) sigs = Some sig" if "distinct (map sg_symbol sigs)" "sig \<in> set sigs" for sig sigs
    using that by (induction sigs) auto
  have n: "List.find (\<lambda>x. sg_symbol x = s) sigs = None" if "s \<notin> sg_symbol ` set sigs" for s sigs
    using that by (auto simp: find_None_iff)
  show ?thesis
    unfolding l zt_sigconf_find_def snd_conv sigconf.select_convs by (intro conjI impI ballI allI refl; (rule f | rule n); assumption)
qed

definition ex_conf :: "conf_line list" where
  "ex_conf =
     [Comment '' demo'',
      Sig \<lparr>sg_symbol = ''printf'', sg_ret = \<lparr>sp_decl = ''int'', sp_name = [], sp_type = ZT_SIG_TYPE_INT\<rparr>,
        sg_params = [\<lparr>sp_decl = ''const char *'', sp_name = ''fmt'', sp_type = ZT_SIG_TYPE_CSTR\<rparr>], sg_variadic = True\<rparr>,
      Sig \<lparr>sg_symbol = ''write'', sg_ret = \<lparr>sp_decl = ''ssize_t'', sp_name = [], sp_type = ZT_SIG_TYPE_SSIZE\<rparr>,
        sg_params = [\<lparr>sp_decl = ''int'', sp_name = ''fd'', sp_type = ZT_SIG_TYPE_INT\<rparr>,
          \<lparr>sp_decl = ''const buffer'', sp_name = ''buf'', sp_type = ZT_SIG_TYPE_CONST_BUF\<rparr>,
          \<lparr>sp_decl = ''size_t'', sp_name = ''n'', sp_type = ZT_SIG_TYPE_SIZE\<rparr>], sg_variadic = False\<rparr>]"

lemma ex_conf_wf: "list_all wf_line ex_conf" "length (sigs_of ex_conf) \<le> ZT_SIGCONF_MAX_FUNCS" "distinct (map sg_symbol (sigs_of ex_conf))"
  by code_simp+

theorem signature_file_roundtrip_witness:
  "file_text ex_conf = ''# demo'' @ [CHR 0x0A] @ ''printf(const char *fmt, ...) -> int'' @ [CHR 0x0A] @
     ''write(int fd, const buffer buf, size_t n) -> ssize_t'' @ [CHR 0x0A] \<and>
   g_sig_table (snd (zt_sigconf_load (Some (file_text ex_conf)) \<lparr>g_sig_table = [], g_sigconf_loaded = False\<rparr>)) = sigs_of ex_conf"
proof
  show "file_text ex_conf = ''# demo'' @ [CHR 0x0A] @ ''printf(const char *fmt, ...) -> int'' @ [CHR 0x0A] @
     ''write(int fd, const buffer buf, size_t n) -> ssize_t'' @ [CHR 0x0A]" by code_simp
  show "g_sig_table (snd (zt_sigconf_load (Some (file_text ex_conf)) \<lparr>g_sig_table = [], g_sigconf_loaded = False\<rparr>)) = sigs_of ex_conf"
    using signature_file_roundtrip [OF ex_conf_wf(1,2), THEN conjunct1] by simp
qed

end
