(* ===== verification/ZT_Cli.thy ===== *)
theory ZT_Cli
  imports ZT_Runner ZT_Filter
begin

text \<open>
  Model of the interactive shell, \<^verbatim>\<open>src/zt_cli.c\<close>: splitting a line with \<^verbatim>\<open>strtok\<close>, the
  thirteen commands, the tail of the log and the main loop.

  The statics of the file are the record \<open>cli\<close>. \<^verbatim>\<open>g_cli_session\<close> is the session at address 0
  of the runner's state, so that the pointer \<^verbatim>\<open>&g_cli_session\<close> is \<open>Some 0\<close>. The line that is
  being split is a buffer that ends in a NUL character, and the pointer \<^verbatim>\<open>strtok\<close> remembers is
  an index into it. \<open>cl_out\<close> is what the shell itself prints. Readline delivers the lines and
  calls the event hook between them; its redrawing of the edited line is not modelled.
\<close>

section \<open>Splitting a line\<close>

text \<open>\<open>strtok delim str buf saved\<close>: \<open>None\<close> for \<^verbatim>\<open>NULL\<close>, the changed buffer and the new saved index.\<close>

definition strtok :: "char list \<Rightarrow> nat option \<Rightarrow> char list \<Rightarrow> nat \<Rightarrow> string option \<times> char list \<times> nat" where
  "strtok delim str buf saved =
     (let s = (case str of Some p \<Rightarrow> p | None \<Rightarrow> saved);
          p = s + length (takeWhile (\<lambda>c. c \<in> set delim) (cstr buf s))
      in if cstr buf p = [] then (None, buf, p)
         else let tok = takeWhile (\<lambda>c. c \<notin> set delim) (cstr buf p); e = p + length tok
           in if cstr buf e = [] then (Some tok, buf, e) else (Some tok, buf[e := NUL], Suc e))"

section \<open>State\<close>

record cli =
  cl_trace :: trace
  g_cli_attached :: bool
  g_cli_log_path :: string
  g_cli_log_offset :: nat
  g_cli_last_poll_ns :: u64
  cl_line :: "char list"
  cl_saved :: nat
  cl_out :: string

text \<open>
  What the shell asks of its own machine: the files a trace needs, the working directory, the
  monotonic clock (seconds and nanoseconds), whether the log can be opened and positioned for
  reading, and after how many bytes a read of it fails, if it does.
\<close>

record 'w host =
  ho_files :: "'w \<Rightarrow> host_files"
  ho_getcwd :: "'w \<Rightarrow> string option"
  ho_clock :: "'w \<Rightarrow> (u64 \<times> u64) option"
  ho_log_opens :: "string \<Rightarrow> 'w \<Rightarrow> bool"
  ho_log_fails :: "string \<Rightarrow> 'w \<Rightarrow> nat option"

definition PATH_MAX :: nat where "PATH_MAX = 4096"

abbreviation g_cli_session :: "cli \<Rightarrow> session" where
  "g_cli_session c \<equiv> tr_sessions (cl_trace c) 0"

abbreviation session_ptr :: "nat option" where "session_ptr \<equiv> Some 0"

definition upd_trace :: "(trace \<Rightarrow> trace) \<Rightarrow> cli \<Rightarrow> cli" where
  "upd_trace f c = c\<lparr>cl_trace := f (cl_trace c)\<rparr>"

definition set_session :: "session \<Rightarrow> cli \<Rightarrow> cli" where
  "set_session se = upd_trace (put_session 0 se)"

definition say :: "string \<Rightarrow> cli \<Rightarrow> cli" where
  "say s c = c\<lparr>cl_out := cl_out c @ s\<rparr>"

definition sayln :: "string \<Rightarrow> cli \<Rightarrow> cli" where
  "sayln s = say (s @ [CHR 0x0A])"

definition pad_right :: "nat \<Rightarrow> string \<Rightarrow> string" where
  "pad_right n s = s @ replicate (n - length s) (CHR '' '')"

section \<open>Helpers\<close>

definition zt_cli_reset_log_state :: "cli \<Rightarrow> cli" where
  "zt_cli_reset_log_state c = c\<lparr>g_cli_log_path := [], g_cli_log_offset := 0, g_cli_last_poll_ns := 0\<rparr>"

definition CLI_LOG_POLL_INTERVAL_NS :: u64 where "CLI_LOG_POLL_INTERVAL_NS = 50000000"

definition zt_cli_monotonic_ns :: "'w host \<Rightarrow> 'w \<Rightarrow> u64" where
  "zt_cli_monotonic_ns ho w =
     (case ho_clock ho w of None \<Rightarrow> 0 | Some (tv_sec, tv_nsec) \<Rightarrow> tv_sec * NSEC_PER_SEC + tv_nsec)"

definition zt_cli_stop_target :: "('r, 'w) os \<Rightarrow> cli \<Rightarrow> 'w \<Rightarrow> (bool \<times> cli \<times> 'w) option" where
  "zt_cli_stop_target os c w =
     (if \<not> g_cli_attached c then Some (False, c, w)
      else do {
        (b, se, w1) \<leftarrow> zt_injector_interrupt_all os (g_cli_session c) w;
        Some (b, set_session se c, w1) })"

definition zt_cli_set_target_running :: "('r, 'w) os \<Rightarrow> bool \<Rightarrow> cli \<Rightarrow> 'w \<Rightarrow> (bool \<times> cli \<times> 'w) option" where
  "zt_cli_set_target_running os running c w =
     (if zt_trace_is_active (cl_trace c) then do {
        (b, st, w1) \<leftarrow> (if running then Some (zt_trace_resume os session_ptr (cl_trace c) w)
                        else zt_trace_pause os session_ptr (cl_trace c) w);
        Some (b, c\<lparr>cl_trace := st\<rparr>, w1) }
      else if running then
        (case zt_injector_continue_all os (g_cli_session c) w of (b, se, w1) \<Rightarrow> Some (b, set_session se c, w1))
      else zt_cli_stop_target os c w)"

definition zt_cli_require_attached :: "cli \<Rightarrow> bool \<times> cli" where
  "zt_cli_require_attached c =
     (if \<not> g_cli_attached c then (False, sayln ''No target attached'' c) else (True, c))"

definition zt_cli_require_active_trace :: "cli \<Rightarrow> bool \<times> cli" where
  "zt_cli_require_active_trace c =
     (case zt_cli_require_attached c of
        (False, c1) \<Rightarrow> (False, c1)
      | (True, c1) \<Rightarrow>
          if \<not> zt_trace_is_active (cl_trace c1) then (False, sayln ''No active trace'' c1) else (True, c1))"

text \<open>The probe as its index in the table, with the identifier the caller gets.\<close>

definition zt_cli_find_probe :: "string \<Rightarrow> cli \<Rightarrow> (nat \<times> u64) option" where
  "zt_cli_find_probe target c =
     (case strtol10 target of
        (probe_id, rest, _) \<Rightarrow>
          if target \<noteq> rest \<and> rest = [] \<and> probe_id > 0
          then (case zt_probe_find_by_id (g_cli_session c) (of_int probe_id) of
                  None \<Rightarrow> None | Some i \<Rightarrow> Some (i, of_int probe_id))
          else (case zt_probe_find_by_symbol (g_cli_session c) target of
                  None \<Rightarrow> None | Some i \<Rightarrow> Some (i, pi_probe_id (se_probes (g_cli_session c) ! i))))"

definition zt_cli_require_probe_target :: "string \<Rightarrow> cli \<Rightarrow> (nat \<times> u64) option \<times> cli" where
  "zt_cli_require_probe_target target c =
     (case zt_cli_find_probe target c of
        None \<Rightarrow> (None, sayln (''Probe not found: '' @ target) c)
      | Some p \<Rightarrow> (Some p, c))"

definition zt_cli_parse_call_arg :: "string \<Rightarrow> zt_call_action_arg_t option" where
  "zt_cli_parse_call_arg text =
     (if starts_with text ''arg''
      then (case strtoull 10 (drop 3 text) of
              (entry_arg, rest, range_err) \<Rightarrow>
                if \<not> range_err \<and> drop 3 text \<noteq> rest \<and> rest = [] \<and> entry_arg < of_nat ZT_TRACE_GP_ARG_COUNT
                then Some \<lparr>ca_kind = ZT_CALL_ACTION_ARG_ENTRY_ARG, ca_value = entry_arg\<rparr> else None)
      else (case strtoull 0 text of
              (value, rest, range_err) \<Rightarrow>
                if range_err \<or> text = rest \<or> rest \<noteq> [] then None
                else Some \<lparr>ca_kind = ZT_CALL_ACTION_ARG_CONST, ca_value = value\<rparr>))"

definition call_arg_text :: "zt_call_action_arg_t \<Rightarrow> string" where
  "call_arg_text arg =
     (if ca_kind arg = ZT_CALL_ACTION_ARG_ENTRY_ARG then ''arg'' @ fmt_u (ca_value arg) else ''0x'' @ fmt_x (ca_value arg))"

text \<open>One pass per argument; \<open>used\<close> is the text written so far and \<open>first\<close> says that there is none.\<close>

fun cli_format_args_loop :: "nat \<Rightarrow> bool \<Rightarrow> zt_call_action_arg_t list \<Rightarrow> string \<Rightarrow> string" where
  "cli_format_args_loop buffer_size first [] used = used"
| "cli_format_args_loop buffer_size first (arg # args) used =
     (let written = (if first then [] else '', '') @ call_arg_text arg in
      if length written \<ge> buffer_size - length used then take (buffer_size - 1) (used @ written)
      else cli_format_args_loop buffer_size False args (used @ written))"

definition zt_cli_format_call_args :: "zt_probe_call_action_t \<Rightarrow> nat \<Rightarrow> string" where
  "zt_cli_format_call_args action buffer_size =
     (if buffer_size = 0 then []
      else cli_format_args_loop buffer_size True
        (take (min (unat (act_arg_count action)) ZT_CALL_ACTION_ARG_CAP) (act_args action)) [])"

definition cli_strtok :: "char list \<Rightarrow> nat option \<Rightarrow> cli \<Rightarrow> string option \<times> cli" where
  "cli_strtok delim str c =
     (case strtok delim str (cl_line c) (cl_saved c) of
        (tok, line, saved) \<Rightarrow> (tok, c\<lparr>cl_line := line, cl_saved := saved\<rparr>))"

definition zt_next_arg :: "nat option \<Rightarrow> cli \<Rightarrow> string option \<times> cli" where
  "zt_next_arg args c = cli_strtok [CHR '' ''] args c"

definition zt_cli_compile_remaining_filter :: "cli \<Rightarrow> zt_probe_filter_t option \<times> cli" where
  "zt_cli_compile_remaining_filter c =
     (case cli_strtok [CHR 0x0A] None c of (text, c1) \<Rightarrow> (zt_probe_filter_compile text, c1))"

text \<open>The filter of a \<^verbatim>\<open>trace\<close> command: the empty one when the line has no more words.\<close>

definition zt_cli_parse_trace_filter :: "cli \<Rightarrow> zt_probe_filter_t option \<times> cli" where
  "zt_cli_parse_trace_filter c =
     (case zt_next_arg None c of
        (None, c1) \<Rightarrow> (Some zero_filter, c1)
      | (Some maybe_if, c1) \<Rightarrow>
          if maybe_if \<noteq> ''if'' then (None, c1) else zt_cli_compile_remaining_filter c1)"

section \<open>Tailing the log\<close>

text \<open>
  The log is written by the runner and flushed after every dump, so a reader finds the text of
  \<open>tr_log\<close>. \<^verbatim>\<open>fputs\<close> prints a chunk up to its first NUL character; the characters of
  \<^verbatim>\<open>printf("\r\033[2K")\<close> clear the line that is being edited. A read error makes \<^verbatim>\<open>fgets\<close> drop
  the chunk it has begun.
\<close>

definition whole_chunk :: "string \<Rightarrow> bool" where
  "whole_chunk line \<longleftrightarrow> CHR 0x0A \<in> set line \<or> length line = 511"

definition zt_cli_print_log_updates :: "'w host \<Rightarrow> cli \<Rightarrow> 'w \<Rightarrow> cli" where
  "zt_cli_print_log_updates ho c w =
     (let path = g_cli_log_path c in
      if path = [] \<or> \<not> ho_log_opens ho path w then c
      else let content = ls_out (tr_log (cl_trace c));
               lines = (case ho_log_fails ho path w of
                   None \<Rightarrow> fgets_lines 510 (drop (g_cli_log_offset c) content)
                 | Some n \<Rightarrow> takeWhile whole_chunk (fgets_lines 510 (drop (g_cli_log_offset c) (take n content))));
               c1 = (if lines = [] then c
                     else say ([CHR 0x0D, CHR 0x1B] @ ''[2K'' @ concat (map (\<lambda>line. cstr line 0) lines)) c)
        in if ho_log_fails ho path w \<noteq> None then c1
           else c1\<lparr>g_cli_log_offset := max (g_cli_log_offset c) (length content)\<rparr>)"

definition zt_cli_event_hook :: "('r, 'w) os \<Rightarrow> 'w host \<Rightarrow> cli \<Rightarrow> 'w \<Rightarrow> (cli \<times> 'w) option" where
  "zt_cli_event_hook os ho c w =
     (if \<not> zt_trace_is_active (cl_trace c) then Some (c, w)
      else let now = zt_cli_monotonic_ns ho w in
        if now \<noteq> 0 \<and> g_cli_last_poll_ns c \<noteq> 0 \<and> now - g_cli_last_poll_ns c < CLI_LOG_POLL_INTERVAL_NS then Some (c, w)
        else do {
          (r, st, w1) \<leftarrow> zt_trace_poll os (cl_trace c) w;
          let c1 = c\<lparr>g_cli_last_poll_ns := now, cl_trace := st\<rparr> in
          Some (if r = 0 then zt_cli_print_log_updates ho c1 w1 else c1, w1) })"

section \<open>The command table\<close>

datatype zt_cli_handler_t =
    Cmd_help | Cmd_exit | Cmd_attach | Cmd_detach | Cmd_trace | Cmd_stop | Cmd_enable | Cmd_disable
  | Cmd_update | Cmd_untrace | Cmd_info | Cmd_continue

record zt_cli_command_t =
  cmd_name :: string
  cmd_description :: string
  cmd_handler :: zt_cli_handler_t

definition cmd_table :: "zt_cli_command_t list" where
  "cmd_table = map (\<lambda>(n, d, h). \<lparr>cmd_name = n, cmd_description = d, cmd_handler = h\<rparr>)
     [(''help'', ''Show help message'', Cmd_help),
      (''exit'', ''Exit the CLI'', Cmd_exit),
      (''quit'', ''Exit the CLI'', Cmd_exit),
      (''attach'', ''Attach to target process: attach <pid>'', Cmd_attach),
      (''detach'', ''Detach from current target'', Cmd_detach),
      (''trace'', ''Register and enable a probe: trace <symbol> [if <expr>]'', Cmd_trace),
      (''stop'', ''Stop the target process and keep probes unchanged'', Cmd_stop),
      (''enable'', ''Enable a probe again: enable <symbol|id>'', Cmd_enable),
      (''disable'', ''Disable probe(s): disable <symbol|id|all>'', Cmd_disable),
      (''update'', ''Update probe behavior: update <symbol|id> if <expr> | clear | call <symbol|clear> [arg0|...|arg5|0x...]'', Cmd_update),
      (''untrace'', ''Remove a probe: untrace <symbol|id>'', Cmd_untrace),
      (''info'', ''Show info: info target | info probes'', Cmd_info),
      (''continue'', ''Continue the stopped target process'', Cmd_continue)]"

definition kTraceUsage :: string where
  "kTraceUsage = ''Usage: trace <symbol> [if <expr>]''"

definition kUpdateUsage :: string where
  "kUpdateUsage = ''Usage: update <symbol|id> if <expr> | clear | call <symbol|clear> [arg0|...|arg5|0x...]''"

definition kUpdateCallUsage :: string where
  "kUpdateCallUsage = ''Usage: update <symbol|id> call <symbol|clear> [arg0|...|arg5|0x...]''"

section \<open>The commands\<close>

text \<open>
  Every handler but that of \<^verbatim>\<open>exit\<close> returns 0, so that the others are modelled by the new
  state and world alone. \<open>args\<close> is the pointer the main loop passes.
\<close>

definition help_line :: "zt_cli_command_t \<Rightarrow> string" where
  "help_line cmd = ''  '' @ pad_right 10 (cmd_name cmd) @ '' '' @ cmd_description cmd"

definition cmd_help :: "nat option \<Rightarrow> cli \<Rightarrow> cli" where
  "cmd_help args c =
     (case zt_next_arg args c of
        (None, c1) \<Rightarrow> fold (\<lambda>cmd. sayln (help_line cmd)) cmd_table c1
      | (Some arg, c1) \<Rightarrow>
          (case List.find (\<lambda>cmd. cmd_name cmd = arg) cmd_table of
             Some cmd \<Rightarrow> sayln (help_line cmd) c1
           | None \<Rightarrow> sayln (''Unknown command: '' @ arg) c1))"

definition cmd_exit :: "('r, 'w) os \<Rightarrow> cli \<Rightarrow> 'w \<Rightarrow> (cli \<times> 'w) option" where
  "cmd_exit os c w =
     (if g_cli_attached c then do {
        (se, w1) \<leftarrow> zt_injector_detach os (g_cli_session c) w;
        Some ((set_session se c)\<lparr>g_cli_attached := False\<rparr>, w1) }
      else Some (c, w))"

text \<open>\<^verbatim>\<open>(pid_t)pid\<close> keeps the low 32 bits of the \<^verbatim>\<open>long\<close>, read as a signed number.\<close>

definition to_pid_t :: "int \<Rightarrow> int" where
  "to_pid_t n = sint (word_of_int n :: 32 word)"

definition cmd_attach :: "('r, 'w) os \<Rightarrow> nat option \<Rightarrow> cli \<Rightarrow> 'w \<Rightarrow> (cli \<times> 'w) option" where
  "cmd_attach os args c w =
     (case zt_next_arg args c of
        (None, c1) \<Rightarrow> Some (sayln ''Usage: attach <pid>'' c1, w)
      | (Some pid_str, c1) \<Rightarrow>
          (case strtol10 pid_str of
             (pid, rest, _) \<Rightarrow>
               if pid_str = rest \<or> rest \<noteq> [] \<or> pid \<le> 0 then Some (sayln (''Invalid pid: '' @ pid_str) c1, w)
               else if g_cli_attached c1 then Some (sayln (''Already attached to pid '' @ fmt_d (se_pid (g_cli_session c1))) c1, w)
               else do {
                 (b, se, w1) \<leftarrow> zt_injector_attach os (to_pid_t pid) w;
                 let c2 = set_session se c1 in
                 if \<not> b then Some (sayln (''Failed to attach to pid '' @ fmt_d pid) c2, w1)
                 else case zt_injector_continue_all os se w1 of
                     (False, se1, w2) \<Rightarrow>
                       let c3 = sayln (''Attached to pid '' @ fmt_d (se_pid se1) @ '' but failed to continue it'') (set_session se1 c2) in do {
                         (se2, w3) \<leftarrow> zt_injector_detach os se1 w2;
                         Some ((set_session se2 c3)\<lparr>g_cli_attached := False\<rparr>, w3) }
                   | (True, se1, w2) \<Rightarrow>
                       Some (sayln (''Attached to pid '' @ fmt_d (se_pid se1) @ '' ('' @ se_exe_path se1 @ '') and continued'')
                         ((set_session se1 c2)\<lparr>g_cli_attached := True\<rparr>), w2) }))"

definition cmd_detach :: "('r, 'w) os \<Rightarrow> cli \<Rightarrow> 'w \<Rightarrow> (cli \<times> 'w) option" where
  "cmd_detach os c w =
     (case zt_cli_require_attached c of
        (False, c1) \<Rightarrow> Some (c1, w)
      | (True, c1) \<Rightarrow> do {
          (se, w1) \<leftarrow> zt_injector_detach os (g_cli_session c1) w;
          Some (sayln ''Detached'' ((set_session se c1)\<lparr>g_cli_attached := False\<rparr>), w1) })"

text \<open>
  The log path of a new trace: \<^verbatim>\<open>getcwd\<close> may fail, and \<^verbatim>\<open>snprintf\<close> cuts a path that does not
  fit, which the code reports after the buffer has been overwritten.
\<close>

definition cli_new_log :: "'w host \<Rightarrow> cli \<Rightarrow> 'w \<Rightarrow> bool \<times> cli" where
  "cli_new_log ho c w =
     (case ho_getcwd ho w of
        None \<Rightarrow> (False, c)
      | Some cwd \<Rightarrow>
          let path = cwd @ ''/ztrace.'' @ fmt_d (se_pid (g_cli_session c)) @ ''.log'';
              c1 = c\<lparr>g_cli_log_path := take (PATH_MAX - 1) path\<rparr>
          in if length path \<ge> PATH_MAX then (False, c1)
             else (True, c1\<lparr>g_cli_log_offset := 0, g_cli_last_poll_ns := 0\<rparr>))"

definition cli_start_trace ::
  "('r, 'w) zt_arch \<Rightarrow> ('r, 'w) os \<Rightarrow> 'w host \<Rightarrow> string \<Rightarrow> zt_probe_filter_t \<Rightarrow> cli \<Rightarrow> 'w \<Rightarrow> (cli \<times> 'w) option" where
  "cli_start_trace A os ho symbol flt c w = do {
     (b, st, w1) \<leftarrow> zt_trace_start_filtered_in_session A os (ho_files ho w) session_ptr (Some symbol) (Some (g_cli_log_path c))
        (if fl_enabled flt \<noteq> 0 then Some flt else None) (cl_trace c) w;
     let c1 = c\<lparr>cl_trace := st\<rparr> in
     Some (if \<not> b then
             (let c2 = sayln (''Failed to trace '' @ symbol) c1 in
              if \<not> zt_trace_is_active st then zt_cli_reset_log_state c2 else c2)
           else if fl_enabled flt \<noteq> 0
           then sayln (''Tracing '' @ symbol @ '' if '' @ fl_expr flt @ '', log file: '' @ g_cli_log_path c1) c1
           else sayln (''Tracing '' @ symbol @ '', log file: '' @ g_cli_log_path c1) c1, w1) }"

definition cmd_trace ::
  "('r, 'w) zt_arch \<Rightarrow> ('r, 'w) os \<Rightarrow> 'w host \<Rightarrow> nat option \<Rightarrow> cli \<Rightarrow> 'w \<Rightarrow> (cli \<times> 'w) option" where
  "cmd_trace A os ho args c w =
     (case zt_cli_require_attached c of
        (False, c1) \<Rightarrow> Some (c1, w)
      | (True, c1) \<Rightarrow>
          (case zt_next_arg args c1 of
             (None, c2) \<Rightarrow> Some (sayln kTraceUsage c2, w)
           | (Some symbol, c2) \<Rightarrow>
               (case zt_cli_parse_trace_filter c2 of
                  (None, c3) \<Rightarrow>
                    Some (sayln ''Example: trace write if arg0 == 1 && arg2 > 0'' (sayln kTraceUsage c3), w)
                | (Some flt, c3) \<Rightarrow>
                    if zt_trace_is_active (cl_trace c3) then cli_start_trace A os ho symbol flt c3 w
                    else do {
                      (b, c4, w4) \<leftarrow> zt_cli_stop_target os c3 w;
                      if \<not> b then Some (sayln (''Failed to stop pid '' @ fmt_d (se_pid (g_cli_session c4)) @ '' before tracing'') c4, w4)
                      else case cli_new_log ho c4 w4 of
                          (False, c5) \<Rightarrow> Some (sayln ''Failed to build trace log path'' c5, w4)
                        | (True, c5) \<Rightarrow> cli_start_trace A os ho symbol flt c5 w4 })))"

definition cmd_stop :: "('r, 'w) os \<Rightarrow> cli \<Rightarrow> 'w \<Rightarrow> (cli \<times> 'w) option" where
  "cmd_stop os c w =
     (case zt_cli_require_attached c of
        (False, c1) \<Rightarrow> Some (c1, w)
      | (True, c1) \<Rightarrow> do {
          (b, c2, w2) \<leftarrow> zt_cli_set_target_running os False c1 w;
          let pid = fmt_d (se_pid (g_cli_session c2)) in
          Some (if \<not> b then sayln (''Failed to stop pid '' @ pid) c2 else sayln (''Pid '' @ pid @ '' stopped'') c2, w2) })"

definition cmd_enable ::
  "('r, 'w) zt_arch \<Rightarrow> ('r, 'w) os \<Rightarrow> nat option \<Rightarrow> cli \<Rightarrow> 'w \<Rightarrow> (cli \<times> 'w) option" where
  "cmd_enable A os args c w =
     (case zt_cli_require_active_trace c of
        (False, c1) \<Rightarrow> Some (c1, w)
      | (True, c1) \<Rightarrow>
          (case zt_next_arg args c1 of
             (None, c2) \<Rightarrow> Some (sayln ''Usage: enable <symbol|id>'' c2, w)
           | (Some target, c2) \<Rightarrow>
               (case zt_cli_require_probe_target target c2 of
                  (None, c3) \<Rightarrow> Some (c3, w)
                | (Some (i, probe_id), c3) \<Rightarrow> do {
                    (b, st, w1) \<leftarrow> zt_trace_enable_probe A os session_ptr probe_id (cl_trace c3) w;
                    let c4 = c3\<lparr>cl_trace := st\<rparr> in
                    Some (sayln ((if b then ''Enabled probe '' else ''Failed to enable probe '') @ target) c4, w1) })))"

text \<open>The loop of \<^verbatim>\<open>disable all\<close> over the table, with its two counters.\<close>

fun cli_disable_each ::
  "('r, 'w) zt_arch \<Rightarrow> ('r, 'w) os \<Rightarrow> nat list \<Rightarrow> nat \<Rightarrow> nat \<Rightarrow> cli \<Rightarrow> 'w \<Rightarrow> (nat \<times> nat \<times> cli \<times> 'w) option" where
  "cli_disable_each A os [] disabled_count failed_count c w = Some (disabled_count, failed_count, c, w)"
| "cli_disable_each A os (i # is) disabled_count failed_count c w =
     (let probe = se_probes (g_cli_session c) ! i in
      if pi_probe_id probe = 0 \<or> pi_state probe \<noteq> ZT_PROBE_INSTALLED
      then cli_disable_each A os is disabled_count failed_count c w
      else do {
        (b, st, w1) \<leftarrow> zt_trace_disable_probe A os session_ptr (pi_probe_id probe) (cl_trace c) w;
        let c1 = c\<lparr>cl_trace := st\<rparr> in
        if \<not> b then cli_disable_each A os is disabled_count (Suc failed_count)
             (sayln (''Failed to disable probe '' @ tgt_symbol (pi_target (se_probes (g_cli_session c1) ! i))) c1) w1
        else cli_disable_each A os is (Suc disabled_count) failed_count c1 w1 })"

definition cmd_disable ::
  "('r, 'w) zt_arch \<Rightarrow> ('r, 'w) os \<Rightarrow> nat option \<Rightarrow> cli \<Rightarrow> 'w \<Rightarrow> (cli \<times> 'w) option" where
  "cmd_disable A os args c w =
     (case zt_cli_require_active_trace c of
        (False, c1) \<Rightarrow> Some (c1, w)
      | (True, c1) \<Rightarrow>
          (case zt_next_arg args c1 of
             (None, c2) \<Rightarrow> Some (sayln ''Usage: disable <symbol|id|all>'' c2, w)
           | (Some target, c2) \<Rightarrow>
               if target = ''all'' then do {
                 (disabled_count, failed_count, c3, w3) \<leftarrow> cli_disable_each A os [0..<ZT_PROBES_CAPACITY] 0 0 c2 w;
                 Some (if disabled_count = 0 \<and> failed_count = 0 then sayln ''No installed probes to disable'' c3
                       else sayln (''Disabled '' @ fmt_d (int disabled_count) @ '' probe(s)'' @
                          (if failed_count > 0 then '', '' @ fmt_d (int failed_count) @ '' failed'' else [])) c3, w3) }
               else
               (case zt_cli_require_probe_target target c2 of
                  (None, c3) \<Rightarrow> Some (c3, w)
                | (Some (i, probe_id), c3) \<Rightarrow> do {
                    (b, st, w1) \<leftarrow> zt_trace_disable_probe A os session_ptr probe_id (cl_trace c3) w;
                    let c4 = c3\<lparr>cl_trace := st\<rparr> in
                    Some (sayln ((if b then ''Disabled probe '' else ''Failed to disable probe '') @ target) c4, w1) })))"

section \<open>The update command\<close>

text \<open>The words of a line are finite: every call of \<^verbatim>\<open>strtok\<close> that finds one moves on.\<close>

lemma cstr_neq_NilD: "cstr buf i \<noteq> [] \<Longrightarrow> i < length buf"
  by (rule ccontr) (simp add: cstr_def)

lemma takeWhile_drop_prefix:
  "n \<le> length (takeWhile P xs) \<Longrightarrow> takeWhile P (drop n xs) = drop n (takeWhile P xs)"
proof (induction xs arbitrary: n)
  case (Cons x xs)
  then show ?case by (cases n; cases "P x") auto
qed simp

lemma cstr_shift: "n \<le> length (cstr buf i) \<Longrightarrow> cstr buf (i + n) = drop n (cstr buf i)"
  using takeWhile_drop_prefix [of n "\<lambda>c. c \<noteq> NUL" "drop i buf"] by (simp add: cstr_def add.commute)

lemma cstr_skip: "cstr buf (i + length (takeWhile P (cstr buf i))) = dropWhile P (cstr buf i)"
  by (simp add: cstr_shift length_takeWhile_le dropWhile_eq_drop)

text \<open>What a scan does, in terms of the rest of the line.\<close>

lemma strtok_rest:
  "strtok delim str buf saved =
     (let s = (case str of Some p \<Rightarrow> p | None \<Rightarrow> saved);
          rest = dropWhile (\<lambda>c. c \<in> set delim) (cstr buf s);
          p = s + (length (cstr buf s) - length rest);
          tok = takeWhile (\<lambda>c. c \<notin> set delim) rest; e = p + length tok
      in if rest = [] then (None, buf, p)
         else if dropWhile (\<lambda>c. c \<notin> set delim) rest = [] then (Some tok, buf, e) else (Some tok, buf[e := NUL], Suc e))"
proof -
  have l: "length (takeWhile P xs) = length xs - length (dropWhile P xs)" for P and xs :: string
    using arg_cong [OF takeWhile_dropWhile_id [of P xs], of length] unfolding length_append by linarith
  show ?thesis
    unfolding strtok_def Let_def cstr_skip l [of "\<lambda>c. c \<in> set delim", symmetric] by (rule refl)
qed

lemma strtok_moves_on:
  assumes "strtok delim None buf saved = (Some tok, buf', saved')"
  shows "length buf' = length buf \<and> saved < length buf \<and> saved < saved'"
proof -
  define rest where "rest = dropWhile (\<lambda>c. c \<in> set delim) (cstr buf saved)"
  define word where "word = takeWhile (\<lambda>c. c \<notin> set delim) rest"
  define p where "p = saved + (length (cstr buf saved) - length rest)"
  have A: "(if rest = [] then (None, buf, p)
       else if dropWhile (\<lambda>c. c \<notin> set delim) rest = [] then (Some word, buf, p + length word)
       else (Some word, buf[p + length word := NUL], Suc (p + length word))) = (Some tok, buf', saved')"
    using assms unfolding strtok_rest Let_def option.case rest_def [symmetric] word_def [symmetric] p_def [symmetric] .
  then have ne: "rest \<noteq> []" by auto
  then have "hd rest \<notin> set delim" unfolding rest_def by (rule hd_dropWhile)
  with ne have "0 < length word" unfolding word_def by (cases rest) auto
  moreover have "saved < length buf" using ne unfolding rest_def by (intro cstr_neq_NilD) auto
  moreover have "length buf' = length buf \<and> p + length word \<le> saved'" using A ne by (auto split: if_splits)
  ultimately show ?thesis unfolding p_def by linarith
qed

lemma zt_next_arg_progress:
  assumes "zt_next_arg None c = (Some tok, c')"
  shows "length (cl_line c') - cl_saved c' < length (cl_line c) - cl_saved c"
proof -
  obtain buf saved where t: "strtok [CHR '' ''] None (cl_line c) (cl_saved c) = (Some tok, buf, saved)"
    and c': "c' = c\<lparr>cl_line := buf, cl_saved := saved\<rparr>"
    using assms by (auto simp: zt_next_arg_def cli_strtok_def split: prod.splits)
  show ?thesis using strtok_moves_on [OF t] by (simp add: c' diff_less_mono2)
qed

text \<open>
  The argument loop of \<^verbatim>\<open>update ... call\<close>: \<open>None\<close> when an argument is not one or there are more
  than fit. The array is as long as the number of arguments read.
\<close>

function cli_collect_args :: "zt_call_action_arg_t list \<Rightarrow> cli \<Rightarrow> zt_call_action_arg_t list option \<times> cli" where
  "cli_collect_args call_args c =
     (case zt_next_arg None c of
        (None, c1) \<Rightarrow> (Some call_args, c1)
      | (Some arg_text, c1) \<Rightarrow>
          if length call_args \<ge> ZT_CALL_ACTION_ARG_CAP then (None, c1)
          else case zt_cli_parse_call_arg arg_text of
              None \<Rightarrow> (None, c1)
            | Some arg \<Rightarrow> cli_collect_args (call_args @ [arg]) c1)"
  by pat_completeness auto
termination
  by (relation "measure (\<lambda>(call_args, c). length (cl_line c) - cl_saved c)") (auto dest: zt_next_arg_progress [OF sym])

declare cli_collect_args.simps [simp del]

definition cli_update_clear :: "string \<Rightarrow> u64 \<Rightarrow> cli \<Rightarrow> cli" where
  "cli_update_clear target probe_id c =
     (case zt_next_arg None c of
        (Some _, c1) \<Rightarrow> sayln ''Usage: update <symbol|id> clear'' c1
      | (None, c1) \<Rightarrow>
          (case zt_trace_update_probe_filter session_ptr probe_id None (cl_trace c1) of
             (b, st) \<Rightarrow>
               sayln ((if b then ''Cleared filter for probe '' else ''Failed to update probe '') @ target) (c1\<lparr>cl_trace := st\<rparr>)))"

definition cli_update_call :: "('r, 'w) os \<Rightarrow> string \<Rightarrow> u64 \<Rightarrow> cli \<Rightarrow> 'w \<Rightarrow> cli \<times> 'w" where
  "cli_update_call os target probe_id c w =
     (case zt_next_arg None c of
        (None, c1) \<Rightarrow> (sayln kUpdateCallUsage c1, w)
      | (Some callee, c1) \<Rightarrow>
          (case cli_collect_args [] c1 of
             (None, c2) \<Rightarrow> (sayln kUpdateCallUsage c2, w)
           | (Some call_args, c2) \<Rightarrow>
               if callee = ''clear'' then
                 if call_args \<noteq> [] then (sayln ''Usage: update <symbol|id> call clear'' c2, w)
                 else case zt_trace_clear_probe_call_action os session_ptr probe_id (cl_trace c2) w of
                     (b, st, w1) \<Rightarrow>
                       (sayln ((if b then ''Cleared call action for probe '' else ''Failed to clear call action for probe '') @ target)
                          (c2\<lparr>cl_trace := st\<rparr>), w1)
               else case zt_trace_update_probe_call_action_args os session_ptr probe_id (Some callee)
                        (if call_args = [] then None else Some call_args) (of_nat (length call_args)) (cl_trace c2) w of
                   (b, st, w1) \<Rightarrow>
                     (sayln ((if b then ''Updated probe '' else ''Failed to update probe '') @ target @ '' call action to '' @ callee)
                        (c2\<lparr>cl_trace := st\<rparr>), w1)))"

definition cli_update_if :: "string \<Rightarrow> u64 \<Rightarrow> cli \<Rightarrow> cli" where
  "cli_update_if target probe_id c =
     (case zt_cli_compile_remaining_filter c of
        (None, c1) \<Rightarrow> sayln kUpdateUsage c1
      | (Some flt, c1) \<Rightarrow>
          (case zt_trace_update_probe_filter session_ptr probe_id (Some flt) (cl_trace c1) of
             (b, st) \<Rightarrow>
               sayln (if b then ''Updated probe '' @ target @ '' filter to '' @ fl_expr flt else ''Failed to update probe '' @ target)
                 (c1\<lparr>cl_trace := st\<rparr>)))"

definition cmd_update :: "('r, 'w) os \<Rightarrow> nat option \<Rightarrow> cli \<Rightarrow> 'w \<Rightarrow> cli \<times> 'w" where
  "cmd_update os args c w =
     (case zt_cli_require_active_trace c of
        (False, c1) \<Rightarrow> (c1, w)
      | (True, c1) \<Rightarrow>
          let (target, c2) = zt_next_arg args c1; (mode, c3) = zt_next_arg None c2 in
          (case (target, mode) of
             (Some target, Some mode) \<Rightarrow>
               (case zt_cli_require_probe_target target c3 of
                  (None, c4) \<Rightarrow> (c4, w)
                | (Some (i, probe_id), c4) \<Rightarrow>
                    if mode = ''clear'' then (cli_update_clear target probe_id c4, w)
                    else if mode = ''call'' then cli_update_call os target probe_id c4 w
                    else if mode \<noteq> ''if'' then (sayln kUpdateUsage c4, w)
                    else (cli_update_if target probe_id c4, w))
           | _ \<Rightarrow> (sayln kUpdateUsage c3, w)))"

section \<open>The other commands\<close>

definition cmd_untrace ::
  "('r, 'w) zt_arch \<Rightarrow> ('r, 'w) os \<Rightarrow> nat option \<Rightarrow> cli \<Rightarrow> 'w \<Rightarrow> (cli \<times> 'w) option" where
  "cmd_untrace A os args c w =
     (case zt_cli_require_attached c of
        (False, c1) \<Rightarrow> Some (c1, w)
      | (True, c1) \<Rightarrow>
          (case zt_next_arg args c1 of
             (None, c2) \<Rightarrow> Some (sayln ''Usage: untrace <symbol|id>'' c2, w)
           | (Some target, c2) \<Rightarrow>
               (case zt_cli_require_probe_target target c2 of
                  (None, c3) \<Rightarrow> Some (c3, w)
                | (Some (i, probe_id), c3) \<Rightarrow> do {
                    (b, st, w1) \<leftarrow> zt_trace_remove_probe A os session_ptr probe_id (cl_trace c3) w;
                    let c4 = c3\<lparr>cl_trace := st\<rparr> in
                    Some (if \<not> b then sayln (''Failed to remove probe '' @ target) c4
                          else sayln (''Removed probe '' @ target)
                            (if \<not> zt_trace_is_active st then zt_cli_reset_log_state c4 else c4), w1) })))"

definition probe_row :: "string \<Rightarrow> string \<Rightarrow> string \<Rightarrow> string \<Rightarrow> string \<Rightarrow> string \<Rightarrow> string" where
  "probe_row a b c d e f =
     pad_right 4 a @ '' '' @ pad_right 20 b @ '' '' @ pad_right 10 c @ '' '' @ pad_right 5 d @ '' '' @ pad_right 18 e @ '' '' @ f"

definition cli_info_probe :: "zt_probe_info_t \<Rightarrow> cli \<Rightarrow> cli" where
  "cli_info_probe probe c =
     (if pi_probe_id probe = 0 then c
      else let c1 = sayln (probe_row (fmt_u (pi_probe_id probe)) (take 20 (tgt_symbol (pi_target probe)))
                 (zt_probe_state_name (pi_state probe)) (fmt_d (int (pi_orig_len probe)))
                 (''0x'' @ pad_left 16 (CHR ''0'') (fmt_x (tgt_remote_addr (pi_target probe)))) (tgt_module_path (pi_target probe))) c;
               c2 = (if fl_enabled (pi_filter probe) \<noteq> 0 \<and> fl_expr (pi_filter probe) \<noteq> []
                     then sayln (''     filter: '' @ fl_expr (pi_filter probe)) c1 else c1)
        in if act_enabled (pi_call_action probe) \<noteq> 0 \<and> pi_call_symbol probe \<noteq> []
           then sayln (''       call: '' @ pi_call_symbol probe @ ''('' @ zt_cli_format_call_args (pi_call_action probe) 160 @ '')'') c2
           else c2)"

definition cli_info_target :: "bool \<Rightarrow> cli \<Rightarrow> cli" where
  "cli_info_target with_count c =
     (let se = g_cli_session c;
          c1 = sayln (''image_base: 0x'' @ fmt_x (se_image_base se))
                 (sayln (''is_pie    : '' @ fmt_d (if se_is_pie se then 1 else 0))
                 (sayln (''exe       : '' @ se_exe_path se)
                 (sayln (''pid       : '' @ fmt_d (se_pid se)) c)))
      in if with_count then sayln (''probes    : '' @ fmt_d (se_probe_count se)) c1 else c1)"

definition cmd_info :: "nat option \<Rightarrow> cli \<Rightarrow> cli" where
  "cmd_info args c =
     (case zt_cli_require_attached c of
        (False, c1) \<Rightarrow> c1
      | (True, c1) \<Rightarrow>
          (case zt_next_arg args c1 of
             (None, c2) \<Rightarrow> cli_info_target True c2
           | (Some subcmd, c2) \<Rightarrow>
               if subcmd = ''target'' then cli_info_target False c2
               else if subcmd = ''probes'' then
                 if se_probe_count (g_cli_session c2) = 0 then sayln ''No probes'' c2
                 else fold cli_info_probe (se_probes (g_cli_session c2))
                   (sayln (probe_row ''--'' ''--------------------'' ''----------'' ''-----'' ''------------------'' ''------'')
                   (sayln (probe_row ''id'' ''symbol'' ''state'' ''len'' ''addr'' ''module'') c2))
               else sayln ''Usage: info target | info probes'' c2))"

definition cmd_continue :: "('r, 'w) os \<Rightarrow> cli \<Rightarrow> 'w \<Rightarrow> (cli \<times> 'w) option" where
  "cmd_continue os c w =
     (case zt_cli_require_attached c of
        (False, c1) \<Rightarrow> Some (c1, w)
      | (True, c1) \<Rightarrow> do {
          (b, c2, w2) \<leftarrow> zt_cli_set_target_running os True c1 w;
          let pid = fmt_d (se_pid (g_cli_session c2)) in
          Some (sayln ((if b then ''Continued pid '' else ''Failed to continue pid '') @ pid) c2, w2) })"

section \<open>The main loop\<close>

definition zt_cli_call_handler ::
  "('r, 'w) zt_arch \<Rightarrow> ('r, 'w) os \<Rightarrow> 'w host \<Rightarrow> zt_cli_handler_t \<Rightarrow> nat option \<Rightarrow> cli \<Rightarrow> 'w \<Rightarrow> (cli \<times> 'w) option" where
  "zt_cli_call_handler A os ho h args c w =
     (case h of
        Cmd_help \<Rightarrow> Some (cmd_help args c, w)
      | Cmd_exit \<Rightarrow> cmd_exit os c w
      | Cmd_attach \<Rightarrow> cmd_attach os args c w
      | Cmd_detach \<Rightarrow> cmd_detach os c w
      | Cmd_trace \<Rightarrow> cmd_trace A os ho args c w
      | Cmd_stop \<Rightarrow> cmd_stop os c w
      | Cmd_enable \<Rightarrow> cmd_enable A os args c w
      | Cmd_disable \<Rightarrow> cmd_disable A os args c w
      | Cmd_update \<Rightarrow> Some (cmd_update os args c w)
      | Cmd_untrace \<Rightarrow> cmd_untrace A os args c w
      | Cmd_info \<Rightarrow> Some (cmd_info args c, w)
      | Cmd_continue \<Rightarrow> cmd_continue os c w)"

text \<open>
  \<^verbatim>\<open>args = input + strlen(cmd)\<close>, blanks skipped, and \<^verbatim>\<open>NULL\<close> at the end of the string. The
  buffer is the one \<^verbatim>\<open>strtok\<close> has just cut.
\<close>

definition cli_args :: "char list \<Rightarrow> string \<Rightarrow> nat option" where
  "cli_args line cmd =
     (let blanks = length (takeWhile (\<lambda>ch. ch = CHR '' '') (cstr line (length cmd))); p = length cmd + blanks
      in if cstr line p = [] then None else Some p)"

text \<open>One line of input; the flag says that the loop goes on.\<close>

definition zt_cli_line ::
  "('r, 'w) zt_arch \<Rightarrow> ('r, 'w) os \<Rightarrow> 'w host \<Rightarrow> string \<Rightarrow> cli \<Rightarrow> 'w \<Rightarrow> (bool \<times> cli \<times> 'w) option" where
  "zt_cli_line A os ho input c w =
     (case zt_next_arg (Some 0) (c\<lparr>cl_line := input @ [NUL]\<rparr>) of
        (None, c1) \<Rightarrow> Some (True, c1, w)
      | (Some cmd, c1) \<Rightarrow>
          (case List.find (\<lambda>e. cmd_name e = cmd) cmd_table of
             None \<Rightarrow> Some (True, sayln (''Unknown command: '' @ cmd) c1, w)
           | Some e \<Rightarrow> do {
               (c2, w2) \<leftarrow> zt_cli_call_handler A os ho (cmd_handler e) (cli_args (cl_line c1) cmd) c1 w;
               Some (cmd_handler e \<noteq> Cmd_exit, c2, w2) }))"

text \<open>
  What Readline delivers: a call of the event hook while it waits, or a line. The loop ends at
  the end of the input or with \<^verbatim>\<open>exit\<close>.
\<close>

datatype cli_event = Tick | Line string

fun zt_cli_main_loop ::
  "('r, 'w) zt_arch \<Rightarrow> ('r, 'w) os \<Rightarrow> 'w host \<Rightarrow> cli_event list \<Rightarrow> cli \<Rightarrow> 'w \<Rightarrow> (cli \<times> 'w) option" where
  "zt_cli_main_loop A os ho [] c w = Some (c, w)"
| "zt_cli_main_loop A os ho (Tick # evs) c w = do {
     (c1, w1) \<leftarrow> zt_cli_event_hook os ho c w;
     zt_cli_main_loop A os ho evs c1 w1 }"
| "zt_cli_main_loop A os ho (Line input # evs) c w = do {
     (more, c1, w1) \<leftarrow> zt_cli_line A os ho input c w;
     if more then zt_cli_main_loop A os ho evs c1 w1 else Some (c1, w1) }"

end
