(* ===== verification/ZT_SessionInv.thy ===== *)
theory ZT_SessionInv
  imports ZT_RunnerProps ZT_InstallProps
begin

text \<open>
  The invariant of a session, made of those of its parts: the thread table, the probe table
  and the slots of the call actions. Every operation of the runner keeps it, whatever the
  kernel answers and on every outcome.
\<close>

section \<open>Runs of events\<close>

text \<open>
  A program that handles one event after the other until there are no more or it ends itself;
  \<open>None\<close> is a step that does not return.
\<close>

fun run_events :: "('e \<Rightarrow> 's \<Rightarrow> (bool \<times> 's) option) \<Rightarrow> 'e list \<Rightarrow> 's \<Rightarrow> 's option" where
  "run_events step [] s = Some s"
| "run_events step (ev # evs) s =
     (case step ev s of None \<Rightarrow> None | Some (go, s1) \<Rightarrow> if go then run_events step evs s1 else Some s1)"

text \<open>
  An invariant whose strength depends on the number of events so far, for the first \<open>N\<close> of
  them: what every step keeps holds after every run.
\<close>

locale counted_run =
  fixes step :: "'e \<Rightarrow> 's \<Rightarrow> (bool \<times> 's) option" and I :: "nat \<Rightarrow> 's \<Rightarrow> bool" and N :: nat
  assumes step_keeps: "I n s \<Longrightarrow> n < N \<Longrightarrow> step ev s = Some (b, s') \<Longrightarrow> I (Suc n) s'"
    and weaken: "I n s \<Longrightarrow> n \<le> m \<Longrightarrow> I m s"
begin

lemma run_keeps:
  "I n s \<Longrightarrow> n + length evs \<le> N \<Longrightarrow> run_events step evs s = Some s' \<Longrightarrow> I (n + length evs) s'"
proof (induction evs arbitrary: n s)
  case (Cons ev evs)
  then obtain b s1 where s1: "step ev s = Some (b, s1)" by (auto split: option.splits)
  have i: "I (Suc n) s1" using Cons.prems by (intro step_keeps [OF _ _ s1]) simp_all
  show ?case
  proof (cases b)
    case True
    then show ?thesis using Cons.IH [OF i] Cons.prems s1 by simp
  next
    case False
    then show ?thesis using i Cons.prems s1 weaken [OF i, of "n + length (ev # evs)"] by simp
  qed
qed simp

end

section \<open>The invariant and what keeps it\<close>

definition sess_ok :: "session \<Rightarrow> bool" where
  "sess_ok se \<longleftrightarrow> threads_ok se \<and> probes_ok se \<and> calls_ok se"

text \<open>Changes that keep the invariant and hand out no id.\<close>

definition keeps :: "session \<Rightarrow> session \<Rightarrow> bool" where
  "keeps se se' \<longleftrightarrow> (sess_ok se \<longrightarrow> sess_ok se' \<and> se_next_probe_id se' = se_next_probe_id se)"

lemma keeps_refl [simp]: "keeps se se"
  by (simp add: keeps_def)

lemma keeps_trans [trans]: "keeps a b \<Longrightarrow> keeps b c \<Longrightarrow> keeps a c"
  by (simp add: keeps_def)

text \<open>Changes that may register one probe, as long as ids are left.\<close>

definition ids_left :: "session \<Rightarrow> bool" where
  "ids_left se \<longleftrightarrow> 0 < se_next_probe_id se \<and> unat (se_next_probe_id se) < 2 ^ 64 - 1"

definition adds :: "session \<Rightarrow> session \<Rightarrow> bool" where
  "adds se se' \<longleftrightarrow> (sess_ok se \<and> ids_left se \<longrightarrow>
     sess_ok se' \<and> 0 < se_next_probe_id se' \<and> unat (se_next_probe_id se') \<le> unat (se_next_probe_id se) + 1)"

lemma keeps_adds: "keeps a b \<Longrightarrow> adds a b"
  by (auto simp: keeps_def adds_def ids_left_def)

lemma adds_refl [simp]: "adds se se"
  by (rule keeps_adds [OF keeps_refl])

lemma keeps_adds_trans [trans]: "keeps a b \<Longrightarrow> adds b c \<Longrightarrow> adds a c"
  by (auto simp: keeps_def adds_def ids_left_def)

lemma adds_keeps_trans [trans]: "adds a b \<Longrightarrow> keeps b c \<Longrightarrow> adds a c"
  by (auto simp: keeps_def adds_def ids_left_def)

lemma calls_ok_probes: "se_probes se' = se_probes se \<Longrightarrow> calls_ok se' = calls_ok se"
  by (simp add: calls_ok_def)

lemma probes_ok_part: "probe_part se' = probe_part se \<Longrightarrow> probes_ok se' = probes_ok se"
  by (simp add: probes_ok_def)

lemma keeps_threads:
  assumes "threads_ok se \<Longrightarrow> threads_ok se' \<and> probe_part se' = probe_part se"
  shows "keeps se se'"
  unfolding keeps_def sess_ok_def
proof (intro impI; elim conjE)
  assume ok: "threads_ok se" "probes_ok se" "calls_ok se"
  note e = conjunct2 [OF assms [OF ok(1)]]
  show "(threads_ok se' \<and> probes_ok se' \<and> calls_ok se') \<and> se_next_probe_id se' = se_next_probe_id se"
    using assms [OF ok(1)] ok(2,3) probes_ok_part [OF e] calls_ok_probes [of se' se] by simp
qed

text \<open>Changes of one probe.\<close>

definition mild :: "zt_probe_info_t \<Rightarrow> zt_probe_info_t \<Rightarrow> bool" where
  "mild p q \<longleftrightarrow> pi_probe_id q = pi_probe_id p \<and> pi_target q = pi_target p \<and>
     (act_enabled (pi_call_action q) \<noteq> 0 \<longrightarrow>
        act_enabled (pi_call_action p) \<noteq> 0 \<and> pi_call_action_slot q = pi_call_action_slot p)"

lemma calls_ok_mono:
  assumes "calls_ok se" and "length (se_probes se') = length (se_probes se)"
    and "\<And>j. has_action se' j \<Longrightarrow> has_action se j \<and> pi_call_action_slot (se_probes se' ! j) = pi_call_action_slot (se_probes se ! j)"
  shows "calls_ok se'"
  using assms unfolding calls_ok_def by metis

lemma nth_update: "j < length xs \<Longrightarrow> xs[i := x] ! j = (if i = j then x else xs ! j)"
  by (cases "i = j") simp_all

lemma keeps_update:
  assumes m: "mild (se_probes se ! i) q"
    and e: "se_probes se' = (se_probes se)[i := q]" "se_next_probe_id se' = se_next_probe_id se"
      "se_probe_count se' = se_probe_count se" "threads_ok se \<Longrightarrow> threads_ok se'"
  shows "keeps se se'"
  unfolding keeps_def sess_ok_def
proof (intro impI conjI; (elim conjE)?)
  assume ok: "threads_ok se" "probes_ok se" "calls_ok se"
  show "threads_ok se'" using ok(1) by (rule e(4))
  show "se_next_probe_id se' = se_next_probe_id se" by (rule e(2))
  show "probes_ok se'" using m by (intro probes_ok_update [OF ok(2) e(1-3)]) (simp_all add: mild_def)
  have l: "length (se_probes se) = ZT_PROBES_CAPACITY" using ok(3) by (simp add: calls_ok_def)
  show "calls_ok se'"
    by (rule calls_ok_mono [OF ok(3)]) (use m l e(1) in \<open>auto simp: mild_def nth_update split: if_splits\<close>)
qed

lemma keeps_upd: "mild (se_probes se ! i) (f (se_probes se ! i)) \<Longrightarrow> keeps se (upd_probe i f se)"
  by (rule keeps_update [where i = i and q = "f (se_probes se ! i)"]) (simp_all add: upd_probe_def threads_ok_def)

lemma mild_step: "step_of p q \<Longrightarrow> mild p q"
  by (cases p; cases q) (simp add: base_of_def mild_def)

lemma keeps_unregister:
  assumes "zt_unregister_probe se x = (b, se')"
  shows "keeps se se'"
  unfolding keeps_def sess_ok_def
proof (intro impI conjI; (elim conjE)?)
  assume ok: "threads_ok se" "probes_ok se" "calls_ok se"
  have u: "se' = se \<or> (\<exists>i. se_probes se' = (se_probes se)[i := zero_probe]) \<and> se_next_probe_id se' = se_next_probe_id se \<and>
      se_threads se' = se_threads se \<and> se_thread_count se' = se_thread_count se"
    using assms by (auto simp: zt_unregister_probe_def Let_def upd_probe_def split: option.splits if_splits)
  then show "threads_ok se'" "se_next_probe_id se' = se_next_probe_id se" using ok(1) by (auto simp: threads_ok_def)
  show "probes_ok se'" by (rule unregister(1) [OF ok(2) assms])
  have l: "length (se_probes se) = ZT_PROBES_CAPACITY" using ok(3) by (simp add: calls_ok_def)
  show "calls_ok se'"
    by (rule calls_ok_mono [OF ok(3)])
      (use u l in \<open>auto simp: nth_update zero_probe_def split: if_splits\<close>)
qed

section \<open>The operations of the injector\<close>

lemma keeps_interrupt: "zt_injector_interrupt_all os se w = Some (b, se', w') \<Longrightarrow> keeps se se'"
  by (rule keeps_threads) (drule (1) interrupt_all [rotated], simp)

lemma keeps_continue: "zt_injector_continue_all os se w = (b, se', w') \<Longrightarrow> keeps se se'"
  by (rule keeps_threads) (drule (1) continue_all [rotated], simp)

lemma keeps_poll: "zt_injector_poll_events os se w = Some (b, y, se', w') \<Longrightarrow> keeps se se'"
  by (rule keeps_threads) (drule (1) poll_events [rotated], simp)

lemma keeps_ensure_safe: "zt_ensure_patch_regions_are_safe A os se w = Some (b, se', w') \<Longrightarrow> keeps se se'"
  by (rule keeps_threads) (drule (1) ensure_safe_ok [rotated], erule conjE, drule se_restD, simp)

lemma keeps_enable: "zt_enable_probe A os se x w = (b, se', w') \<Longrightarrow> keeps se se'"
  by (auto simp: zt_enable_probe_def Let_def mild_def intro!: keeps_upd split: option.splits if_splits prod.splits)

lemma keeps_install:
  assumes "zt_install_probe_patch A os se x t w = Some (b, se', w')"
  shows "keeps se se'"
  using assms
  by (auto simp: zt_install_probe_patch_def bind_eq_Some_conv mild_def dest: keeps_ensure_safe
      intro: keeps_trans [OF keeps_ensure_safe keeps_upd] split: option.splits if_splits prod.splits bool.splits)

lemma keeps_uninstall:
  assumes "zt_uninstall_probe_patch A os se x w = Some (b, se', w')"
  shows "keeps se se'"
  using assms
  by (auto simp: zt_uninstall_probe_patch_def Let_def bind_eq_Some_conv mild_def dest: keeps_ensure_safe
      intro: keeps_trans [OF keeps_ensure_safe keeps_upd] split: option.splits if_splits prod.splits bool.splits)

lemma adds_register:
  assumes r: "zt_register_probe os se name w = (res, se', w')"
  shows "adds se se'"
  unfolding adds_def
proof (intro impI; elim conjE)
  assume ok: "sess_ok se" and n: "ids_left se"
  have p: "probes_ok se'" by (rule register(1) [OF _ _ _ r]) (use ok n in \<open>simp_all add: sess_ok_def ids_left_def\<close>)
  have new: "se' = se \<or> se_next_probe_id se' = se_next_probe_id se + 1 \<and> se_threads se' = se_threads se \<and>
      se_thread_count se' = se_thread_count se \<and>
      (\<exists>i q. se_probes se' = (se_probes se)[i := q] \<and> act_enabled (pi_call_action q) = 0)"
    using r n by (auto simp: zt_register_probe_def zt_probe_alloc_def Let_def upd_probe_def zero_probe_def zero_action_def ids_left_def
        split: option.splits prod.splits if_splits) (intro exI conjI, rule refl, simp)
  have l: "length (se_probes se) = ZT_PROBES_CAPACITY" "calls_ok se" using ok by (simp_all add: sess_ok_def calls_ok_def)
  have "calls_ok se'"
    by (rule calls_ok_mono [OF l(2)]) (use new l(1) in \<open>auto simp: nth_update split: if_splits\<close>)
  moreover have "threads_ok se'" using new ok by (auto simp: sess_ok_def threads_ok_def)
  moreover have "0 < se_next_probe_id se' \<and> unat (se_next_probe_id se') \<le> unat (se_next_probe_id se) + 1"
  proof -
    have u: "unat (se_next_probe_id se + 1) = unat (se_next_probe_id se) + 1"
      using n by (simp add: ids_left_def unat_word_ariths)
    moreover have "0 < se_next_probe_id se + 1" using u by (simp add: word_gt_0_no word_less_nat_alt)
    ultimately show ?thesis using new n by (auto simp: ids_left_def)
  qed
  ultimately show "sess_ok se' \<and> 0 < se_next_probe_id se' \<and> unat (se_next_probe_id se') \<le> unat (se_next_probe_id se) + 1"
    using p by (simp add: sess_ok_def)
qed

section \<open>The operations of the runner\<close>

lemma keeps_const: "step_of (se_probes se ! i) q \<Longrightarrow> keeps se (upd_probe i (\<lambda>_. q) se)"
  by (rule keeps_upd) (rule mild_step)

lemma alloc_step_of:
  assumes "zt_trampoline_pool_alloc A os pid pool p w = Some ((r, pool', q), w')"
  shows "step_of p q"
  using assms
  by (auto simp: zt_trampoline_pool_alloc_def zt_trampoline_pool_assign_slot_def base_of_def Let_def bind_eq_Some_conv
      split: if_splits option.splits prod.splits)

lemma mild_filter: "mild p (zt_trace_set_probe_filter flt p)"
  by (simp add: mild_def zt_trace_set_probe_filter_def)

lemma keeps_install_steps:
  assumes "zt_install_steps A os se rt i w = Some (b, se', rt', w')"
  shows "keeps se se'"
proof -
  let ?x = "pi_probe_id (se_probes se ! i)"
  obtain b1 se1 w1 where 1: "zt_enable_probe A os se ?x w = (b1, se1, w1)" by (metis prod_cases3)
  note k1 = keeps_enable [OF 1]
  show ?thesis
  proof (cases b1)
    case False
    then show ?thesis using assms 1 k1 by (simp add: zt_install_steps_def)
  next
    case True
    then obtain addr pool q w2 where 2: "zt_trampoline_pool_alloc A os (se_pid se1) (rt_trampoline_pool rt) (se_probes se1 ! i) w1 =
        Some ((addr, pool, q), w2)"
      using assms 1 by (auto simp: zt_install_steps_def bind_eq_Some_conv)
    let ?se2 = "upd_probe i (\<lambda>_. q) se1" and ?rt2 = "rt\<lparr>rt_trampoline_pool := pool\<rparr>"
    have r: "se' = ?se2 \<or> (\<exists>t w3 b4 w4. zt_install_probe_patch A os ?se2 ?x t w3 = Some (b4, se', w4))"
    proof (cases "case addr of None \<Rightarrow> None | Some a \<Rightarrow> zt_arch_build_trampoline A q (rt_remote_entry_stub_addr ?rt2) a")
      case None
      then show ?thesis using assms 1 2 True by (cases addr) (simp_all add: zt_install_steps_def Let_def)
    next
      case (Some bz)
      then obtain a where a: "addr = Some a" by (cases addr) auto
      obtain bw w3 where w: "zt_write_remote_memory os (se_pid ?se2) a (take (snd bz) (fst bz)) w2 = (bw, w3)" by fastforce
      show ?thesis
        using assms 1 2 True Some a w by (cases bz; cases bw) (auto simp: zt_install_steps_def Let_def bind_eq_Some_conv)
    qed
    have k2: "keeps se (upd_probe i (\<lambda>_. q) se1)" by (rule keeps_trans [OF k1 keeps_const [OF alloc_step_of [OF 2]]])
    from r show ?thesis
    proof (elim disjE exE)
      fix t w3 b4 w4
      assume "zt_install_probe_patch A os ?se2 ?x t w3 = Some (b4, se', w4)"
      from keeps_trans [OF k2 keeps_install [OF this]] show ?thesis .
    qed (use k2 in simp)
  qed
qed

lemma keeps_rollback:
  assumes r: "zt_trace_rollback_probe_install A os se rt i snapshot w = Some (se', rt', w')"
  shows "keeps se se'"
proof -
  let ?p = "se_probes se ! i"
  define undo where "undo se1 = (if \<not> is_existed snapshot then snd (zt_unregister_probe se1 (pi_probe_id ?p))
        else upd_probe i (\<lambda>p. p\<lparr>pi_state := is_state snapshot, pi_trampoline_addr := is_trampoline_addr snapshot,
          pi_trampoline_slot := is_trampoline_slot snapshot, pi_orig_code := is_orig_code snapshot,
          pi_orig_len := is_orig_len snapshot, pi_filter := is_filter snapshot\<rparr>) se1)" for se1
  have fin: "keeps se1 (undo se1)" for se1
    unfolding undo_def using keeps_unregister [of se1 "pi_probe_id ?p"] by (auto simp: mild_def prod_eq_iff intro!: keeps_upd)
  have "se' = undo se \<or> (\<exists>pool q w1. zt_trampoline_pool_release A os (se_pid se) (rt_trampoline_pool rt) ?p w = Some ((pool, q), w1) \<and>
      se' = undo (upd_probe i (\<lambda>_. q) se))"
    using r unfolding zt_trace_rollback_probe_install_def Let_def undo_def
    by (cases "is_existed snapshot") (auto simp: bind_eq_Some_conv split: if_splits)
  then show ?thesis
  proof (elim disjE exE conjE)
    fix pool q w1
    assume "zt_trampoline_pool_release A os (se_pid se) (rt_trampoline_pool rt) ?p w = Some ((pool, q), w1)"
      and e: "se' = undo (upd_probe i (\<lambda>_. q) se)"
    from keeps_trans [OF keeps_const [OF release_step [OF this(1)]] fin] show ?thesis unfolding e .
  qed (use fin in simp)
qed

lemma adds_install_probe:
  assumes r: "zt_trace_install_probe A os se rt symbol flt w = Some (b, se', rt', w')"
  shows "adds se se'"
proof -
  obtain res se1 w1 where reg: "zt_register_probe os se symbol w = (res, se1, w1)" by (metis prod_cases3)
  note a = adds_register [OF reg]
  have f: "keeps se1 (upd_probe i (zt_trace_set_probe_filter flt) se1)" for i by (rule keeps_upd) (rule mild_filter)
  have "keeps se1 se'"
  proof (cases res)
    case None
    then show ?thesis using r reg by (simp add: zt_trace_install_probe_def)
  next
    case (Some i)
    consider "se' = se1" | "se' = upd_probe i (zt_trace_set_probe_filter flt) se1"
      | se2 rt2 w2 b2 snapshot where "zt_install_steps A os (upd_probe i (zt_trace_set_probe_filter flt) se1) rt i w1 = Some (b2, se2, rt2, w2)"
        "se' = se2 \<or> (\<exists>w3. zt_trace_rollback_probe_install A os se2 rt2 i snapshot w2 = Some (se', rt', w3))"
      using r reg Some by (auto simp: zt_trace_install_probe_def Let_def bind_eq_Some_conv split: if_splits) blast
    then show ?thesis
    proof cases
      case 1
      then show ?thesis by simp
    next
      case 2
      then show ?thesis using f by simp
    next
      case 3
      note k = keeps_trans [OF f keeps_install_steps [OF 3(1)]]
      from 3(2) show ?thesis
      proof (elim disjE exE)
        assume "se' = se2"
        then show ?thesis using k by simp
      next
        fix w3
        assume "zt_trace_rollback_probe_install A os se2 rt2 i snapshot w2 = Some (se', rt', w3)"
        from keeps_trans [OF k keeps_rollback [OF this]] show ?thesis .
      qed
    qed
  qed
  then show ?thesis by (rule adds_keeps_trans [OF a])
qed

section \<open>The operations on the active trace\<close>

abbreviation kept :: "nat \<Rightarrow> trace \<Rightarrow> trace \<Rightarrow> bool" where
  "kept p st st' \<equiv> keeps (tr_sessions st p) (tr_sessions st' p)"

lemma sessions_simps [simp]:
  "tr_sessions (set_state s st) = tr_sessions st" "tr_sessions (set_runtime rt st) = tr_sessions st"
  "tr_sessions (zt_trace_reset_active x st) = tr_sessions st" "tr_sessions (zt_trace_mark_target_exited st) = tr_sessions st"
  by (simp_all add: set_state_def set_runtime_def zt_trace_reset_active_def zt_trace_mark_target_exited_def)

lemma kept_put: "keeps (tr_sessions st q) se \<Longrightarrow> kept p st (put_session q se st)"
  by (simp add: put_session_def)

lemma put_session_state [simp]: "put_session q se (set_state x st) = set_state x (put_session q se st)"
  by (simp add: put_session_def set_state_def upd_active_def)

lemma kept_stopped: "zt_trace_ensure_stopped os session st w = Some (b, st', w') \<Longrightarrow> kept p st st'"
  by (auto simp: zt_trace_ensure_stopped_def bind_eq_Some_conv Let_def dest!: keeps_interrupt intro: kept_put split: if_splits)

lemma kept_running: "zt_trace_ensure_running os session st w = (b, st', w') \<Longrightarrow> kept p st st'"
  by (auto simp: zt_trace_ensure_running_def Let_def dest!: keeps_continue intro: kept_put split: if_splits prod.splits)

lemma adds_install_active:
  assumes r: "zt_trace_install_active_probe A os (Some p) symbol flt st w = Some (b, st', w')"
  shows "adds (tr_sessions st p) (tr_sessions st' p)"
proof -
  obtain b1 st1 w1 where 1: "zt_trace_ensure_stopped os (Some p) st w = Some (b1, st1, w1)"
    using r by (auto simp: zt_trace_install_active_probe_def bind_eq_Some_conv)
  note k = kept_stopped [OF 1]
  show ?thesis
  proof (cases b1)
    case False
    then show ?thesis using r 1 keeps_adds [OF k] by (simp add: zt_trace_install_active_probe_def)
  next
    case True
    then obtain b2 se rt w2 where 2: "zt_trace_install_probe A os (tr_sessions st1 p) (runtime st1) symbol flt w1 = Some (b2, se, rt, w2)"
      using r 1 by (auto simp: zt_trace_install_active_probe_def bind_eq_Some_conv)
    note a = keeps_adds_trans [OF k adds_install_probe [OF 2]]
    let ?st2 = "set_runtime rt (put_session p se st1)"
    show ?thesis
    proof (cases b2)
      case False
      then show ?thesis using r 1 2 True a by (auto simp: zt_trace_install_active_probe_def Let_def)
    next
      case b2: True
      then have 3: "zt_trace_ensure_running os (Some p) ?st2 w2 = (b, st', w')"
        using r 1 2 True by (simp add: zt_trace_install_active_probe_def Let_def)
      show ?thesis using adds_keeps_trans [OF a] kept_running [OF 3, of p] by simp
    qed
  qed
qed

lemma kept_exit_window: "zt_trace_mark_exit_window_if_needed os pid a st w = (b, st', w') \<Longrightarrow> tr_sessions st' = tr_sessions st"
  by (auto simp: zt_trace_mark_exit_window_if_needed_def split: prod.splits bool.splits)

lemma kept_exit_event:
  assumes "zt_trace_check_exit_event os st w = Some (r, st', w')"
  shows "kept p st st'"
proof (cases "at_session (g_active_trace st)")
  case None
  then show ?thesis using assms by (simp add: zt_trace_check_exit_event_def)
next
  case (Some q)
  show ?thesis
  proof (cases "at_state (g_active_trace st) = ZT_TRACE_RUNTIME_RUNNING")
    case False
    then show ?thesis using assms Some by (simp add: zt_trace_check_exit_event_def)
  next
    case True
    then obtain b x se w1 where 1: "zt_injector_poll_events os (tr_sessions st q) w = Some (b, x, se, w1)"
      using assms Some by (auto simp: zt_trace_check_exit_event_def bind_eq_Some_conv)
    obtain gone st2 w2 where 2: "zt_trace_mark_exit_window_if_needed os (se_pid se)
        (rt_remote_trace_buffer_addr (runtime (put_session q se st))) (put_session q se st) w1 = (gone, st2, w2)" by (metis prod_cases3)
    have "tr_sessions st' = tr_sessions (put_session q se st)"
      using assms Some True 1 2 kept_exit_window [OF 2]
      by (cases b; cases x) (auto simp: zt_trace_check_exit_event_def Let_def)
    then show ?thesis using kept_put [OF keeps_poll [OF 1], of p] by simp
  qed
qed

lemma kept_read_failure:
  assumes "zt_trace_handle_read_failure os pid a st w = Some (r, st', w')"
  shows "kept p st st'"
proof -
  obtain x st1 w1 where 1: "zt_trace_check_exit_event os st w = Some (x, st1, w1)"
    using assms by (auto simp: zt_trace_handle_read_failure_def bind_eq_Some_conv)
  obtain g st2 w2 where 2: "zt_trace_mark_exit_window_if_needed os pid a st1 w1 = (g, st2, w2)" by (metis prod_cases3)
  have "tr_sessions st' = tr_sessions st1"
    using assms 1 2 kept_exit_window [OF 2] by (auto simp: zt_trace_handle_read_failure_def split: if_splits)
  then show ?thesis using kept_exit_event [OF 1, of p] by simp
qed

lemma kept_poll:
  assumes r: "zt_trace_poll os st w = Some (x, st', w')"
  shows "kept p st st'"
proof (cases "at_state (g_active_trace st) = ZT_TRACE_RUNTIME_RUNNING")
  case False
  then show ?thesis using r by (auto simp: zt_trace_poll_def split: if_splits)
next
  case True
  then obtain e st1 w1 where 1: "zt_trace_check_exit_event os st w = Some (e, st1, w1)"
    using r by (auto simp: zt_trace_poll_def bind_eq_Some_conv)
  note k = kept_exit_event [OF 1, of p]
  consider "tr_sessions st' = tr_sessions st1"
    | st2 pid a w2 where "tr_sessions st2 = tr_sessions st1" "zt_trace_handle_read_failure os pid a st2 w2 = Some (x, st', w')"
  proof (cases "e = 0 \<and> at_state (g_active_trace st1) = ZT_TRACE_RUNTIME_RUNNING")
    case False
    then have "st' = st1" using r True 1 by (auto simp: zt_trace_poll_def split: if_splits)
    then show thesis using that(1) by simp
  next
    case go: True
    then obtain q where q: "at_session (g_active_trace st1) = Some q"
      using r True 1 by (auto simp: zt_trace_poll_def split: option.splits)
    let ?tr = "g_active_trace st1" and ?se = "tr_sessions st1 q"
    obtain b ls log w2 where 2: "zt_dump_trace_events_since os (tr_sigconf st1) (at_call_symbols ?tr) ?se
        (rt_remote_trace_buffer_addr (runtime st1)) (at_last_seq ?tr) (tr_log st1) (tr_snapshot st1) w1 = Some ((b, ls, log), w2)"
      using r True 1 go q by (auto simp: zt_trace_poll_def bind_eq_Some_conv Let_def)
    let ?st2 = "upd_active (\<lambda>t. t\<lparr>at_last_seq := ls\<rparr>) (st1\<lparr>tr_log := log\<rparr>)"
    have "if b then st' = ?st2 else zt_trace_handle_read_failure os (se_pid ?se) (rt_remote_trace_buffer_addr (runtime st1)) ?st2 w2 =
        Some (x, st', w')"
      using r True 1 go q 2 by (cases b) (simp_all add: zt_trace_poll_def Let_def)
    then show thesis using that(1) that(2) [of ?st2] by (cases b) simp_all
  qed
  then show ?thesis
  proof cases
    case 1
    then show ?thesis using k by simp
  next
    case 2
    from keeps_trans [OF k kept_read_failure [OF 2(2), of p, unfolded 2(1)]] show ?thesis .
  qed
qed

lemma kept_filter: "zt_trace_update_probe_filter session x flt st = (b, st') \<Longrightarrow> kept p st st'"
  by (auto simp: zt_trace_update_probe_filter_def Let_def intro!: kept_put keeps_upd mild_filter split: if_splits option.splits)

lemma kept_clear_call:
  assumes "zt_trace_clear_probe_call_action os (Some p) x st w = (b, st', w')"
  shows "kept p st st'"
  using assms
proof (cases rule: clear_call_action)
  case (cleared i s)
  show ?thesis unfolding cleared(2) by (rule keeps_upd) (simp add: mild_def zero_action_def)
qed simp

lemma kept_update_call:
  assumes r: "zt_trace_update_probe_call_action_args os (Some p) x callee args n st w = (b, st', w')"
  shows "kept p st st'"
  unfolding keeps_def sess_ok_def
proof (intro impI; elim conjE)
  assume ok: "threads_ok (tr_sessions st p)" "probes_ok (tr_sessions st p)" "calls_ok (tr_sessions st p)"
  have l: "length (se_probes (tr_sessions st p)) = ZT_PROBES_CAPACITY" using ok(3) by (simp add: calls_ok_def)
  have "threads_ok (tr_sessions st' p) \<and> probes_ok (tr_sessions st' p) \<and>
      se_next_probe_id (tr_sessions st' p) = se_next_probe_id (tr_sessions st p)"
    using l r
  proof (cases rule: update_call_action)
    case (new i s e a c y)
    show ?thesis unfolding new(6) using ok(1,2) by (simp add: threads_ok_upd_probe probes_ok_upd)
  qed (use ok in simp)
  then show "(threads_ok (tr_sessions st' p) \<and> probes_ok (tr_sessions st' p) \<and> calls_ok (tr_sessions st' p)) \<and>
      se_next_probe_id (tr_sessions st' p) = se_next_probe_id (tr_sessions st p)"
    using update_keeps_calls_ok(1) [OF ok(3) r] by simp
qed

lemma kept_disable:
  assumes r: "zt_trace_disable_probe A os (Some p) x st w = Some (b, st', w')"
  shows "kept p st st'"
proof (cases "x = 0 \<or> \<not> zt_trace_session_is_active (Some p) st \<or>
    (case zt_probe_find_by_id (tr_sessions st p) x of None \<Rightarrow> True | Some i \<Rightarrow> pi_state (se_probes (tr_sessions st p) ! i) \<noteq> ZT_PROBE_INSTALLED)")
  case True
  then show ?thesis using r by (auto simp: zt_trace_disable_probe_def Let_def split: if_splits option.splits)
next
  case False
  then obtain b1 st1 w1 where 1: "zt_trace_ensure_stopped os (Some p) st w = Some (b1, st1, w1)"
    using r by (auto simp: zt_trace_disable_probe_def Let_def bind_eq_Some_conv split: option.splits)
  note k1 = kept_stopped [OF 1, of p]
  show ?thesis
  proof (cases b1)
    case b1: False
    then show ?thesis using r False 1 k1 by (auto simp: zt_trace_disable_probe_def Let_def split: option.splits)
  next
    case b1: True
    obtain b2 se2 w2 where 2: "zt_uninstall_probe_patch A os (tr_sessions st1 p) x w1 = Some (b2, se2, w2)"
      using r False 1 b1 by (auto simp: zt_trace_disable_probe_def Let_def bind_eq_Some_conv split: option.splits)
    note k2 = keeps_trans [OF k1 kept_put [OF keeps_uninstall [OF 2], of p]]
    have "st' = put_session p se2 st1 \<or> zt_trace_ensure_running os (Some p) (put_session p se2 st1) w2 = (b, st', w')"
      using r False 1 b1 2 by (cases b2) (auto simp: zt_trace_disable_probe_def Let_def split: option.splits)
    then show ?thesis using k2 keeps_trans [OF k2] kept_running [of os "Some p" "put_session p se2 st1" w2 b st' w' p] by auto
  qed
qed

lemma keeps_stop_each:
  "zt_stop_each A os is ok se pool w = Some (ok', se', pool', w') \<Longrightarrow> keeps se se'"
proof (induction "is" arbitrary: ok se pool w)
  case (Cons i "is")
  let ?p = "se_probes se ! i"
  show ?case
  proof (cases "pi_probe_id ?p = 0")
    case True
    then show ?thesis using Cons by simp
  next
    case False
    let ?un = "if pi_state ?p = ZT_PROBE_INSTALLED
           then do { (b, se1, w1) \<leftarrow> zt_uninstall_probe_patch A os se (pi_probe_id ?p) w; Some (ok \<and> b, se1, w1) }
           else Some (ok, se, w)"
    obtain ok1 se1 w1 where 1: "?un = Some (ok1, se1, w1)"
      using Cons.prems False by (cases ?un) (auto simp: Let_def bind_eq_Some_conv)
    have k1: "keeps se se1" using 1 by (auto simp: bind_eq_Some_conv dest: keeps_uninstall split: if_splits)
    obtain pool1 q w2 where 2: "zt_trampoline_pool_release A os (se_pid se1) pool (se_probes se1 ! i) w1 = Some ((pool1, q), w2)"
      using Cons.prems False 1 by (auto simp: Let_def bind_eq_Some_conv)
    let ?se2 = "upd_probe i (\<lambda>_. q) se1"
    have 3: "zt_stop_each A os is ok1 (snd (zt_unregister_probe ?se2 (pi_probe_id q))) pool1 w2 = Some (ok', se', pool', w')"
      using Cons.prems False 1 2 by (simp add: Let_def)
    have u: "keeps ?se2 (snd (zt_unregister_probe ?se2 (pi_probe_id q)))" by (rule keeps_unregister [OF surjective_pairing])
    show ?thesis by (rule keeps_trans [OF keeps_trans [OF k1 keeps_trans [OF keeps_const [OF release_step [OF 2]] u]] Cons.IH [OF 3]])
  qed
qed simp

lemma kept_stop:
  assumes r: "zt_trace_stop A os st w = Some (b, st', w')"
  shows "kept p st st'"
proof (cases "at_state (g_active_trace st) = ZT_TRACE_RUNTIME_INACTIVE")
  case True
  then show ?thesis using r by (simp add: zt_trace_stop_def)
next
  case False
  then obtain b1 st1 w1 where 1: "zt_trace_ensure_stopped os (at_session (g_active_trace st)) st w = Some (b1, st1, w1)"
    using r by (auto simp: zt_trace_stop_def bind_eq_Some_conv)
  note k1 = kept_stopped [OF 1, of p]
  show ?thesis
  proof (cases b1)
    case b1: False
    then show ?thesis using r False 1 k1 by (simp add: zt_trace_stop_def)
  next
    case b1: True
    let ?q = "the (at_session (g_active_trace st1))" and ?rt = "runtime st1"
    obtain ok se pool w2 where 2: "zt_stop_each A os [0..<ZT_PROBES_CAPACITY] True (tr_sessions st1 ?q) (rt_trampoline_pool ?rt) w1 = Some (ok, se, pool, w2)"
      using r False 1 b1 by (auto simp: zt_trace_stop_def Let_def bind_eq_Some_conv)
    have "tr_sessions st' = tr_sessions (put_session ?q se st1)"
      using r False 1 b1 2 by (auto simp: zt_trace_stop_def Let_def bind_eq_Some_conv)
    then show ?thesis using keeps_trans [OF k1 kept_put [OF keeps_stop_each [OF 2], of p]] by simp
  qed
qed

lemma adds_start:
  assumes r: "zt_trace_start_filtered_in_session A os hf (Some p) (Some sname) (Some path) flt st w = Some (b, st', w')"
  shows "adds (tr_sessions st p) (tr_sessions st' p)"
proof (cases "at_state (g_active_trace st) = ZT_TRACE_RUNTIME_INACTIVE \<and> hf_log_opens hf path")
  case False
  then have "st' = st \<or> zt_trace_install_active_probe A os (Some p) sname flt st w = Some (b, st', w')"
    using r by (auto simp: zt_trace_start_filtered_in_session_def split: if_splits)
  then show ?thesis using adds_install_active [of A os p sname flt st w b st' w'] by auto
next
  case new: True
  define st2 where "st2 = zt_trace_reset_active False (st\<lparr>tr_log := (tr_log st)\<lparr>ls_out := []\<rparr>,
    tr_sigconf := snd (zt_sigconf_load_default (hf_sigconf hf) (tr_sigconf st))\<rparr>)"
  let ?se = "tr_sessions st2 p"
  have s2: "?se = tr_sessions st p" by (simp add: st2_def)
  obtain b3 rt3 w3 where 3: "zt_setup_remote_payload A os (hf_payload_path hf) ?se (runtime st2) w = Some (b3, rt3, w3)"
    using r new unfolding st2_def by (auto simp: zt_trace_start_filtered_in_session_def Let_def bind_eq_Some_conv)
  note r1 = r [unfolded zt_trace_start_filtered_in_session_def Let_def, folded st2_def, simplified]
  show ?thesis
  proof (cases b3)
    case False
    then have "tr_sessions st' = tr_sessions st2"
      using r1 new 3 by (auto simp: bind_eq_Some_conv)
    then show ?thesis using s2 by simp
  next
    case b3: True
    obtain b4 se4 rt4 w4 where 4: "zt_trace_install_probe A os ?se rt3 sname flt w3 = Some (b4, se4, rt4, w4)"
      using r1 new 3 b3 by (auto simp: bind_eq_Some_conv)
    note a = adds_install_probe [OF 4, unfolded s2]
    let ?st5 = "upd_active (\<lambda>t. t\<lparr>at_session := Some p, at_state := ZT_TRACE_RUNTIME_STOPPED\<rparr>) (set_runtime rt4 (put_session p se4 st2))"
    show ?thesis
    proof (cases b4)
      case False
      then have "tr_sessions st' p = se4" using r1 new 3 b3 4 by (auto simp: bind_eq_Some_conv)
      then show ?thesis using a by simp
    next
      case b4: True
      obtain b6 st6 w6 where 6: "zt_trace_ensure_running os (Some p) ?st5 w4 = (b6, st6, w6)" by (metis prod_cases3)
      have k: "adds (tr_sessions st p) (tr_sessions st6 p)" using adds_keeps_trans [OF a] kept_running [OF 6, of p] by simp
      show ?thesis
      proof (cases b6)
        case True
        then show ?thesis using r1 new 3 b3 4 b4 6 k by simp
      next
        case False
        then obtain b7 w7 where "zt_trace_stop A os st6 w6 = Some (b7, st', w7)"
          using r1 new 3 b3 4 b4 6 by (auto simp: bind_eq_Some_conv)
        from adds_keeps_trans [OF k kept_stop [OF this, of p]] show ?thesis .
      qed
    qed
  qed
qed

lemma adds_enable_probe:
  "zt_trace_enable_probe A os (Some p) x st w = Some (b, st', w') \<Longrightarrow> adds (tr_sessions st p) (tr_sessions st' p)"
  by (auto simp: zt_trace_enable_probe_def Let_def dest: adds_install_active split: if_splits option.splits)

lemma kept_remove:
  assumes r: "zt_trace_remove_probe A os (Some p) x st w = Some (b, st', w')"
  shows "kept p st st'"
proof (cases "x = 0 \<or> zt_probe_find_by_id (tr_sessions st p) x = None \<or>
    at_state (g_active_trace st) = ZT_TRACE_RUNTIME_INACTIVE \<or> \<not> zt_trace_session_is_active (Some p) st")
  case True
  then have "st' = st \<or> (\<exists>b se. zt_unregister_probe (tr_sessions st p) x = (b, se) \<and> st' = put_session p se st)"
    using r by (auto simp: zt_trace_remove_probe_def split: if_splits option.splits prod.splits)
  then show ?thesis using keeps_unregister [of "tr_sessions st p" x] by auto
next
  case act: False
  then obtain i where i: "zt_probe_find_by_id (tr_sessions st p) x = Some i" by auto
  note r1 = r [unfolded zt_trace_remove_probe_def option.case i Let_def]
  obtain b1 st1 w1 where 1: "zt_trace_ensure_stopped os (Some p) st w = Some (b1, st1, w1)"
    using r1 act by (auto simp: bind_eq_Some_conv)
  note k1 = kept_stopped [OF 1, of p]
  show ?thesis
  proof (cases b1)
    case False
    then show ?thesis using r1 act 1 k1 by auto
  next
    case b1: True
    let ?un = "if pi_state (se_probes (tr_sessions st1 p) ! i) = ZT_PROBE_INSTALLED
       then zt_uninstall_probe_patch A os (tr_sessions st1 p) x w1 else Some (True, tr_sessions st1 p, w1)"
    obtain b2 se2 w2 where 2: "?un = Some (b2, se2, w2)"
      using r1 act 1 b1 by (cases ?un) (auto simp: bind_eq_Some_conv)
    have "keeps (tr_sessions st1 p) se2" using 2 by (auto dest: keeps_uninstall split: if_splits)
    note k2 = keeps_trans [OF k1 this]
    let ?st2 = "put_session p se2 st1"
    show ?thesis
    proof (cases b2)
      case False
      then show ?thesis using r1 act 1 b1 2 k2 by auto
    next
      case b2: True
      let ?cl = "if act_enabled (pi_call_action (se_probes se2 ! i)) \<noteq> 0
         then zt_trace_clear_probe_call_action os (Some p) x ?st2 w2 else (True, ?st2, w2)"
      obtain b3 st3 w3 where 3: "?cl = (b3, st3, w3)" by (rule prod_cases3)
      have "kept p ?st2 st3" using 3 by (auto dest: kept_clear_call split: if_splits)
      then have k3: "kept p st st3" using keeps_trans [OF k2] by simp
      let ?se3 = "tr_sessions st3 p"
      obtain pool q w4 where 4: "zt_trampoline_pool_release A os (se_pid ?se3) (rt_trampoline_pool (runtime st3)) (se_probes ?se3 ! i) w3 =
          Some ((pool, q), w4)"
        using r1 act 1 b1 2 b2 3 by (auto simp: bind_eq_Some_conv)
      let ?se4 = "upd_probe i (\<lambda>_. q) ?se3" and ?rt4 = "(runtime st3)\<lparr>rt_trampoline_pool := pool\<rparr>"
      obtain b5 se5 where 5: "zt_unregister_probe ?se4 x = (b5, se5)" by fastforce
      note k5 = keeps_trans [OF k3 keeps_trans [OF keeps_const [OF release_step [OF 4]] keeps_unregister [OF 5]]]
      let ?st5 = "put_session p se5 (set_runtime ?rt4 st3)"
      have "tr_sessions st' p = se5 \<or> zt_trace_ensure_running os (Some p) ?st5 w4 = (b, st', w')"
        using r1 act 1 b1 2 b2 3 4 5 by (auto simp: bind_eq_Some_conv split: if_splits)
      then show ?thesis using k5 keeps_trans [OF k5] kept_running [of os "Some p" ?st5 w4 b st' w' p] by auto
    qed
  qed
qed

section \<open>Attaching and detaching\<close>

lemma zero_ok: "sess_ok zero_session"
  by (simp add: sess_ok_def threads_ok_def probes_ok_def calls_ok_def zero_session_def zero_probe_def cong: conj_cong)

lemma detach_zero: "zt_injector_detach os se w = Some (se', w') \<Longrightarrow> se' = zero_session"
  by (auto simp: zt_injector_detach_def bind_eq_Some_conv split: if_splits)

lemma attach_ok:
  assumes r: "zt_injector_attach os pid w = Some (b, se, w')"
  shows "sess_ok se" and "b \<Longrightarrow> se_next_probe_id se = 1"
proof -
  let ?s0 = "zero_session\<lparr>se_pid := pid, se_next_probe_id := 1\<rparr>"
  have ok0: "sess_ok ?s0"
    by (simp add: sess_ok_def threads_ok_def probes_ok_def calls_ok_def zero_session_def zero_probe_def cong: conj_cong)
  obtain b1 se1 w1 where 1: "zt_injector_refresh_threads os ?s0 w = (b1, se1, w1)" by (metis prod_cases3)
  have k1: "keeps ?s0 se1"
    by (rule keeps_threads) (use refresh(1) [OF _ 1] se_restD [of se1 ?s0] in \<open>auto simp: grows_def\<close>)
  have "\<not> b \<and> se = zero_session \<or> (\<exists>se2 w2 path pie base. zt_injector_interrupt_all os se1 w1 = Some (True, se2, w2) \<and>
      se = se2\<lparr>se_exe_path := path, se_is_pie := pie, se_image_base := base\<rparr>)"
  proof (cases "b1 \<and> (\<exists>se2 w2. zt_injector_interrupt_all os se1 w1 = Some (True, se2, w2))")
    case False
    then show ?thesis
      using r 1 by (auto simp: zt_injector_attach_def Let_def bind_eq_Some_conv dest: detach_zero split: bool.splits if_splits)
  next
    case True
    then obtain se2 w2 where 2: "b1" "zt_injector_interrupt_all os se1 w1 = Some (True, se2, w2)" by blast
    then show ?thesis
      using r 1 by (auto simp: zt_injector_attach_def Let_def bind_eq_Some_conv dest: detach_zero
        split: if_splits option.splits prod.splits sum.splits)
  qed
  moreover have "sess_ok (s\<lparr>se_exe_path := path, se_is_pie := pie, se_image_base := base\<rparr>)" if "sess_ok s" for s path pie base
    using that by (simp add: sess_ok_def threads_ok_def probes_ok_def calls_ok_def)
  moreover have "sess_ok s \<and> se_next_probe_id s = 1" if "zt_injector_interrupt_all os se1 w1 = Some (True, s, w2)" for s w2
    using keeps_trans [OF k1 keeps_interrupt [OF that]] ok0 by (simp add: keeps_def)
  ultimately show "sess_ok se" and "b \<Longrightarrow> se_next_probe_id se = 1" using zero_ok by fastforce+
qed

end
