(* ===== verification/ZT_CliProps.thy ===== *)
theory ZT_CliProps
  imports ZT_Cli ZT_SessionInv
begin

text \<open>
  Properties of the interactive shell: how a line is split, what the commands do without a
  target, and the invariant of the session over every run of the main loop.
\<close>

section \<open>Words of a line\<close>

abbreviation blank :: char where "blank \<equiv> CHR '' ''"

function line_words :: "string \<Rightarrow> string list" where
  "line_words s =
     (let r = dropWhile (\<lambda>ch. ch = blank) s in
      if r = [] then [] else takeWhile (\<lambda>ch. ch \<noteq> blank) r # line_words (dropWhile (\<lambda>ch. ch \<noteq> blank) r))"
  by pat_completeness auto
termination
proof (relation "measure length")
  fix s r :: string
  assume r: "r = dropWhile (\<lambda>ch. ch = blank) s" and ne: "r \<noteq> []"
  have "hd r \<noteq> blank" using ne unfolding r by (rule hd_dropWhile)
  then have "length (dropWhile (\<lambda>ch. ch \<noteq> blank) r) < length r"
    using ne length_dropWhile_le [of "\<lambda>ch. ch \<noteq> blank" "tl r"] by (cases r) auto
  also have "length r \<le> length s" unfolding r by (rule length_dropWhile_le)
  finally show "(dropWhile (\<lambda>ch. ch \<noteq> blank) r, s) \<in> measure length" by simp
qed simp

declare line_words.simps [simp del]

lemma line_words_Nil [simp]: "line_words [] = []"
  by (simp add: line_words.simps)

lemma line_words_blank: "line_words (blank # s) = line_words s"
  by (subst (1 2) line_words.simps) simp

text \<open>A scan takes the first word off the rest of the line.\<close>

lemma strtok_words:
  assumes t: "strtok [blank] str buf saved = (t, buf', saved')"
    and s: "s = (case str of Some p \<Rightarrow> p | None \<Rightarrow> saved)"
  shows "(case line_words (cstr buf s) of [] \<Rightarrow> t = None \<and> line_words (cstr buf' saved') = []
     | x # xs \<Rightarrow> t = Some x \<and> line_words (cstr buf' saved') = xs)"
proof -
  define p where "p = s + length (takeWhile (\<lambda>ch. ch = blank) (cstr buf s))"
  define r where "r = cstr buf p"
  define e where "e = p + length (takeWhile (\<lambda>ch. ch \<noteq> blank) r)"
  define d where "d = cstr buf e"
  have r: "r = dropWhile (\<lambda>ch. ch = blank) (cstr buf s)"
    unfolding r_def p_def cstr_skip ..
  have d: "d = dropWhile (\<lambda>ch. ch \<noteq> blank) r"
    unfolding d_def e_def r_def cstr_skip ..
  have sb: "(ch \<in> set [blank]) = (ch = blank)" for ch by simp
  have T: "(if r = [] then (None, buf, p) else if d = [] then (Some (takeWhile (\<lambda>ch. ch \<noteq> blank) r), buf, e)
      else (Some (takeWhile (\<lambda>ch. ch \<noteq> blank) r), buf[e := NUL], Suc e)) = (t, buf', saved')"
    using t unfolding strtok_def Let_def sb s [symmetric] p_def [symmetric] r_def [symmetric] e_def [symmetric] d_def [symmetric] .
  have w: "line_words (cstr buf s) = (if r = [] then [] else takeWhile (\<lambda>ch. ch \<noteq> blank) r # line_words d)"
    unfolding d r by (subst line_words.simps) (simp only: Let_def)
  have tail: "line_words (cstr (buf[e := NUL]) (Suc e)) = line_words d" if ne: "d \<noteq> []"
  proof -
    have "\<not> hd d \<noteq> blank" using ne unfolding d by (rule hd_dropWhile)
    then obtain ds where ds: "d = blank # ds" using ne by (cases d) auto
    have "cstr (buf[e := NUL]) (Suc e) = cstr buf (e + 1)" by (simp add: cstr_def)
    also have "\<dots> = ds" using cstr_shift [of 1 buf e] unfolding d_def [symmetric] ds by simp
    finally show ?thesis by (simp add: ds line_words_blank)
  qed
  consider "r = []" | "r \<noteq> []" "d = []" | "r \<noteq> []" "d \<noteq> []" by blast
  then show ?thesis
  proof cases
    case 1
    with T have "t = None" "cstr buf' saved' = r" by (auto simp: r_def)
    with 1 w show ?thesis by simp
  next
    case 2
    with T have "t = Some (takeWhile (\<lambda>ch. ch \<noteq> blank) r)" "cstr buf' saved' = d" by (auto simp: d_def)
    with 2 w show ?thesis by simp
  next
    case 3
    with T have "t = Some (takeWhile (\<lambda>ch. ch \<noteq> blank) r)" "buf' = buf[e := NUL]" "saved' = Suc e" by auto
    with 3 w tail show ?thesis by simp
  qed
qed

text \<open>The words the handlers get from \<open>n\<close> further calls.\<close>

fun next_args :: "nat \<Rightarrow> cli \<Rightarrow> string option list" where
  "next_args 0 c = []"
| "next_args (Suc n) c = (case zt_next_arg None c of (t, c1) \<Rightarrow> t # next_args n c1)"

lemma next_args_words:
  "line_words (cstr (cl_line c) (cl_saved c)) = ws \<Longrightarrow>
   next_args n c = map Some (take n ws) @ replicate (n - length ws) None"
proof (induction n arbitrary: c ws)
  case (Suc n)
  obtain t buf saved where t: "strtok [blank] None (cl_line c) (cl_saved c) = (t, buf, saved)" by (rule prod_cases3)
  then have a: "zt_next_arg None c = (t, c\<lparr>cl_line := buf, cl_saved := saved\<rparr>)"
    by (simp add: zt_next_arg_def cli_strtok_def)
  have "case ws of [] \<Rightarrow> t = None \<and> line_words (cstr buf saved) = [] | x # xs \<Rightarrow> t = Some x \<and> line_words (cstr buf saved) = xs"
    using strtok_words [OF t refl] Suc.prems by simp
  then show ?case using Suc.IH [of "c\<lparr>cl_line := buf, cl_saved := saved\<rparr>" "tl ws"] by (cases ws) (auto simp: a)
qed simp

lemma cstr_line: "NUL \<notin> set input \<Longrightarrow> cstr (input @ [NUL]) 0 = input"
  by (induction input) (auto simp: cstr_def)

text \<open>The first scan of a line.\<close>

lemma first_word:
  assumes "NUL \<notin> set input"
  obtains t buf saved where "zt_next_arg (Some 0) (c\<lparr>cl_line := input @ [NUL]\<rparr>) = (t, c\<lparr>cl_line := buf, cl_saved := saved\<rparr>)"
    and "case line_words input of [] \<Rightarrow> t = None \<and> line_words (cstr buf saved) = []
      | x # xs \<Rightarrow> t = Some x \<and> line_words (cstr buf saved) = xs"
proof -
  obtain t buf saved where t: "strtok [blank] (Some 0) (input @ [NUL]) (cl_saved c) = (t, buf, saved)" by (rule prod_cases3)
  show thesis
    using strtok_words [OF t refl] t by (intro that) (simp_all add: cstr_line [OF assms] zt_next_arg_def cli_strtok_def)
qed

lemma cstr_beyond: "p < length buf \<Longrightarrow> buf ! p = NUL \<Longrightarrow> cstr buf p = []"
  by (simp add: cstr_def Cons_nth_drop_Suc [symmetric])

text \<open>Without blanks in front, the pointer after the first word is at the end of that word.\<close>

lemma cut_at_word:
  assumes n: "NUL \<notin> set input" and h: "input \<noteq> []" "hd input \<noteq> blank"
    and c1: "zt_next_arg (Some 0) (c\<lparr>cl_line := input @ [NUL]\<rparr>) = (Some cmd, c1)"
  shows "cstr (cl_line c1) (length cmd) = []"
proof -
  define e where "e = length (takeWhile (\<lambda>ch. ch \<noteq> blank) input)"
  have c0: "cstr (input @ [NUL]) 0 = input" by (rule cstr_line [OF n])
  have t0: "takeWhile (\<lambda>ch. ch = blank) input = []" using h by (cases input) auto
  have sb: "(ch \<in> set [blank]) = (ch = blank)" for ch by simp
  have le: "e \<le> length input" unfolding e_def by (rule length_takeWhile_le)
  have T: "strtok [blank] (Some 0) (input @ [NUL]) (cl_saved c) =
      (if cstr (input @ [NUL]) e = [] then (Some (takeWhile (\<lambda>ch. ch \<noteq> blank) input), input @ [NUL], e)
       else (Some (takeWhile (\<lambda>ch. ch \<noteq> blank) input), (input @ [NUL])[e := NUL], Suc e))"
    unfolding strtok_def Let_def sb option.case c0 t0 by (simp add: c0 h e_def)
  then have cmd: "length cmd = e" and l: "cl_line c1 = (if cstr (input @ [NUL]) e = [] then input @ [NUL] else (input @ [NUL])[e := NUL])"
    using c1 by (auto simp: zt_next_arg_def cli_strtok_def e_def split: if_splits)
  show ?thesis
  proof (cases "cstr (input @ [NUL]) e = []")
    case False
    then show ?thesis using le by (simp add: cmd l cstr_beyond)
  qed (simp add: cmd l)
qed

section \<open>Without a target\<close>

lemma say_simps [simp]:
  "cl_trace (sayln s c) = cl_trace c" "g_cli_attached (sayln s c) = g_cli_attached c" "cl_line (sayln s c) = cl_line c"
  "cl_saved (sayln s c) = cl_saved c"
  by (simp_all add: sayln_def say_def)

lemma zt_next_arg_simps:
  assumes "zt_next_arg args c = (t, c1)"
  shows "cl_trace c1 = cl_trace c" "g_cli_attached c1 = g_cli_attached c"
  using assms by (auto simp: zt_next_arg_def cli_strtok_def split: prod.splits)

lemma fold_say_simps:
  "cl_trace (fold (\<lambda>x. sayln (f x)) xs c) = cl_trace c" "g_cli_attached (fold (\<lambda>x. sayln (f x)) xs c) = g_cli_attached c"
  by (induction xs arbitrary: c) simp_all

lemma cmd_help_keeps: "cl_trace (cmd_help args c) = cl_trace c" "g_cli_attached (cmd_help args c) = g_cli_attached c"
  by (auto simp: cmd_help_def fold_say_simps zt_next_arg_simps split: prod.splits option.splits)

lemma unattached_handler:
  assumes "\<not> g_cli_attached c" and "h \<noteq> Cmd_attach"
  shows "\<exists>c'. zt_cli_call_handler A os ho h args c w = Some (c', w) \<and> cl_trace c' = cl_trace c \<and> \<not> g_cli_attached c'"
proof -
  have r: "zt_cli_require_attached c = (False, sayln ''No target attached'' c)"
    using assms(1) by (simp add: zt_cli_require_attached_def)
  then have "zt_cli_require_active_trace c = (False, sayln ''No target attached'' c)"
    by (simp add: zt_cli_require_active_trace_def)
  with r assms show ?thesis
    by (cases h) (simp_all add: zt_cli_call_handler_def cmd_help_keeps cmd_exit_def cmd_detach_def cmd_trace_def cmd_stop_def
      cmd_enable_def cmd_disable_def cmd_update_def cmd_untrace_def cmd_info_def cmd_continue_def)
qed

lemma table_find:
  assumes "list_all P cmd_table" and "List.find (\<lambda>e. cmd_name e = cmd) cmd_table = Some e"
  shows "P e" and "cmd_name e = cmd"
  using assms by (auto simp: find_Some_iff list_all_length)

lemma table_attach: "list_all (\<lambda>e. (cmd_handler e = Cmd_attach) = (cmd_name e = ''attach'')) cmd_table"
  by code_simp

lemma table_exit: "list_all (\<lambda>e. (cmd_handler e = Cmd_exit) = (cmd_name e = ''exit'' \<or> cmd_name e = ''quit'')) cmd_table"
  by code_simp

lemmas cmd_table_attach = table_find [OF table_attach]
lemmas cmd_table_exit = table_find [OF table_exit]

section \<open>The session over a run of the shell\<close>

text \<open>What the commands do to the session: keep it, or add a probe to it while attached.\<close>

definition quiet :: "cli \<Rightarrow> cli \<Rightarrow> bool" where
  "quiet c c' \<longleftrightarrow> keeps (g_cli_session c) (g_cli_session c') \<and> g_cli_attached c' = g_cli_attached c"

definition extends :: "cli \<Rightarrow> cli \<Rightarrow> bool" where
  "extends c c' \<longleftrightarrow> (if g_cli_attached c then adds (g_cli_session c) (g_cli_session c') else keeps (g_cli_session c) (g_cli_session c')) \<and>
     g_cli_attached c' = g_cli_attached c"

lemma quiet_same: "cl_trace c' = cl_trace c \<Longrightarrow> g_cli_attached c' = g_cli_attached c \<Longrightarrow> quiet c c'"
  by (simp add: quiet_def)

lemma quiet_trans: "quiet a b \<Longrightarrow> quiet b c \<Longrightarrow> quiet a c"
  unfolding quiet_def using keeps_trans by metis

lemma quiet_say [simp]: "quiet c (sayln s c') = quiet c c'" "extends c (sayln s c') = extends c c'"
  by (simp_all add: quiet_def extends_def)

lemma quiet_extends: "quiet c c' \<Longrightarrow> extends c c'"
  by (simp add: quiet_def extends_def keeps_adds)

lemma quiet_extends_trans: "quiet a b \<Longrightarrow> extends b c \<Longrightarrow> extends a c"
  unfolding quiet_def extends_def using keeps_adds_trans keeps_trans by metis

lemma set_session_simps [simp]:
  "g_cli_session (set_session se c) = se" "g_cli_attached (set_session se c) = g_cli_attached c"
  by (simp_all add: set_session_def upd_trace_def)

lemma quiet_next_arg: "zt_next_arg args c = (t, c1) \<Longrightarrow> quiet c c1"
  by (rule quiet_same) (simp_all add: zt_next_arg_simps)

lemma quiet_rest: "zt_cli_compile_remaining_filter c = (f, c1) \<Longrightarrow> quiet c c1"
  by (auto simp: zt_cli_compile_remaining_filter_def cli_strtok_def intro!: quiet_same split: prod.splits)

lemma quiet_trace_filter: "zt_cli_parse_trace_filter c = (f, c1) \<Longrightarrow> quiet c c1"
  by (auto simp: zt_cli_parse_trace_filter_def dest: quiet_next_arg quiet_rest intro: quiet_trans split: prod.splits option.splits if_splits)

lemma quiet_collect: "cli_collect_args as c = (r, c1) \<Longrightarrow> quiet c c1"
proof (induction as c arbitrary: r c1 rule: cli_collect_args.induct)
  case (1 as c)
  obtain t c2 where t: "zt_next_arg None c = (t, c2)" by fastforce
  note q = quiet_next_arg [OF t]
  show ?case
    using 1 t q quiet_trans [OF q]
    by (subst (asm) (2) cli_collect_args.simps) (auto split: option.splits if_splits)
qed

lemma quiet_probe_target: "zt_cli_require_probe_target target c = (r, c1) \<Longrightarrow> quiet c c1"
  by (auto simp: zt_cli_require_probe_target_def intro!: quiet_same split: option.splits)

lemma attached_cases:
  assumes "zt_cli_require_attached c = (b, c1)"
  shows "quiet c c1" and "b \<Longrightarrow> c1 = c \<and> g_cli_attached c"
  using assms by (auto simp: zt_cli_require_attached_def intro!: quiet_same split: if_splits)

lemma active_cases:
  assumes "zt_cli_require_active_trace c = (b, c1)"
  shows "quiet c c1" and "b \<Longrightarrow> c1 = c \<and> g_cli_attached c"
  using assms by (auto simp: zt_cli_require_active_trace_def zt_cli_require_attached_def intro!: quiet_same split: if_splits)

text \<open>Calls of the runner and the injector.\<close>

lemma quiet_set: "keeps (g_cli_session c) se \<Longrightarrow> quiet c (set_session se c)"
  by (simp add: quiet_def)

lemma quiet_put: "kept 0 (cl_trace c) st \<Longrightarrow> quiet c (c\<lparr>cl_trace := st\<rparr>)"
  by (simp add: quiet_def)

lemma quiet_stop_target: "zt_cli_stop_target os c w = Some (b, c', w') \<Longrightarrow> quiet c c'"
  by (auto simp: zt_cli_stop_target_def bind_eq_Some_conv intro: quiet_same intro!: quiet_set dest: keeps_interrupt split: if_splits)

lemma quiet_running:
  assumes "zt_cli_set_target_running os running c w = Some (b, c', w')"
  shows "quiet c c'"
proof -
  obtain se b1 w1 where e: "zt_injector_continue_all os (g_cli_session c) w = (b1, se, w1)" by (metis prod_cases3)
  show ?thesis
    using assms keeps_continue [OF e] e
    by (auto simp: zt_cli_set_target_running_def bind_eq_Some_conv zt_trace_resume_def zt_trace_pause_def intro!: quiet_put quiet_set
        dest: kept_running [of _ _ _ _ _ _ _ 0] kept_stopped [of _ _ _ _ _ _ _ 0] quiet_stop_target split: if_splits)
qed

text \<open>The commands that keep the session.\<close>

lemma quiet_help: "quiet c (cmd_help args c)"
  by (rule quiet_same) (simp_all add: cmd_help_keeps)

lemma quiet_fold: "(\<And>x c. quiet c (f x c)) \<Longrightarrow> quiet c (fold f xs c)"
proof (induction xs arbitrary: c)
  case (Cons x xs)
  show ?case using quiet_trans [OF Cons.prems Cons.IH [OF Cons.prems], of c x] by simp
qed (simp add: quiet_same)

lemma quiet_info_probe: "quiet c (cli_info_probe probe c)"
  by (auto simp: cli_info_probe_def Let_def intro: quiet_same)

lemma quiet_info_target: "quiet c (cli_info_target x c)"
  by (auto simp: cli_info_target_def Let_def intro: quiet_same)

lemma quiet_refl [simp]: "quiet c c"
  by (simp add: quiet_same)

lemma quiet_info: "quiet c (cmd_info args c)"
proof -
  obtain b c1 where 1: "zt_cli_require_attached c = (b, c1)" by fastforce
  obtain t c2 where 2: "zt_next_arg args c1 = (t, c2)" by fastforce
  note q = quiet_trans [OF attached_cases(1) [OF 1] quiet_next_arg [OF 2]]
  have "quiet c2 (fold cli_info_probe ps (sayln x (sayln y c2)))" for ps x y
    by (rule quiet_trans [OF _ quiet_fold [OF quiet_info_probe]]) simp
  then show ?thesis
    using 1 2 attached_cases(1) [OF 1] q quiet_trans [OF q]
    by (auto simp: cmd_info_def quiet_info_target split: bool.splits option.splits)
qed

lemma quiet_stop: "cmd_stop os c w = Some (c', w') \<Longrightarrow> quiet c c'"
  by (auto simp: cmd_stop_def bind_eq_Some_conv Let_def intro: attached_cases(1) quiet_trans [OF attached_cases(1) quiet_running]
      split: prod.splits bool.splits)

lemma quiet_continue: "cmd_continue os c w = Some (c', w') \<Longrightarrow> quiet c c'"
  by (auto simp: cmd_continue_def bind_eq_Some_conv Let_def intro: attached_cases(1) quiet_trans [OF attached_cases(1) quiet_running]
      split: prod.splits bool.splits)

lemma quiet_disable_each: "cli_disable_each A os is d f c w = Some (d', f', c', w') \<Longrightarrow> quiet c c'"
proof (induction "is" arbitrary: d f c w)
  case (Cons i "is")
  let ?p = "se_probes (g_cli_session c) ! i"
  show ?case
  proof (cases "pi_probe_id ?p = 0 \<or> pi_state ?p \<noteq> ZT_PROBE_INSTALLED")
    case True
    then show ?thesis using Cons by auto
  next
    case False
    then obtain b st w1 where 1: "zt_trace_disable_probe A os session_ptr (pi_probe_id ?p) (cl_trace c) w = Some (b, st, w1)"
      using Cons.prems by (auto simp: Let_def bind_eq_Some_conv)
    have q: "quiet c (c\<lparr>cl_trace := st\<rparr>)" by (rule quiet_put [OF kept_disable [OF 1]])
    obtain d1 f1 c1 where c1: "quiet c c1" and r: "cli_disable_each A os is d1 f1 c1 w1 = Some (d', f', c', w')"
    proof (cases b)
      case True
      then show thesis using Cons.prems False 1 q by (intro that [of "c\<lparr>cl_trace := st\<rparr>" "Suc d" f]) (auto simp: Let_def)
    next
      case b: False
      let ?c = "sayln (''Failed to disable probe '' @ tgt_symbol (pi_target (se_probes (tr_sessions st 0) ! i))) (c\<lparr>cl_trace := st\<rparr>)"
      show thesis using Cons.prems False b 1 q by (intro that [of ?c d "Suc f"]) (auto simp: Let_def)
    qed
    show ?thesis by (rule quiet_trans [OF c1 Cons.IH [OF r]])
  qed
qed simp

lemma quiet_disable:
  assumes r: "cmd_disable A os args c w = Some (c', w')"
  shows "quiet c c'"
proof -
  obtain b c1 where 1: "zt_cli_require_active_trace c = (b, c1)" by fastforce
  obtain t c2 where 2: "zt_next_arg args c1 = (t, c2)" by fastforce
  note q1 = active_cases(1) [OF 1] and q2 = quiet_trans [OF active_cases(1) [OF 1] quiet_next_arg [OF 2]]
  show ?thesis
  proof (cases "b \<and> t \<noteq> None")
    case False
    then show ?thesis using r 1 2 q1 q2 by (cases b) (auto simp: cmd_disable_def)
  next
    case True
    then obtain target where t: "t = Some target" and b: b by auto
    obtain r3 c3 where 3: "zt_cli_require_probe_target target c2 = (r3, c3)" by fastforce
    note q3 = quiet_trans [OF q2 quiet_probe_target [OF 3]]
    have one: "quiet c (c3\<lparr>cl_trace := st\<rparr>)" if "zt_trace_disable_probe A os session_ptr x (cl_trace c3) w = Some (b', st, w2)" for x b' st w2
      by (rule quiet_trans [OF q3 quiet_put [OF kept_disable [OF that]]])
    have all: "quiet c c4" if "cli_disable_each A os is m n c2 w = Some (d, f, c4, w4)" for "is" m n d f c4 w4
      by (rule quiet_trans [OF q2 quiet_disable_each [OF that]])
    show ?thesis
      using r 1 2 3 t b q2 q3
      by (auto simp: cmd_disable_def bind_eq_Some_conv Let_def dest!: one all split: if_splits option.splits)
  qed
qed

lemma quiet_untrace:
  assumes r: "cmd_untrace A os args c w = Some (c', w')"
  shows "quiet c c'"
proof -
  obtain b c1 where 1: "zt_cli_require_attached c = (b, c1)" by fastforce
  obtain t c2 where 2: "zt_next_arg args c1 = (t, c2)" by fastforce
  note q1 = attached_cases(1) [OF 1] and q2 = quiet_trans [OF attached_cases(1) [OF 1] quiet_next_arg [OF 2]]
  show ?thesis
  proof (cases "b \<and> t \<noteq> None")
    case False
    then show ?thesis using r 1 2 q1 q2 by (cases b) (auto simp: cmd_untrace_def)
  next
    case True
    then obtain target where t: "t = Some target" and b: b by auto
    obtain r3 c3 where 3: "zt_cli_require_probe_target target c2 = (r3, c3)" by fastforce
    note q3 = quiet_trans [OF q2 quiet_probe_target [OF 3]]
    have reset: "quiet c (zt_cli_reset_log_state c4) = quiet c c4" for c4 by (simp add: quiet_def zt_cli_reset_log_state_def)
    have rm: "quiet c (c3\<lparr>cl_trace := st\<rparr>)" if "zt_trace_remove_probe A os session_ptr x (cl_trace c3) w = Some (b', st, w2)" for x b' st w2
      by (rule quiet_trans [OF q3 quiet_put [OF kept_remove [OF that]]])
    show ?thesis
      using r 1 2 3 t b q2 q3
      by (auto simp: cmd_untrace_def bind_eq_Some_conv Let_def reset dest!: rm split: if_splits option.splits)
  qed
qed

lemma quiet_update_modes:
  "quiet c (cli_update_clear target x c)" "quiet c (cli_update_if target x c)" "quiet c (fst (cli_update_call os target x c w))"
proof -
  obtain t c1 where 1: "zt_next_arg None c = (t, c1)" by fastforce
  note q1 = quiet_next_arg [OF 1]
  obtain b st where f: "zt_trace_update_probe_filter session_ptr x None (cl_trace c1) = (b, st)" by fastforce
  have "quiet c (c1\<lparr>cl_trace := st\<rparr>)" by (rule quiet_trans [OF q1 quiet_put [OF kept_filter [OF f]]])
  then show "quiet c (cli_update_clear target x c)" using 1 q1 f by (auto simp: cli_update_clear_def split: option.splits)
next
  obtain g c1 where 1: "zt_cli_compile_remaining_filter c = (g, c1)" by fastforce
  note q1 = quiet_rest [OF 1]
  obtain b st where f: "zt_trace_update_probe_filter session_ptr x (Some (the g)) (cl_trace c1) = (b, st)" by fastforce
  have "quiet c (c1\<lparr>cl_trace := st\<rparr>)" by (rule quiet_trans [OF q1 quiet_put [OF kept_filter [OF f]]])
  then show "quiet c (cli_update_if target x c)" using 1 q1 f by (auto simp: cli_update_if_def split: option.splits)
next
  obtain t c1 where 1: "zt_next_arg None c = (t, c1)" by fastforce
  obtain as c2 where 2: "cli_collect_args [] c1 = (as, c2)" by fastforce
  note q1 = quiet_next_arg [OF 1] and q2 = quiet_trans [OF quiet_next_arg [OF 1] quiet_collect [OF 2]]
  obtain b st w1 where 3: "zt_trace_clear_probe_call_action os session_ptr x (cl_trace c2) w = (b, st, w1)" by (rule prod_cases3)
  obtain b' st' w1' where 4: "zt_trace_update_probe_call_action_args os session_ptr x (Some (the t))
      (if the as = [] then None else Some (the as)) (of_nat (length (the as))) (cl_trace c2) w = (b', st', w1')" by (rule prod_cases3)
  have "quiet c (c2\<lparr>cl_trace := st\<rparr>)" "quiet c (c2\<lparr>cl_trace := st'\<rparr>)"
    by (rule quiet_trans [OF q2 quiet_put [OF kept_clear_call [OF 3]]], rule quiet_trans [OF q2 quiet_put [OF kept_update_call [OF 4]]])
  then show "quiet c (fst (cli_update_call os target x c w))"
    using 1 2 3 4 q1 q2 by (auto simp: cli_update_call_def split: option.splits if_splits)
qed

lemma quiet_update: "quiet c (fst (cmd_update os args c w))"
proof -
  obtain b c1 where 1: "zt_cli_require_active_trace c = (b, c1)" by fastforce
  obtain t c2 where 2: "zt_next_arg args c1 = (t, c2)" by fastforce
  obtain m c3 where 3: "zt_next_arg None c2 = (m, c3)" by fastforce
  note q1 = active_cases(1) [OF 1]
  note q3 = quiet_trans [OF q1 quiet_trans [OF quiet_next_arg [OF 2] quiet_next_arg [OF 3]]]
  obtain r c4 where 4: "zt_cli_require_probe_target (the t) c3 = (r, c4)" by fastforce
  note q4 = quiet_trans [OF q3 quiet_probe_target [OF 4]]
  show ?thesis
  proof (cases "b \<and> t \<noteq> None \<and> m \<noteq> None")
    case False
    then show ?thesis using 1 2 3 q1 q3 by (cases b) (auto simp: cmd_update_def split: option.splits)
  next
    case True
    then obtain target mode where t: "t = Some target" "m = Some mode" and b: b by auto
    have u: "quiet c (cli_update_clear target x c4)" "quiet c (cli_update_if target x c4)"
      "quiet c (fst (cli_update_call os target x c4 w))" for x
      by (rule quiet_trans [OF q4 quiet_update_modes(1)], rule quiet_trans [OF q4 quiet_update_modes(2)],
          rule quiet_trans [OF q4 quiet_update_modes(3)])
    show ?thesis
      using 1 2 3 4 q4 t b by (simp add: cmd_update_def u split: option.split)
  qed
qed

text \<open>The commands that may add a probe.\<close>

lemma extends_start:
  assumes a: "g_cli_attached c" and r: "cli_start_trace A os ho symbol flt c w = Some (c', w')"
  shows "extends c c'"
proof -
  obtain b st w1 where 1: "zt_trace_start_filtered_in_session A os (ho_files ho w) session_ptr (Some symbol) (Some (g_cli_log_path c))
      (if fl_enabled flt \<noteq> 0 then Some flt else None) (cl_trace c) w = Some (b, st, w1)"
    using r by (auto simp: cli_start_trace_def bind_eq_Some_conv)
  have e: "extends c (c\<lparr>cl_trace := st\<rparr>)" using adds_start [OF 1] a by (simp add: extends_def)
  have reset: "extends c (zt_cli_reset_log_state c4) = extends c c4" for c4 by (simp add: extends_def zt_cli_reset_log_state_def)
  show ?thesis using r 1 e by (auto simp: cli_start_trace_def Let_def reset)
qed

lemma quiet_new_log: "cli_new_log ho c w = (b, c') \<Longrightarrow> quiet c c'"
  by (auto simp: cli_new_log_def Let_def intro: quiet_same split: option.splits if_splits)

lemma extends_trace:
  assumes r: "cmd_trace A os ho args c w = Some (c', w')"
  shows "extends c c'"
proof -
  obtain b c1 where 1: "zt_cli_require_attached c = (b, c1)" by fastforce
  obtain t c2 where 2: "zt_next_arg args c1 = (t, c2)" by fastforce
  obtain f c3 where 3: "zt_cli_parse_trace_filter c2 = (f, c3)" by fastforce
  note q1 = attached_cases(1) [OF 1]
  note q2 = quiet_trans [OF q1 quiet_next_arg [OF 2]]
  note q3 = quiet_trans [OF q2 quiet_trace_filter [OF 3]]
  show ?thesis
  proof (cases "b \<and> t \<noteq> None \<and> f \<noteq> None")
    case False
    then have "quiet c c'" using r 1 2 3 q1 q2 q3 by (cases b) (auto simp: cmd_trace_def split: option.splits)
    then show ?thesis by (rule quiet_extends)
  next
    case True
    then obtain symbol flt where t: "t = Some symbol" "f = Some flt" and b: b by auto
    have a: "g_cli_attached c" using attached_cases(2) [OF 1 b] by simp
    have st: "extends c c'" if "quiet c c5" "cli_start_trace A os ho symbol flt c5 w5 = Some (c', w')" for c5 w5
      using quiet_extends_trans [OF that(1) extends_start [OF _ that(2)]] that(1) a by (simp add: quiet_def)
    show ?thesis
    proof (cases "zt_trace_is_active (cl_trace c3)")
      case True
      then show ?thesis using r 1 2 3 t b st [OF q3] by (simp add: cmd_trace_def)
    next
      case False
      then obtain b4 c4 w4 where 4: "zt_cli_stop_target os c3 w = Some (b4, c4, w4)"
        using r 1 2 3 t b by (auto simp: cmd_trace_def bind_eq_Some_conv)
      note q4 = quiet_trans [OF q3 quiet_stop_target [OF 4]]
      obtain b5 c5 where 5: "cli_new_log ho c4 w4 = (b5, c5)" by fastforce
      note q5 = quiet_trans [OF q4 quiet_new_log [OF 5]]
      show ?thesis
        using r 1 2 3 t b False 4 5 st [OF q5] quiet_extends [OF q4] quiet_extends [OF q5]
        by (cases b4; cases b5) (auto simp: cmd_trace_def)
    qed
  qed
qed

lemma extends_enable:
  assumes r: "cmd_enable A os args c w = Some (c', w')"
  shows "extends c c'"
proof -
  obtain b c1 where 1: "zt_cli_require_active_trace c = (b, c1)" by fastforce
  obtain t c2 where 2: "zt_next_arg args c1 = (t, c2)" by fastforce
  note q1 = active_cases(1) [OF 1] and q2 = quiet_trans [OF active_cases(1) [OF 1] quiet_next_arg [OF 2]]
  show ?thesis
  proof (cases "b \<and> t \<noteq> None")
    case False
    then have "quiet c c'" using r 1 2 q1 q2 by (cases b) (auto simp: cmd_enable_def)
    then show ?thesis by (rule quiet_extends)
  next
    case True
    then obtain target where t: "t = Some target" and b: b by auto
    have a: "g_cli_attached c" using active_cases(2) [OF 1 b] by simp
    obtain r3 c3 where 3: "zt_cli_require_probe_target target c2 = (r3, c3)" by fastforce
    note q3 = quiet_trans [OF q2 quiet_probe_target [OF 3]]
    have en: "extends c (c3\<lparr>cl_trace := st\<rparr>)" if "zt_trace_enable_probe A os session_ptr x (cl_trace c3) w = Some (b', st, w2)" for x b' st w2
      using adds_enable_probe [OF that] q3 a keeps_adds_trans by (auto simp: extends_def quiet_def)
    show ?thesis
      using r 1 2 3 t b quiet_extends [OF q2] quiet_extends [OF q3]
      by (auto simp: cmd_enable_def bind_eq_Some_conv Let_def dest!: en split: if_splits option.splits)
  qed
qed

text \<open>The invariant after \<open>n\<close> lines: the next id grows by at most one per line.\<close>

definition shell_ok :: "nat \<Rightarrow> cli \<Rightarrow> bool" where
  "shell_ok n c \<longleftrightarrow> sess_ok (g_cli_session c) \<and>
     (g_cli_attached c \<longrightarrow> 0 < se_next_probe_id (g_cli_session c) \<and> unat (se_next_probe_id (g_cli_session c)) \<le> n)"

lemma shell_ok_quiet: "shell_ok n c \<Longrightarrow> quiet c c' \<Longrightarrow> shell_ok n c'"
  by (auto simp: shell_ok_def quiet_def keeps_def)

lemma shell_ok_extends:
  assumes "shell_ok n c" "n < 2 ^ 64 - 1" "extends c c'"
  shows "shell_ok (Suc n) c'"
  using assms by (auto simp: shell_ok_def extends_def adds_def ids_left_def keeps_def split: if_splits)

lemma shell_ok_detached: "\<not> g_cli_attached c \<Longrightarrow> g_cli_session c = zero_session \<Longrightarrow> shell_ok n c"
  by (simp add: shell_ok_def zero_ok)

lemma g_cli_session_attached [simp]:
  "g_cli_session (c\<lparr>g_cli_attached := b\<rparr>) = g_cli_session c" "g_cli_session (sayln s c) = g_cli_session c"
  by simp_all

lemma shell_ok_attach:
  assumes ok: "shell_ok n c" and r: "cmd_attach os args c w = Some (c', w')"
  shows "shell_ok (Suc n) c'"
proof -
  obtain t c1 where 1: "zt_next_arg args c = (t, c1)" by fastforce
  have ok1: "shell_ok (Suc n) (sayln x c1)" for x
    using shell_ok_quiet [OF ok, of c1] quiet_next_arg [OF 1] by (auto simp: shell_ok_def)
  show ?thesis
  proof (cases "\<exists>s pid. t = Some s \<and> strtol10 s = (pid, [], snd (snd (strtol10 s))) \<and> s \<noteq> [] \<and> pid > 0 \<and> \<not> g_cli_attached c1")
    case False
    then show ?thesis using r 1 ok1 by (auto simp: cmd_attach_def split: option.splits prod.splits if_splits)
  next
    case True
    then obtain s pid e where s: "t = Some s" "strtol10 s = (pid, [], e)" "s \<noteq> []" "pid > 0" "\<not> g_cli_attached c1" by auto
    then obtain b se w1 where 2: "zt_injector_attach os (to_pid_t pid) w = Some (b, se, w1)"
      using r 1 by (auto simp: cmd_attach_def bind_eq_Some_conv)
    note a = attach_ok [OF 2]
    obtain b3 se3 w3 where 3: "zt_injector_continue_all os se w1 = (b3, se3, w3)" by (metis prod_cases3)
    have k: "sess_ok se3" "b \<Longrightarrow> se_next_probe_id se3 = 1" using keeps_continue [OF 3] a by (simp_all add: keeps_def)
    consider "\<not> b" "\<exists>x. c' = sayln x (set_session se c1)"
      | "\<exists>x se4 w4. zt_injector_detach os se3 w3 = Some (se4, w4) \<and>
           c' = (set_session se4 (sayln x (set_session se3 (set_session se c1))))\<lparr>g_cli_attached := False\<rparr>"
      | "b" "\<exists>x. c' = sayln x ((set_session se3 (set_session se c1))\<lparr>g_cli_attached := True\<rparr>)"
      using r 1 s 2 3 by (cases b; cases b3) (auto simp: cmd_attach_def bind_eq_Some_conv Let_def)
    then show ?thesis
    proof cases
      case 1
      then show ?thesis using a(1) s(5) by (auto simp: shell_ok_def)
    next
      case 2
      then show ?thesis by (auto dest: detach_zero intro!: shell_ok_detached)
    next
      case 3
      then show ?thesis using k by (auto simp: shell_ok_def)
    qed
  qed
qed

lemma shell_ok_handler:
  assumes ok: "shell_ok n c" and n: "n < 2 ^ 64 - 1" and r: "zt_cli_call_handler A os ho h args c w = Some (c', w')"
  shows "shell_ok (Suc n) c'"
proof -
  have q: "shell_ok (Suc n) c'" if "quiet c c'" by (rule shell_ok_extends [OF ok n quiet_extends [OF that]])
  have e: "shell_ok (Suc n) c'" if "extends c c'" by (rule shell_ok_extends [OF ok n that])
  show ?thesis
  proof (cases h)
    case Cmd_help
    with r q quiet_help [of c args] show ?thesis by (simp add: zt_cli_call_handler_def)
  next
    case Cmd_exit
    with r q show ?thesis
      by (auto simp: zt_cli_call_handler_def cmd_exit_def bind_eq_Some_conv dest: detach_zero intro!: shell_ok_detached split: if_splits)
  next
    case Cmd_attach
    with r shell_ok_attach [OF ok] show ?thesis by (simp add: zt_cli_call_handler_def)
  next
    case Cmd_detach
    obtain b c1 where 1: "zt_cli_require_attached c = (b, c1)" by fastforce
    with Cmd_detach r attached_cases(1) [OF 1] q show ?thesis
      by (cases b) (auto simp: zt_cli_call_handler_def cmd_detach_def bind_eq_Some_conv dest: detach_zero intro!: shell_ok_detached)
  next
    case Cmd_trace
    with r e extends_trace [of A os ho args c w c' w'] show ?thesis by (simp add: zt_cli_call_handler_def)
  next
    case Cmd_stop
    with r q quiet_stop [of os c w c' w'] show ?thesis by (simp add: zt_cli_call_handler_def)
  next
    case Cmd_enable
    with r e extends_enable [of A os args c w c' w'] show ?thesis by (simp add: zt_cli_call_handler_def)
  next
    case Cmd_disable
    with r q quiet_disable [of A os args c w c' w'] show ?thesis by (simp add: zt_cli_call_handler_def)
  next
    case Cmd_update
    with r q quiet_update [of c os args w] show ?thesis by (simp add: zt_cli_call_handler_def)
  next
    case Cmd_untrace
    with r q quiet_untrace [of A os args c w c' w'] show ?thesis by (simp add: zt_cli_call_handler_def)
  next
    case Cmd_info
    with r q quiet_info [of c args] show ?thesis by (simp add: zt_cli_call_handler_def)
  next
    case Cmd_continue
    with r q quiet_continue [of os c w c' w'] show ?thesis by (simp add: zt_cli_call_handler_def)
  qed
qed

lemma shell_ok_line:
  assumes ok: "shell_ok n c" and n: "n < 2 ^ 64 - 1" and r: "zt_cli_line A os ho input c w = Some (go_on, c', w')"
  shows "shell_ok (Suc n) c'"
proof -
  obtain t c1 where 1: "zt_next_arg (Some 0) (c\<lparr>cl_line := input @ [NUL]\<rparr>) = (t, c1)" by fastforce
  have "quiet c (c\<lparr>cl_line := input @ [NUL]\<rparr>)" by (rule quiet_same) simp_all
  note q = quiet_trans [OF this quiet_next_arg [OF 1]]
  note ok1 = shell_ok_quiet [OF ok q]
  have ok2: "shell_ok (Suc n) c1" by (rule shell_ok_extends [OF ok n quiet_extends [OF q]])
  have h: "shell_ok (Suc n) c'" if "zt_cli_call_handler A os ho h args c1 w = Some (c', w')" for h args
    by (rule shell_ok_handler [OF ok1 n that])
  show ?thesis
  proof (cases "case t of None \<Rightarrow> None | Some cmd \<Rightarrow> List.find (\<lambda>e. cmd_name e = cmd) cmd_table")
    case None
    then have "\<exists>x. c' = c1 \<or> c' = sayln x c1" using r 1 by (cases t) (auto simp: zt_cli_line_def)
    then show ?thesis using ok2 by (auto simp: shell_ok_def)
  next
    case (Some e)
    then obtain cmd where t: "t = Some cmd" by (cases t) auto
    then have "zt_cli_call_handler A os ho (cmd_handler e) (cli_args (cl_line c1) cmd) c1 w = Some (c', w')"
      using r 1 Some by (auto simp: zt_cli_line_def bind_eq_Some_conv)
    then show ?thesis by (rule h)
  qed
qed

lemma shell_ok_hook:
  assumes ok: "shell_ok n c" and r: "zt_cli_event_hook os ho c w = Some (c', w')"
  shows "shell_ok n c'"
proof -
  have p: "quiet c3 (zt_cli_print_log_updates ho c3 w3)" for c3 w3
    by (rule quiet_same) (simp_all add: zt_cli_print_log_updates_def Let_def say_def)
  have "quiet c c'"
  proof (cases "c' = c")
    case False
    then obtain x st w1 where 1: "zt_trace_poll os (cl_trace c) w = Some (x, st, w1)"
      and c': "c' = (let c1 = c\<lparr>g_cli_last_poll_ns := zt_cli_monotonic_ns ho w, cl_trace := st\<rparr> in
        if x = 0 then zt_cli_print_log_updates ho c1 w1 else c1)"
      using r by (auto simp: zt_cli_event_hook_def bind_eq_Some_conv Let_def split: if_splits)
    have q: "quiet c (c\<lparr>g_cli_last_poll_ns := zt_cli_monotonic_ns ho w, cl_trace := st\<rparr>)"
      using kept_poll [OF 1, of 0] by (simp add: quiet_def)
    show ?thesis using q quiet_trans [OF q p] unfolding c' by (simp add: Let_def)
  qed simp
  then show ?thesis by (rule shell_ok_quiet [OF ok])
qed

lemma shell_ok_mono: "shell_ok n c \<Longrightarrow> n \<le> m \<Longrightarrow> shell_ok m c"
  by (auto simp: shell_ok_def)

text \<open>The main loop as a run of steps, one per event; a step says whether the loop goes on.\<close>

definition shell_step ::
  "('r, 'w) zt_arch \<Rightarrow> ('r, 'w) os \<Rightarrow> 'w host \<Rightarrow> cli_event \<Rightarrow> cli \<times> 'w \<Rightarrow> (bool \<times> cli \<times> 'w) option" where
  "shell_step A os ho ev s =
     (case ev of
        Tick \<Rightarrow> map_option (Pair True) (zt_cli_event_hook os ho (fst s) (snd s))
      | Line input \<Rightarrow> zt_cli_line A os ho input (fst s) (snd s))"

lemma main_loop_run: "zt_cli_main_loop A os ho evs c w = run_events (shell_step A os ho) evs (c, w)"
proof (induction A os ho evs c w rule: zt_cli_main_loop.induct)
  case (2 A os ho evs c w)
  then show ?case by (cases "zt_cli_event_hook os ho c w") (auto simp: shell_step_def)
next
  case (3 A os ho input evs c w)
  then show ?case by (cases "zt_cli_line A os ho input c w") (auto simp: shell_step_def)
qed simp

interpretation shell: counted_run "shell_step A os ho" "\<lambda>n s. shell_ok n (fst s)" "2 ^ 64 - 1"
proof unfold_locales
  fix n s b s' ev
  assume ok: "shell_ok n (fst s)" and n: "n < 2 ^ 64 - 1" and r: "shell_step A os ho ev s = Some (b, s')"
  show "shell_ok (Suc n) (fst s')"
  proof (cases ev)
    case Tick
    then have "zt_cli_event_hook os ho (fst s) (snd s) = Some (fst s', snd s')" using r by (auto simp: shell_step_def)
    from shell_ok_hook [OF ok this] show ?thesis by (rule shell_ok_mono) simp
  next
    case (Line input)
    then have "zt_cli_line A os ho input (fst s) (snd s) = Some (b, fst s', snd s')" using r by (simp add: shell_step_def)
    from shell_ok_line [OF ok n this] show ?thesis .
  qed
qed (rule shell_ok_mono)

section \<open>Properties\<close>

text \<open>
  C16. The shell splits a line into its words: for a line that does not begin with a blank,
  the command is looked up under the first word, the handler is called without an argument
  pointer, and what it then reads with \<^verbatim>\<open>strtok(NULL, " ")\<close> are the other words of the line in
  their order, and \<^verbatim>\<open>NULL\<close> behind the last one however often it asks.
\<close>

theorem shell_splits_words:
  assumes n: "NUL \<notin> set input" and h: "input \<noteq> []" "hd input \<noteq> blank"
  shows "\<exists>cmd args c1. line_words input = cmd # args \<and>
     (\<forall>k. next_args k c1 = map Some (take k args) @ replicate (k - length args) None) \<and>
     cl_trace c1 = cl_trace c \<and> g_cli_attached c1 = g_cli_attached c \<and> cl_out c1 = cl_out c \<and>
     zt_cli_line A os ho input c w =
       (case List.find (\<lambda>e. cmd_name e = cmd) cmd_table of
          None \<Rightarrow> Some (True, sayln (''Unknown command: '' @ cmd) c1, w)
        | Some e \<Rightarrow> map_option (\<lambda>(c2, w2). (cmd_handler e \<noteq> Cmd_exit, c2, w2))
            (zt_cli_call_handler A os ho (cmd_handler e) None c1 w))"
proof -
  obtain t buf saved where f: "zt_next_arg (Some 0) (c\<lparr>cl_line := input @ [NUL]\<rparr>) = (t, c\<lparr>cl_line := buf, cl_saved := saved\<rparr>)"
    and ws: "case line_words input of [] \<Rightarrow> t = None \<and> line_words (cstr buf saved) = []
      | x # xs \<Rightarrow> t = Some x \<and> line_words (cstr buf saved) = xs"
    by (rule first_word [OF n])
  have "dropWhile (\<lambda>ch. ch = blank) input = input" using h by (cases input) auto
  then have "line_words input \<noteq> []" using h(1) by (subst line_words.simps) (simp add: Let_def)
  then obtain cmd args where w: "line_words input = cmd # args" by (cases "line_words input") auto
  let ?c1 = "c\<lparr>cl_line := buf, cl_saved := saved\<rparr>"
  have f': "zt_next_arg (Some 0) (c\<lparr>cl_line := input @ [NUL]\<rparr>) = (Some cmd, ?c1)" using f ws w by simp
  have "cstr buf (length cmd) = []" using cut_at_word [OF n h f'] by simp
  then have a: "cli_args (cl_line ?c1) cmd = None" by (simp add: cli_args_def)
  have "next_args k ?c1 = map Some (take k args) @ replicate (k - length args) None" for k
    using ws w by (intro next_args_words) simp
  moreover have "zt_cli_line A os ho input c w =
       (case List.find (\<lambda>e. cmd_name e = cmd) cmd_table of
          None \<Rightarrow> Some (True, sayln (''Unknown command: '' @ cmd) ?c1, w)
        | Some e \<Rightarrow> map_option (\<lambda>(c2, w2). (cmd_handler e \<noteq> Cmd_exit, c2, w2))
            (zt_cli_call_handler A os ho (cmd_handler e) None ?c1 w))"
    unfolding zt_cli_line_def f' a prod.case option.case
    by (auto simp: map_option_case a split: option.splits Option.bind_splits)
  ultimately show ?thesis using w by (intro exI [of _ cmd] exI [of _ args] exI [of _ ?c1]) simp
qed

text \<open>
  C18. Without a target the shell touches nothing: every line but an \<^verbatim>\<open>attach\<close> command
  returns, makes no system call and leaves the trace and the session as they are, and only
  \<^verbatim>\<open>exit\<close> and \<^verbatim>\<open>quit\<close> end the loop.
\<close>

theorem unattached_shell_is_inert:
  assumes n: "NUL \<notin> set input" and c: "\<not> g_cli_attached c"
    and a: "line_words input = [] \<or> hd (line_words input) \<noteq> ''attach''"
  shows "\<exists>c'. zt_cli_line A os ho input c w =
       Some (line_words input = [] \<or> hd (line_words input) \<notin> {''exit'', ''quit''}, c', w) \<and>
     cl_trace c' = cl_trace c \<and> \<not> g_cli_attached c'"
proof -
  obtain t buf saved where f: "zt_next_arg (Some 0) (c\<lparr>cl_line := input @ [NUL]\<rparr>) = (t, c\<lparr>cl_line := buf, cl_saved := saved\<rparr>)"
    and ws: "case line_words input of [] \<Rightarrow> t = None \<and> line_words (cstr buf saved) = []
      | x # xs \<Rightarrow> t = Some x \<and> line_words (cstr buf saved) = xs"
    by (rule first_word [OF n])
  let ?c1 = "c\<lparr>cl_line := buf, cl_saved := saved\<rparr>"
  have c1: "\<not> g_cli_attached ?c1" using c by simp
  show ?thesis
  proof (cases "line_words input")
    case Nil
    then show ?thesis using f ws c by (simp add: zt_cli_line_def)
  next
    case (Cons cmd args)
    then have t: "t = Some cmd" using ws by simp
    show ?thesis
    proof (cases "List.find (\<lambda>e. cmd_name e = cmd) cmd_table")
      case None
      have "cmd \<noteq> ''exit'' \<and> cmd \<noteq> ''quit''"
      proof (rule ccontr)
        assume "\<not> ?thesis"
        with None show False by (auto simp: cmd_table_def)
      qed
      then show ?thesis using None Cons f t c by (simp add: zt_cli_line_def)
    next
      case (Some e)
      have "cmd_handler e \<noteq> Cmd_attach" using cmd_table_attach [OF Some] a Cons by simp
      from unattached_handler [OF c1 this, of A os ho "cli_args buf cmd" w]
      show ?thesis using Some Cons f t cmd_table_exit [OF Some] by (auto simp: zt_cli_line_def)
    qed
  qed
qed


text \<open>
  Detaching does not end the trace: the patches, the payload and the runner's state stay, and
  only the session is cleared.
\<close>

theorem detach_leaves_trace_active:
  assumes "zt_trace_is_active (cl_trace c)" and "g_cli_attached c"
    and "cmd_detach os c w = Some (c', w')"
  shows "zt_trace_is_active (cl_trace c') \<and> g_active_trace (cl_trace c') = g_active_trace (cl_trace c) \<and>
    g_cli_session c' = zero_session \<and> \<not> g_cli_attached c'"
  using assms
  by (auto simp: cmd_detach_def zt_cli_require_attached_def bind_eq_Some_conv zt_trace_is_active_def set_session_def upd_trace_def
      dest: detach_zero)

lemma entry_arg_texts:
  "list_all (\<lambda>v. zt_cli_parse_call_arg (''arg'' @ fmt_u v) = Some \<lparr>ca_kind = ZT_CALL_ACTION_ARG_ENTRY_ARG, ca_value = v\<rparr>)
     (map of_nat [0..<6])"
  by code_simp

text \<open>
  An argument that \<^verbatim>\<open>info probes\<close> prints is read back by \<^verbatim>\<open>update ... call\<close> as the same argument.
\<close>

theorem call_arg_text_roundtrip:
  assumes "ca_kind a = ZT_CALL_ACTION_ARG_CONST \<or> ca_kind a = ZT_CALL_ACTION_ARG_ENTRY_ARG \<and> ca_value a < of_nat ZT_TRACE_GP_ARG_COUNT"
  shows "zt_cli_parse_call_arg (call_arg_text a) = Some a"
proof (cases "ca_kind a = ZT_CALL_ACTION_ARG_CONST")
  case True
  have "\<not> starts_with (''0x'' @ fmt_x (ca_value a)) ''arg''" by simp
  moreover have "''0x'' @ fmt_x (ca_value a) \<noteq> []" by simp
  ultimately show ?thesis
    using True strtoull_fmt_x [of "ca_value a"]
    by (simp add: zt_cli_parse_call_arg_def call_arg_text_def ZT_CALL_ACTION_ARG_CONST_def ZT_CALL_ACTION_ARG_ENTRY_ARG_def)
next
  case False
  with assms have k: "ca_kind a = ZT_CALL_ACTION_ARG_ENTRY_ARG" and v: "ca_value a < 6" by (simp_all add: zt_limits)
  have "unat (ca_value a) < 6" using v by (simp add: word_less_nat_alt)
  then have "unat (ca_value a) \<in> set [0..<6]" by simp
  then have "(of_nat (unat (ca_value a)) :: u64) \<in> set (map of_nat [0..<6])" by (metis image_eqI set_map)
  then have "ca_value a \<in> set (map of_nat [0..<6])" by simp
  then have "zt_cli_parse_call_arg (''arg'' @ fmt_u (ca_value a)) =
      Some \<lparr>ca_kind = ZT_CALL_ACTION_ARG_ENTRY_ARG, ca_value = ca_value a\<rparr>"
    using entry_arg_texts unfolding list_all_iff by blast
  then show ?thesis using k by (cases a) (simp add: call_arg_text_def)
qed

text \<open>A shell at its start, on a machine with one process that has one thread.\<close>

definition ex_host :: "'w host" where
  "ex_host = \<lparr>ho_files = (\<lambda>_. \<lparr>hf_log_opens = (\<lambda>_. True), hf_sigconf = None, hf_payload_path = None\<rparr>),
     ho_getcwd = (\<lambda>_. Some ''/tmp''), ho_clock = (\<lambda>_. None), ho_log_opens = (\<lambda>_ _. True), ho_log_fails = (\<lambda>_ _. None)\<rparr>"

definition ex_cli :: cli where
  "ex_cli = \<lparr>cl_trace = ex_call_state\<lparr>g_active_trace := zero_active_trace, tr_sessions := (\<lambda>_. zero_session)\<rparr>,
     g_cli_attached = False, g_cli_log_path = [], g_cli_log_offset = 0, g_cli_last_poll_ns = 0,
     cl_line = [NUL], cl_saved = 0, cl_out = []\<rparr>"

definition ex_cli_sim :: "unit sim" where
  "ex_cli_sim = ex_sim\<lparr>sm_tasks := [''1''], sm_waits := [Inr (1, 0x137F)],
     sm_maps := [''00400000-00401000 r-xp 00000000 08:01 42 /bin/t'']\<rparr>"

lemma ex_words:
  "line_words ''trace write if arg0'' = [''trace'', ''write'', ''if'', ''arg0'']"
  "map_option cmd_handler (List.find (\<lambda>e. cmd_name e = ''trace'') cmd_table) = Some Cmd_trace"
  by code_simp+

theorem shell_splits_words_witness:
  "\<exists>c1. next_args 4 c1 = [Some ''write'', Some ''if'', Some ''arg0'', None] \<and>
     zt_cli_line ex_pool_arch ex_elf_os ex_host ''trace write if arg0'' ex_cli ex_cli_sim =
       map_option (\<lambda>(c2, w2). (True, c2, w2)) (zt_cli_call_handler ex_pool_arch ex_elf_os ex_host Cmd_trace None c1 ex_cli_sim)"
proof -
  obtain cmd args c1 where w: "line_words ''trace write if arg0'' = cmd # args"
    and n: "\<And>k. next_args k c1 = map Some (take k args) @ replicate (k - length args) None"
    and l: "zt_cli_line ex_pool_arch ex_elf_os ex_host ''trace write if arg0'' ex_cli ex_cli_sim =
       (case List.find (\<lambda>e. cmd_name e = cmd) cmd_table of
          None \<Rightarrow> Some (True, sayln (''Unknown command: '' @ cmd) c1, ex_cli_sim)
        | Some e \<Rightarrow> map_option (\<lambda>(c2, w2). (cmd_handler e \<noteq> Cmd_exit, c2, w2))
            (zt_cli_call_handler ex_pool_arch ex_elf_os ex_host (cmd_handler e) None c1 ex_cli_sim))"
    using shell_splits_words [of "''trace write if arg0''" ex_cli ex_pool_arch ex_elf_os ex_host ex_cli_sim] by auto
  have c: "cmd = ''trace''" "args = [''write'', ''if'', ''arg0'']" using w ex_words(1) by simp_all
  obtain e where e: "List.find (\<lambda>e. cmd_name e = cmd) cmd_table = Some e" "cmd_handler e = Cmd_trace"
    using ex_words(2) unfolding c(1) by auto
  show ?thesis using n [of 4] l unfolding e(1) c(2) by (intro exI [of _ c1]) (simp add: e(2))
qed

theorem unattached_shell_is_inert_witness:
  "\<exists>c'. zt_cli_line ex_pool_arch ex_elf_os ex_host ''trace write if arg0'' ex_cli ex_cli_sim = Some (True, c', ex_cli_sim) \<and>
     cl_trace c' = cl_trace ex_cli \<and> \<not> g_cli_attached c'"
proof -
  have "\<not> g_cli_attached ex_cli" by (simp add: ex_cli_def)
  from unattached_shell_is_inert [OF _ this, of "''trace write if arg0''" ex_pool_arch ex_elf_os ex_host ex_cli_sim]
  show ?thesis using ex_words(1) by simp
qed

text \<open>With blanks in front of the command the arguments are read from inside the command word.\<close>

theorem leading_blanks_shift_arguments:
  "(case zt_next_arg (Some 0) (ex_cli\<lparr>cl_line := ''  trace foo'' @ [NUL]\<rparr>) of
      (cmd, c) \<Rightarrow> (cmd, cli_args (cl_line c) ''trace'', fst (zt_next_arg (cli_args (cl_line c) ''trace'') c))) =
   (Some ''trace'', Some 5, Some ''ce'')"
  by code_simp

lemma ex_cli_run:
  "map_option (\<lambda>(c, w). (g_cli_attached c, se_pid (g_cli_session c), se_thread_count (g_cli_session c)))
     (zt_cli_main_loop ex_pool_arch ex_elf_os ex_host [Line ''attach 1'', Tick, Line ''info target''] ex_cli ex_cli_sim) =
   Some (True, 1, 1)"
  by code_simp


end
