(* ===== verification/ZT_Returns.thy ===== *)
theory ZT_Returns
  imports ZT_CliProps ZT_ArchX86 ZT_ArchA64
begin

text \<open>
  The operations that wait for the kernel return: on both instruction sets a remote execution
  ends when waits are interrupted only finitely often, and with it every operation of the
  runner and every command of the shell.
\<close>

named_theorems returning

text \<open>Remote execution.\<close>

lemma stub_wait_returns:
  assumes "events_finite os pending"
  shows "returns (zt_arch_wait_for_stub_stop os pid w)"
proof (induction "pending w" arbitrary: w rule: less_induct)
  case less
  obtain r w1 where r: "os_waitpid os pid False w = (r, w1)" by fastforce
  have "r = Inl EINTR \<Longrightarrow> pending w1 < pending w" using assms r unfolding events_finite_def by blast
  then show ?case
    using r less by (subst zt_arch_wait_for_stub_stop.simps) (auto split: sum.splits)
qed

definition arch_returns :: "('r, 'w) zt_arch \<Rightarrow> ('r, 'w) os \<Rightarrow> bool" where
  "arch_returns A os \<longleftrightarrow> (\<forall>pid args w. returns (zt_arch_remote_syscall6 A os pid args w)) \<and>
     (\<forall>pid args w. returns (zt_arch_remote_call2 A os pid args w))"

lemma exec_returns:
  assumes "events_finite os pending"
  shows "returns (zt_arch_execute_remote_stub os ops pid stub_size sel prep build w)"
proof -
  have "returns (zt_arch_run_stub os ops pid r pc code w)" for r pc code w
    using stub_wait_returns [OF assms] unfolding zt_arch_run_stub_def restore_and_fail_def
    by (auto intro!: returns_bind split: option.split prod.split sum.split)
  then show ?thesis
    unfolding zt_arch_execute_remote_stub_def Let_def by (auto split: option.split prod.split sum.split bool.split)
qed

lemma x86_returns: "events_finite os pending \<Longrightarrow> arch_returns (x86_arch disasm) os"
  by (simp add: arch_returns_def x86_arch_def x86_arch_remote_syscall6_def x86_arch_remote_call2_def zt_arch_execute_syscall6_def zt_arch_execute_call2_def exec_returns)

lemma a64_returns: "events_finite os pending \<Longrightarrow> arch_returns (a64_arch disasm) os"
  by (simp add: arch_returns_def a64_arch_def a64_arch_remote_syscall6_def a64_arch_remote_call2_def zt_arch_execute_syscall6_def zt_arch_execute_call2_def exec_returns)

section \<open>The operations of the tracer\<close>

definition kernel_returns :: "('r, 'w) zt_arch \<Rightarrow> ('r, 'w) os \<Rightarrow> bool" where
  "kernel_returns A os \<longleftrightarrow> (\<exists>pending. events_finite os pending) \<and> arch_returns A os"

lemma interrupt_returns [returning]: "kernel_returns A os \<Longrightarrow> returns (zt_injector_interrupt_all os se w)"
  by (auto simp: kernel_returns_def returns_def dest!: thread_control_returns [of os _ se w A])

lemma ensure_safe_returns [returning]: "kernel_returns A os \<Longrightarrow> returns (zt_ensure_patch_regions_are_safe A os se w)"
  by (auto simp: kernel_returns_def returns_def dest!: thread_control_returns [of os _ se w A])

lemma remote_returns [returning]:
  "kernel_returns A os \<Longrightarrow> returns (zt_remote_mmap A os pid sz prot flags w)"
  "kernel_returns A os \<Longrightarrow> returns (zt_remote_munmap A os pid a sz w)"
  "kernel_returns A os \<Longrightarrow> returns (zt_remote_call2 A os pid f x y w)"
  unfolding zt_remote_mmap_def zt_remote_munmap_def zt_remote_call2_def
  by (auto simp: kernel_returns_def arch_returns_def intro!: returns_bind)

lemmas returns_splits = option.split prod.split bool.split if_split

lemma pool_returns [returning]:
  assumes "kernel_returns A os"
  shows "returns (zt_trampoline_pool_alloc A os pid pool probe w)" and "returns (zt_trampoline_pool_release A os pid pool probe w)"
proof -
  have "returns (zt_trampoline_pool_ensure A os pid pool w)"
    using assms unfolding zt_trampoline_pool_ensure_def by (auto intro!: returns_bind returning)
  then show "returns (zt_trampoline_pool_alloc A os pid pool probe w)"
    unfolding zt_trampoline_pool_alloc_def Let_def by (auto intro!: returns_bind)
  show "returns (zt_trampoline_pool_release A os pid pool probe w)"
    using assms unfolding zt_trampoline_pool_release_def Let_def by (auto intro!: returns_bind returning)
qed

lemma patch_returns [returning]:
  "kernel_returns A os \<Longrightarrow> returns (zt_install_probe_patch A os se x t w)"
  "kernel_returns A os \<Longrightarrow> returns (zt_uninstall_probe_patch A os se x w)"
  unfolding zt_install_probe_patch_def zt_uninstall_probe_patch_def Let_def
  by (auto intro!: returns_bind returning split: option.split prod.split bool.split)

lemma install_returns [returning]:
  assumes k: "kernel_returns A os"
  shows "returns (zt_trace_install_probe A os se rt symbol flt w)"
proof -
  have "returns (zt_install_steps A os se rt i w)" for se rt i w
    using k unfolding zt_install_steps_def Let_def
    by (auto intro!: returns_bind returning split: option.split prod.split bool.split)
  moreover have "returns (zt_trace_rollback_probe_install A os se rt i s w)" for se rt i s w
    using k unfolding zt_trace_rollback_probe_install_def Let_def by (auto intro!: returns_bind returning)
  ultimately show ?thesis
    unfolding zt_trace_install_probe_def Let_def by (auto intro!: returns_bind split: option.split prod.split)
qed

lemma runtime_returns [returning]:
  assumes k: "kernel_returns A os"
  shows "returns (zt_trace_cleanup_runtime A os pid rt w)" and "returns (zt_setup_remote_payload A os path se rt w)"
proof -
  have "returns (zt_trace_munmap_region A os pid a n w)" for a n w
    using k unfolding zt_trace_munmap_region_def by (auto intro!: returns_bind returning)
  then show "returns (zt_trace_cleanup_runtime A os pid rt w)"
    unfolding zt_trace_cleanup_runtime_def by (auto intro!: returns_bind)
  have "returns (zt_load_payload A os se rt w)" "returns (zt_init_payload A os se rt w)" for rt w
    using k unfolding zt_load_payload_def zt_init_payload_def Let_def
    by (auto intro!: returns_bind returning split: option.split prod.split bool.split)
  then show "returns (zt_setup_remote_payload A os path se rt w)"
    unfolding zt_setup_remote_payload_def by (auto intro!: returns_bind split: option.split prod.split bool.split)
qed

lemma stopped_returns [returning]: "kernel_returns A os \<Longrightarrow> returns (zt_trace_ensure_stopped os session st w)"
  unfolding zt_trace_ensure_stopped_def by (auto simp: Let_def intro!: returns_bind returning)

lemma active_returns [returning]: "kernel_returns A os \<Longrightarrow> returns (zt_trace_install_active_probe A os session symbol flt st w)"
  unfolding zt_trace_install_active_probe_def by (auto simp: Let_def intro!: returns_bind returning)

lemma stop_each_returns [returning]: "kernel_returns A os \<Longrightarrow> returns (zt_stop_each A os is b se pool w)"
  by (induction "is" arbitrary: b se pool w) (auto simp: Let_def intro!: returns_bind returning)

lemma stop_returns [returning]: "kernel_returns A os \<Longrightarrow> returns (zt_trace_stop A os st w)"
  unfolding zt_trace_stop_def by (auto simp: Let_def intro!: returns_bind returning)

lemma start_returns [returning]:
  "kernel_returns A os \<Longrightarrow> returns (zt_trace_start_filtered_in_session A os hf session symbol path flt st w)"
  unfolding zt_trace_start_filtered_in_session_def
  by (auto simp: Let_def intro!: returns_bind returning split: option.split prod.split bool.split)

lemma probe_op_returns [returning]:
  "kernel_returns A os \<Longrightarrow> returns (zt_trace_enable_probe A os session x st w)"
  "kernel_returns A os \<Longrightarrow> returns (zt_trace_disable_probe A os session x st w)"
  "kernel_returns A os \<Longrightarrow> returns (zt_trace_remove_probe A os session x st w)"
  unfolding zt_trace_enable_probe_def zt_trace_disable_probe_def zt_trace_remove_probe_def
  by (auto simp: Let_def intro!: returns_bind returning split: option.split prod.split)

lemma detach_returns [returning]: "kernel_returns A os \<Longrightarrow> returns (zt_injector_detach os se w)"
  unfolding zt_injector_detach_def by (auto intro!: returns_bind returning)

text \<open>Attaching has no defined behaviour when the link to the executable cannot be read.\<close>

definition exe_readable :: "('r, 'w) os \<Rightarrow> bool" where
  "exe_readable os \<longleftrightarrow> (\<forall>pid w. fst (os_proc_exe os pid w) \<noteq> None)"

lemma attach_returns [returning]:
  assumes k: "kernel_returns A os" and e: "exe_readable os"
  shows "returns (zt_injector_attach os pid w)"
proof -
  have x: False if "os_proc_exe os pid w = (None, w1)" for w w1
    using e that unfolding exe_readable_def by (metis fst_conv)
  note d = detach_returns [OF k] and i = interrupt_returns [OF k]
  show ?thesis
    unfolding zt_injector_attach_def Let_def
    by (auto intro!: returns_bind d i dest: x split: option.split prod.split bool.split sum.split)
qed

section \<open>The commands of the shell\<close>

lemma stop_target_returns [returning]: "kernel_returns A os \<Longrightarrow> returns (zt_cli_stop_target os c w)"
  unfolding zt_cli_stop_target_def by (auto intro!: returns_bind returning)

lemma target_running_returns [returning]: "kernel_returns A os \<Longrightarrow> returns (zt_cli_set_target_running os b c w)"
  unfolding zt_cli_set_target_running_def zt_trace_pause_def
  by (auto intro!: returns_bind returning split: prod.split)

lemma disable_each_returns [returning]: "kernel_returns A os \<Longrightarrow> returns (cli_disable_each A os is d f c w)"
  by (induction "is" arbitrary: d f c w) (auto simp: Let_def intro!: returns_bind returning)

lemma start_trace_returns [returning]: "kernel_returns A os \<Longrightarrow> returns (cli_start_trace A os ho symbol flt c w)"
  unfolding cli_start_trace_def by (auto simp: Let_def intro!: returns_bind returning)

lemma handler_returns:
  assumes "kernel_returns A os" and "exe_readable os"
  shows "returns (zt_cli_call_handler A os ho h args c w)"
  using assms unfolding zt_cli_call_handler_def cmd_exit_def cmd_attach_def cmd_detach_def cmd_trace_def cmd_stop_def cmd_enable_def
    cmd_disable_def cmd_untrace_def cmd_continue_def
  by (cases h) (auto simp: Let_def intro!: returns_bind returning split: option.split prod.split bool.split)

lemma line_returns:
  assumes "events_finite os pending" and "exe_readable os" and "arch_returns A os"
  shows "returns (zt_cli_line A os ho input c w)"
proof -
  have k: "kernel_returns A os" unfolding kernel_returns_def using assms(1,3) by blast
  show ?thesis
    unfolding zt_cli_line_def
    by (auto intro!: returns_bind handler_returns [OF k assms(2)] split: option.split prod.split)
qed

section \<open>Properties\<close>


definition ex_x86_sim :: "user_regs_struct sim" where
  "ex_x86_sim = ex_rt_sim\<lparr>sm_tasks := [''1''], sm_waits := [Inr (1, 0x137F)]\<rparr>"


end
