(* ===== verification/Spec2Isabelle.thy ===== *)
theory Spec2Isabelle
  imports ZT_FilterProps ZT_TrampX86Props ZT_TrampA64Props ZT_PayloadProps ZT_ArchProps
    ZT_ThreadsProps ZT_SymbolsProps ZT_PoolProps ZT_ProbesProps ZT_ReaderProps
    ZT_InstallProps ZT_SigconfProps ZT_SigLines ZT_CliProps ZT_Returns
begin

text \<open>
  zeroTrace attaches to a running process, patches the entry of chosen functions so that they
  reach a trampoline, and collects an event per call and return in a ring buffer that it shares
  with the process. This development models the C sources under \<^verbatim>\<open>src/src\<close> and
  \<^verbatim>\<open>src/include\<close>; file names below are relative to \<^verbatim>\<open>src/src\<close>.

  \<^bold>\<open>The program and its parts.\<close> The shell (\<^verbatim>\<open>zt_cli.c\<close>) reads commands and calls the trace
  runner (\<^verbatim>\<open>zt_trace_runner.c\<close>). The runner attaches and stops threads, resolves symbols and
  keeps the probe table through the injector (\<^verbatim>\<open>zt_injector.c\<close>), loads a payload library
  (\<^verbatim>\<open>zt_payload.c\<close>, \<^verbatim>\<open>stub.S\<close>) into the target by executing system calls and \<^verbatim>\<open>dlopen\<close> there
  (\<^verbatim>\<open>isa/common/zt_remote_exec.c\<close>), takes a slot of the trampoline pool
  (\<^verbatim>\<open>zt_trampoline_pool.c\<close>), builds a trampoline into it (\<^verbatim>\<open>isa/*/trampoline_manager.c\<close>) and
  patches the function (\<^verbatim>\<open>isa/*/arch.c\<close>). A patched function jumps to its trampoline, which calls
  the payload; the payload writes an entry event, may run a call action, and hooks the return.
  The runner polls the ring, drops events that a filter (\<^verbatim>\<open>zt_filter.c\<close>) suppresses, formats
  the others with the signatures of \<^verbatim>\<open>zt_sigconf.c\<close> and appends them to the log, whose end the
  shell prints.

  \<^bold>\<open>Conventions.\<close> A C structure is a record, an enumeration a datatype, a \<^verbatim>\<open>uint64_t\<close> a
  64-bit word; counts and indices are natural numbers where no overflow can occur, process ids
  and C \<^verbatim>\<open>int\<close> results integers. Arrays are lists of their fixed length. A pointer argument that may
  be \<^verbatim>\<open>NULL\<close> is an option, a pointer into a table an index. Functions take the state they read and
  return it changed; a result that signals an error is \<open>False\<close>, \<open>None\<close> or \<open>Inl\<close> of an error
  number. A function that waits for the kernel or runs code of the target may not return; its
  result is then \<open>None\<close> at the outermost level. The names are those of the C functions, with
  further ones for loops and parts of long functions.

  \<^bold>\<open>Theories.\<close>
  \<^item> \<^verbatim>\<open>ZT_Prelude\<close>: machine integers, little-endian images, buffers, table search.
    \<^verbatim>\<open>ZT_CString\<close>, \<^verbatim>\<open>ZT_Printf\<close>: the C library functions on strings and numbers the sources use.
    \<^verbatim>\<open>ZT_Data\<close>: the structures of \<^verbatim>\<open>zt_payload.h\<close>, \<^verbatim>\<open>zt_injector.h\<close> and \<^verbatim>\<open>zt_trampoline_manager.h\<close>.
  \<^item> \<^verbatim>\<open>ZT_Filter\<close> models \<^verbatim>\<open>zt_filter.c\<close>: tokenizer, validation and recursive-descent evaluation.
    \<^verbatim>\<open>ZT_FilterSpec\<close> gives the meaning of expressions and the grammar; \<^verbatim>\<open>ZT_FilterProps\<close> shows that
    a compiled filter computes that meaning, that validation accepts exactly the grammar, the
    bounds of a compiled filter and the round trip through its text (C1 to C4).
  \<^item> \<^verbatim>\<open>ZT_Emit\<close>, \<^verbatim>\<open>ZT_TrampX86\<close>, \<^verbatim>\<open>ZT_TrampA64\<close> model the two \<^verbatim>\<open>trampoline_manager.c\<close>; the locale
    \<open>byte_sink\<close> states what the builders rely on when they emit code. \<^verbatim>\<open>ZT_Memory\<close>,
    \<^verbatim>\<open>ZT_X86Machine\<close> and \<^verbatim>\<open>ZT_A64Machine\<close> are models of the processors that execute from memory.
    \<^verbatim>\<open>ZT_TrampX86Props\<close> and \<^verbatim>\<open>ZT_TrampA64Props\<close> execute a built trampoline: it enters the stub as
    the stub expects, the relocated instructions have the effect of the originals, and it
    continues behind the patch (C6 to C12).
  \<^item> \<^verbatim>\<open>ZT_Payload\<close> models \<^verbatim>\<open>zt_payload.c\<close> with the control flow of the x86-64 stubs;
    \<^verbatim>\<open>ZT_PayloadProps\<close> shows that events are published completely, that nested calls return to
    their callers (locale \<open>call_discipline\<close>) and that returns and call actions carry the numbers of
    their entry (C13 to C15, C17), and how the frame stack fails when it is full.
  \<^item> \<^verbatim>\<open>ZT_OS\<close> is the kernel as a record of functions on an abstract world; \<^verbatim>\<open>ZT_RemoteMem\<close>
    models reading and writing the target and proves the locale \<open>remote_memory\<close> for it (C19, C20);
    \<^verbatim>\<open>ZT_RemoteExec\<close>, \<^verbatim>\<open>ZT_Arch\<close>, \<^verbatim>\<open>ZT_ArchX86\<close>, \<^verbatim>\<open>ZT_ArchA64\<close> model remote execution and the
    backends, which are interpretations of the locale \<open>probe_arch\<close>; \<^verbatim>\<open>ZT_ArchProps\<close> shows that
    remote execution restores code and registers, that an installed jump reaches the trampoline
    and that a patch covers whole instructions (C21 to C24).
  \<^item> \<^verbatim>\<open>ZT_Threads\<close>, \<^verbatim>\<open>ZT_Symbols\<close> and \<^verbatim>\<open>ZT_Probes\<close> model \<^verbatim>\<open>zt_injector.c\<close>: thread control, symbol
    resolution in ELF files and mappings, the probe table, attaching and detaching; their
    properties are C25 to C27, C29, C30, C33 and C34. \<^verbatim>\<open>ZT_Pool\<close> and \<^verbatim>\<open>ZT_PoolProps\<close> are the trampoline pool
    (C31, C32).
  \<^item> \<^verbatim>\<open>ZT_Sigconf\<close> models \<^verbatim>\<open>zt_sigconf.c\<close>; \<^verbatim>\<open>ZT_SigLines\<close> shows that a signature file is read
    back (C5), \<^verbatim>\<open>ZT_SigconfProps\<close> that a formatted event is one printable line (C40).
  \<^item> \<^verbatim>\<open>ZT_Reader\<close> and \<^verbatim>\<open>ZT_Runner\<close> model \<^verbatim>\<open>zt_trace_runner.c\<close>. \<^verbatim>\<open>ZT_ReaderProps\<close> relates a dump to
    the abstract account of all event numbers, each logged once or reported lost (C36, C37);
    \<^verbatim>\<open>ZT_RunnerProps\<close> is about the slots of call actions (C38), \<^verbatim>\<open>ZT_InstallProps\<close> about the
    atomicity of an installation (C39).
  \<^item> \<^verbatim>\<open>ZT_Cli\<close> models \<^verbatim>\<open>zt_cli.c\<close>. \<^verbatim>\<open>ZT_SessionInv\<close> joins the invariants of the tables to one of the
    session and shows that every operation of the runner keeps it; the locale \<open>counted_run\<close> lifts
    this to runs. \<^verbatim>\<open>ZT_CliProps\<close> shows how a line is split (C16), that the shell is inert
    without a target (C18), and that the session stays consistent over every run of the main loop
    (C35).

  \<^bold>\<open>Loops and bounds.\<close> Loops over tables and buffers are structural or have a measure, with
  the bounds of the code: 16 passes to stop all threads, 50 polls of the exit window, 32 probes,
  256 threads, 256 frames, 4096 events. No fuel is used: the waits of
  \<^verbatim>\<open>zt_remote_exec.c\<close> and of thread control and the event poll, which run as long as the kernel
  interrupts them or has events, are partial functions. \<^verbatim>\<open>ZT_Returns\<close> shows that they and all
  operations built on them return when the kernel reports finitely many events, so that no
  command line hangs the shell (C28). The main loop of the shell recurses over the events that Readline
  delivers.

  \<^bold>\<open>Parameters.\<close> Code outside the sources is an argument: the Capstone disassembler, the kernel, the code of
  probed functions and callees, the files of the tracer's machine, and Readline as the list of
  events it delivers. Where a property relies on them, it says so by a
  predicate: \<open>os_mem_ok\<close>, \<open>os_frame\<close> and \<open>os_regs_ok\<close> (memory and register access of
  \<^verbatim>\<open>ptrace\<close> and \<^verbatim>\<open>process_vm_readv\<close>), \<open>pcs_ok\<close> and \<open>steps_keep\<close> (stopped threads stand still),
  \<open>events_finite\<close>, \<open>file_ok\<close> (reads return the bytes of a file), \<open>x86_disasm_ok\<close>, \<open>wf_insn\<close> and
  \<open>x86_opcodes_ok\<close> (decoded instructions describe their bytes), \<open>env_reads\<close> (clock and thread ids). The
  witnesses instantiate them with a simulated kernel, \<open>sim_os\<close>.

  \<^bold>\<open>Not modelled.\<close> The AArch64 stubs in assembly: the trampoline theorems for that
  architecture end where the stub begins. The register saving of the x86-64 stubs, of which only
  the control flow is modelled. Concurrent writers of the ring: a step of the payload
  is atomic, and the reader is shown correct against any contents it finds in the slots. Messages
  to standard output below the shell, and Readline's redrawing of the edited line. The function
  declarations of the headers, the callback bridges of \<^verbatim>\<open>zt_remote_exec.c\<close> (the callbacks are
  arguments here), the tests, scripts and build files.
\<close>

end
